(* ===== verification/Js_Prelude.thy ===== *)
theory Js_Prelude
  imports Main "HOL-Library.Sublist"
begin

text \<open>
  Shared vocabulary of the development: the JavaScript string, number and array operations the
  modelled sources use, and the lemma collections that carry the component proofs.

  A JavaScript string is a \<^typ>\<open>string\<close> whose characters stand for the UTF-16 code units
  U+0000 to U+00FF; the codec theory works on full 16-bit code units (lists of \<^typ>\<open>nat\<close>), and the
  operations below are polymorphic so that both representations use them. A numeric argument
  that the source passes through \<^verbatim>\<open>Number(x) || 0\<close> is an \<^typ>\<open>int option\<close>, with
  \<^term>\<open>None\<close> for a value that is not a number; integers stay below \<^verbatim>\<open>2^53\<close> in the program, so
  the arithmetic of the model is exact.
\<close>

named_theorems js_string "rules for the JavaScript string operations"
named_theorems js_number "rules for the JavaScript number operations"

type_synonym js_number = "int option"

section \<open>Numbers\<close>

text \<open>\<^verbatim>\<open>Number(x) || 0\<close>.\<close>

definition num_or_zero :: "js_number \<Rightarrow> int" where
  [js_number]: "num_or_zero x = (case x of None \<Rightarrow> 0 | Some n \<Rightarrow> n)"

text \<open>\<^verbatim>\<open>a || b\<close> on numbers: zero and NaN are falsy.\<close>

definition num_or :: "js_number \<Rightarrow> int \<Rightarrow> int" where
  [js_number]: "num_or x d = (case x of None \<Rightarrow> d | Some n \<Rightarrow> if n = 0 then d else n)"

text \<open>\<^verbatim>\<open>Math.ceil(a / b)\<close> for a non-negative \<open>a\<close> and a positive \<open>b\<close>.\<close>

definition ceil_div :: "nat \<Rightarrow> nat \<Rightarrow> nat" where
  "ceil_div a b = (a + b - 1) div b"

lemma ceil_div_upper: "0 < b \<Longrightarrow> a \<le> ceil_div a b * b"
proof -
  assume b: "0 < b"
  have "a + b - 1 = (a + b - 1) div b * b + (a + b - 1) mod b"
    by (rule div_mult_mod_eq [symmetric])
  moreover have "(a + b - 1) mod b < b" using b by simp
  ultimately show ?thesis using b unfolding ceil_div_def by linarith
qed

lemma ceil_div_lower: "0 < b \<Longrightarrow> i < ceil_div a b \<Longrightarrow> i * b < a"
proof -
  assume b: "0 < b" and i: "i < ceil_div a b"
  then have "(i + 1) * b \<le> (a + b - 1) div b * b"
    by (intro mult_le_mono1) (simp add: ceil_div_def)
  also have "\<dots> \<le> a + b - 1" by simp
  finally show ?thesis using b by simp
qed

lemma ceil_div_le: "0 < b \<Longrightarrow> ceil_div a b \<le> n \<longleftrightarrow> a \<le> n * b"
proof
  assume b: "0 < b" and "ceil_div a b \<le> n"
  then have "ceil_div a b * b \<le> n * b" by simp
  with ceil_div_upper [OF b, of a] show "a \<le> n * b" by linarith
next
  assume b: "0 < b" and a: "a \<le> n * b"
  show "ceil_div a b \<le> n"
  proof (rule ccontr)
    assume "\<not> ceil_div a b \<le> n"
    then have "n * b < a" using ceil_div_lower [OF b, of n a] by simp
    with a show False by simp
  qed
qed

lemma ceil_div_0 [simp]: "0 < b \<Longrightarrow> ceil_div 0 b = 0"
  by (simp add: ceil_div_def)

lemma ceil_div_pos: "0 < b \<Longrightarrow> 0 < a \<Longrightarrow> 0 < ceil_div a b"
  using ceil_div_upper [of b a] by (cases "ceil_div a b") auto

section \<open>Strings and arrays\<close>

definition startsWith :: "'a list \<Rightarrow> 'a list \<Rightarrow> bool" where
  [js_string]: "startsWith s p = prefix p s"

definition endsWith :: "'a list \<Rightarrow> 'a list \<Rightarrow> bool" where
  [js_string]: "endsWith s p = suffix p s"

fun js_includes :: "'a list \<Rightarrow> 'a list \<Rightarrow> bool" where
  "js_includes [] p = (p = [])"
| "js_includes (c # cs) p = (prefix p (c # cs) \<or> js_includes cs p)"

lemma js_includes_sublist: "js_includes s p = sublist p s"
  by (induction s) (auto simp: sublist_Cons_right)

text \<open>\<^verbatim>\<open>s.slice(i, j)\<close> for non-negative indices.\<close>

definition slice :: "'a list \<Rightarrow> nat \<Rightarrow> nat \<Rightarrow> 'a list" where
  "slice s i j = take (j - i) (drop i s)"

lemma slice_full [simp]: "slice s 0 (length s) = s"
  by (simp add: slice_def)

lemma slice_append: "i \<le> j \<Longrightarrow> j \<le> k \<Longrightarrow> slice s i j @ slice s j k = slice s i k"
  using take_add [of "j - i" "k - j" "drop i s"] by (simp add: slice_def)

lemma length_slice: "length (slice s i j) = min (length s) j - i"
  by (auto simp: slice_def)

text \<open>\<^verbatim>\<open>s.indexOf(c)\<close> and \<^verbatim>\<open>s.lastIndexOf(c)\<close>, with \<^term>\<open>None\<close> for \<open>-1\<close>.\<close>

fun indexOf :: "'a list \<Rightarrow> 'a \<Rightarrow> nat option" where
  "indexOf [] c = None"
| "indexOf (x # xs) c = (if x = c then Some 0 else map_option Suc (indexOf xs c))"

definition lastIndexOf :: "'a list \<Rightarrow> 'a \<Rightarrow> nat option" where
  "lastIndexOf s c = map_option (\<lambda>i. length s - 1 - i) (indexOf (rev s) c)"

lemma indexOf_append_notin: "c \<notin> set xs \<Longrightarrow> indexOf (xs @ ys) c = map_option (\<lambda>i. i + length xs) (indexOf ys c)"
  by (induction xs) (auto simp: option.map_comp o_def option.map_ident)

lemma indexOf_None [simp]: "indexOf s c = None \<longleftrightarrow> c \<notin> set s"
  by (induction s) auto

lemma indexOf_first: "c \<notin> set xs \<Longrightarrow> indexOf (xs @ c # ys) c = Some (length xs)"
  by (simp add: indexOf_append_notin)

lemma lastIndexOf_None [simp]: "lastIndexOf s c = None \<longleftrightarrow> c \<notin> set s"
  by (simp add: lastIndexOf_def)

lemma lastIndexOf_last: "c \<notin> set ys \<Longrightarrow> lastIndexOf (xs @ c # ys) c = Some (length xs)"
  by (simp add: lastIndexOf_def indexOf_first [of c "rev ys" "rev xs", simplified])

lemma indexOf_Some_split: "indexOf s c = Some i \<Longrightarrow> s = take i s @ c # drop (Suc i) s \<and> c \<notin> set (take i s)"
  by (induction s arbitrary: i) (auto split: if_splits)

text \<open>\<^verbatim>\<open>s.split(c)\<close> on a one-character separator and \<^verbatim>\<open>xs.join(c)\<close>.\<close>

fun js_split :: "'a \<Rightarrow> 'a list \<Rightarrow> 'a list list" where
  "js_split c [] = [[]]"
| "js_split c (x # xs) =
     (if x = c then [] # js_split c xs
      else (case js_split c xs of [] \<Rightarrow> [[x]] | p # ps \<Rightarrow> (x # p) # ps))"

fun js_join :: "'a list \<Rightarrow> 'a list list \<Rightarrow> 'a list" where
  "js_join sep [] = []"
| "js_join sep [x] = x"
| "js_join sep (x # y # ys) = x @ sep @ js_join sep (y # ys)"

lemma js_split_nonempty [simp]: "js_split c s \<noteq> []"
  by (induction s) (auto split: list.splits)

lemma js_join_split: "js_join [c] (js_split c s) = s"
proof (induction s)
  case (Cons x xs)
  then show ?case
    by (cases "js_split c xs"; cases "tl (js_split c xs)") (auto split: list.splits)
qed simp

lemma js_split_no_sep: "p \<in> set (js_split c s) \<Longrightarrow> c \<notin> set p"
  by (induction s arbitrary: p) (auto split: if_splits list.splits)

lemma js_split_elems: "p \<in> set (js_split c s) \<Longrightarrow> set p \<subseteq> set s"
proof (induction s arbitrary: p)
  case (Cons x xs)
  obtain q qs where q: "js_split c xs = q # qs" by (cases "js_split c xs") auto
  have sub: "set r \<subseteq> set xs" if "r \<in> set (q # qs)" for r using that Cons.IH [of r] q by simp
  have "p \<in> set (q # qs) \<or> p = [] \<or> p = x # q" using Cons.prems q by (auto split: if_splits)
  with sub [of p] sub [of q] show ?case by auto
qed simp

lemma js_split_single: "c \<notin> set s \<Longrightarrow> js_split c s = [s]"
  by (induction s) auto

lemma js_split_append_sep: "js_split c (xs @ c # ys) = js_split c xs @ js_split c ys"
  by (induction xs) (auto split: list.splits)

lemma js_split_join:
  "xs \<noteq> [] \<Longrightarrow> \<forall>x\<in>set xs. c \<notin> set x \<Longrightarrow> js_split c (js_join [c] xs) = xs"
  by (induction "[c]" xs rule: js_join.induct) (auto simp: js_split_single js_split_append_sep)

text \<open>\<^verbatim>\<open>s.replace(/pat/g, rep)\<close> for a literal, non-empty pattern: leftmost matches, not overlapping.\<close>

function replace_all :: "'a list \<Rightarrow> 'a list \<Rightarrow> 'a list \<Rightarrow> 'a list" where
  "replace_all pat rep [] = []"
| "replace_all pat rep (c # cs) =
     (if pat \<noteq> [] \<and> prefix pat (c # cs) then rep @ replace_all pat rep (drop (length pat - 1) cs)
      else c # replace_all pat rep cs)"
  by pat_completeness auto
termination
  by (relation "measure (\<lambda>(pat, rep, s). length s)") auto

declare replace_all.simps [simp del]

lemma replace_all_Nil [simp]: "replace_all pat rep [] = []"
  by (simp add: replace_all.simps)

lemma replace_all_skip: "pat \<noteq> [] \<Longrightarrow> c \<noteq> hd pat \<Longrightarrow> replace_all pat rep (c # cs) = c # replace_all pat rep cs"
  by (cases pat) (auto simp: replace_all.simps)

lemma replace_all_hit: "pat \<noteq> [] \<Longrightarrow> replace_all pat rep (pat @ cs) = rep @ replace_all pat rep cs"
  by (cases pat) (auto simp: replace_all.simps)

lemma replace_all_absent: "pat \<noteq> [] \<Longrightarrow> hd pat \<notin> set s \<Longrightarrow> replace_all pat rep s = s"
  by (induction s) (auto simp: replace_all_skip)

text \<open>\<^verbatim>\<open>s.toLowerCase()\<close> and \<^verbatim>\<open>s.trim()\<close> on the code units U+0000 to U+00FF.\<close>

definition lower_char :: "char \<Rightarrow> char" where
  "lower_char c =
     (let n = of_char c :: nat
      in if (65 \<le> n \<and> n \<le> 90) \<or> (192 \<le> n \<and> n \<le> 222 \<and> n \<noteq> 215) then char_of (n + 32) else c)"

definition toLowerCase :: "string \<Rightarrow> string" where
  "toLowerCase s = map lower_char s"

lemma lower_char_idem [simp]: "lower_char (lower_char c) = lower_char c"
  by (auto simp: lower_char_def Let_def)

lemma toLowerCase_idem [simp]: "toLowerCase (toLowerCase s) = toLowerCase s"
  by (simp add: toLowerCase_def)

lemma length_toLowerCase [simp]: "length (toLowerCase s) = length s"
  by (simp add: toLowerCase_def)

definition is_space :: "char \<Rightarrow> bool" where
  "is_space c = (let n = of_char c :: nat in (9 \<le> n \<and> n \<le> 13) \<or> n = 32 \<or> n = 160)"

definition trim_by :: "('a \<Rightarrow> bool) \<Rightarrow> 'a list \<Rightarrow> 'a list" where
  "trim_by sp s = rev (dropWhile sp (rev (dropWhile sp s)))"

definition trim :: "string \<Rightarrow> string" where
  "trim s = trim_by is_space s"

lemma trim_by_Nil [simp]: "trim_by sp [] = []"
  by (simp add: trim_by_def)

lemma trim_Nil [simp]: "trim [] = []"
  by (simp add: trim_def)

lemma trim_by_id: "s = [] \<or> (\<not> sp (hd s) \<and> \<not> sp (last s)) \<Longrightarrow> trim_by sp s = s"
proof (cases s rule: rev_cases)
  case (snoc ys y)
  assume "s = [] \<or> (\<not> sp (hd s) \<and> \<not> sp (last s))"
  with snoc have h: "\<not> sp (hd s)" "\<not> sp y" "s \<noteq> []" by auto
  then have "dropWhile sp s = s" by (cases s) auto
  with h snoc show ?thesis by (simp add: trim_by_def)
qed (simp add: trim_by_def)

lemma trim_id: "s = [] \<or> (\<not> is_space (hd s) \<and> \<not> is_space (last s)) \<Longrightarrow> trim s = s"
  by (simp add: trim_def trim_by_id)

text \<open>\<^verbatim>\<open>a || b\<close> on strings, and on an optional string where \<^term>\<open>None\<close> is \<^verbatim>\<open>undefined\<close> or
  \<^verbatim>\<open>null\<close>.\<close>

definition str_or :: "'a list \<Rightarrow> 'a list \<Rightarrow> 'a list" where
  [js_string]: "str_or a b = (if a = [] then b else a)"

definition opt_or :: "'a list option \<Rightarrow> 'a list \<Rightarrow> 'a list" where
  [js_string]: "opt_or a b = (case a of None \<Rightarrow> b | Some s \<Rightarrow> str_or s b)"

text \<open>\<^verbatim>\<open>String(n)\<close> for a non-negative integer.\<close>

fun show_nat :: "nat \<Rightarrow> string" where
  "show_nat n = (if n < 10 then [char_of (48 + n)] else show_nat (n div 10) @ [char_of (48 + n mod 10)])"

declare show_nat.simps [simp del]

text \<open>\<^verbatim>\<open>{...a, ...b}\<close>: a key of \<open>b\<close> overrides in place, a new key is appended.\<close>

type_synonym headers = "(string \<times> string) list"

definition spread :: "headers \<Rightarrow> headers \<Rightarrow> headers" where
  "spread a b = map (\<lambda>(k, v). (k, case map_of b k of None \<Rightarrow> v | Some w \<Rightarrow> w)) a
     @ filter (\<lambda>(k, v). map_of a k = None) b"

lemma spread_lookup: "map_of (spread a b) k = (case map_of b k of Some v \<Rightarrow> Some v | None \<Rightarrow> map_of a k)"
proof -
  have "map_of (map (\<lambda>(k, v). (k, case map_of b k of None \<Rightarrow> v | Some w \<Rightarrow> w)) a) k
      = map_option (\<lambda>v. case map_of b k of None \<Rightarrow> v | Some w \<Rightarrow> w) (map_of a k)"
    by (induction a) (auto split: option.splits)
  moreover have "map_of a k = None \<Longrightarrow> map_of (filter (\<lambda>(k, v). map_of a k = None) b) k = map_of b k"
    by (induction b) auto
  ultimately show ?thesis by (cases "map_of a k") (auto simp: spread_def map_add_def split: option.splits)
qed

section \<open>Sums over lists\<close>

lemma sum_list_mono_le: "(\<And>x. x \<in> set xs \<Longrightarrow> f x \<le> g x) \<Longrightarrow> sum_list (map f xs) \<le> (sum_list (map g xs) :: nat)"
  by (induction xs) (auto intro: add_mono)

lemma sum_list_pointwise_eq:
  "sum_list (map f xs) = (sum_list (map g xs) :: nat) \<Longrightarrow> (\<And>x. x \<in> set xs \<Longrightarrow> f x \<le> g x)
    \<Longrightarrow> x \<in> set xs \<Longrightarrow> f x = g x"
proof (induction xs)
  case (Cons y ys)
  have "sum_list (map f ys) \<le> sum_list (map g ys)"
    using Cons.prems(2) by (intro sum_list_mono_le) auto
  with Cons.prems(1) Cons.prems(2) [of y] have "f y = g y" "sum_list (map f ys) = sum_list (map g ys)"
    by auto
  with Cons show ?case by auto
qed simp

section \<open>Failing computations\<close>

text \<open>A computation that may throw is a sum with the error on the left; \<^verbatim>\<open>and_then\<close> sequences two.\<close>

primrec and_then :: "'e + 'a \<Rightarrow> ('a \<Rightarrow> 'e + 'b) \<Rightarrow> 'e + 'b" where
  "and_then (Inl e) f = Inl e"
| "and_then (Inr x) f = f x"

lemma and_then_Inr [simp]: "and_then x f = Inr y \<longleftrightarrow> (\<exists>z. x = Inr z \<and> f z = Inr y)"
  by (cases x) auto

definition throw_if :: "bool \<Rightarrow> 'e \<Rightarrow> 'e + unit" where
  "throw_if b e = (if b then Inl e else Inr ())"

lemma throw_if_Inr [simp]: "throw_if b e = Inr u \<longleftrightarrow> \<not> b"
  by (simp add: throw_if_def)

text \<open>\<^verbatim>\<open>Promise.all\<close>: the values when every promise was fulfilled, otherwise the reason of the first one to
  be rejected in the order \<open>settled\<close> in which they settle.\<close>

definition promise_all :: "nat list \<Rightarrow> ('e + 'a) list \<Rightarrow> 'e + 'a list" where
  "promise_all settled rs =
     (case filter (\<lambda>i. i < length rs \<and> isl (rs ! i)) settled of
        i # _ \<Rightarrow> Inl (projl (rs ! i))
      | [] \<Rightarrow> Inr (map projr rs))"

lemma promise_all_Inr: "promise_all settled (map Inr xs) = Inr xs"
  by (auto simp: promise_all_def o_def split: list.splits dest!: filter_eq_ConsD)

lemma promise_all_values:
  assumes "promise_all settled rs = Inr xs" "set settled = {..<length rs}"
  shows "rs = map Inr xs"
proof -
  from assms(1) have none: "filter (\<lambda>i. i < length rs \<and> isl (rs ! i)) settled = []" and xs: "xs = map projr rs"
    by (auto simp: promise_all_def split: list.splits)
  have "\<not> isl (rs ! i)" if "i < length rs" for i
    using that none assms(2) by (auto simp: filter_empty_conv)
  with xs show ?thesis by (intro nth_equalityI) auto
qed

end
