(* ===== verification/Event_Machine.thy ===== *)
theory Event_Machine
  imports Js_Prelude
begin

text \<open>
  Asynchronous code as event machines. A component with \<^verbatim>\<open>await\<close> points is a state and a
  function \<open>step :: 's \<Rightarrow> 'e \<Rightarrow> 's option\<close>: one event is one uninterrupted run of the
  JavaScript event loop (a resumed continuation, a timer, a response, a user action), and
  \<^term>\<open>None\<close> says that the event cannot happen in that state. The scheduler is unknown, so the
  reachable states are all those some sequence of events leads to.

  The two interfaces below are what the components promise of their machines: an invariant that
  every event keeps, and a measure that every unit of work decreases. The facts about whole runs
  are proved once, here.
\<close>

fun run_events :: "('s \<Rightarrow> 'e \<Rightarrow> 's option) \<Rightarrow> 's \<Rightarrow> 'e list \<Rightarrow> 's option" where
  "run_events step s [] = Some s"
| "run_events step s (e # es) = (case step s e of None \<Rightarrow> None | Some t \<Rightarrow> run_events step t es)"

inductive reachable_from :: "('s \<Rightarrow> 'e \<Rightarrow> 's option) \<Rightarrow> 's \<Rightarrow> 's \<Rightarrow> bool"
  for step :: "'s \<Rightarrow> 'e \<Rightarrow> 's option" and s :: 's
where
  here: "reachable_from step s s"
| more: "reachable_from step s t \<Longrightarrow> step t e = Some u \<Longrightarrow> reachable_from step s u"

lemma run_events_append:
  "run_events step s (es @ fs) =
     (case run_events step s es of None \<Rightarrow> None | Some t \<Rightarrow> run_events step t fs)"
  by (induction es arbitrary: s) (auto split: option.splits)

lemma run_events_reachable: "run_events step s es = Some t \<Longrightarrow> reachable_from step s t"
proof (induction es arbitrary: t rule: rev_induct)
  case (snoc e es)
  then show ?case
    by (auto simp: run_events_append split: option.splits intro: reachable_from.more)
qed (auto intro: reachable_from.here)

lemma reachable_run_events: "reachable_from step s t \<Longrightarrow> \<exists>es. run_events step s es = Some t"
proof (induction rule: reachable_from.induct)
  case here
  have "run_events step s [] = Some s" by simp
  then show ?case ..
next
  case (more t e u)
  then obtain es where "run_events step s es = Some t" by blast
  with more.hyps(2) have "run_events step s (es @ [e]) = Some u"
    by (simp add: run_events_append)
  then show ?case ..
qed

text \<open>
  Unfinished calls: slot \<open>i\<close> of a task list holds the call that waits there, \<^term>\<open>None\<close> once it has ended. Calls that
  are numbered when they start stay distinguishable by their number.
\<close>

definition unique_tasks :: "('t \<Rightarrow> nat) \<Rightarrow> 't option list \<Rightarrow> bool" where
  "unique_tasks key ts =
     (\<forall>i j a b. i < length ts \<and> j < length ts \<and> ts ! i = Some a \<and> ts ! j = Some b \<and> key a = key b \<longrightarrow> i = j)"

lemma kept_task: "j < length ts \<Longrightarrow> ts[i := None] ! j = Some a \<longleftrightarrow> j \<noteq> i \<and> ts ! j = Some a"
  by (cases "i = j") auto

lemma unique_tasks_end: "unique_tasks key ts \<Longrightarrow> unique_tasks key (ts[i := None])"
  unfolding unique_tasks_def by (simp add: kept_task cong: conj_cong)

lemma unique_tasks_start:
  "unique_tasks key ts \<Longrightarrow> (\<And>a. Some a \<in> set ts \<Longrightarrow> key a \<noteq> key tk) \<Longrightarrow> unique_tasks key (ts @ [Some tk])"
  unfolding unique_tasks_def by (auto simp: nth_append less_Suc_eq) (metis nth_mem)+

lemma unique_tasks_move:
  assumes "unique_tasks key ts" "i < length ts" "ts ! i = Some tk" "key tk' = key tk"
  shows "unique_tasks key (ts[i := Some tk'])"
proof -
  have slot: "\<exists>c. ts ! j = Some c \<and> key c = key a" if "j < length ts" "ts[i := Some tk'] ! j = Some a" for j a
    using that assms(2-4) by (cases "j = i") auto
  show ?thesis using assms(1) slot unfolding unique_tasks_def by (metis length_list_update)
qed

lemma ended_task:
  assumes "unique_tasks key ts" "i < length ts" "ts ! i = Some tk"
  shows "Some a \<in> set (ts[i := None]) \<longleftrightarrow> Some a \<in> set ts \<and> key a \<noteq> key tk"
proof
  assume "Some a \<in> set (ts[i := None])"
  then obtain j where "j < length ts" "j \<noteq> i" "ts ! j = Some a" by (auto simp: in_set_conv_nth kept_task)
  with assms show "Some a \<in> set ts \<and> key a \<noteq> key tk" by (metis nth_mem unique_tasks_def)
next
  assume a: "Some a \<in> set ts \<and> key a \<noteq> key tk"
  then obtain j where j: "j < length ts" "ts ! j = Some a" by (auto simp: in_set_conv_nth)
  with a assms(3) have "ts[i := None] ! j = Some a" by (auto simp: kept_task)
  with j show "Some a \<in> set (ts[i := None])" by (metis length_list_update nth_mem)
qed

locale machine_invariant =
  fixes step :: "'s \<Rightarrow> 'e \<Rightarrow> 's option"
    and inv :: "'s \<Rightarrow> bool"
  assumes step_inv: "inv s \<Longrightarrow> step s e = Some t \<Longrightarrow> inv t"
begin

lemma reachable_inv: "reachable_from step s t \<Longrightarrow> inv s \<Longrightarrow> inv t"
  by (induction rule: reachable_from.induct) (auto intro: step_inv)

lemma run_inv: "run_events step s es = Some t \<Longrightarrow> inv s \<Longrightarrow> inv t"
  by (rule reachable_inv [OF run_events_reachable])

end

locale machine_measure = machine_invariant +
  fixes work :: "'e \<Rightarrow> bool"
    and size_of :: "'s \<Rightarrow> nat"
  assumes work_decreases: "inv s \<Longrightarrow> work e \<Longrightarrow> step s e = Some t \<Longrightarrow> size_of t < size_of s"
    and others_keep: "inv s \<Longrightarrow> \<not> work e \<Longrightarrow> step s e = Some t \<Longrightarrow> size_of t \<le> size_of s"
begin

lemma work_bounded:
  "inv s \<Longrightarrow> run_events step s es = Some t \<Longrightarrow> length (filter work es) + size_of t \<le> size_of s"
proof (induction es arbitrary: s)
  case (Cons e es)
  from Cons.prems obtain u where u: "step s e = Some u" "run_events step u es = Some t"
    by (auto split: option.splits)
  from Cons.prems(1) u(1) have "inv u" by (rule step_inv)
  from this u(2) have IH: "length (filter work es) + size_of t \<le> size_of u" by (rule Cons.IH)
  show ?case
  proof (cases "work e")
    case True
    with work_decreases [OF Cons.prems(1) _ u(1)] IH show ?thesis by simp
  next
    case False
    with others_keep [OF Cons.prems(1) _ u(1)] IH show ?thesis by simp
  qed
qed simp

end

text \<open>
  Refinement of machines through an abstraction function: every event of the detailed machine is invisible or a step of
  the abstract one, so every reachable detailed state abstracts to a reachable abstract state.
\<close>

locale machine_refinement = machine_invariant step inv
  for step :: "'s \<Rightarrow> 'e \<Rightarrow> 's option" and inv :: "'s \<Rightarrow> bool" +
  fixes astep :: "'a \<Rightarrow> 'f \<Rightarrow> 'a option" and abs_of :: "'s \<Rightarrow> 'a"
  assumes simulates: "inv s \<Longrightarrow> step s e = Some t \<Longrightarrow> abs_of t = abs_of s \<or> (\<exists>f. astep (abs_of s) f = Some (abs_of t))"
begin

lemma simulated: "run_events step s es = Some t \<Longrightarrow> inv s \<Longrightarrow> reachable_from astep (abs_of s) (abs_of t)"
proof (induction es arbitrary: t rule: rev_induct)
  case Nil
  then show ?case by (auto intro: reachable_from.here)
next
  case (snoc e es)
  then obtain u where u: "run_events step s es = Some u" "step u e = Some t"
    by (auto simp: run_events_append split: option.splits)
  have "inv u" by (rule run_inv [OF u(1) snoc.prems(2)])
  with simulates [OF _ u(2)] snoc.IH [OF u(1) snoc.prems(2)] show ?case
    by (metis reachable_from.more)
qed

end

end
