(* ===== verification/Upload_Pool.thy ===== *)
theory Upload_Pool
  imports Event_Machine
begin

text \<open>
  The transfer phase of the multi-part upload client (\<^verbatim>\<open>js/chunked-upload.js\<close>): the size policy,
  the chunk table, and the pool of concurrent workers that send the chunks with retries.

  \<^verbatim>\<open>worker\<close> and \<^verbatim>\<open>uploadOneChunk\<close> are asynchronous functions that share \<^verbatim>\<open>nextIndex\<close>,
  \<^verbatim>\<open>firstError\<close> and \<^verbatim>\<open>chunkStates\<close>. Each worker is a program counter that names the
  \<^verbatim>\<open>await\<close> it is parked on, and one event resumes one worker for one uninterrupted segment:
  a response (or failure) of its request, the end of its back-off sleep, or the return of
  \<^verbatim>\<open>uploadOneChunk\<close>. Progress callbacks, the animation frame and the abort signal are further
  events. The environment chooses the order, so the theorems hold for every interleaving.
\<close>

section \<open>Size policy\<close>

definition CHUNK_THRESHOLD :: int where
  "CHUNK_THRESHOLD = 8 * 1024 * 1024"

definition PREFERRED_CHUNK_SIZE :: int where
  "PREFERRED_CHUNK_SIZE = 4 * 1024 * 1024"

definition MAX_CHUNK_SIZE :: int where
  "MAX_CHUNK_SIZE = 32 * 1024 * 1024"

definition CHUNK_MAX_RETRIES :: int where
  "CHUNK_MAX_RETRIES = 3"

definition CHUNK_RETRY_BASE_MS :: nat where
  "CHUNK_RETRY_BASE_MS = 400"

lemmas chunk_constants = CHUNK_THRESHOLD_def PREFERRED_CHUNK_SIZE_def MAX_CHUNK_SIZE_def
  CHUNK_MAX_RETRIES_def CHUNK_RETRY_BASE_MS_def

text \<open>The file argument may be missing; otherwise only its size matters.\<close>

definition shouldUseChunkedUpload :: "int option \<Rightarrow> bool" where
  "shouldUseChunkedUpload file = (case file of None \<Rightarrow> False | Some sz \<Rightarrow> CHUNK_THRESHOLD \<le> sz)"

definition suggestChunkSize :: "js_number \<Rightarrow> int" where
  "suggestChunkSize fileSize =
     (let size = num_or_zero fileSize
      in if size \<le> 0 then PREFERRED_CHUNK_SIZE
         else if size \<le> 8 * 1024 * 1024 then size
         else if size \<le> 32 * 1024 * 1024 then 4 * 1024 * 1024
         else if size \<le> 128 * 1024 * 1024 then 8 * 1024 * 1024
         else if size \<le> 512 * 1024 * 1024 then 16 * 1024 * 1024
         else if size \<le> 2 * 1024 * 1024 * 1024 then 24 * 1024 * 1024
         else MAX_CHUNK_SIZE)"

definition suggestConcurrency :: "js_number \<Rightarrow> js_number \<Rightarrow> int" where
  "suggestConcurrency fileSize chunkCount =
     (let n = max 0 (num_or_zero chunkCount)
      in if n \<le> 1 then 1
         else let size = num_or_zero fileSize;
                  limit = (if size < 32 * 1024 * 1024 then 3
                           else if size < 256 * 1024 * 1024 then 5 else 6)
              in min limit n)"

section \<open>Chunk table, requests and results\<close>

datatype chunk_status = Pending | Uploading | Done | Errored | Retrying

record chunk_state =
  ch_index :: nat
  ch_loaded :: nat
  ch_total :: nat
  ch_status :: chunk_status
  ch_attempt :: nat

text \<open>A JSON value is kept in serialised form; \<^verbatim>\<open>JSON.parse\<close> is a parameter.\<close>

type_synonym json = string
type_synonym json_parser = "string \<Rightarrow> json option"

definition tryParseJsonError :: "json_parser \<Rightarrow> string \<Rightarrow> json option" where
  "tryParseJsonError parse text = (if text = [] then None else parse text)"

text \<open>What one \<^verbatim>\<open>XMLHttpRequest\<close> can report, and the result the promise resolves to.\<close>

datatype xhr_outcome = XhrLoad nat string string | XhrError | XhrAbort

record put_result =
  r_ok :: bool
  r_status :: nat
  r_body :: "json option"
  r_text :: string
  r_code :: "string option"

definition status_ok :: "nat \<Rightarrow> bool" where
  "status_ok s = (200 \<le> s \<and> s < 300)"

fun putChunkWithProgress :: "json_parser \<Rightarrow> xhr_outcome \<Rightarrow> put_result" where
  "putChunkWithProgress parse (XhrLoad status text code) =
     \<lparr>r_ok = status_ok status, r_status = status, r_body = tryParseJsonError parse text,
      r_text = text, r_code = Some code\<rparr>"
| "putChunkWithProgress parse XhrError =
     \<lparr>r_ok = False, r_status = 0, r_body = None, r_text = ''network error'', r_code = None\<rparr>"
| "putChunkWithProgress parse XhrAbort =
     \<lparr>r_ok = False, r_status = 0, r_body = None, r_text = ''aborted'', r_code = None\<rparr>"

text \<open>The \<^verbatim>\<open>Error\<close> objects with their assigned fields; an absent field is \<^term>\<open>None\<close>.\<close>

record upload_error =
  err_message :: string
  err_status :: nat
  err_body :: "json option"
  err_text :: "string option"
  err_code :: "string option"

definition aborted_error :: "string option \<Rightarrow> upload_error" where
  "aborted_error text =
     \<lparr>err_message = ''aborted'', err_status = 0, err_body = None, err_text = text, err_code = None\<rparr>"

definition chunk_error :: "nat \<Rightarrow> string \<Rightarrow> put_result \<Rightarrow> upload_error" where
  "chunk_error i wording r =
     \<lparr>err_message = str_or (r_text r) (''chunk '' @ show_nat i @ wording), err_status = r_status r,
      err_body = r_body r, err_text = Some (r_text r), err_code = r_code r\<rparr>"

text \<open>A response that must not be retried: a client error other than 408 and 429.\<close>

definition permanent_failure :: "nat \<Rightarrow> bool" where
  "permanent_failure s = (400 \<le> s \<and> s < 500 \<and> s \<noteq> 408 \<and> s \<noteq> 429)"

section \<open>The pool\<close>

record pool_config =
  c_size :: nat
  c_chunk_size :: nat
  c_count :: nat
  c_concurrency :: nat
  c_max_retries :: nat
  c_parse :: json_parser

datatype worker_pc =
    NotStarted
  | Sending nat nat
  | Sleeping nat nat
  | Returned "upload_error option"
  | Finished

record pool =
  p_aborted :: bool
  p_next :: nat
  p_error :: "upload_error option"
  p_chunks :: "chunk_state list"
  p_workers :: "worker_pc list"
  p_raf :: bool
  p_dirty :: bool
  p_reports :: "(chunk_state list \<times> nat \<times> nat) list"

datatype pool_event =
    PutDone nat xhr_outcome
  | Wake nat
  | Resume nat
  | PutProgress nat nat
  | RafFire
  | AbortSignal

text \<open>\<^verbatim>\<open>start\<close>, \<^verbatim>\<open>end\<close> and the initial entry of chunk \<open>i\<close>.\<close>

definition chunk_start :: "pool_config \<Rightarrow> nat \<Rightarrow> nat" where
  "chunk_start cfg i = i * c_chunk_size cfg"

definition chunk_end :: "pool_config \<Rightarrow> nat \<Rightarrow> nat" where
  "chunk_end cfg i = min (chunk_start cfg i + c_chunk_size cfg) (c_size cfg)"

definition initial_chunk :: "pool_config \<Rightarrow> nat \<Rightarrow> chunk_state" where
  "initial_chunk cfg i =
     \<lparr>ch_index = i, ch_loaded = 0, ch_total = chunk_end cfg i - chunk_start cfg i,
      ch_status = Pending, ch_attempt = 0\<rparr>"

definition initial_chunks :: "pool_config \<Rightarrow> chunk_state list" where
  "initial_chunks cfg = map (initial_chunk cfg) [0..<c_count cfg]"

text \<open>Progress reporting: \<^verbatim>\<open>flushProgress\<close> and both modes of \<^verbatim>\<open>emitChunkProgress\<close>.\<close>

definition loaded_sum :: "chunk_state list \<Rightarrow> nat" where
  "loaded_sum cs = foldl (\<lambda>acc s. acc + ch_loaded s) 0 cs"

definition flushProgress :: "pool_config \<Rightarrow> pool \<Rightarrow> pool" where
  "flushProgress cfg p =
     p\<lparr>p_raf := False, p_dirty := False,
       p_reports := (p_chunks p, min (loaded_sum (p_chunks p)) (c_size cfg), c_size cfg) # p_reports p\<rparr>"

definition emitChunkProgress :: "pool_config \<Rightarrow> bool \<Rightarrow> pool \<Rightarrow> pool" where
  "emitChunkProgress cfg immediate p =
     (if immediate then flushProgress cfg (p\<lparr>p_raf := False\<rparr>) else p\<lparr>p_dirty := True, p_raf := True\<rparr>)"

definition set_chunk :: "nat \<Rightarrow> (chunk_state \<Rightarrow> chunk_state) \<Rightarrow> pool \<Rightarrow> pool" where
  "set_chunk i f p = p\<lparr>p_chunks := (p_chunks p)[i := f (p_chunks p ! i)]\<rparr>"

definition goto :: "nat \<Rightarrow> worker_pc \<Rightarrow> pool \<Rightarrow> pool" where
  "goto w pc p = p\<lparr>p_workers := (p_workers p)[w := pc]\<rparr>"

definition fail_chunk :: "pool_config \<Rightarrow> nat \<Rightarrow> pool \<Rightarrow> pool" where
  "fail_chunk cfg i p = emitChunkProgress cfg True (set_chunk i (\<lambda>c. c\<lparr>ch_status := Errored\<rparr>) p)"

definition running_status :: "nat \<Rightarrow> chunk_status" where
  "running_status attempt = (if attempt = 0 then Uploading else Retrying)"

text \<open>The head of the retry loop of \<^verbatim>\<open>uploadOneChunk\<close>, up to its next \<^verbatim>\<open>await\<close>.\<close>

definition attempt_head :: "pool_config \<Rightarrow> nat \<Rightarrow> nat \<Rightarrow> nat \<Rightarrow> pool \<Rightarrow> pool" where
  "attempt_head cfg w i a p =
     (if c_max_retries cfg < a then goto w (Returned None) p
      else if p_aborted p
        then goto w (Returned (Some (aborted_error (Some ''aborted'')))) (fail_chunk cfg i p)
      else case p_error p of
          Some e \<Rightarrow> goto w (Returned (Some e)) p
        | None \<Rightarrow>
            let p1 = emitChunkProgress cfg True (set_chunk i
                  (\<lambda>c. c\<lparr>ch_attempt := a + 1, ch_status := running_status a, ch_loaded := 0\<rparr>) p)
            in goto w (if 0 < a then Sleeping i a else Sending i a) p1)"

text \<open>\<^verbatim>\<open>CHUNK_RETRY_BASE_MS * Math.pow(2, attempt - 1)\<close>, for a retry (\<open>attempt > 0\<close>).\<close>

definition retry_delay :: "nat \<Rightarrow> nat" where
  "retry_delay attempt = CHUNK_RETRY_BASE_MS * 2 ^ (attempt - 1)"

text \<open>After the back-off sleep.\<close>

definition wake :: "pool_config \<Rightarrow> nat \<Rightarrow> nat \<Rightarrow> nat \<Rightarrow> pool \<Rightarrow> pool" where
  "wake cfg w i a p =
     (if p_aborted p \<or> p_error p \<noteq> None
      then goto w (Returned (case p_error p of Some e \<Rightarrow> Some e | None \<Rightarrow> Some (aborted_error None)))
             (fail_chunk cfg i p)
      else goto w (Sending i a) p)"

text \<open>After \<^verbatim>\<open>putChunkWithProgress\<close> resolved.\<close>

definition put_done :: "pool_config \<Rightarrow> nat \<Rightarrow> nat \<Rightarrow> nat \<Rightarrow> put_result \<Rightarrow> pool \<Rightarrow> pool" where
  "put_done cfg w i a r p =
     (if r_ok r
      then goto w (Returned None) (emitChunkProgress cfg True
             (set_chunk i (\<lambda>c. c\<lparr>ch_loaded := ch_total c, ch_status := Done\<rparr>) p))
      else if permanent_failure (r_status r)
      then goto w (Returned (Some (chunk_error i '' failed'' r))) (fail_chunk cfg i p)
      else if a = c_max_retries cfg
      then goto w (Returned (Some (chunk_error i '' failed after retries'' r))) (fail_chunk cfg i p)
      else attempt_head cfg w i (a + 1) p)"

text \<open>The progress callback of a running transfer.\<close>

definition put_progress :: "pool_config \<Rightarrow> nat \<Rightarrow> nat \<Rightarrow> nat \<Rightarrow> pool \<Rightarrow> pool" where
  "put_progress cfg i a loaded p =
     emitChunkProgress cfg False
       (set_chunk i (\<lambda>c. c\<lparr>ch_loaded := min loaded (ch_total c), ch_status := running_status a\<rparr>) p)"

definition first_error :: "upload_error \<Rightarrow> pool \<Rightarrow> pool" where
  "first_error e p = p\<lparr>p_error := (case p_error p of None \<Rightarrow> Some e | Some e' \<Rightarrow> Some e')\<rparr>"

text \<open>The loop of \<^verbatim>\<open>worker\<close>, up to its next \<^verbatim>\<open>await\<close>, and its resumption.\<close>

definition worker_loop :: "pool_config \<Rightarrow> nat \<Rightarrow> pool \<Rightarrow> pool" where
  "worker_loop cfg w p =
     (if p_aborted p then goto w Finished (first_error (aborted_error None) p)
      else if p_error p \<noteq> None then goto w Finished p
      else let index = p_next p; p1 = p\<lparr>p_next := index + 1\<rparr>
           in if c_count cfg \<le> index then goto w Finished p1 else attempt_head cfg w index 0 p1)"

definition worker_resume :: "pool_config \<Rightarrow> nat \<Rightarrow> upload_error option \<Rightarrow> pool \<Rightarrow> pool" where
  "worker_resume cfg w err p =
     (case err of Some e \<Rightarrow> goto w Finished (first_error e p) | None \<Rightarrow> worker_loop cfg w p)"

fun pool_step :: "pool_config \<Rightarrow> pool \<Rightarrow> pool_event \<Rightarrow> pool option" where
  "pool_step cfg p (PutDone w outcome) =
     (if w < length (p_workers p) then
        (case p_workers p ! w of
           Sending i a \<Rightarrow> Some (put_done cfg w i a (putChunkWithProgress (c_parse cfg) outcome) p)
         | _ \<Rightarrow> None)
      else None)"
| "pool_step cfg p (Wake w) =
     (if w < length (p_workers p) then
        (case p_workers p ! w of Sleeping i a \<Rightarrow> Some (wake cfg w i a p) | _ \<Rightarrow> None)
      else None)"
| "pool_step cfg p (Resume w) =
     (if w < length (p_workers p) then
        (case p_workers p ! w of Returned err \<Rightarrow> Some (worker_resume cfg w err p) | _ \<Rightarrow> None)
      else None)"
| "pool_step cfg p (PutProgress w loaded) =
     (if w < length (p_workers p) then
        (case p_workers p ! w of Sending i a \<Rightarrow> Some (put_progress cfg i a loaded p) | _ \<Rightarrow> None)
      else None)"
| "pool_step cfg p RafFire = (if p_raf p then Some (flushProgress cfg p) else None)"
| "pool_step cfg p AbortSignal = Some (p\<lparr>p_aborted := True\<rparr>)"

text \<open>
  The table before the first worker, and the synchronous start of \<^verbatim>\<open>min(concurrency, chunkCount)\<close>
  workers: each \<^verbatim>\<open>worker()\<close> call runs up to its first \<^verbatim>\<open>await\<close> before the next one is made.
\<close>

definition fresh_pool :: "pool_config \<Rightarrow> pool" where
  "fresh_pool cfg =
     emitChunkProgress cfg True
       \<lparr>p_aborted = False, p_next = 0, p_error = None, p_chunks = initial_chunks cfg, p_workers = [],
        p_raf = False, p_dirty = False, p_reports = []\<rparr>"

definition start_workers :: "pool_config \<Rightarrow> pool \<Rightarrow> pool" where
  "start_workers cfg p =
     (let n = min (c_concurrency cfg) (c_count cfg)
      in fold (worker_loop cfg) [0..<n] (p\<lparr>p_workers := replicate n NotStarted\<rparr>))"

definition pool_settled :: "pool \<Rightarrow> bool" where
  "pool_settled p = (\<forall>pc \<in> set (p_workers p). pc = Finished)"


section \<open>Frame rules\<close>

named_theorems pool_frame "effect of the pool operations on each field"

lemma flush_fields [pool_frame]:
  "p_aborted (flushProgress cfg p) = p_aborted p" "p_next (flushProgress cfg p) = p_next p"
  "p_error (flushProgress cfg p) = p_error p" "p_chunks (flushProgress cfg p) = p_chunks p"
  "p_workers (flushProgress cfg p) = p_workers p"
  by (simp_all add: flushProgress_def)

lemma emit_fields [pool_frame]:
  "p_aborted (emitChunkProgress cfg b p) = p_aborted p" "p_next (emitChunkProgress cfg b p) = p_next p"
  "p_error (emitChunkProgress cfg b p) = p_error p" "p_chunks (emitChunkProgress cfg b p) = p_chunks p"
  "p_workers (emitChunkProgress cfg b p) = p_workers p"
  by (simp_all add: emitChunkProgress_def flushProgress_def)

lemma set_chunk_fields [pool_frame]:
  "p_aborted (set_chunk i f p) = p_aborted p" "p_next (set_chunk i f p) = p_next p"
  "p_error (set_chunk i f p) = p_error p" "p_workers (set_chunk i f p) = p_workers p"
  "p_chunks (set_chunk i f p) = (p_chunks p)[i := f (p_chunks p ! i)]"
  by (simp_all add: set_chunk_def)

lemma goto_fields [pool_frame]:
  "p_aborted (goto w pc p) = p_aborted p" "p_next (goto w pc p) = p_next p"
  "p_error (goto w pc p) = p_error p" "p_chunks (goto w pc p) = p_chunks p"
  "p_workers (goto w pc p) = (p_workers p)[w := pc]"
  by (simp_all add: goto_def)

lemma fail_chunk_fields [pool_frame]:
  "p_aborted (fail_chunk cfg i p) = p_aborted p" "p_next (fail_chunk cfg i p) = p_next p"
  "p_error (fail_chunk cfg i p) = p_error p" "p_workers (fail_chunk cfg i p) = p_workers p"
  "p_chunks (fail_chunk cfg i p) = (p_chunks p)[i := (p_chunks p ! i)\<lparr>ch_status := Errored\<rparr>]"
  by (simp_all add: fail_chunk_def pool_frame)

lemma first_error_fields [pool_frame]:
  "p_next (first_error e p) = p_next p" "p_chunks (first_error e p) = p_chunks p"
  "p_workers (first_error e p) = p_workers p" "\<exists>f. p_error (first_error e p) = Some f"
  by (auto simp: first_error_def split: option.splits)

section \<open>The pool invariant\<close>

fun held :: "worker_pc \<Rightarrow> nat option" where
  "held (Sending i a) = Some i"
| "held (Sleeping i a) = Some i"
| "held _ = None"

fun attempt_of :: "worker_pc \<Rightarrow> nat" where
  "attempt_of (Sending i a) = a"
| "attempt_of (Sleeping i a) = a"
| "attempt_of _ = 0"

definition in_transit :: "chunk_state \<Rightarrow> bool" where
  "in_transit c = (ch_status c = Uploading \<or> ch_status c = Retrying)"

definition delivered :: "chunk_state \<Rightarrow> bool" where
  "delivered c = (ch_status c = Done \<and> ch_loaded c = ch_total c)"

definition chunk_ok :: "pool_config \<Rightarrow> nat \<Rightarrow> chunk_state \<Rightarrow> bool" where
  "chunk_ok cfg i c \<longleftrightarrow> ch_index c = i \<and> ch_total c = chunk_end cfg i - chunk_start cfg i
     \<and> ch_loaded c \<le> ch_total c \<and> ch_attempt c \<le> c_max_retries cfg + 1"

definition failing :: "pool \<Rightarrow> bool" where
  "failing p \<longleftrightarrow> p_error p \<noteq> None \<or> (\<exists>w < length (p_workers p). \<exists>e. p_workers p ! w = Returned (Some e))"

definition table_inv :: "pool_config \<Rightarrow> pool \<Rightarrow> bool" where
  "table_inv cfg p \<longleftrightarrow> length (p_chunks p) = c_count cfg
     \<and> (\<forall>i < c_count cfg. chunk_ok cfg i (p_chunks p ! i))
     \<and> (\<forall>i < c_count cfg. p_next p \<le> i \<longrightarrow> p_chunks p ! i = initial_chunk cfg i)"

definition worker_inv :: "pool_config \<Rightarrow> pool \<Rightarrow> bool" where
  "worker_inv cfg p \<longleftrightarrow>
     (\<forall>w < length (p_workers p). \<forall>i. held (p_workers p ! w) = Some i \<longrightarrow>
        i < c_count cfg \<and> i < p_next p \<and> in_transit (p_chunks p ! i)
        \<and> attempt_of (p_workers p ! w) \<le> c_max_retries cfg)
     \<and> (\<forall>w < length (p_workers p). p_workers p ! w = Finished \<longrightarrow> p_error p \<noteq> None \<or> c_count cfg \<le> p_next p)"

definition exclusive :: "pool \<Rightarrow> bool" where
  "exclusive p \<longleftrightarrow> (\<forall>w < length (p_workers p). \<forall>v < length (p_workers p). \<forall>i.
     held (p_workers p ! w) = Some i \<longrightarrow> held (p_workers p ! v) = Some i \<longrightarrow> w = v)"

definition claimed_inv :: "pool_config \<Rightarrow> pool \<Rightarrow> bool" where
  "claimed_inv cfg p \<longleftrightarrow> (\<forall>i < c_count cfg. i < p_next p \<longrightarrow>
     delivered (p_chunks p ! i) \<or> (\<exists>w < length (p_workers p). held (p_workers p ! w) = Some i) \<or> failing p)"

definition pool_inv :: "pool_config \<Rightarrow> pool \<Rightarrow> bool" where
  "pool_inv cfg p \<longleftrightarrow> table_inv cfg p \<and> worker_inv cfg p \<and> exclusive p \<and> claimed_inv cfg p"

lemmas pool_inv_defs = pool_inv_def table_inv_def worker_inv_def exclusive_def claimed_inv_def
  chunk_ok_def failing_def in_transit_def delivered_def

definition accounted :: "pool \<Rightarrow> nat \<Rightarrow> bool" where
  "accounted p k \<longleftrightarrow> delivered (p_chunks p ! k)
     \<or> (\<exists>w < length (p_workers p). held (p_workers p ! w) = Some k) \<or> failing p"

lemma claimed_inv_accounted: "claimed_inv cfg p \<longleftrightarrow> (\<forall>i < c_count cfg. i < p_next p \<longrightarrow> accounted p i)"
  by (simp add: claimed_inv_def accounted_def)

lemma failing_other:
  assumes "failing p" "w < length (p_workers p)" "\<And>e. p_workers p ! w \<noteq> Returned (Some e)"
    and q: "p_workers q = (p_workers p)[w := pc]" "p_error p \<noteq> None \<longrightarrow> p_error q \<noteq> None"
  shows "failing q"
proof (cases "p_error p = None")
  case True
  with assms(1) obtain v e where "v < length (p_workers p)" "p_workers p ! v = Returned (Some e)"
    by (auto simp: failing_def)
  moreover from this assms(3) have "v \<noteq> w" by auto
  ultimately have "v < length (p_workers q)" "p_workers q ! v = Returned (Some e)" using q by auto
  then show ?thesis by (auto simp: failing_def)
qed (use q in \<open>auto simp: failing_def\<close>)

lemma accounted_other:
  assumes acc: "accounted p k" and w: "w < length (p_workers p)" "held (p_workers p ! w) \<noteq> Some k"
    "\<And>e. p_workers p ! w \<noteq> Returned (Some e)"
    and q: "p_chunks q ! k = p_chunks p ! k" "p_workers q = (p_workers p)[w := pc]"
      "p_error p \<noteq> None \<longrightarrow> p_error q \<noteq> None"
  shows "accounted q k"
proof -
  consider "delivered (p_chunks p ! k)" | v where "v < length (p_workers p)" "held (p_workers p ! v) = Some k"
    | "failing p" using acc by (auto simp: accounted_def)
  then show ?thesis
  proof cases
    case 1
    then show ?thesis using q by (simp add: accounted_def)
  next
    case 2
    with w(2) have "v \<noteq> w" by auto
    with 2 q have "v < length (p_workers q)" "held (p_workers q ! v) = Some k" by auto
    then show ?thesis by (auto simp: accounted_def)
  next
    case 3
    then show ?thesis using failing_other [OF _ w(1,3) q(2,3)] by (simp add: accounted_def)
  qed
qed

text \<open>Three shapes of segment: a worker moves on with its chunk, claims the next chunk, or ends.\<close>

lemma inv_advance:
  assumes inv: "pool_inv cfg p" and w: "w < length (p_workers p)" "held (p_workers p ! w) = Some i"
    and q: "p_chunks q = (p_chunks p)[i := c]" "p_workers q = (p_workers p)[w := pc]"
      "p_next q = p_next p" "p_error q = p_error p"
    and c: "chunk_ok cfg i c"
    and pc: "(held pc = Some i \<and> attempt_of pc \<le> c_max_retries cfg \<and> in_transit c)
      \<or> (pc = Returned None \<and> delivered c) \<or> (\<exists>e. pc = Returned (Some e))"
  shows "pool_inv cfg q"
proof -
  have i: "i < c_count cfg" "i < p_next p" "length (p_chunks p) = c_count cfg"
    using inv w unfolding pool_inv_def worker_inv_def table_inv_def by auto
  have heldpc: "held pc = Some i \<or> held pc = None" "pc \<noteq> Finished" using pc by auto
  have "table_inv cfg q"
    using inv q c i unfolding pool_inv_def table_inv_def
    by (auto simp: nth_list_update)
  moreover have "worker_inv cfg q"
    using inv q pc i w heldpc unfolding pool_inv_def worker_inv_def exclusive_def
    by (auto simp: nth_list_update split: if_splits)
  moreover have "exclusive q"
    using inv q w heldpc unfolding pool_inv_def exclusive_def
    by (auto simp: nth_list_update split: if_splits)
  moreover have "claimed_inv cfg q"
  proof (unfold claimed_inv_accounted, intro allI impI)
    fix k assume k: "k < c_count cfg" "k < p_next q"
    show "accounted q k"
    proof (cases "k = i")
      case True
      then show ?thesis using pc q w i unfolding accounted_def failing_def by (auto simp: nth_list_update)
    next
      case False
      from inv k q have "accounted p k" by (simp add: pool_inv_def claimed_inv_accounted)
      then show ?thesis
        by (rule accounted_other [OF _ w(1) _ _ _ q(2)]) (use False w q in auto)
    qed
  qed
  ultimately show ?thesis by (simp add: pool_inv_def)
qed

lemma inv_claim:
  assumes inv: "pool_inv cfg p" and w: "w < length (p_workers p)" "p_workers p ! w = NotStarted \<or> p_workers p ! w = Returned None"
    and i: "i = p_next p" "i < c_count cfg"
    and q: "p_chunks q = (p_chunks p)[i := c]" "p_workers q = (p_workers p)[w := pc]"
      "p_next q = i + 1" "p_error q = p_error p"
    and c: "chunk_ok cfg i c" "in_transit c"
    and pc: "held pc = Some i" "attempt_of pc \<le> c_max_retries cfg" "pc \<noteq> Finished"
  shows "pool_inv cfg q"
proof -
  have len: "length (p_chunks p) = c_count cfg"
    using inv unfolding pool_inv_def table_inv_def by auto
  have fresh: "held (p_workers p ! v) \<noteq> Some i" if "v < length (p_workers p)" for v
    using inv that i unfolding pool_inv_def worker_inv_def by fastforce
  have "table_inv cfg q"
    using inv q c i len unfolding pool_inv_def table_inv_def by (auto simp: nth_list_update)
  moreover have "worker_inv cfg q"
    using inv q pc i w c len fresh unfolding pool_inv_def worker_inv_def
    by (auto simp: nth_list_update less_Suc_eq split: if_splits)
  moreover have "exclusive q"
    using inv q w pc fresh unfolding pool_inv_def exclusive_def
    by (auto simp: nth_list_update split: if_splits)
  moreover have "claimed_inv cfg q"
  proof (unfold claimed_inv_accounted, intro allI impI)
    fix k assume k: "k < c_count cfg" "k < p_next q"
    show "accounted q k"
    proof (cases "k = i")
      case True
      with pc q w have "w < length (p_workers q)" "held (p_workers q ! w) = Some k" by auto
      then show ?thesis by (auto simp: accounted_def)
    next
      case False
      with inv k q i have "accounted p k" by (simp add: pool_inv_def claimed_inv_accounted)
      then show ?thesis
        by (rule accounted_other [OF _ w(1) _ _ _ q(2)]) (use False w q in auto)
    qed
  qed
  ultimately show ?thesis by (simp add: pool_inv_def)
qed

lemma inv_end:
  assumes inv: "pool_inv cfg p" and w: "w < length (p_workers p)" "held (p_workers p ! w) = None"
    and q: "p_chunks q = p_chunks p" "p_workers q = (p_workers p)[w := Finished]" "p_next p \<le> p_next q"
      "p_error p \<noteq> None \<longrightarrow> p_error q \<noteq> None"
    and fin: "p_error q \<noteq> None \<or> (c_count cfg \<le> p_next p \<and> p_workers p ! w \<in> {NotStarted, Returned None})"
  shows "pool_inv cfg q"
proof -
  have "table_inv cfg q"
    using inv q unfolding pool_inv_def table_inv_def by auto
  moreover have "worker_inv cfg q"
    using inv q w fin unfolding pool_inv_def worker_inv_def
    by (fastforce simp: nth_list_update split: if_splits)
  moreover have "exclusive q"
    using inv q w unfolding pool_inv_def exclusive_def
    by (auto simp: nth_list_update split: if_splits)
  moreover have "claimed_inv cfg q"
  proof (unfold claimed_inv_accounted, intro allI impI)
    fix k assume k: "k < c_count cfg" "k < p_next q"
    show "accounted q k"
    proof (cases "p_error q = None")
      case True
      with fin have d: "c_count cfg \<le> p_next p" "p_workers p ! w \<in> {NotStarted, Returned None}" by auto
      with inv k have "accounted p k" by (simp add: pool_inv_def claimed_inv_accounted)
      then show ?thesis
        by (rule accounted_other [OF _ w(1) _ _ _ q(2)]) (use d w q in auto)
    qed (simp add: accounted_def failing_def)
  qed
  ultimately show ?thesis by (simp add: pool_inv_def)
qed


section \<open>Every segment keeps the invariant\<close>

lemma inv_unchanged:
  assumes "pool_inv cfg p" "p_chunks q = p_chunks p" "p_workers q = p_workers p"
    "p_next q = p_next p" "p_error q = p_error p"
  shows "pool_inv cfg q"
  using assms
  unfolding pool_inv_def table_inv_def worker_inv_def exclusive_def claimed_inv_def failing_def by simp

lemma inv_chunk_ok: "pool_inv cfg p \<Longrightarrow> w < length (p_workers p) \<Longrightarrow> held (p_workers p ! w) = Some i
    \<Longrightarrow> chunk_ok cfg i (p_chunks p ! i) \<and> attempt_of (p_workers p ! w) \<le> c_max_retries cfg"
  unfolding pool_inv_def table_inv_def worker_inv_def by auto

lemma attempt_head_inv:
  assumes inv: "pool_inv cfg p" "w < length (p_workers p)" "held (p_workers p ! w) = Some i"
    and a: "a \<le> c_max_retries cfg"
  shows "pool_inv cfg (attempt_head cfg w i a p)"
proof -
  note ok = inv_chunk_ok [OF inv]
  consider "p_aborted p" | e where "\<not> p_aborted p" "p_error p = Some e" | "\<not> p_aborted p" "p_error p = None"
    by (cases "p_error p") auto
  then show ?thesis
  proof cases
    case 1
    show ?thesis
      by (rule inv_advance [OF inv, where c = "(p_chunks p ! i)\<lparr>ch_status := Errored\<rparr>"])
         (use 1 a ok in \<open>auto simp: attempt_head_def pool_frame chunk_ok_def\<close>)
  next
    case 2
    show ?thesis
      by (rule inv_advance [OF inv, where c = "p_chunks p ! i" and pc = "Returned (Some e)"])
         (use 2 a ok in \<open>auto simp: attempt_head_def pool_frame\<close>)
  next
    case 3
    show ?thesis
      by (rule inv_advance [OF inv, where
            c = "(p_chunks p ! i)\<lparr>ch_attempt := a + 1, ch_status := running_status a, ch_loaded := 0\<rparr>"
            and pc = "if 0 < a then Sleeping i a else Sending i a"])
         (use 3 a ok in \<open>auto simp: attempt_head_def pool_frame chunk_ok_def in_transit_def running_status_def\<close>)
  qed
qed

lemma wake_inv:
  assumes inv: "pool_inv cfg p" "w < length (p_workers p)" and pc: "p_workers p ! w = Sleeping i a"
  shows "pool_inv cfg (wake cfg w i a p)"
proof -
  have h: "held (p_workers p ! w) = Some i" using pc by simp
  note ok = inv_chunk_ok [OF inv h]
  show ?thesis
  proof (cases "p_aborted p \<or> p_error p \<noteq> None")
    case True
    show ?thesis
      by (rule inv_advance [OF inv h, where c = "(p_chunks p ! i)\<lparr>ch_status := Errored\<rparr>"])
         (use True ok in \<open>auto simp: wake_def pool_frame chunk_ok_def split: option.splits\<close>)
  next
    case False
    have "in_transit (p_chunks p ! i)" using inv h unfolding pool_inv_def worker_inv_def by auto
    then show ?thesis
      by (intro inv_advance [OF inv h, where c = "p_chunks p ! i" and pc = "Sending i a"])
         (use False ok pc in \<open>auto simp: wake_def pool_frame\<close>)
  qed
qed

lemma put_done_inv:
  assumes inv: "pool_inv cfg p" "w < length (p_workers p)" and pc: "p_workers p ! w = Sending i a"
  shows "pool_inv cfg (put_done cfg w i a r p)"
proof -
  have h: "held (p_workers p ! w) = Some i" using pc by simp
  note ok = inv_chunk_ok [OF inv h]
  consider "r_ok r" | "\<not> r_ok r" "permanent_failure (r_status r) \<or> a = c_max_retries cfg"
    | "\<not> r_ok r" "\<not> permanent_failure (r_status r)" "a \<noteq> c_max_retries cfg" by blast
  then show ?thesis
  proof cases
    case 1
    show ?thesis
      by (rule inv_advance [OF inv h, where
            c = "(p_chunks p ! i)\<lparr>ch_loaded := ch_total (p_chunks p ! i), ch_status := Done\<rparr>"])
         (use 1 ok in \<open>auto simp: put_done_def pool_frame chunk_ok_def delivered_def\<close>)
  next
    case 2
    show ?thesis
      by (rule inv_advance [OF inv h, where c = "(p_chunks p ! i)\<lparr>ch_status := Errored\<rparr>"
            and pc = "Returned (Some (chunk_error i
              (if permanent_failure (r_status r) then '' failed'' else '' failed after retries'') r))"])
         (use 2 ok in \<open>auto simp: put_done_def pool_frame chunk_ok_def\<close>)
  next
    case 3
    with ok pc have "a + 1 \<le> c_max_retries cfg" by simp
    from attempt_head_inv [OF inv h this] 3 show ?thesis by (simp add: put_done_def)
  qed
qed

lemma put_progress_inv:
  assumes inv: "pool_inv cfg p" "w < length (p_workers p)" and pc: "p_workers p ! w = Sending i a"
  shows "pool_inv cfg (put_progress cfg i a loaded p)"
proof -
  have h: "held (p_workers p ! w) = Some i" using pc by simp
  note ok = inv_chunk_ok [OF inv h]
  have "(p_workers p)[w := Sending i a] = p_workers p" using list_update_id [of "p_workers p" w] pc by simp
  then show ?thesis
    by (intro inv_advance [OF inv h, where pc = "Sending i a"
          and c = "(p_chunks p ! i)\<lparr>ch_loaded := min loaded (ch_total (p_chunks p ! i)), ch_status := running_status a\<rparr>"])
       (use pc ok in \<open>auto simp: put_progress_def pool_frame chunk_ok_def in_transit_def running_status_def\<close>)
qed

lemma worker_loop_inv:
  assumes inv: "pool_inv cfg p" "w < length (p_workers p)"
    and pc: "p_workers p ! w = NotStarted \<or> p_workers p ! w = Returned None"
  shows "pool_inv cfg (worker_loop cfg w p)"
proof -
  have h: "held (p_workers p ! w) = None" using pc by auto
  consider "p_aborted p \<or> p_error p \<noteq> None" | "\<not> p_aborted p" "p_error p = None" "c_count cfg \<le> p_next p"
    | "\<not> p_aborted p" "p_error p = None" "p_next p < c_count cfg" by fastforce
  then show ?thesis
  proof cases
    case 1
    show ?thesis
      by (rule inv_end [OF inv h]) (use 1 in \<open>auto simp: worker_loop_def pool_frame\<close>)
  next
    case 2
    show ?thesis
      by (rule inv_end [OF inv h]) (use 2 pc in \<open>auto simp: worker_loop_def pool_frame\<close>)
  next
    case 3
    let ?i = "p_next p"
    have ok: "chunk_ok cfg ?i (p_chunks p ! ?i)"
      using inv 3 unfolding pool_inv_def table_inv_def by auto
    show ?thesis
      by (rule inv_claim [OF inv pc refl 3(3), where pc = "Sending ?i 0"
            and c = "(p_chunks p ! ?i)\<lparr>ch_attempt := 1, ch_status := Uploading, ch_loaded := 0\<rparr>"])
         (use 3 ok in \<open>auto simp: worker_loop_def attempt_head_def Let_def pool_frame chunk_ok_def in_transit_def running_status_def\<close>)
  qed
qed

lemma worker_resume_inv:
  assumes inv: "pool_inv cfg p" "w < length (p_workers p)" and pc: "p_workers p ! w = Returned err"
  shows "pool_inv cfg (worker_resume cfg w err p)"
proof (cases err)
  case None
  then show ?thesis using worker_loop_inv [OF inv] pc by (simp add: worker_resume_def)
next
  case (Some e)
  show ?thesis
    by (rule inv_end [OF inv]) (use pc Some in \<open>auto simp: worker_resume_def pool_frame\<close>)
qed

lemma pool_step_inv: "pool_inv cfg p \<Longrightarrow> pool_step cfg p e = Some q \<Longrightarrow> pool_inv cfg q"
proof (cases e)
  case RafFire
  assume "pool_inv cfg p" "pool_step cfg p e = Some q"
  with RafFire show ?thesis
    by (auto split: if_splits simp: pool_frame elim!: inv_unchanged)
next
  case AbortSignal
  assume "pool_inv cfg p" "pool_step cfg p e = Some q"
  with AbortSignal show ?thesis by (auto elim!: inv_unchanged)
qed (auto split: if_splits worker_pc.splits
       intro: put_done_inv wake_inv worker_resume_inv put_progress_inv)

lemma fresh_pool_inv: "pool_inv cfg (fresh_pool cfg)"
  by (auto simp: fresh_pool_def pool_frame pool_inv_defs initial_chunks_def initial_chunk_def)

lemma worker_loop_others:
  "length (p_workers (worker_loop cfg w p)) = length (p_workers p)"
  "v \<noteq> w \<Longrightarrow> p_workers (worker_loop cfg w p) ! v = p_workers p ! v"
  by (auto simp: worker_loop_def attempt_head_def pool_frame Let_def split: option.splits)

lemma worker_loop_unstarted:
  assumes "distinct (w # ws)" "\<forall>v \<in> set (w # ws). v < length (p_workers p) \<and> p_workers p ! v = NotStarted"
  shows "\<forall>v \<in> set ws. v < length (p_workers (worker_loop cfg w p)) \<and> p_workers (worker_loop cfg w p) ! v = NotStarted"
proof
  fix v assume v: "v \<in> set ws"
  with assms(1) have "v \<noteq> w" by auto
  with v assms(2) show "v < length (p_workers (worker_loop cfg w p)) \<and> p_workers (worker_loop cfg w p) ! v = NotStarted"
    by (simp add: worker_loop_others)
qed

lemma fold_worker_loop_inv:
  assumes "pool_inv cfg p" "distinct ws" "\<forall>w \<in> set ws. w < length (p_workers p) \<and> p_workers p ! w = NotStarted"
  shows "pool_inv cfg (fold (worker_loop cfg) ws p)
    \<and> length (p_workers (fold (worker_loop cfg) ws p)) = length (p_workers p)"
  using assms
proof (induction ws arbitrary: p)
  case (Cons w ws)
  have "pool_inv cfg (worker_loop cfg w p)" using Cons.prems by (intro worker_loop_inv) auto
  moreover note worker_loop_unstarted [OF Cons.prems(2,3)]
  ultimately show ?case using Cons.IH [of "worker_loop cfg w p"] Cons.prems(2)
    by (simp add: worker_loop_others)
qed simp

lemma start_workers_inv: "pool_inv cfg (start_workers cfg (fresh_pool cfg))"
  and start_workers_length: "length (p_workers (start_workers cfg (fresh_pool cfg))) = min (c_concurrency cfg) (c_count cfg)"
proof -
  let ?n = "min (c_concurrency cfg) (c_count cfg)"
  let ?p = "(fresh_pool cfg)\<lparr>p_workers := replicate ?n NotStarted\<rparr>"
  have "pool_inv cfg ?p"
    by (auto simp: fresh_pool_def pool_frame pool_inv_defs initial_chunks_def initial_chunk_def)
  from fold_worker_loop_inv [OF this, of "[0..<?n]"]
  show "pool_inv cfg (start_workers cfg (fresh_pool cfg))"
    "length (p_workers (start_workers cfg (fresh_pool cfg))) = ?n"
    by (auto simp: start_workers_def Let_def)
qed

interpretation upload_pool: machine_invariant "pool_step cfg" "pool_inv cfg" for cfg
  by unfold_locales (rule pool_step_inv)


section \<open>Work left\<close>

fun pc_weight :: "pool_config \<Rightarrow> worker_pc \<Rightarrow> nat" where
  "pc_weight cfg NotStarted = 1"
| "pc_weight cfg (Sending i a) = 2 * (c_max_retries cfg - a) + 2"
| "pc_weight cfg (Sleeping i a) = 2 * (c_max_retries cfg - a) + 3"
| "pc_weight cfg (Returned err) = 1"
| "pc_weight cfg Finished = 0"

definition work_left :: "pool_config \<Rightarrow> pool \<Rightarrow> nat" where
  "work_left cfg p = (c_count cfg - p_next p) * (2 * c_max_retries cfg + 3)
     + sum_list (map (pc_weight cfg) (p_workers p))"

fun is_work :: "pool_event \<Rightarrow> bool" where
  "is_work (PutDone w out) = True"
| "is_work (Wake w) = True"
| "is_work (Resume w) = True"
| "is_work _ = False"

lemma weight_update:
  "w < length ws \<Longrightarrow> sum_list (map (pc_weight cfg) (ws[w := pc])) + pc_weight cfg (ws ! w)
    = sum_list (map (pc_weight cfg) ws) + pc_weight cfg pc"
  by (induction ws arbitrary: w) (auto split: nat.splits)

lemma work_move:
  assumes "w < length (p_workers p)" "p_workers q = (p_workers p)[w := pc]" "p_next q = p_next p"
    "pc_weight cfg pc < pc_weight cfg (p_workers p ! w)"
  shows "work_left cfg q < work_left cfg p"
  using weight_update [OF assms(1), of cfg pc] assms by (simp add: work_left_def)

lemma attempt_head_work:
  assumes "w < length (p_workers p)" "p_workers p ! w = Sending i b" "b < a" "a \<le> c_max_retries cfg"
  shows "work_left cfg (attempt_head cfg w i a p) < work_left cfg p"
proof -
  let ?pc = "p_workers (attempt_head cfg w i a p) ! w"
  have "p_workers (attempt_head cfg w i a p) = (p_workers p)[w := ?pc]"
    "p_next (attempt_head cfg w i a p) = p_next p"
    "pc_weight cfg ?pc < pc_weight cfg (p_workers p ! w)"
    using assms by (auto simp: attempt_head_def pool_frame Let_def split: option.splits)
  with work_move assms(1) show ?thesis by blast
qed

lemma put_done_work:
  assumes "w < length (p_workers p)" "p_workers p ! w = Sending i a" "a \<le> c_max_retries cfg"
  shows "work_left cfg (put_done cfg w i a r p) < work_left cfg p"
proof (cases "r_ok r \<or> permanent_failure (r_status r) \<or> a = c_max_retries cfg")
  case True
  let ?pc = "p_workers (put_done cfg w i a r p) ! w"
  have "p_workers (put_done cfg w i a r p) = (p_workers p)[w := ?pc]"
    "p_next (put_done cfg w i a r p) = p_next p" "pc_weight cfg ?pc < pc_weight cfg (p_workers p ! w)"
    using True assms by (auto simp: put_done_def pool_frame)
  with work_move assms(1) show ?thesis by blast
next
  case False
  with attempt_head_work [OF assms(1,2), of "a + 1" cfg] assms(3) show ?thesis
    by (simp add: put_done_def)
qed

lemma wake_work:
  assumes "w < length (p_workers p)" "p_workers p ! w = Sleeping i a"
  shows "work_left cfg (wake cfg w i a p) < work_left cfg p"
  by (rule work_move [OF assms(1), where pc = "p_workers (wake cfg w i a p) ! w"])
     (use assms in \<open>auto simp: wake_def pool_frame split: option.splits\<close>)

lemma worker_loop_work:
  assumes w: "w < length (p_workers p)" and pc: "pc_weight cfg (p_workers p ! w) = 1"
  shows "work_left cfg (worker_loop cfg w p) < work_left cfg p"
proof (cases "\<not> p_aborted p \<and> p_error p = None \<and> p_next p < c_count cfg")
  case True
  then have "p_workers (worker_loop cfg w p) = (p_workers p)[w := Sending (p_next p) 0]"
    "p_next (worker_loop cfg w p) = Suc (p_next p)"
    by (auto simp: worker_loop_def attempt_head_def Let_def pool_frame)
  moreover have "c_count cfg - p_next p = Suc (c_count cfg - Suc (p_next p))" using True by (simp add: Suc_diff_Suc)
  ultimately show ?thesis
    using weight_update [OF w, of cfg "Sending (p_next p) 0"] pc by (simp add: work_left_def)
next
  case False
  then have q: "p_workers (worker_loop cfg w p) = (p_workers p)[w := Finished]"
    "p_next p \<le> p_next (worker_loop cfg w p)"
    by (auto simp: worker_loop_def Let_def pool_frame)
  from q(2) have "(c_count cfg - p_next (worker_loop cfg w p)) * (2 * c_max_retries cfg + 3)
      \<le> (c_count cfg - p_next p) * (2 * c_max_retries cfg + 3)" by (intro mult_le_mono1) simp
  moreover have "Suc (sum_list (map (pc_weight cfg) ((p_workers p)[w := Finished])))
      = sum_list (map (pc_weight cfg) (p_workers p))"
    using weight_update [OF w, of cfg Finished] pc by simp
  ultimately show ?thesis unfolding work_left_def q(1) by linarith
qed

lemma worker_resume_work:
  assumes "w < length (p_workers p)" "p_workers p ! w = Returned err"
  shows "work_left cfg (worker_resume cfg w err p) < work_left cfg p"
proof (cases err)
  case None
  then show ?thesis using worker_loop_work assms by (simp add: worker_resume_def)
next
  case (Some e)
  then show ?thesis
    by (intro work_move [OF assms(1), where pc = Finished])
       (use assms in \<open>auto simp: worker_resume_def pool_frame\<close>)
qed

lemma inv_sending_attempt:
  "pool_inv cfg p \<Longrightarrow> w < length (p_workers p) \<Longrightarrow> p_workers p ! w = Sending i a \<Longrightarrow> a \<le> c_max_retries cfg"
  using inv_chunk_ok [of cfg p w i] by auto

interpretation upload_work: machine_measure "pool_step cfg" "pool_inv cfg" is_work "work_left cfg" for cfg
proof unfold_locales
  fix s t e assume "pool_inv cfg s" "is_work e" "pool_step cfg s e = Some t"
  then show "work_left cfg t < work_left cfg s"
    by (cases e) (auto split: if_splits worker_pc.splits
        intro: put_done_work wake_work worker_resume_work inv_sending_attempt)
next
  fix s t e assume "pool_inv cfg s" "\<not> is_work e" "pool_step cfg s e = Some t"
  then show "work_left cfg t \<le> work_left cfg s"
    by (cases e) (auto split: if_splits worker_pc.splits simp: work_left_def put_progress_def pool_frame)
qed

lemma work_enabled:
  assumes "w < length (p_workers p)" "p_workers p ! w \<noteq> Finished" "p_workers p ! w \<noteq> NotStarted"
  shows "\<exists>e q. is_work e \<and> pool_step cfg p e = Some q"
proof (cases "p_workers p ! w")
  case (Sending i a)
  with assms(1) have "is_work (PutDone w XhrError) \<and>
      pool_step cfg p (PutDone w XhrError) = Some (put_done cfg w i a (putChunkWithProgress (c_parse cfg) XhrError) p)"
    by simp
  then show ?thesis by blast
next
  case (Sleeping i a)
  with assms(1) have "is_work (Wake w) \<and> pool_step cfg p (Wake w) = Some (wake cfg w i a p)" by simp
  then show ?thesis by blast
next
  case (Returned err)
  with assms(1) have "is_work (Resume w) \<and> pool_step cfg p (Resume w) = Some (worker_resume cfg w err p)" by simp
  then show ?thesis by blast
qed (use assms in auto)

lemma step_workers_length: "pool_step cfg p e = Some q \<Longrightarrow> length (p_workers q) = length (p_workers p)"
  by (cases e)
     (auto split: if_splits worker_pc.splits option.splits
        simp: put_done_def wake_def worker_resume_def worker_loop_def attempt_head_def put_progress_def
          Let_def pool_frame)

lemma run_workers_length:
  "run_events (pool_step cfg) s es = Some p \<Longrightarrow> length (p_workers s) = n \<Longrightarrow> length (p_workers p) = n"
  by (induction es arbitrary: s) (auto split: option.splits dest: step_workers_length)

text \<open>No worker is left unstarted once \<^const>\<open>start_workers\<close> has run.\<close>

definition all_started :: "pool \<Rightarrow> bool" where
  "all_started p \<longleftrightarrow> NotStarted \<notin> set (p_workers p)"

lemma worker_loop_self:
  "w < length (p_workers p) \<Longrightarrow> p_workers (worker_loop cfg w p) ! w \<noteq> NotStarted"
  by (auto simp: worker_loop_def attempt_head_def Let_def pool_frame split: option.splits)

lemma fold_worker_loop_started:
  assumes "n \<le> length (p_workers p)"
  shows "length (p_workers (fold (worker_loop cfg) [0..<n] p)) = length (p_workers p)
    \<and> (\<forall>v < n. p_workers (fold (worker_loop cfg) [0..<n] p) ! v \<noteq> NotStarted)"
  using assms
proof (induction n)
  case (Suc n)
  let ?q = "fold (worker_loop cfg) [0..<n] p"
  from Suc have IH: "length (p_workers ?q) = length (p_workers p)" "\<forall>v < n. p_workers ?q ! v \<noteq> NotStarted"
    by auto
  have "p_workers (worker_loop cfg n ?q) ! v \<noteq> NotStarted" if "v < Suc n" for v
    using that IH Suc.prems worker_loop_self [of n ?q cfg]
    by (cases "v = n") (auto simp: worker_loop_others less_Suc_eq)
  with IH show ?case by (simp add: worker_loop_others)
qed simp

lemma start_all_started: "all_started (start_workers cfg (fresh_pool cfg))"
proof -
  let ?n = "min (c_concurrency cfg) (c_count cfg)"
  let ?p = "(fresh_pool cfg)\<lparr>p_workers := replicate ?n NotStarted\<rparr>"
  from fold_worker_loop_started [of ?n ?p cfg] show ?thesis
    by (auto simp: all_started_def start_workers_def Let_def in_set_conv_nth)
qed

lemma update_all_started: "NotStarted \<notin> set ws \<Longrightarrow> pc \<noteq> NotStarted \<Longrightarrow> NotStarted \<notin> set (ws[w := pc])"
  using set_update_subset_insert [of ws w pc] by auto

lemma step_all_started: "all_started p \<Longrightarrow> pool_step cfg p e = Some q \<Longrightarrow> all_started q"
  unfolding all_started_def
  by (cases e)
     (auto split: if_splits worker_pc.splits option.splits dest!: update_all_started [THEN notE, rotated 2]
        simp: put_done_def wake_def worker_resume_def worker_loop_def attempt_head_def put_progress_def
          Let_def pool_frame)

interpretation upload_started: machine_invariant "pool_step cfg" all_started for cfg
  by unfold_locales (rule step_all_started)


lemma start_work_bound:
  "work_left cfg (start_workers cfg (fresh_pool cfg))
     \<le> c_count cfg * (2 * c_max_retries cfg + 3) + min (c_concurrency cfg) (c_count cfg)"
proof -
  let ?n = "min (c_concurrency cfg) (c_count cfg)"
  let ?p = "(fresh_pool cfg)\<lparr>p_workers := replicate ?n NotStarted\<rparr>"
  have "work_left cfg (fold (worker_loop cfg) ws p) \<le> work_left cfg p"
    if "distinct ws" "\<forall>w \<in> set ws. w < length (p_workers p) \<and> p_workers p ! w = NotStarted" for ws p
    using that
  proof (induction ws arbitrary: p)
    case (Cons w ws)
    have "work_left cfg (worker_loop cfg w p) < work_left cfg p"
      using Cons.prems by (intro worker_loop_work) auto
    moreover have "work_left cfg (fold (worker_loop cfg) ws (worker_loop cfg w p)) \<le> work_left cfg (worker_loop cfg w p)"
      using Cons.prems(1) by (intro Cons.IH worker_loop_unstarted [OF Cons.prems]) simp
    ultimately show ?case by simp
  qed simp
  from this [of "[0..<?n]" ?p] have "work_left cfg (start_workers cfg (fresh_pool cfg)) \<le> work_left cfg ?p"
    by (simp add: start_workers_def Let_def)
  also have "\<dots> = c_count cfg * (2 * c_max_retries cfg + 3) + ?n"
    by (simp add: work_left_def fresh_pool_def pool_frame sum_list_replicate)
  finally show ?thesis .
qed

lemma slices_prefix:
  assumes "c_size cfg = length file"
  shows "concat (map (\<lambda>i. slice file (chunk_start cfg i) (chunk_end cfg i)) [0..<n])
    = slice file 0 (min (n * c_chunk_size cfg) (length file))"
proof (induction n)
  case (Suc n)
  let ?a = "min (n * c_chunk_size cfg) (length file)"
  let ?b = "min (Suc n * c_chunk_size cfg) (length file)"
  have "slice file (chunk_start cfg n) (chunk_end cfg n) = slice file ?a ?b"
    using assms by (auto simp: slice_def chunk_start_def chunk_end_def min_def add.commute)
  moreover have "slice file 0 ?a @ slice file ?a ?b = slice file 0 ?b"
    by (rule slice_append) (auto intro: min.mono)
  ultimately show ?case using Suc by simp
qed (simp add: slice_def)

lemma loaded_sum_list: "loaded_sum cs = sum_list (map ch_loaded cs)"
proof -
  have "foldl (\<lambda>acc s. acc + ch_loaded s) k cs = k + sum_list (map ch_loaded cs)" for k
    by (induction cs arbitrary: k) auto
  then show ?thesis by (simp add: loaded_sum_def)
qed

lemma totals_sum:
  assumes "0 < c_chunk_size cfg" "c_count cfg = ceil_div (c_size cfg) (c_chunk_size cfg)"
  shows "sum_list (map (\<lambda>i. chunk_end cfg i - chunk_start cfg i) [0..<c_count cfg]) = c_size cfg"
proof -
  let ?file = "replicate (c_size cfg) ()"
  have "c_size cfg \<le> c_count cfg * c_chunk_size cfg" using assms ceil_div_upper by simp
  then have "concat (map (\<lambda>i. slice ?file (chunk_start cfg i) (chunk_end cfg i)) [0..<c_count cfg]) = ?file"
    using slices_prefix [of cfg ?file] by (simp add: slice_def min_absorb2)
  then have "length (concat (map (\<lambda>i. slice ?file (chunk_start cfg i) (chunk_end cfg i)) [0..<c_count cfg])) = c_size cfg"
    by (metis length_replicate)
  moreover have "length (slice ?file (chunk_start cfg i) (chunk_end cfg i)) = chunk_end cfg i - chunk_start cfg i" for i
    by (simp add: length_slice chunk_end_def)
  ultimately show ?thesis by (simp add: length_concat o_def)
qed

lemma settled_delivered:
  assumes inv: "pool_inv cfg p" and len: "length (p_workers p) = min (c_concurrency cfg) (c_count cfg)"
    and conc: "0 < c_concurrency cfg" and fin: "pool_settled p" "p_error p = None" and i: "i < c_count cfg"
  shows "delivered (p_chunks p ! i)"
proof -
  have nofail: "\<not> failing p" and unheld: "\<And>w. w < length (p_workers p) \<Longrightarrow> held (p_workers p ! w) = None"
    using fin by (auto simp: failing_def pool_settled_def all_set_conv_all_nth)
  have "0 < length (p_workers p)" using len conc i by simp
  moreover from this fin(1) have "p_workers p ! 0 = Finished" by (simp add: pool_settled_def)
  ultimately have "c_count cfg \<le> p_next p"
    using inv fin(2) unfolding pool_inv_def worker_inv_def by auto
  with inv i have "accounted p i" by (simp add: pool_inv_def claimed_inv_accounted)
  with nofail unheld show ?thesis by (auto simp: accounted_def)
qed

section \<open>Properties\<close>

text \<open>
  C1: the client only goes on to complete an upload after every chunk was accepted. For every
  interleaving of responses, retries, progress events and aborts, once all workers have ended
  without a recorded error, each chunk of the table is marked done with all its bytes counted.
\<close>

theorem upload_all_delivered:
  assumes run: "run_events (pool_step cfg) (start_workers cfg (fresh_pool cfg)) es = Some p"
    and conc: "0 < c_concurrency cfg"
    and fin: "pool_settled p" "p_error p = None"
  shows "length (p_chunks p) = c_count cfg
    \<and> (\<forall>i < c_count cfg. ch_status (p_chunks p ! i) = Done
         \<and> ch_loaded (p_chunks p ! i) = chunk_end cfg i - chunk_start cfg i)"
proof -
  have inv: "pool_inv cfg p" using upload_pool.run_inv [OF run start_workers_inv] .
  have len: "length (p_workers p) = min (c_concurrency cfg) (c_count cfg)"
    using run start_workers_length [of cfg] by (rule run_workers_length)
  have "delivered (p_chunks p ! i)" if "i < c_count cfg" for i
    using settled_delivered [OF inv len conc fin that] .
  with inv show ?thesis unfolding pool_inv_def table_inv_def chunk_ok_def delivered_def by auto
qed


theorem upload_all_delivered_witness:
  "\<exists>p. run_events (pool_step \<lparr>c_size = 10, c_chunk_size = 4, c_count = 3, c_concurrency = 2,
          c_max_retries = 1, c_parse = (\<lambda>_. None)\<rparr>)
        (start_workers \<lparr>c_size = 10, c_chunk_size = 4, c_count = 3, c_concurrency = 2,
          c_max_retries = 1, c_parse = (\<lambda>_. None)\<rparr>
          (fresh_pool \<lparr>c_size = 10, c_chunk_size = 4, c_count = 3, c_concurrency = 2,
          c_max_retries = 1, c_parse = (\<lambda>_. None)\<rparr>))
        [PutDone 1 XhrError, PutProgress 0 3, RafFire, PutDone 0 (XhrLoad 200 [] []), Resume 0, Wake 1,
         PutDone 0 (XhrLoad 201 [] []), PutDone 1 (XhrLoad 200 [] []), Resume 1, Resume 0] = Some p
      \<and> pool_settled p \<and> p_error p = None
      \<and> (\<forall>i < 3. ch_status (p_chunks p ! i) = Done)"
  (is "\<exists>p. run_events (pool_step ?cfg) ?s ?es = Some p \<and> _")
proof -
  have "case run_events (pool_step ?cfg) ?s ?es of None \<Rightarrow> False
      | Some p \<Rightarrow> list_all (\<lambda>pc. pc = Finished) (p_workers p) \<and> p_error p = None"
    by code_simp
  then obtain p where p: "run_events (pool_step ?cfg) ?s ?es = Some p" "pool_settled p" "p_error p = None"
    by (auto simp: pool_settled_def list_all_iff split: option.splits)
  with upload_all_delivered [OF p(1) _ p(2,3)] show ?thesis by auto
qed


text \<open>
  C2: no chunk is transferred by two workers at once, and never more than
  \<^verbatim>\<open>min(concurrency, chunkCount)\<close> transfers are in flight, whatever the interleaving.
\<close>

theorem upload_exclusive:
  assumes run: "run_events (pool_step cfg) (start_workers cfg (fresh_pool cfg)) es = Some p"
  shows "length (p_workers p) = min (c_concurrency cfg) (c_count cfg)
    \<and> (\<forall>w < length (p_workers p). \<forall>v < length (p_workers p). \<forall>i a b.
         p_workers p ! w = Sending i a \<longrightarrow> p_workers p ! v = Sending i b \<longrightarrow> w = v)"
proof -
  have "exclusive p"
    using upload_pool.run_inv [OF run start_workers_inv] by (simp add: pool_inv_def)
  moreover have "length (p_workers p) = min (c_concurrency cfg) (c_count cfg)"
    using run start_workers_length [of cfg] by (rule run_workers_length)
  ultimately show ?thesis unfolding exclusive_def by fastforce
qed

theorem upload_exclusive_witness:
  "\<exists>p. run_events (pool_step \<lparr>c_size = 10, c_chunk_size = 4, c_count = 3, c_concurrency = 2,
          c_max_retries = 1, c_parse = (\<lambda>_. None)\<rparr>)
        (start_workers \<lparr>c_size = 10, c_chunk_size = 4, c_count = 3, c_concurrency = 2,
          c_max_retries = 1, c_parse = (\<lambda>_. None)\<rparr>
          (fresh_pool \<lparr>c_size = 10, c_chunk_size = 4, c_count = 3, c_concurrency = 2,
          c_max_retries = 1, c_parse = (\<lambda>_. None)\<rparr>))
        [PutDone 0 (XhrLoad 200 [] []), Resume 0] = Some p \<and> length (p_workers p) = 2"
  (is "\<exists>p. run_events (pool_step ?cfg) ?s ?es = Some p \<and> _")
proof -
  have "run_events (pool_step ?cfg) ?s ?es \<noteq> None" by code_simp
  then obtain p where p: "run_events (pool_step ?cfg) ?s ?es = Some p" by blast
  with upload_exclusive [OF p] show ?thesis by simp
qed

text \<open>
  C3: an upload always settles. The number of responses, wake-ups and resumptions of any run is
  bounded by the chunk count and the retry limit, and until every worker has ended there is always
  a next one to wait for, so no worker is ever stuck.
\<close>

theorem upload_settles:
  assumes run: "run_events (pool_step cfg) (start_workers cfg (fresh_pool cfg)) es = Some p"
  shows "length (filter is_work es)
      \<le> c_count cfg * (2 * c_max_retries cfg + 3) + min (c_concurrency cfg) (c_count cfg)
    \<and> (pool_settled p \<or> (\<exists>e q. is_work e \<and> pool_step cfg p e = Some q))"
proof
  show "length (filter is_work es)
      \<le> c_count cfg * (2 * c_max_retries cfg + 3) + min (c_concurrency cfg) (c_count cfg)"
    using upload_work.work_bounded [OF start_workers_inv run] start_work_bound [of cfg] by linarith
  have "all_started p" using upload_started.run_inv [OF run start_all_started] .
  then show "pool_settled p \<or> (\<exists>e q. is_work e \<and> pool_step cfg p e = Some q)"
    using work_enabled [of _ p cfg] unfolding pool_settled_def all_started_def
    by (metis in_set_conv_nth)
qed

theorem upload_settles_witness:
  "\<exists>p. run_events (pool_step \<lparr>c_size = 10, c_chunk_size = 4, c_count = 3, c_concurrency = 2,
          c_max_retries = 1, c_parse = (\<lambda>_. None)\<rparr>)
        (start_workers \<lparr>c_size = 10, c_chunk_size = 4, c_count = 3, c_concurrency = 2,
          c_max_retries = 1, c_parse = (\<lambda>_. None)\<rparr>
          (fresh_pool \<lparr>c_size = 10, c_chunk_size = 4, c_count = 3, c_concurrency = 2,
          c_max_retries = 1, c_parse = (\<lambda>_. None)\<rparr>))
        [AbortSignal, PutDone 0 XhrAbort, Resume 0, PutDone 1 XhrAbort, Resume 1] = Some p
      \<and> (pool_settled p \<or> (\<exists>e q. is_work e \<and> pool_step \<lparr>c_size = 10, c_chunk_size = 4, c_count = 3,
           c_concurrency = 2, c_max_retries = 1, c_parse = (\<lambda>_. None)\<rparr> p e = Some q))"
  (is "\<exists>p. run_events (pool_step ?cfg) ?s ?es = Some p \<and> _")
proof -
  have "run_events (pool_step ?cfg) ?s ?es \<noteq> None" by code_simp
  then obtain p where p: "run_events (pool_step ?cfg) ?s ?es = Some p" by blast
  with upload_settles [OF p] show ?thesis by blast
qed

text \<open>
  C4: the chunks cover the file exactly. With the chunk count the server announces for a positive
  chunk size, the blobs cut by \<^verbatim>\<open>file.slice(start, end)\<close> concatenate to the file, and the byte
  totals of the chunk table add up to the file size, which is what progress reports on success.
\<close>

theorem chunk_slices_partition:
  assumes "0 < c_chunk_size cfg" "c_size cfg = length file"
    "c_count cfg = ceil_div (c_size cfg) (c_chunk_size cfg)"
  shows "concat (map (\<lambda>i. slice file (chunk_start cfg i) (chunk_end cfg i)) [0..<c_count cfg]) = file
    \<and> sum_list (map ch_total (initial_chunks cfg)) = c_size cfg"
proof
  have "length file \<le> c_count cfg * c_chunk_size cfg" using assms ceil_div_upper by simp
  then show "concat (map (\<lambda>i. slice file (chunk_start cfg i) (chunk_end cfg i)) [0..<c_count cfg]) = file"
    using slices_prefix [OF assms(2)] by (simp add: min_absorb2)
  show "sum_list (map ch_total (initial_chunks cfg)) = c_size cfg"
    using totals_sum [OF assms(1,3)] by (simp add: initial_chunks_def initial_chunk_def o_def)
qed

theorem chunk_slices_partition_witness:
  "concat (map (\<lambda>i. slice ''abcdefghij'' (chunk_start \<lparr>c_size = 10, c_chunk_size = 4, c_count = 3,
      c_concurrency = 2, c_max_retries = 1, c_parse = (\<lambda>_. None)\<rparr> i)
      (chunk_end \<lparr>c_size = 10, c_chunk_size = 4, c_count = 3,
      c_concurrency = 2, c_max_retries = 1, c_parse = (\<lambda>_. None)\<rparr> i)) [0..<3]) = ''abcdefghij''"
  using chunk_slices_partition [of "\<lparr>c_size = 10, c_chunk_size = 4, c_count = 3,
      c_concurrency = 2, c_max_retries = 1, c_parse = (\<lambda>_. None)\<rparr>" "''abcdefghij''"]
  by (simp add: ceil_div_def)

text \<open>
  Once a failure is recorded or the user aborts, no further transfer starts: every transfer in
  flight after any step was already in flight before it.
\<close>

lemma no_transfer_after_failure:
  assumes "pool_step cfg p e = Some q" "p_error p \<noteq> None \<or> p_aborted p"
    and "w < length (p_workers p)" "p_workers q ! w = Sending i a"
  shows "p_workers p ! w = Sending i a"
  using assms
  by (cases e)
     (auto split: if_splits worker_pc.splits option.splits
        simp: put_done_def wake_def worker_resume_def worker_loop_def attempt_head_def put_progress_def
          Let_def pool_frame nth_list_update)

text \<open>
  The table stays within bounds at every moment of every run: no chunk is attempted more than
  \<^verbatim>\<open>maxRetries + 1\<close> times, never reports more bytes than it has, and chunks not yet claimed are
  untouched.
\<close>

lemma upload_table_bounds:
  assumes "run_events (pool_step cfg) (start_workers cfg (fresh_pool cfg)) es = Some p" "i < c_count cfg"
  shows "ch_attempt (p_chunks p ! i) \<le> c_max_retries cfg + 1
    \<and> ch_loaded (p_chunks p ! i) \<le> chunk_end cfg i - chunk_start cfg i
    \<and> (p_next p \<le> i \<longrightarrow> p_chunks p ! i = initial_chunk cfg i)"
proof -
  have "table_inv cfg p"
    using upload_pool.run_inv [OF assms(1) start_workers_inv] by (simp add: pool_inv_def)
  with assms(2) show ?thesis unfolding table_inv_def chunk_ok_def by auto
qed

text \<open>
  The suggested part size is positive and never above the server limit, never larger than a
  non-empty file, and cuts every file of at least the multi-part threshold (except one of exactly
  8 MiB) into at least two parts; the suggested concurrency is between one and six and never above
  the number of parts.
\<close>

lemma suggested_sizes:
  "0 < suggestChunkSize x \<and> suggestChunkSize x \<le> MAX_CHUNK_SIZE
    \<and> (0 < num_or_zero x \<longrightarrow> suggestChunkSize x \<le> num_or_zero x)
    \<and> (8 * 1024 * 1024 < num_or_zero x \<longrightarrow> 2 * suggestChunkSize x \<le> num_or_zero x)
    \<and> 1 \<le> suggestConcurrency x n \<and> suggestConcurrency x n \<le> 6
    \<and> suggestConcurrency x n \<le> max 1 (num_or_zero n)"
  by (auto simp: suggestChunkSize_def suggestConcurrency_def Let_def chunk_constants)

end
