(* ===== verification/Uri_Codec.thy ===== *)
theory Uri_Codec
  imports Js_Prelude
begin

text \<open>
  The URI component codec of the language (\<^verbatim>\<open>encodeURIComponent\<close>, \<^verbatim>\<open>decodeURIComponent\<close>) on UTF-16
  code units, and the path helpers of \<^verbatim>\<open>js/browser/utils.js\<close> and \<^verbatim>\<open>js/profile-links.js\<close> built on it.

  A string is a list of code units (\<^typ>\<open>nat list\<close>, each below 65536); \<^verbatim>\<open>ustr\<close> turns a literal into
  one. Both codec functions are partial: \<^term>\<open>None\<close> is the \<^verbatim>\<open>URIError\<close> the language throws on a
  lone surrogate or a malformed escape. The interface \<^verbatim>\<open>component_codec\<close> states what the path
  builders rely on; it is discharged for the language's codec and for the variant that keeps
  \<^verbatim>\<open>+\<close> readable.
\<close>

type_synonym ustring = "nat list"

definition ustr :: "string \<Rightarrow> ustring" where
  "ustr s = map of_char s"

definition units_ok :: "ustring \<Rightarrow> bool" where
  "units_ok s = (\<forall>u \<in> set s. u < 65536)"

text \<open>White space of \<^verbatim>\<open>trim\<close> and of the pattern class \<^verbatim>\<open>\s\<close>.\<close>

definition unit_space :: "nat \<Rightarrow> bool" where
  "unit_space u = ((9 \<le> u \<and> u \<le> 13) \<or> (8192 \<le> u \<and> u \<le> 8202)
     \<or> u \<in> {32, 160, 5760, 8232, 8233, 8239, 8287, 12288, 65279})"

definition utrim :: "ustring \<Rightarrow> ustring" where
  "utrim s = trim_by unit_space s"

section \<open>UTF-8 and UTF-16\<close>

definition is_high :: "nat \<Rightarrow> bool" where "is_high u = (55296 \<le> u \<and> u < 56320)"
definition is_low :: "nat \<Rightarrow> bool" where "is_low u = (56320 \<le> u \<and> u < 57344)"

definition pair_point :: "nat \<Rightarrow> nat \<Rightarrow> nat" where
  "pair_point h l = (h - 55296) * 1024 + (l - 56320) + 65536"

definition utf16_units :: "nat \<Rightarrow> ustring" where
  "utf16_units cp = (if cp < 65536 then [cp]
     else [55296 + (cp - 65536) div 1024, 56320 + (cp - 65536) mod 1024])"

definition utf8_bytes :: "nat \<Rightarrow> nat list" where
  "utf8_bytes cp =
     (if cp < 128 then [cp]
      else if cp < 2048 then [192 + cp div 64, 128 + cp mod 64]
      else if cp < 65536 then [224 + cp div 4096, 128 + cp div 64 mod 64, 128 + cp mod 64]
      else [240 + cp div 262144, 128 + cp div 4096 mod 64, 128 + cp div 64 mod 64, 128 + cp mod 64])"

text \<open>How many continuation bytes a lead byte announces.\<close>

definition utf8_need :: "nat \<Rightarrow> nat option" where
  "utf8_need b =
     (if b < 192 then None else if b < 224 then Some 1 else if b < 240 then Some 2
      else if b < 248 then Some 3 else None)"

text \<open>The code point of a complete sequence: overlong forms, surrogates and values above
  U+10FFFF are rejected.\<close>

fun utf8_point :: "nat list \<Rightarrow> nat option" where
  "utf8_point [a, b] =
     (let cp = (a - 192) * 64 + (b - 128) in if 128 \<le> cp then Some cp else None)"
| "utf8_point [a, b, c] =
     (let cp = (a - 224) * 4096 + (b - 128) * 64 + (c - 128)
      in if 2048 \<le> cp \<and> \<not> is_high cp \<and> \<not> is_low cp then Some cp else None)"
| "utf8_point [a, b, c, d] =
     (let cp = (a - 240) * 262144 + (b - 128) * 4096 + (c - 128) * 64 + (d - 128)
      in if 65536 \<le> cp \<and> cp < 1114112 then Some cp else None)"
| "utf8_point _ = None"

section \<open>Percent escapes\<close>

definition hex_digit :: "nat \<Rightarrow> nat" where
  "hex_digit n = (if n < 10 then 48 + n else 55 + n)"

definition hex_value :: "nat \<Rightarrow> nat option" where
  "hex_value u = (if 48 \<le> u \<and> u \<le> 57 then Some (u - 48)
     else if 65 \<le> u \<and> u \<le> 70 then Some (u - 55)
     else if 97 \<le> u \<and> u \<le> 102 then Some (u - 87) else None)"

definition pct :: "nat \<Rightarrow> ustring" where
  "pct b = [37, hex_digit (b div 16), hex_digit (b mod 16)]"

text \<open>Letters, digits and \<^verbatim>\<open>- _ . ! ~ * ' ( )\<close>.\<close>

definition uri_unreserved :: "nat \<Rightarrow> bool" where
  "uri_unreserved u = ((48 \<le> u \<and> u \<le> 57) \<or> (65 \<le> u \<and> u \<le> 90) \<or> (97 \<le> u \<and> u \<le> 122)
     \<or> u \<in> {45, 95, 46, 33, 126, 42, 39, 40, 41})"

fun encode_with :: "(nat \<Rightarrow> bool) \<Rightarrow> ustring \<Rightarrow> ustring option" where
  "encode_with keep [] = Some []"
| "encode_with keep (u # us) =
     (if keep u then map_option ((#) u) (encode_with keep us)
      else if is_low u then None
      else if is_high u then
        (case us of
           [] \<Rightarrow> None
         | v # vs \<Rightarrow> if is_low v
             then map_option ((@) (concat (map pct (utf8_bytes (pair_point u v))))) (encode_with keep vs)
             else None)
      else map_option ((@) (concat (map pct (utf8_bytes u)))) (encode_with keep us))"

definition encodeURIComponent :: "ustring \<Rightarrow> ustring option" where
  "encodeURIComponent s = encode_with uri_unreserved s"

text \<open>One escape, and \<open>n\<close> escaped continuation bytes.\<close>

fun read_escape :: "ustring \<Rightarrow> (nat \<times> ustring) option" where
  "read_escape (p # h # l # rest) =
     (if p = 37 then
        (case (hex_value h, hex_value l) of (Some a, Some b) \<Rightarrow> Some (16 * a + b, rest) | _ \<Rightarrow> None)
      else None)"
| "read_escape _ = None"

fun read_continuation :: "nat \<Rightarrow> ustring \<Rightarrow> (nat list \<times> ustring) option" where
  "read_continuation 0 s = Some ([], s)"
| "read_continuation (Suc n) s =
     (case read_escape s of
        None \<Rightarrow> None
      | Some (b, rest) \<Rightarrow>
          if 128 \<le> b \<and> b < 192
          then map_option (\<lambda>(bs, r). (b # bs, r)) (read_continuation n rest) else None)"

lemma read_escape_length: "read_escape s = Some (b, r) \<Longrightarrow> length r < length s"
  by (cases s rule: read_escape.cases) (auto split: if_splits option.splits)

lemma read_continuation_length: "read_continuation n s = Some (bs, r) \<Longrightarrow> length r \<le> length s"
proof (induction n arbitrary: s bs r)
  case (Suc n)
  then obtain b rest bs' where e: "read_escape s = Some (b, rest)" "read_continuation n rest = Some (bs', r)"
    by (auto split: option.splits if_splits)
  from Suc.IH [OF e(2)] read_escape_length [OF e(1)] show ?case by simp
qed simp

function decodeURIComponent :: "ustring \<Rightarrow> ustring option" where
  "decodeURIComponent [] = Some []"
| "decodeURIComponent (u # us) =
     (if u \<noteq> 37 then map_option ((#) u) (decodeURIComponent us)
      else case read_escape (u # us) of
          None \<Rightarrow> None
        | Some (b, rest) \<Rightarrow>
            if b < 128 then map_option ((#) b) (decodeURIComponent rest)
            else case utf8_need b of
                None \<Rightarrow> None
              | Some n \<Rightarrow>
                  (case read_continuation n rest of
                     None \<Rightarrow> None
                   | Some (bs, r) \<Rightarrow>
                       (case utf8_point (b # bs) of
                          None \<Rightarrow> None
                        | Some cp \<Rightarrow> map_option ((@) (utf16_units cp)) (decodeURIComponent r))))"
  by pat_completeness auto
termination
  by (relation "measure length")
     (auto dest!: read_escape_length read_continuation_length simp del: read_escape.simps)

declare decodeURIComponent.simps [simp del]

section \<open>Decoding inverts encoding\<close>

lemma hex_value_digit [simp]: "n < 16 \<Longrightarrow> hex_value (hex_digit n) = Some n"
  by (auto simp: hex_value_def hex_digit_def)

lemma read_escape_pct: "b < 256 \<Longrightarrow> read_escape (pct b @ r) = Some (b, r)"
  by (simp add: pct_def)

lemma decode_pct_ascii: "b < 128 \<Longrightarrow> decodeURIComponent (pct b @ r) = map_option ((#) b) (decodeURIComponent r)"
  using read_escape_pct [of b r] by (simp add: pct_def decodeURIComponent.simps)

lemma decode_plain: "u \<noteq> 37 \<Longrightarrow> decodeURIComponent (u # r) = map_option ((#) u) (decodeURIComponent r)"
  by (simp add: decodeURIComponent.simps)

lemma decode_multi:
  assumes "128 \<le> b" "b < 256" "utf8_need b = Some (length bs)" "\<forall>c \<in> set bs. 128 \<le> c \<and> c < 192"
    and "utf8_point (b # bs) = Some cp"
  shows "decodeURIComponent (pct b @ concat (map pct bs) @ r) = map_option ((@) (utf16_units cp)) (decodeURIComponent r)"
proof -
  have cont: "read_continuation (length cs) (concat (map pct cs) @ r) = Some (cs, r)"
    if "\<forall>c \<in> set cs. 128 \<le> c \<and> c < 192" for cs
    using that by (induction cs) (auto simp: read_escape_pct simp del: read_escape.simps)
  show ?thesis
    using assms cont [OF assms(4)] read_escape_pct [of b "concat (map pct bs) @ r"]
    by (simp add: pct_def decodeURIComponent.simps del: read_escape.simps)
qed

lemma base64_digits2: "(n div 4096) * 4096 + (n div 64 mod 64) * 64 + n mod 64 = (n :: nat)"
proof -
  have q: "n div 4096 = n div 64 div 64" by (simp add: div_mult2_eq [symmetric])
  have "(n div 4096) * 4096 + (n div 64 mod 64) * 64 + n mod 64
      = (n div 64 div 64 * 64 + n div 64 mod 64) * 64 + n mod 64"
    unfolding q by (simp only: distrib_right mult.assoc)
  then show ?thesis by (simp only: div_mult_mod_eq)
qed

lemma base64_digits3:
  "(n div 262144) * 262144 + (n div 4096 mod 64) * 4096 + (n div 64 mod 64) * 64 + n mod 64 = (n :: nat)"
proof -
  have q: "n div 262144 = n div 64 div 4096" "n div 4096 = n div 64 div 64"
    by (simp_all add: div_mult2_eq [symmetric])
  have "(n div 262144) * 262144 + (n div 4096 mod 64) * 4096 + (n div 64 mod 64) * 64 + n mod 64
      = (n div 64 div 4096 * 4096 + (n div 64 div 64 mod 64) * 64 + n div 64 mod 64) * 64 + n mod 64"
    unfolding q by (simp only: distrib_right mult.assoc)
  then show ?thesis by (simp only: base64_digits2 div_mult_mod_eq)
qed

lemma decode_utf8_bytes:
  assumes "cp < 1114112" "\<not> is_high cp" "\<not> is_low cp"
  shows "decodeURIComponent (concat (map pct (utf8_bytes cp)) @ r)
    = map_option ((@) (utf16_units cp)) (decodeURIComponent r)"
proof -
  consider "cp < 128" | "128 \<le> cp" "cp < 2048" | "2048 \<le> cp" "cp < 65536" | "65536 \<le> cp" by linarith
  then show ?thesis
  proof cases
    case 1
    then show ?thesis
      by (cases "decodeURIComponent r") (simp_all add: utf8_bytes_def decode_pct_ascii utf16_units_def)
  next
    case 2
    have "(cp div 64) * 64 + cp mod 64 = cp" by simp
    moreover have "cp div 64 < 32" "2 \<le> cp div 64" using 2 by auto
    ultimately show ?thesis
      using decode_multi [of "192 + cp div 64" "[128 + cp mod 64]" cp r] 2
      by (simp add: utf8_bytes_def utf8_need_def Let_def)
  next
    case 3
    note base64_digits2 [of cp]
    moreover have "cp div 4096 < 16" using 3 by auto
    ultimately show ?thesis
      using decode_multi [of "224 + cp div 4096" "[128 + cp div 64 mod 64, 128 + cp mod 64]" cp r] 3 assms
      by (simp add: utf8_bytes_def utf8_need_def Let_def)
  next
    case 4
    note base64_digits3 [of cp]
    moreover have "cp div 262144 < 5" using assms by auto
    ultimately show ?thesis
      using decode_multi [of "240 + cp div 262144" "[128 + cp div 4096 mod 64, 128 + cp div 64 mod 64, 128 + cp mod 64]" cp r] 4 assms
      by (simp add: utf8_bytes_def utf8_need_def Let_def)
  qed
qed


lemma pair_point_range: "is_high u \<Longrightarrow> is_low v \<Longrightarrow> 65536 \<le> pair_point u v \<and> pair_point u v < 1114112"
  by (auto simp: pair_point_def is_high_def is_low_def)

lemma pair_point_units: "is_high u \<Longrightarrow> is_low v \<Longrightarrow> utf16_units (pair_point u v) = [u, v]"
proof -
  assume "is_high u" "is_low v"
  then obtain a b where "u = 55296 + a" "v = 56320 + b" "b < 1024"
    by (auto simp: is_high_def is_low_def le_iff_add)
  then show ?thesis by (simp add: pair_point_def utf16_units_def)
qed

lemma units_ok_Cons [simp]: "units_ok (u # us) \<longleftrightarrow> u < 65536 \<and> units_ok us"
  by (simp add: units_ok_def)

lemma encode_with_Cons_cases:
  assumes "encode_with keep (u # us) = Some e"
  obtains (kept) f where "keep u" "encode_with keep us = Some f" "e = u # f"
  | (plain) f where "\<not> keep u" "\<not> is_low u" "\<not> is_high u" "encode_with keep us = Some f"
      "e = concat (map pct (utf8_bytes u)) @ f"
  | (pair) v vs f where "\<not> keep u" "is_high u" "us = v # vs" "is_low v" "encode_with keep vs = Some f"
      "e = concat (map pct (utf8_bytes (pair_point u v))) @ f"
  using assms by (auto split: if_splits list.splits)

lemma decode_encode_with:
  assumes keep: "\<And>u. keep u \<Longrightarrow> u \<noteq> 37"
  shows "units_ok s \<Longrightarrow> encode_with keep s = Some e \<Longrightarrow> decodeURIComponent e = Some s"
proof (induction s arbitrary: e rule: length_induct)
  case (1 s)
  show ?case
  proof (cases s)
    case Nil
    with 1 show ?thesis by (simp add: decodeURIComponent.simps)
  next
    case (Cons u us)
    from 1(3) have "encode_with keep (u # us) = Some e" by (simp add: Cons)
    then show ?thesis
    proof (cases rule: encode_with_Cons_cases)
      case (kept f)
      with 1 Cons have "decodeURIComponent f = Some us" by simp
      with kept keep Cons show ?thesis by (simp add: decode_plain)
    next
      case (plain f)
      with 1 Cons have "decodeURIComponent f = Some us" by simp
      moreover have "u < 65536" using 1(2) Cons by simp
      ultimately show ?thesis
        using plain Cons by (simp add: decode_utf8_bytes utf16_units_def)
    next
      case (pair v vs f)
      with 1 Cons have "decodeURIComponent f = Some vs" by simp
      moreover have "pair_point u v < 1114112" "\<not> is_high (pair_point u v)" "\<not> is_low (pair_point u v)"
        using pair_point_range [OF pair(2,4)] by (auto simp: is_high_def is_low_def)
      ultimately show ?thesis
        using pair Cons by (simp add: decode_utf8_bytes pair_point_units)
    qed
  qed
qed

section \<open>What encoded text can contain\<close>

definition uri_safe :: "nat \<Rightarrow> bool" where
  "uri_safe u = (uri_unreserved u \<or> u = 37)"

lemma hex_digit_safe: "n < 16 \<Longrightarrow> uri_safe (hex_digit n)"
  by (simp add: uri_safe_def uri_unreserved_def hex_digit_def)

lemma pct_safe: "b < 256 \<Longrightarrow> x \<in> set (pct b) \<Longrightarrow> uri_safe x"
  using hex_digit_safe [of "b div 16"] hex_digit_safe [of "b mod 16"] less_mult_imp_div_less [of b 16 16]
  by (auto simp: pct_def uri_safe_def [of 37])

lemma utf8_bytes_bound:
  assumes "cp < 1114112" "b \<in> set (utf8_bytes cp)"
  shows "b < 256"
proof -
  have "128 + n mod 64 < (256 :: nat)" for n using mod_less_divisor [of 64 n] by simp
  moreover have "cp < 2048 \<Longrightarrow> 192 + cp div 64 < 256" using less_mult_imp_div_less [of cp 32 64] by simp
  moreover have "cp < 65536 \<Longrightarrow> 224 + cp div 4096 < 256" using less_mult_imp_div_less [of cp 16 4096] by simp
  moreover have "240 + cp div 262144 < 256" using less_mult_imp_div_less [of cp 5 262144] assms(1) by simp
  ultimately show ?thesis using assms(2) by (auto simp: utf8_bytes_def split: if_splits)
qed

lemma escaped_safe: "cp < 1114112 \<Longrightarrow> x \<in> set (concat (map pct (utf8_bytes cp))) \<Longrightarrow> uri_safe x"
  using pct_safe utf8_bytes_bound by auto

lemma encode_with_safe:
  "units_ok s \<Longrightarrow> encode_with keep s = Some e \<Longrightarrow> x \<in> set e \<Longrightarrow> keep x \<or> uri_safe x"
proof (induction s arbitrary: e rule: length_induct)
  case (1 s)
  show ?case
  proof (cases s)
    case Nil
    with 1 show ?thesis by simp
  next
    case (Cons u us)
    from 1(3) have "encode_with keep (u # us) = Some e" by (simp add: Cons)
    then show ?thesis
    proof (cases rule: encode_with_Cons_cases)
      case (kept f)
      with 1 Cons show ?thesis by auto
    next
      case (plain f)
      then have "x \<in> set (concat (map pct (utf8_bytes u))) \<or> x \<in> set f" using 1(4) by auto
      then show ?thesis
      proof
        assume "x \<in> set f"
        with 1 Cons plain show ?thesis by auto
      qed (use 1(2) Cons escaped_safe [of u x] in simp)
    next
      case (pair v vs f)
      then have "x \<in> set (concat (map pct (utf8_bytes (pair_point u v)))) \<or> x \<in> set f"
        using 1(4) by auto
      then show ?thesis
      proof
        assume "x \<in> set f"
        moreover have "length vs < length s" "units_ok vs" using 1(2) Cons pair by auto
        ultimately show ?thesis using 1(1) pair(5) by blast
      qed (use pair_point_range [OF pair(2,4)] escaped_safe [of "pair_point u v" x] in simp)
    qed
  qed
qed

text \<open>Encoding only fails on a lone surrogate; strings without surrogates always encode.\<close>

lemma encode_with_total: "\<forall>u \<in> set s. \<not> is_high u \<and> \<not> is_low u \<Longrightarrow> encode_with keep s \<noteq> None"
  by (induction s) auto


section \<open>The interface of a component codec\<close>

locale component_codec =
  fixes enc :: "ustring \<Rightarrow> ustring option"
    and dec :: "ustring \<Rightarrow> ustring option"
    and safe :: "nat \<Rightarrow> bool"
  assumes dec_enc: "units_ok s \<Longrightarrow> enc s = Some e \<Longrightarrow> dec e = Some s"
    and enc_safe: "units_ok s \<Longrightarrow> enc s = Some e \<Longrightarrow> x \<in> set e \<Longrightarrow> safe x"
    and dec_Nil: "dec [] = Some []"
begin

lemma enc_inj: "units_ok s \<Longrightarrow> units_ok t \<Longrightarrow> enc s = Some e \<Longrightarrow> enc t = Some e \<Longrightarrow> s = t"
  by (metis dec_enc option.inject)

lemma enc_nonempty: "units_ok s \<Longrightarrow> enc s = Some e \<Longrightarrow> s \<noteq> [] \<Longrightarrow> e \<noteq> []"
  by (metis dec_enc dec_Nil option.inject)

lemma those_dec:
  "\<forall>x \<in> set xs. units_ok x \<Longrightarrow> those (map enc xs) = Some es \<Longrightarrow>
     those (map dec es) = Some xs \<and> (\<forall>e \<in> set es. \<forall>x \<in> set e. safe x)
     \<and> ((\<forall>x \<in> set xs. x \<noteq> []) \<longrightarrow> (\<forall>e \<in> set es. e \<noteq> []))"
proof (induction xs arbitrary: es)
  case (Cons x xs)
  then obtain e fs where e: "enc x = Some e" "those (map enc xs) = Some fs" "es = e # fs"
    by (auto split: option.splits)
  from Cons.IH [OF _ e(2)] Cons.prems(1) e show ?case
    using dec_enc [of x e] enc_safe [of x e] enc_nonempty [of x e] by auto
qed simp

text \<open>Segments joined by a separator the codec never emits can be split and decoded again.\<close>

lemma path_roundtrip:
  assumes "\<not> safe sep" "xs \<noteq> []" "\<forall>x \<in> set xs. units_ok x" "those (map enc xs) = Some es"
  shows "js_split sep (js_join [sep] es) = es \<and> those (map dec es) = Some xs"
proof -
  have es: "those (map dec es) = Some xs" "\<forall>e \<in> set es. \<forall>x \<in> set e. safe x"
    using those_dec [OF assms(3,4)] by auto
  have "es \<noteq> []" using assms(2) es(1) by auto
  moreover have "\<forall>e \<in> set es. sep \<notin> set e" using es(2) assms(1) by auto
  ultimately show ?thesis using es(1) by (simp add: js_split_join)
qed

end

text \<open>\<^verbatim>\<open>encodeURIComponent\<close> on a string of code units up to U+00FF, where it never throws.\<close>

definition encode_component :: "string \<Rightarrow> string" where
  "encode_component s = (case encodeURIComponent (ustr s) of None \<Rightarrow> [] | Some e \<Rightarrow> map char_of e)"

lemma encode_component_total: "encodeURIComponent (ustr s) \<noteq> None"
  unfolding encodeURIComponent_def
proof (rule encode_with_total)
  have "of_char c < (256 :: nat)" for c by (simp add: of_char_def)
  then have "\<not> is_high (of_char c) \<and> \<not> is_low (of_char c)" for c
    using less_le_trans [of "of_char c :: nat" 256 55296] less_le_trans [of "of_char c :: nat" 256 56320]
    by (simp add: is_high_def is_low_def not_le)
  then show "\<forall>u \<in> set (ustr s). \<not> is_high u \<and> \<not> is_low u" by (simp add: ustr_def)
qed

section \<open>Path helpers\<close>

text \<open>\<^verbatim>\<open>encodeURIComponent(segment).replace(/%2B/g, '+')\<close>.\<close>

definition encodePathSegment :: "ustring \<Rightarrow> ustring option" where
  "encodePathSegment segment = map_option (replace_all (ustr ''%2B'') (ustr ''+'')) (encodeURIComponent segment)"

definition path_parts :: "ustring \<Rightarrow> ustring list" where
  "path_parts path = filter (\<lambda>part. 0 < length part) (js_split 47 path)"

definition encodeRelativePath :: "ustring \<Rightarrow> ustring option" where
  "encodeRelativePath path = map_option (js_join [47]) (those (map encodePathSegment (path_parts path)))"

definition decodePathSegment :: "ustring \<Rightarrow> ustring" where
  "decodePathSegment segment = (case decodeURIComponent segment of None \<Rightarrow> segment | Some s \<Rightarrow> s)"

definition breadcrumbPathParts :: "ustring \<Rightarrow> string \<Rightarrow> ustring list" where
  "breadcrumbPathParts path format =
     (let parts = path_parts path
      in if format = ''docker'' \<and> 1 < length parts then [parts ! 0, js_join [47] (drop 1 parts)]
         else if format = ''npm'' \<and> 2 < length parts \<and> decodePathSegment (parts ! 1) = ustr ''packages''
         then [parts ! 0, parts ! 1, js_join [47] (drop 2 parts)]
         else parts)"

record package_resource =
  pr_format :: string
  pr_repository :: ustring
  pr_name :: ustring

definition packageResourceTarget :: "package_resource \<Rightarrow> ustring option" where
  "packageResourceTarget resource =
     (case those (map encodeURIComponent (path_parts (pr_name resource))) of
        None \<Rightarrow> None
      | Some segs \<Rightarrow>
          let name = js_join [47] segs
          in if pr_format resource = ''maven'' then Some (ustr ''/domain/'' @ name)
             else case encodeURIComponent (pr_repository resource) of
                 None \<Rightarrow> None
               | Some repository \<Rightarrow>
                   if pr_format resource = ''cargo'' \<or> pr_format resource = ''npm''
                   then Some (ustr ''/'' @ repository @ ustr ''/packages/'' @ name)
                   else Some (ustr ''/'' @ repository @ ustr ''/'' @ name))"

section \<open>The codecs of the program\<close>

definition path_keep :: "nat \<Rightarrow> bool" where
  "path_keep u = (uri_unreserved u \<or> u = 43)"

lemma hex_digit_bounds: "n < 16 \<Longrightarrow> hex_digit n \<noteq> 37"
  by (simp add: hex_digit_def)

lemma hex_digit_inj: "n < 16 \<Longrightarrow> m < 16 \<Longrightarrow> hex_digit n = hex_digit m \<longleftrightarrow> n = m"
  by (simp add: hex_digit_def)

lemma plus_escape: "ustr ''%2B'' = pct 43" "ustr ''+'' = [43]"
  by (simp_all add: ustr_def pct_def hex_digit_def)

lemma replace_pct:
  assumes "b < 256"
  shows "replace_all (pct 43) [43] (pct b @ f) = (if b = 43 then [43] else pct b) @ replace_all (pct 43) [43] f"
proof (cases "b = 43")
  case True
  have "pct 43 \<noteq> []" by (simp add: pct_def)
  with True show ?thesis by (simp add: replace_all_hit)
next
  case False
  have d: "b div 16 < 16" using less_mult_imp_div_less [of b 16 16] assms by simp
  have "b div 16 \<noteq> 2 \<or> b mod 16 \<noteq> 11"
    using False div_mult_mod_eq [of b 16] by fastforce
  then have "\<not> prefix (pct 43) (pct b @ f)"
    using d hex_digit_inj [of "b div 16" 2] hex_digit_inj [of "b mod 16" 11] by (auto simp: pct_def)
  moreover have "hex_digit (b div 16) \<noteq> 37" "hex_digit (b mod 16) \<noteq> 37"
    using d by (simp_all add: hex_digit_bounds)
  ultimately show ?thesis
    using False by (simp add: pct_def replace_all.simps(2) [of _ _ 37] replace_all_skip)
qed

lemma replace_pcts:
  "\<forall>b \<in> set bs. b < 256 \<and> b \<noteq> 43 \<Longrightarrow>
     replace_all (pct 43) [43] (concat (map pct bs) @ f) = concat (map pct bs) @ replace_all (pct 43) [43] f"
  by (induction bs) (auto simp: replace_pct)

lemma utf8_bytes_high: "128 \<le> cp \<Longrightarrow> b \<in> set (utf8_bytes cp) \<Longrightarrow> 128 \<le> b"
  by (auto simp: utf8_bytes_def split: if_splits)

lemma replace_escaped:
  assumes "cp < 1114112"
  shows "replace_all (pct 43) [43] (concat (map pct (utf8_bytes cp)) @ f)
    = (if cp = 43 then [43] else concat (map pct (utf8_bytes cp))) @ replace_all (pct 43) [43] f"
proof (cases "cp < 128")
  case True
  then show ?thesis by (simp add: utf8_bytes_def replace_pct)
next
  case False
  then have "\<forall>b \<in> set (utf8_bytes cp). b < 256 \<and> b \<noteq> 43"
    using utf8_bytes_bound [OF assms] utf8_bytes_high [of cp] by fastforce
  with False show ?thesis by (simp add: replace_pcts)
qed

lemma unreserved_not_plus: "\<not> uri_unreserved 43" "\<not> uri_unreserved 37" "\<not> uri_unreserved 47"
  by (simp_all add: uri_unreserved_def)

lemma map_option_eq_map: "map_option r x = y \<Longrightarrow> (\<And>z. r (g z) = h (r z)) \<Longrightarrow> map_option r (map_option g x) = map_option h y"
  by (cases x) auto

lemma replace_encode:
  "units_ok s \<Longrightarrow> map_option (replace_all (pct 43) [43]) (encode_with uri_unreserved s) = encode_with path_keep s"
proof (induction path_keep s rule: encode_with.induct)
  case (2 u us)
  have keep: "path_keep u \<longleftrightarrow> uri_unreserved u \<or> u = 43" and u: "u < 65536" and us: "units_ok us"
    using "2.prems" by (simp_all add: path_keep_def)
  have plus: "\<not> is_low 43" "\<not> is_high 43" by (simp_all add: is_low_def is_high_def)
  consider "uri_unreserved u" | "u = 43" | "\<not> path_keep u" using keep by blast
  then show ?case
  proof cases
    case 1
    with unreserved_not_plus have "u \<noteq> hd (pct 43)" by (auto simp: pct_def)
    then have "replace_all (pct 43) [43] (u # f) = u # replace_all (pct 43) [43] f" for f
      by (intro replace_all_skip) (simp_all add: pct_def)
    with 1 keep us "2.hyps"(1) show ?thesis
      by (simp del: option.map_comp) (rule map_option_eq_map; simp)
  next
    case 2
    have "path_keep u" using keep 2 by simp
    with 2 plus unreserved_not_plus us "2.hyps"(1) replace_escaped [of 43] show ?thesis
      by (simp del: option.map_comp) (rule map_option_eq_map; simp)
  next
    case 3
    show ?thesis
    proof (cases "is_high u")
      case False
      with 3 keep us u "2.hyps"(3) replace_escaped [of u] show ?thesis
        by (auto simp del: option.map_comp intro: map_option_eq_map)
    next
      case True
      have "pair_point u v < 1114112 \<and> pair_point u v \<noteq> 43" if "is_low v" for v
        using pair_point_range [OF True that] by simp
      with True 3 keep us "2.hyps"(2) replace_escaped show ?thesis
        by (auto simp del: option.map_comp intro: map_option_eq_map split: list.splits)
    qed
  qed
qed simp

lemma encodePathSegment_keep: "units_ok s \<Longrightarrow> encodePathSegment s = encode_with path_keep s"
  using replace_encode by (simp add: encodePathSegment_def encodeURIComponent_def plus_escape)

interpretation uri: component_codec encodeURIComponent decodeURIComponent uri_safe
proof unfold_locales
  fix s e assume s: "units_ok s" "encodeURIComponent s = Some e"
  then show "decodeURIComponent e = Some s"
    unfolding encodeURIComponent_def using unreserved_not_plus by (intro decode_encode_with) auto
  fix x assume "x \<in> set e"
  with s show "uri_safe x"
    unfolding encodeURIComponent_def using encode_with_safe uri_safe_def by blast
qed (simp add: decodeURIComponent.simps)

interpretation segment: component_codec encodePathSegment decodeURIComponent "\<lambda>x. uri_safe x \<or> x = 43"
proof unfold_locales
  fix s e assume s: "units_ok s" "encodePathSegment s = Some e"
  then have e: "encode_with path_keep s = Some e" by (simp add: encodePathSegment_keep)
  then show "decodeURIComponent e = Some s"
    using s unreserved_not_plus by (intro decode_encode_with) (auto simp: path_keep_def)
  fix x assume "x \<in> set e"
  with s(1) e show "uri_safe x \<or> x = 43"
    using encode_with_safe [of s path_keep e x] by (auto simp: path_keep_def uri_safe_def)
qed (simp add: decodeURIComponent.simps)

section \<open>Properties of the path helpers\<close>

lemmas codec_eval = ustr_def path_parts_def encodeRelativePath_def encodePathSegment_def encodeURIComponent_def
  uri_unreserved_def is_high_def is_low_def utf8_bytes_def pct_def hex_digit_def replace_all.simps

lemma path_parts_units: "units_ok p \<Longrightarrow> x \<in> set (path_parts p) \<Longrightarrow> units_ok x \<and> x \<noteq> []"
  using js_split_elems [of _ 47 p] by (fastforce simp: path_parts_def units_ok_def)

lemma path_parts_join:
  assumes "\<forall>e \<in> set es. e \<noteq> [] \<and> 47 \<notin> set e"
  shows "path_parts (js_join [47] es) = es"
proof (cases "es = []")
  case True
  then show ?thesis by (simp add: path_parts_def)
next
  case False
  with assms have "js_split 47 (js_join [47] es) = es" by (intro js_split_join) auto
  with assms show ?thesis by (auto simp: path_parts_def intro: filter_True)
qed

lemma map_decodePathSegment: "those (map decodeURIComponent es) = Some xs \<Longrightarrow> map decodePathSegment es = xs"
  by (induction es arbitrary: xs) (auto simp: decodePathSegment_def split: option.splits)

lemma those_Some_iff: "those xs \<noteq> None \<longleftrightarrow> None \<notin> set xs"
  by (induction xs) (auto split: option.splits)

lemma slash_unsafe: "\<not> uri_safe 47"
  by (simp add: uri_safe_def uri_unreserved_def)

lemma js_join_Cons: "xs \<noteq> [] \<Longrightarrow> js_join [c] (x # xs) = x @ c # js_join [c] xs"
  by (cases xs) auto

lemma path_decodes:
  assumes "units_ok path" "encodeRelativePath path = Some e"
  shows "map decodePathSegment (path_parts e) = path_parts path"
proof -
  from assms(2) obtain es where es: "those (map encodePathSegment (path_parts path)) = Some es" "e = js_join [47] es"
    by (auto simp: encodeRelativePath_def)
  have dec: "those (map decodeURIComponent es) = Some (path_parts path)"
    and safe: "\<forall>e \<in> set es. e \<noteq> [] \<and> 47 \<notin> set e"
    using segment.those_dec [OF _ es(1)] path_parts_units [OF assms(1)] slash_unsafe by fastforce+
  from safe have "path_parts e = es" by (simp add: es(2) path_parts_join)
  with dec show ?thesis by (simp add: map_decodePathSegment)
qed

text \<open>C8: \<^verbatim>\<open>encodeRelativePath\<close> loses nothing but empty segments: whenever it returns, splitting its result
  at the slashes and decoding every segment with \<^verbatim>\<open>decodePathSegment\<close> gives the non-empty segments of
  the original path, in order; and it returns for every path without surrogates.\<close>

theorem relative_path_roundtrip:
  assumes "units_ok path"
  shows "(\<forall>e. encodeRelativePath path = Some e \<longrightarrow> map decodePathSegment (path_parts e) = path_parts path)
    \<and> ((\<forall>u \<in> set path. \<not> is_high u \<and> \<not> is_low u) \<longrightarrow> encodeRelativePath path \<noteq> None)"
proof (intro conjI allI impI)
  fix e assume "encodeRelativePath path = Some e"
  with assms show "map decodePathSegment (path_parts e) = path_parts path" by (rule path_decodes)
next
  assume u: "\<forall>u \<in> set path. \<not> is_high u \<and> \<not> is_low u"
  have "encodePathSegment x \<noteq> None" if "x \<in> set (path_parts path)" for x
    using that u js_split_elems [of _ 47 path] path_parts_units [OF assms that]
    by (subst encodePathSegment_keep; fastforce simp: path_parts_def intro!: encode_with_total)
  then have "None \<notin> set (map encodePathSegment (path_parts path))" by force
  then show "encodeRelativePath path \<noteq> None"
    using those_Some_iff by (metis encodeRelativePath_def map_option_is_None)
qed

theorem relative_path_roundtrip_witness:
  "encodeRelativePath (ustr ''a//1.2+b/c d'') = Some (ustr ''a/1.2+b/c%20d'')
   \<and> map decodePathSegment (path_parts (ustr ''a/1.2+b/c%20d'')) = path_parts (ustr ''a//1.2+b/c d'')"
proof -
  have e: "encodeRelativePath (ustr ''a//1.2+b/c d'') = Some (ustr ''a/1.2+b/c%20d'')"
    by (simp add: codec_eval)
  have "units_ok (ustr ''a//1.2+b/c d'')" by (simp add: units_ok_def ustr_def)
  from relative_path_roundtrip [OF this] e show ?thesis by blast
qed

text \<open>The breadcrumb of a route never loses or reorders a part of it: joining the parts with slashes
  gives the same normalised path for every repository format, there is at most one part more than the
  fixed prefix for image and package names, and every part is non-empty.\<close>

lemma breadcrumb_preserves_path:
  "js_join [47] (breadcrumbPathParts path format) = js_join [47] (path_parts path)
   \<and> [] \<notin> set (breadcrumbPathParts path format)
   \<and> (format = ''docker'' \<longrightarrow> length (breadcrumbPathParts path format) \<le> 2)"
proof -
  have ne: "[] \<notin> set (path_parts path)" by (simp add: path_parts_def)
  have join_ne: "js_join [47] (ys :: ustring list) \<noteq> []" if "ys \<noteq> []" "[] \<notin> set ys" for ys
    using that by (cases ys; cases "tl ys") auto
  consider "path_parts path = []" | a where "path_parts path = [a]"
    | a b where "path_parts path = [a, b]" | a b c r where "path_parts path = a # b # c # r"
    by (metis list.exhaust)
  then show ?thesis
  proof cases
    case 4
    with ne join_ne [of "b # c # r"] join_ne [of "c # r"] show ?thesis
      by (auto simp: breadcrumbPathParts_def Let_def)
  qed (use ne in \<open>auto simp: breadcrumbPathParts_def Let_def\<close>)
qed

text \<open>A package link never confuses two packages: decoding the segments of the address of a package with a
  repository gives back exactly its repository and the parts of its name, behind the fixed segments of
  its format.\<close>

lemma package_target_decodes:
  assumes "units_ok (pr_repository resource)" "units_ok (pr_name resource)" "pr_repository resource \<noteq> []"
    and "packageResourceTarget resource = Some target"
  shows "map decodePathSegment (path_parts target) =
    (if pr_format resource = ''maven'' then [ustr ''domain'']
     else if pr_format resource = ''cargo'' \<or> pr_format resource = ''npm''
     then [pr_repository resource, ustr ''packages''] else [pr_repository resource]) @ path_parts (pr_name resource)"
proof -
  from assms(4) obtain es where es: "those (map encodeURIComponent (path_parts (pr_name resource))) = Some es"
    by (auto simp: packageResourceTarget_def split: option.splits)
  have names: "map decodePathSegment es = path_parts (pr_name resource)" "\<forall>e \<in> set es. e \<noteq> [] \<and> 47 \<notin> set e"
    using uri.those_dec [OF _ es] path_parts_units [OF assms(2)] slash_unsafe
    by (fastforce simp: map_decodePathSegment)+
  have link: "path_parts (47 # js_join [47] hs @ 47 # js_join [47] es) = hs @ es"
    if "hs \<noteq> []" "\<forall>e \<in> set hs. e \<noteq> [] \<and> 47 \<notin> set e" for hs
  proof -
    have "path_parts (47 # js_join [47] hs @ 47 # js_join [47] es)
        = path_parts (js_join [47] hs) @ path_parts (js_join [47] es)"
      by (simp add: path_parts_def js_split_append_sep)
    with that names(2) show ?thesis by (simp add: path_parts_join)
  qed
  have fixed: "decodePathSegment (ustr ''domain'') = ustr ''domain''" "decodePathSegment (ustr ''packages'') = ustr ''packages''"
    by (simp_all add: decodePathSegment_def decodeURIComponent.simps ustr_def)
  show ?thesis
  proof (cases "pr_format resource = ''maven''")
    case True
    then have "target = 47 # js_join [47] [ustr ''domain''] @ 47 # js_join [47] es"
      using assms(4) es by (simp add: packageResourceTarget_def Let_def ustr_def)
    moreover have "path_parts \<dots> = [ustr ''domain''] @ es" by (rule link) (simp_all add: ustr_def)
    ultimately show ?thesis using True names fixed by simp
  next
    case False
    then obtain r where r: "encodeURIComponent (pr_repository resource) = Some r"
      using assms(4) es by (auto simp: packageResourceTarget_def Let_def split: option.splits)
    have rs: "r \<noteq> [] \<and> 47 \<notin> set r" "decodePathSegment r = pr_repository resource"
      using uri.enc_nonempty [OF assms(1) r] uri.enc_safe [OF assms(1) r] uri.dec_enc [OF assms(1) r] assms(3)
        slash_unsafe by (auto simp: decodePathSegment_def)
    define hs where "hs = (if pr_format resource = ''cargo'' \<or> pr_format resource = ''npm'' then [r, ustr ''packages''] else [r])"
    have "target = 47 # js_join [47] hs @ 47 # js_join [47] es"
      using assms(4) es r False by (auto simp: packageResourceTarget_def Let_def ustr_def hs_def split: if_splits)
    moreover have "path_parts \<dots> = hs @ es" by (rule link) (use rs in \<open>auto simp: hs_def ustr_def\<close>)
    ultimately show ?thesis using False names rs fixed by (simp add: hs_def)
  qed
qed

end
