(* ===== verification/Upload_Session.thy ===== *)
theory Upload_Session
  imports Upload_Pool Uri_Codec
begin

text \<open>
  The life of one multi-part upload session (\<^verbatim>\<open>uploadFileChunked\<close> of \<^verbatim>\<open>js/chunked-upload.js\<close>)
  around the worker pool: the request that opens the session, the early return on an aborted
  signal, the transfer, completion, and the request that discards the session on every failing
  path. The two single-request uploads and the progress strip of the same file follow.

  The session is a machine over the awaits of \<^verbatim>\<open>uploadFileChunked\<close>; it embeds the pool machine
  while the workers run. Every request the function itself issues is logged, newest first.
\<close>

section \<open>Requests, options and results\<close>

record upload_options =
  o_purpose :: "string option"
  o_headers :: headers
  o_chunk_size :: js_number
  o_max_retries :: "int option"
  o_concurrency :: js_number
  o_path :: "string option"
  o_checksums :: bool
  o_gpg :: bool

record upload_file =
  f_name :: string
  f_size :: nat

record init_payload =
  ip_purpose :: string
  ip_filename :: string
  ip_size :: nat
  ip_chunk_size :: int
  ip_path :: "string option"
  ip_checksums :: "bool option"
  ip_gpg :: "bool option"

definition preferred_chunk :: "upload_file \<Rightarrow> upload_options \<Rightarrow> int" where
  "preferred_chunk file opts = num_or (o_chunk_size opts) (suggestChunkSize (Some (int (f_size file))))"

definition max_retries :: "upload_options \<Rightarrow> int" where
  "max_retries opts = max 0 (case o_max_retries opts of None \<Rightarrow> CHUNK_MAX_RETRIES | Some n \<Rightarrow> n)"

definition initPayload :: "upload_file \<Rightarrow> upload_options \<Rightarrow> init_payload" where
  "initPayload file opts =
     (let purpose = opt_or (o_purpose opts) ''storage'';
          storage = (purpose = ''storage'')
      in \<lparr>ip_purpose = purpose, ip_filename = str_or (f_name file) ''upload.bin'', ip_size = f_size file,
          ip_chunk_size = preferred_chunk file opts,
          ip_path = (if storage then Some (opt_or (o_path opts) []) else None),
          ip_checksums = (if storage then Some (o_checksums opts) else None),
          ip_gpg = (if storage then Some (o_gpg opts) else None)\<rparr>)"

datatype session_request =
    InitPost init_payload headers
  | CompletePost string headers
  | SessionDelete string headers

record upload_result =
  u_ok :: bool
  u_status :: nat
  u_body :: "json option"
  u_text :: string
  u_code :: "string option"
  u_review :: "string option"

text \<open>The decoded answer to the opening request.\<close>

record session_info =
  si_upload_id :: string
  si_chunk_size :: "nat option"
  si_chunk_count :: "nat option"

definition session_pool :: "json_parser \<Rightarrow> upload_file \<Rightarrow> upload_options \<Rightarrow> session_info \<Rightarrow> pool_config" where
  "session_pool parse file opts info =
     (let chunkSize = (case si_chunk_size info of Some n \<Rightarrow> if n = 0 then nat (preferred_chunk file opts) else n
                        | None \<Rightarrow> nat (preferred_chunk file opts));
          chunkCount = (case si_chunk_count info of Some n \<Rightarrow> n | None \<Rightarrow> 0)
      in \<lparr>c_size = f_size file, c_chunk_size = chunkSize, c_count = chunkCount,
          c_concurrency = nat (max 1 (num_or (o_concurrency opts)
             (suggestConcurrency (Some (int (f_size file))) (Some (int chunkCount))))),
          c_max_retries = nat (max_retries opts), c_parse = parse\<rparr>)"

section \<open>The session machine\<close>

datatype phase =
    AwaitInit
  | AwaitInitText nat string
  | AwaitInitDecode nat
  | Transferring
  | AwaitComplete
  | AwaitCompleteText nat string
  | AwaitCompleteDecode nat string
  | Aborting "string + upload_result"
  | Resolved upload_result
  | Rejected string

record session =
  s_phase :: phase
  s_aborted :: bool
  s_info :: "session_info option"
  s_config :: pool_config
  s_pool :: pool
  s_requests :: "session_request list"
  s_progress :: "(nat \<times> nat) list"

datatype session_event =
    InitResponse nat string
  | InitRejected string
  | InitText "string option"
  | InitDecoded "string + session_info"
  | PoolEvent pool_event
  | PoolJoined
  | CompleteResponse nat string string
  | CompleteRejected string
  | CompleteText "string option"
  | CompleteDecoded "json option"
  | AbortSettled
  | SignalAborted

record session_params =
  sp_file :: upload_file
  sp_options :: upload_options
  sp_auth :: headers
  sp_parse :: json_parser

definition session_headers :: "session_params \<Rightarrow> headers" where
  "session_headers ps = spread (sp_auth ps) (o_headers (sp_options ps))"

definition PROTO_CONTENT_TYPE :: string where
  "PROTO_CONTENT_TYPE = ''application/x-protobuf''"

definition session_path :: "session \<Rightarrow> string" where
  "session_path s = (case s_info s of None \<Rightarrow> []
     | Some info \<Rightarrow> ''/api/upload/chunked/'' @ encode_component (si_upload_id info))"

definition issue :: "session_request \<Rightarrow> session \<Rightarrow> session" where
  "issue r s = s\<lparr>s_requests := r # s_requests s\<rparr>"

text \<open>\<^verbatim>\<open>abortSession\<close>, entered with what the function does once it has settled.\<close>

definition abortSession :: "session_params \<Rightarrow> string + upload_result \<Rightarrow> session \<Rightarrow> session" where
  "abortSession ps k s = (issue (SessionDelete (session_path s) (session_headers ps)) s)\<lparr>s_phase := Aborting k\<rparr>"

definition fetchComplete :: "session_params \<Rightarrow> session \<Rightarrow> session" where
  "fetchComplete ps s =
     (issue (CompletePost (session_path s @ ''/complete'')
        (spread (session_headers ps) [(''Accept'', PROTO_CONTENT_TYPE)])) s)\<lparr>s_phase := AwaitComplete\<rparr>"

definition failed_response :: "json_parser \<Rightarrow> nat \<Rightarrow> string \<Rightarrow> string \<Rightarrow> upload_result" where
  "failed_response parse status code text =
     \<lparr>u_ok = False, u_status = status, u_body = tryParseJsonError parse text, u_text = text,
      u_code = Some code, u_review = None\<rparr>"

definition local_failure :: "nat \<Rightarrow> string \<Rightarrow> upload_result" where
  "local_failure status text =
     \<lparr>u_ok = False, u_status = status, u_body = None, u_text = text, u_code = None, u_review = None\<rparr>"

definition first_error_result :: "upload_error \<Rightarrow> upload_result" where
  "first_error_result e =
     \<lparr>u_ok = False, u_status = err_status e, u_body = err_body e,
      u_text = str_or (opt_or (err_text e) []) (err_message e), u_code = Some (opt_or (err_code e) []), u_review = None\<rparr>"

text \<open>From the decoded session up to the first await of the transfer.\<close>

definition beginTransfer :: "session_params \<Rightarrow> session_info \<Rightarrow> session \<Rightarrow> session" where
  "beginTransfer ps info s =
     (let cfg = session_pool (sp_parse ps) (sp_file ps) (sp_options ps) info;
          s1 = s\<lparr>s_info := Some info, s_config := cfg, s_pool := fresh_pool cfg\<rparr>
      in if s_aborted s1 then abortSession ps (Inr (local_failure 0 ''aborted'')) s1
         else if 0 < c_count cfg then s1\<lparr>s_pool := start_workers cfg (s_pool s1), s_phase := Transferring\<rparr>
         else fetchComplete ps (s1\<lparr>s_progress := (0, 0) # s_progress s1\<rparr>))"

text \<open>After \<^verbatim>\<open>Promise.all\<close>: the pending frame is cancelled and a dirty table reported.\<close>

definition settleProgress :: "pool_config \<Rightarrow> pool \<Rightarrow> pool" where
  "settleProgress cfg p =
     (let q = p\<lparr>p_raf := False\<rparr> in if p_dirty q then flushProgress cfg q else q)"

definition finishTransfer :: "session_params \<Rightarrow> session \<Rightarrow> session" where
  "finishTransfer ps s =
     (let s1 = s\<lparr>s_pool := settleProgress (s_config s) (s_pool s)\<rparr>
      in case p_error (s_pool s1) of
           Some e \<Rightarrow> abortSession ps (Inr (first_error_result e)) s1
         | None \<Rightarrow> fetchComplete ps s1)"

definition markDone :: "pool_config \<Rightarrow> pool \<Rightarrow> pool" where
  "markDone cfg p =
     emitChunkProgress cfg True
       (p\<lparr>p_chunks := map (\<lambda>c. c\<lparr>ch_loaded := ch_total c, ch_status := Done\<rparr>) (p_chunks p)\<rparr>)"

definition completeUpload :: "session_params \<Rightarrow> nat \<Rightarrow> string \<Rightarrow> json option \<Rightarrow> session \<Rightarrow> session" where
  "completeUpload ps status review body s =
     s\<lparr>s_progress := (f_size (sp_file ps), f_size (sp_file ps)) # s_progress s,
       s_pool := markDone (s_config s) (s_pool s),
       s_phase := Resolved \<lparr>u_ok = True, u_status = status, u_body = body, u_text = [], u_code = None,
         u_review = Some review\<rparr>\<rparr>"

fun session_step :: "session_params \<Rightarrow> session \<Rightarrow> session_event \<Rightarrow> session option" where
  "session_step ps s (InitResponse status code) =
     (case s_phase s of
        AwaitInit \<Rightarrow> Some (s\<lparr>s_phase := if status_ok status then AwaitInitDecode status else AwaitInitText status code\<rparr>)
      | _ \<Rightarrow> None)"
| "session_step ps s (InitRejected msg) =
     (case s_phase s of AwaitInit \<Rightarrow> Some (s\<lparr>s_phase := Rejected msg\<rparr>) | _ \<Rightarrow> None)"
| "session_step ps s (InitText text) =
     (case s_phase s of
        AwaitInitText status code \<Rightarrow>
          Some (s\<lparr>s_phase := Resolved (failed_response (sp_parse ps) status code (opt_or text []))\<rparr>)
      | _ \<Rightarrow> None)"
| "session_step ps s (InitDecoded r) =
     (case s_phase s of
        AwaitInitDecode status \<Rightarrow>
          (case r of Inl err \<Rightarrow> Some (s\<lparr>s_phase := Resolved (local_failure status err)\<rparr>)
           | Inr info \<Rightarrow> Some (beginTransfer ps info s))
      | _ \<Rightarrow> None)"
| "session_step ps s (PoolEvent e) =
     (case s_phase s of
        Transferring \<Rightarrow> map_option (\<lambda>p. s\<lparr>s_pool := p, s_aborted := p_aborted p\<rparr>) (pool_step (s_config s) (s_pool s) e)
      | _ \<Rightarrow> None)"
| "session_step ps s PoolJoined =
     (case s_phase s of
        Transferring \<Rightarrow> if pool_settled (s_pool s) then Some (finishTransfer ps s) else None
      | _ \<Rightarrow> None)"
| "session_step ps s (CompleteResponse status code review) =
     (case s_phase s of
        AwaitComplete \<Rightarrow> Some (s\<lparr>s_phase := if status_ok status then AwaitCompleteDecode status review
                                          else AwaitCompleteText status code\<rparr>)
      | _ \<Rightarrow> None)"
| "session_step ps s (CompleteRejected msg) =
     (case s_phase s of
        AwaitComplete \<Rightarrow> Some (abortSession ps (Inl msg) (s\<lparr>s_pool := (s_pool s)\<lparr>p_raf := False\<rparr>\<rparr>))
      | _ \<Rightarrow> None)"
| "session_step ps s (CompleteText text) =
     (case s_phase s of
        AwaitCompleteText status code \<Rightarrow>
          Some (abortSession ps (Inr (failed_response (sp_parse ps) status code (opt_or text []))) s)
      | _ \<Rightarrow> None)"
| "session_step ps s (CompleteDecoded body) =
     (case s_phase s of
        AwaitCompleteDecode status review \<Rightarrow> Some (completeUpload ps status review body s)
      | _ \<Rightarrow> None)"
| "session_step ps s AbortSettled =
     (case s_phase s of
        Aborting (Inr r) \<Rightarrow> Some (s\<lparr>s_phase := Resolved r\<rparr>)
      | Aborting (Inl msg) \<Rightarrow> Some (s\<lparr>s_phase := Rejected msg\<rparr>)
      | _ \<Rightarrow> None)"
| "session_step ps s SignalAborted = Some (s\<lparr>s_aborted := True, s_pool := (s_pool s)\<lparr>p_aborted := True\<rparr>\<rparr>)"

text \<open>The call up to its first await.\<close>

definition init_headers :: "session_params \<Rightarrow> headers" where
  "init_headers ps = spread (session_headers ps) [(''Content-Type'', PROTO_CONTENT_TYPE), (''Accept'', PROTO_CONTENT_TYPE)]"

definition uploadFileChunked :: "session_params \<Rightarrow> session" where
  "uploadFileChunked ps =
     (let cfg = session_pool (sp_parse ps) (sp_file ps) (sp_options ps) \<lparr>si_upload_id = [], si_chunk_size = None, si_chunk_count = None\<rparr>
      in \<lparr>s_phase = AwaitInit, s_aborted = False, s_info = None, s_config = cfg,
          s_pool = fresh_pool cfg,
          s_requests = [InitPost (initPayload (sp_file ps) (sp_options ps)) (init_headers ps)], s_progress = []\<rparr>)"

section \<open>The session invariant\<close>

definition all_delivered :: "pool_config \<Rightarrow> pool \<Rightarrow> bool" where
  "all_delivered cfg p \<longleftrightarrow> length (p_chunks p) = c_count cfg
     \<and> (\<forall>i < c_count cfg. ch_status (p_chunks p ! i) = Done
          \<and> ch_total (p_chunks p ! i) = chunk_end cfg i - chunk_start cfg i
          \<and> ch_loaded (p_chunks p ! i) = ch_total (p_chunks p ! i))"

definition created :: "session_params \<Rightarrow> session \<Rightarrow> bool" where
  "created ps s \<longleftrightarrow> (\<exists>info. s_info s = Some info
     \<and> s_config s = session_pool (sp_parse ps) (sp_file ps) (sp_options ps) info)"

abbreviation init_request :: "session_params \<Rightarrow> session_request" where
  "init_request ps \<equiv> InitPost (initPayload (sp_file ps) (sp_options ps)) (init_headers ps)"

definition completion :: "session_params \<Rightarrow> session \<Rightarrow> session_request" where
  "completion ps s = CompletePost (session_path s @ ''/complete'')
     (spread (session_headers ps) [(''Accept'', PROTO_CONTENT_TYPE)])"

definition discard :: "session_params \<Rightarrow> session \<Rightarrow> session_request" where
  "discard ps s = SessionDelete (session_path s) (session_headers ps)"

definition transferring_ok :: "session_params \<Rightarrow> session \<Rightarrow> bool" where
  "transferring_ok ps s \<longleftrightarrow> created ps s \<and> s_requests s = [init_request ps]
     \<and> pool_inv (s_config s) (s_pool s) \<and> all_started (s_pool s)
     \<and> length (p_workers (s_pool s)) = min (c_concurrency (s_config s)) (c_count (s_config s))"

definition completing_ok :: "session_params \<Rightarrow> session \<Rightarrow> bool" where
  "completing_ok ps s \<longleftrightarrow> created ps s \<and> s_requests s = [completion ps s, init_request ps]
     \<and> all_delivered (s_config s) (s_pool s)"

definition discarded_ok :: "session_params \<Rightarrow> session \<Rightarrow> bool" where
  "discarded_ok ps s \<longleftrightarrow> created ps s \<and> (s_requests s = [discard ps s, init_request ps]
     \<or> s_requests s = [discard ps s, completion ps s, init_request ps] \<and> all_delivered (s_config s) (s_pool s))"

definition never_created :: "session_params \<Rightarrow> session \<Rightarrow> bool" where
  "never_created ps s \<longleftrightarrow> s_info s = None \<and> s_requests s = [init_request ps]"

definition session_inv :: "session_params \<Rightarrow> session \<Rightarrow> bool" where
  "session_inv ps s \<longleftrightarrow>
     (case s_phase s of
        AwaitInit \<Rightarrow> never_created ps s
      | AwaitInitText st _ \<Rightarrow> never_created ps s \<and> \<not> status_ok st
      | AwaitInitDecode st \<Rightarrow> never_created ps s \<and> status_ok st
      | Transferring \<Rightarrow> transferring_ok ps s
      | AwaitComplete \<Rightarrow> completing_ok ps s
      | AwaitCompleteText st _ \<Rightarrow> completing_ok ps s \<and> \<not> status_ok st
      | AwaitCompleteDecode st _ \<Rightarrow> completing_ok ps s \<and> status_ok st
      | Aborting k \<Rightarrow> discarded_ok ps s \<and> (\<forall>r. k = Inr r \<longrightarrow> \<not> u_ok r)
      | Resolved r \<Rightarrow> if u_ok r then completing_ok ps s \<and> status_ok (u_status r)
                      else never_created ps s \<or> discarded_ok ps s
      | Rejected _ \<Rightarrow> never_created ps s \<or> discarded_ok ps s)"

lemmas session_ok_defs = transferring_ok_def completing_ok_def discarded_ok_def never_created_def created_def
  completion_def discard_def session_path_def

lemma session_pool_concurrency: "0 < c_concurrency (session_pool parse file opts info)"
  by (simp add: session_pool_def Let_def)

lemma settleProgress_fields [pool_frame]:
  "p_chunks (settleProgress cfg p) = p_chunks p" "p_error (settleProgress cfg p) = p_error p"
  by (simp_all add: settleProgress_def Let_def pool_frame)

lemma markDone_delivered: "all_delivered cfg p \<Longrightarrow> all_delivered cfg (markDone cfg p)"
  by (simp add: all_delivered_def markDone_def pool_frame)

lemma all_delivered_cong: "p_chunks q = p_chunks p \<Longrightarrow> all_delivered cfg q = all_delivered cfg p"
  by (simp add: all_delivered_def)

lemma beginTransfer_inv:
  assumes "never_created ps s"
  shows "session_inv ps (beginTransfer ps info s)"
proof -
  let ?cfg = "session_pool (sp_parse ps) (sp_file ps) (sp_options ps) info"
  have "all_delivered ?cfg (fresh_pool ?cfg)" if "c_count ?cfg = 0"
    using that by (simp add: all_delivered_def fresh_pool_def pool_frame initial_chunks_def)
  then show ?thesis
    using assms start_workers_inv [of ?cfg] start_all_started [of ?cfg] start_workers_length [of ?cfg]
    by (auto simp: beginTransfer_def Let_def abortSession_def fetchComplete_def issue_def session_inv_def
        session_ok_defs local_failure_def)
qed

lemma finishTransfer_inv:
  assumes "transferring_ok ps s" "pool_settled (s_pool s)"
  shows "session_inv ps (finishTransfer ps s)"
proof (cases "p_error (s_pool s)")
  case None
  have "0 < c_concurrency (s_config s)"
    using assms(1) session_pool_concurrency by (auto simp: transferring_ok_def created_def)
  with assms None have "delivered (p_chunks (s_pool s) ! i)" if "i < c_count (s_config s)" for i
    using that settled_delivered unfolding transferring_ok_def by blast
  moreover have "table_inv (s_config s) (s_pool s)" using assms(1) by (simp add: transferring_ok_def pool_inv_def)
  ultimately have "all_delivered (s_config s) (s_pool s)"
    by (auto simp: all_delivered_def delivered_def table_inv_def chunk_ok_def)
  with assms None show ?thesis
    by (auto simp: finishTransfer_def Let_def fetchComplete_def issue_def session_inv_def session_ok_defs
        pool_frame all_delivered_def)
next
  case (Some e)
  with assms show ?thesis
    by (auto simp: finishTransfer_def Let_def abortSession_def issue_def session_inv_def session_ok_defs
        pool_frame first_error_result_def)
qed

lemma pool_event_inv:
  assumes "transferring_ok ps s" "pool_step (s_config s) (s_pool s) e = Some p"
  shows "transferring_ok ps (s\<lparr>s_pool := p, s_aborted := a\<rparr>)"
  using assms pool_step_inv [of "s_config s" "s_pool s" e p] step_all_started [of "s_pool s" "s_config s" e p]
    step_workers_length [of "s_config s" "s_pool s" e p]
  by (simp add: transferring_ok_def created_def)

lemma signal_inv: "session_inv ps s \<Longrightarrow> session_inv ps (s\<lparr>s_aborted := True, s_pool := (s_pool s)\<lparr>p_aborted := True\<rparr>\<rparr>)"
  using pool_event_inv [of ps s AbortSignal "(s_pool s)\<lparr>p_aborted := True\<rparr>" True]
  by (auto simp: session_inv_def transferring_ok_def completing_ok_def discarded_ok_def never_created_def created_def
      completion_def discard_def session_path_def all_delivered_def split: phase.splits)

lemma completeUpload_inv:
  "completing_ok ps s \<Longrightarrow> status_ok st \<Longrightarrow> session_inv ps (completeUpload ps st review body s)"
  using markDone_delivered [of "s_config s" "s_pool s"]
  by (auto simp: completeUpload_def session_inv_def session_ok_defs)

lemma abortSession_inv:
  "completing_ok ps s \<Longrightarrow> p_chunks q = p_chunks (s_pool s) \<Longrightarrow> (\<forall>r. k = Inr r \<longrightarrow> \<not> u_ok r) \<Longrightarrow>
     session_inv ps (abortSession ps k (s\<lparr>s_pool := q\<rparr>))"
  by (auto simp: abortSession_def issue_def session_inv_def session_ok_defs all_delivered_def)

lemma session_step_inv: "session_inv ps s \<Longrightarrow> session_step ps s e = Some t \<Longrightarrow> session_inv ps t"
proof (induction ps s e rule: session_step.induct)
  case (4 ps s r)
  then show ?case by (auto simp: session_inv_def [of _ s] beginTransfer_inv split: phase.splits sum.splits)
    (auto simp: session_inv_def session_ok_defs local_failure_def)
next
  case (5 ps s e)
  then show ?case
    by (auto simp: session_inv_def dest: pool_event_inv split: phase.splits)
next
  case (6 ps s)
  then show ?case by (auto simp: session_inv_def [of _ s] finishTransfer_inv split: phase.splits if_splits)
next
  case (8 ps s msg)
  then show ?case
    using abortSession_inv [of ps s "(s_pool s)\<lparr>p_raf := False\<rparr>" "Inl msg"]
    by (auto simp: session_inv_def [of _ s] split: phase.splits)
next
  case (9 ps s t)
  then show ?case
    using abortSession_inv [of ps s "s_pool s"]
    by (auto simp: session_inv_def [of _ s] failed_response_def split: phase.splits)
next
  case (10 ps s body)
  then show ?case by (auto simp: session_inv_def [of _ s] completeUpload_inv split: phase.splits)
next
  case (12 ps s)
  then show ?case using signal_inv by auto
qed (auto simp: session_inv_def session_ok_defs failed_response_def split: phase.splits sum.splits if_splits)

lemma uploadFileChunked_inv: "session_inv ps (uploadFileChunked ps)"
  by (simp add: uploadFileChunked_def Let_def session_inv_def never_created_def)

interpretation upload_session: machine_invariant "session_step ps" "session_inv ps" for ps
  by unfold_locales (rule session_step_inv)

section \<open>Single-request uploads\<close>

text \<open>One request of \<^verbatim>\<open>uploadFileSinglePut\<close>; there is no abort handler.\<close>

record single_result =
  x_ok :: bool
  x_status :: nat
  x_text :: string
  x_code :: "string option"
  x_scope :: "string option"
  x_review :: "string option"

datatype single_outcome = SingleLoad nat string string string string | SingleError

fun single_send :: "single_outcome \<Rightarrow> single_result" where
  "single_send (SingleLoad status txt code scope review) =
     \<lparr>x_ok = status_ok status, x_status = status, x_text = txt, x_code = Some code, x_scope = Some scope,
      x_review = Some review\<rparr>"
| "single_send SingleError =
     \<lparr>x_ok = False, x_status = 0, x_text = [], x_code = None, x_scope = None, x_review = None\<rparr>"

text \<open>
  \<^verbatim>\<open>net n path hs\<close> is what the network answers to the \<open>n\<close>-th request; \<^verbatim>\<open>approve status code scope path\<close>
  is the result of \<^verbatim>\<open>captchaHeaders\<close>, \<^term>\<open>None\<close> when it resolves to \<^verbatim>\<open>null\<close>. The headers of all
  requests are returned with the result.
\<close>

definition uploadFileSinglePut ::
  "(nat \<Rightarrow> string \<Rightarrow> headers \<Rightarrow> single_outcome) \<Rightarrow> (nat \<Rightarrow> string \<Rightarrow> string \<Rightarrow> string \<Rightarrow> headers option) \<Rightarrow>
     string \<Rightarrow> headers \<Rightarrow> headers list \<times> single_result" where
  "uploadFileSinglePut net approve targetPath hs =
     (let result = single_send (net 0 targetPath hs)
      in case approve (x_status result) (opt_or (x_code result) []) (opt_or (x_scope result) []) targetPath of
           None \<Rightarrow> ([hs], result)
         | Some approval \<Rightarrow> ([hs, spread hs approval], single_send (net 1 targetPath (spread hs approval))))"

text \<open>\<^verbatim>\<open>uploadUpdaterSingle\<close>.\<close>

fun uploadUpdaterSingle :: "json_parser \<Rightarrow> xhr_outcome \<Rightarrow> put_result" where
  "uploadUpdaterSingle parse (XhrLoad status txt code) =
     \<lparr>r_ok = status_ok status, r_status = status, r_body = tryParseJsonError parse txt, r_text = txt, r_code = Some code\<rparr>"
| "uploadUpdaterSingle parse _ = \<lparr>r_ok = False, r_status = 0, r_body = None, r_text = [], r_code = None\<rparr>"

section \<open>The progress strip\<close>

text \<open>
  The cells of the strip element, \<^term>\<open>None\<close> when the host has no strip. The rounded quotient
  \<^verbatim>\<open>Math.round((loaded / total) * 100)\<close> is floating-point arithmetic and stays a parameter.
\<close>

record strip_cell =
  sc_index :: string
  sc_width :: string
  sc_status :: string
  sc_class :: string
  sc_tip :: string
  sc_title :: string

fun status_name :: "chunk_status \<Rightarrow> string" where
  "status_name Pending = ''pending''"
| "status_name Uploading = ''uploading''"
| "status_name Done = ''done''"
| "status_name Errored = ''error''"
| "status_name Retrying = ''retrying''"

definition blank_cell :: "nat \<Rightarrow> strip_cell" where
  "blank_cell i = \<lparr>sc_index = show_nat i, sc_width = [], sc_status = [], sc_class = ''upload-chunk-cell'',
     sc_tip = [], sc_title = []\<rparr>"

definition chunk_percent :: "(nat \<Rightarrow> nat \<Rightarrow> nat) \<Rightarrow> chunk_state \<Rightarrow> nat" where
  "chunk_percent round_pct c = (if 0 < ch_total c then min 100 (round_pct (ch_loaded c) (ch_total c)) else 0)"

definition paint_cell :: "(nat \<Rightarrow> nat \<Rightarrow> nat) \<Rightarrow> nat \<Rightarrow> chunk_state \<Rightarrow> strip_cell \<Rightarrow> strip_cell" where
  "paint_cell round_pct i c cell =
     (let pct = chunk_percent round_pct c;
          label = (if ch_status c = Retrying
                   then ''#'' @ show_nat (i + 1) @ '' retry '' @ show_nat (if ch_attempt c = 0 then 1 else ch_attempt c)
                   else ''#'' @ show_nat (i + 1) @ '' '' @ show_nat pct @ ''%'')
      in cell\<lparr>sc_width := show_nat pct @ ''%'', sc_status := status_name (ch_status c),
           sc_class := ''upload-chunk-cell is-'' @ status_name (ch_status c), sc_tip := label, sc_title := label\<rparr>)"

definition renderChunkProgressStrip ::
  "(nat \<Rightarrow> nat \<Rightarrow> nat) \<Rightarrow> strip_cell list option \<Rightarrow> chunk_state list \<Rightarrow> strip_cell list option" where
  "renderChunkProgressStrip round_pct strip chunks =
     (if chunks = [] then None
      else let cells = (case strip of None \<Rightarrow> [] | Some cs \<Rightarrow> cs);
               cells1 = (if length cells \<noteq> length chunks then map blank_cell [0..<length chunks] else cells)
           in Some (map (\<lambda>(i, c, cell). paint_cell round_pct i c cell) (zip [0..<length chunks] (zip chunks cells1))))"

section \<open>Properties\<close>

text \<open>A small upload used as a concrete instance: three bytes in two chunks, one retry.\<close>

definition sample_params :: session_params where
  "sample_params = \<lparr>sp_file = \<lparr>f_name = ''a'', f_size = 3\<rparr>,
     sp_options = \<lparr>o_purpose = None, o_headers = [], o_chunk_size = Some 2, o_max_retries = Some 1, o_concurrency = Some 2,
       o_path = Some ''r/a'', o_checksums = False, o_gpg = False\<rparr>, sp_auth = [], sp_parse = (\<lambda>_. None)\<rparr>"

definition sample_info :: session_info where
  "sample_info = \<lparr>si_upload_id = ''u1'', si_chunk_size = Some 2, si_chunk_count = Some 2\<rparr>"

lemma upt_two: "[0..<Suc (Suc 0)] = [0, Suc 0]"
  by (simp add: upt_rec)

lemmas session_eval = sample_params_def sample_info_def uploadFileChunked_def session_pool_def beginTransfer_def
  finishTransfer_def fetchComplete_def abortSession_def completeUpload_def issue_def settleProgress_def markDone_def
  first_error_result_def chunk_error_def permanent_failure_def
  status_ok_def max_retries_def preferred_chunk_def num_or_def suggestConcurrency_def num_or_zero_def
  start_workers_def fresh_pool_def initial_chunks_def initial_chunk_def chunk_start_def chunk_end_def
  worker_loop_def worker_resume_def attempt_head_def put_done_def goto_def set_chunk_def fail_chunk_def
  emitChunkProgress_def flushProgress_def running_status_def pool_settled_def first_error_def Let_def upt_two numeral_2_eq_2

lemma session_reachable_inv:
  "run_events (session_step ps) (uploadFileChunked ps) es = Some s \<Longrightarrow> session_inv ps s"
  by (rule upload_session.run_inv [OF _ uploadFileChunked_inv])

text \<open>
  C5: an upload is reported as successful only after the whole file was accepted and the server
  confirmed completion. In every run of \<^verbatim>\<open>uploadFileChunked\<close> the completion request is issued at
  most once and only when each chunk of the session is done with all its bytes; a successful result
  has a 2xx status and follows exactly the opening and the completion request, never a discard.
\<close>

theorem upload_success_means_complete:
  assumes "run_events (session_step ps) (uploadFileChunked ps) es = Some s"
  shows "(\<forall>url hs. CompletePost url hs \<in> set (s_requests s) \<longrightarrow>
            all_delivered (s_config s) (s_pool s) \<and> count_list (s_requests s) (CompletePost url hs) = 1)
    \<and> (\<forall>r. s_phase s = Resolved r \<and> u_ok r \<longrightarrow>
         created ps s \<and> status_ok (u_status r) \<and> all_delivered (s_config s) (s_pool s)
         \<and> s_requests s = [completion ps s, InitPost (initPayload (sp_file ps) (sp_options ps)) (init_headers ps)])"
proof -
  note inv = session_reachable_inv [OF assms]
  have "s_requests s = [init_request ps] \<or> s_requests s = [discard ps s, init_request ps]
      \<or> s_requests s = [completion ps s, init_request ps] \<and> all_delivered (s_config s) (s_pool s)
      \<or> s_requests s = [discard ps s, completion ps s, init_request ps] \<and> all_delivered (s_config s) (s_pool s)"
    using inv by (auto simp: session_inv_def never_created_def transferring_ok_def completing_ok_def
        discarded_ok_def split: phase.splits if_splits)
  then have "\<forall>url hs. CompletePost url hs \<in> set (s_requests s) \<longrightarrow>
      all_delivered (s_config s) (s_pool s) \<and> count_list (s_requests s) (CompletePost url hs) = 1"
    by (elim disjE) (auto simp: discard_def completion_def)
  moreover have "\<forall>r. s_phase s = Resolved r \<and> u_ok r \<longrightarrow> completing_ok ps s \<and> status_ok (u_status r)"
    using inv by (auto simp: session_inv_def split: if_splits)
  ultimately show ?thesis unfolding completing_ok_def by blast
qed

theorem upload_success_means_complete_witness:
  "\<exists>s r. run_events (session_step sample_params) (uploadFileChunked sample_params)
        [InitResponse 200 [], InitDecoded (Inr sample_info), PoolEvent (PutDone 1 (XhrLoad 200 [] [])),
         PoolEvent (Resume 1), PoolEvent (PutDone 0 (XhrLoad 200 [] [])), PoolEvent (Resume 0), PoolJoined,
         CompleteResponse 201 [] ''rev'', CompleteDecoded None] = Some s
      \<and> s_phase s = Resolved r \<and> u_ok r \<and> status_ok (u_status r) \<and> all_delivered (s_config s) (s_pool s)"
  (is "\<exists>s r. ?run = Some s \<and> _")
proof -
  have "\<exists>s r. ?run = Some s \<and> s_phase s = Resolved r \<and> u_ok r"
    by (simp add: session_eval)
  with upload_success_means_complete show ?thesis by blast
qed

text \<open>
  C6: no upload session is leaked. Once the server has created a session, a call that ends without
  success (a failed chunk, an aborted signal, a refused or broken completion request, a thrown
  error) has issued the request that discards exactly this session as its last one.
\<close>

theorem upload_failure_discards_session:
  assumes "run_events (session_step ps) (uploadFileChunked ps) es = Some s"
    and "s_info s = Some info"
    and "(\<exists>r. s_phase s = Resolved r \<and> \<not> u_ok r) \<or> (\<exists>msg. s_phase s = Rejected msg)"
  shows "\<exists>earlier. s_requests s = SessionDelete (''/api/upload/chunked/'' @ encode_component (si_upload_id info)) (session_headers ps) # earlier
    \<and> (\<forall>url hs. SessionDelete url hs \<notin> set earlier)"
  using session_reachable_inv [OF assms(1)] assms(2,3)
  by (auto simp: session_inv_def never_created_def discarded_ok_def discard_def completion_def session_path_def
      split: if_splits)

theorem upload_failure_discards_session_witness:
  "\<exists>s earlier. run_events (session_step sample_params) (uploadFileChunked sample_params)
        [InitResponse 200 [], InitDecoded (Inr sample_info), PoolEvent (PutDone 1 (XhrLoad 403 ''no'' [])),
         PoolEvent (Resume 1), PoolEvent (PutDone 0 (XhrLoad 200 [] [])), PoolEvent (Resume 0), PoolJoined,
         AbortSettled] = Some s
      \<and> s_requests s = SessionDelete (''/api/upload/chunked/'' @ encode_component ''u1'') (session_headers sample_params) # earlier"
  (is "\<exists>s e. ?run = Some s \<and> _ s e")
proof -
  have "\<exists>s r. ?run = Some s \<and> s_info s = Some sample_info \<and> s_phase s = Resolved r \<and> \<not> u_ok r"
    by (simp add: session_eval)
  then show ?thesis
    using upload_failure_discards_session [of sample_params _ _ sample_info] by (fastforce simp: sample_info_def)
qed



end
