(* ===== verification/Backend_Availability.thy ===== *)
theory Backend_Availability
  imports Event_Machine
begin

text \<open>
  The monitor that decides when the page shows its "backend offline" overlay
  (\<^verbatim>\<open>js/backend-availability.js\<close>): \<^verbatim>\<open>BackendAvailabilityMonitor\<close> with its confirmation task, and
  the wrapper around \<^verbatim>\<open>window.fetch\<close> and the foreground hooks installed by
  \<^verbatim>\<open>installBackendAvailabilityMonitor\<close>.

  The confirmation task is an asynchronous function; \<^verbatim>\<open>stage\<close> names the await it is parked on. Its
  completion handler runs in a later microtask (\<^verbatim>\<open>Ending\<close>) and may queue another confirmation.
  Visibility is chosen by the environment and may change between any two steps.
\<close>

definition probeRetryDelayMs :: nat where "probeRetryDelayMs = 650"
definition probeTimeoutMs :: nat where "probeTimeoutMs = 4000"

datatype stage = FirstProbe | Delaying | SecondProbe | Ending bool

record monitor =
  m_visible :: bool
  m_pending :: bool
  m_offline :: bool
  m_confirmation :: "stage option"
  m_queued :: nat
  m_overlay :: bool

definition new_monitor :: "bool \<Rightarrow> monitor" where
  "new_monitor vis = \<lparr>m_visible = vis, m_pending = False, m_offline = False, m_confirmation = None,
     m_queued = 0, m_overlay = False\<rparr>"

text \<open>\<^verbatim>\<open>onOffline\<close> and \<^verbatim>\<open>onOnline\<close>, with the overlay element present.\<close>

definition setOfflineVisible :: "bool \<Rightarrow> monitor \<Rightarrow> monitor" where
  "setOfflineVisible vis m = m\<lparr>m_overlay := vis\<rparr>"

definition noteSuccess :: "monitor \<Rightarrow> monitor" where
  "noteSuccess m = setOfflineVisible False (m\<lparr>m_pending := False, m_offline := False\<rparr>)"

text \<open>\<^verbatim>\<open>confirm()\<close>: joins a running confirmation, or runs a new one up to its first await.\<close>

definition confirm :: "monitor \<Rightarrow> monitor" where
  "confirm m = (case m_confirmation m of
       Some _ \<Rightarrow> m
     | None \<Rightarrow> if \<not> m_visible m then m\<lparr>m_confirmation := Some (Ending False)\<rparr>
               else m\<lparr>m_confirmation := Some FirstProbe\<rparr>)"

definition noteFailure :: "monitor \<Rightarrow> monitor" where
  "noteFailure m = (let n = m\<lparr>m_pending := True\<rparr> in if m_visible n then confirm n else n)"

definition resume :: "monitor \<Rightarrow> monitor" where
  "resume m = (if \<not> m_visible m \<or> (\<not> m_pending m \<and> \<not> m_offline m) then m
     else confirm (m\<lparr>m_pending := True\<rparr>))"

definition retry :: "monitor \<Rightarrow> monitor" where
  "retry m = confirm (m\<lparr>m_pending := True\<rparr>)"

text \<open>\<^verbatim>\<open>runProbe\<close>: an exception of the probe counts as failure; and the installed probe itself.\<close>

datatype probe_outcome = ProbeResponse nat | ProbeThrew

fun runProbe :: "probe_outcome \<Rightarrow> bool" where
  "runProbe (ProbeResponse status) = (200 \<le> status \<and> status < 300)"
| "runProbe ProbeThrew = False"

text \<open>The segments of the confirmation task after each await.\<close>

definition finish_with :: "bool \<Rightarrow> monitor \<Rightarrow> monitor" where
  "finish_with r m = m\<lparr>m_confirmation := Some (Ending r)\<rparr>"

definition after_first_probe :: "bool \<Rightarrow> monitor \<Rightarrow> monitor" where
  "after_first_probe reached m =
     (if reached then finish_with True (noteSuccess m) else m\<lparr>m_confirmation := Some Delaying\<rparr>)"

definition after_delay :: "monitor \<Rightarrow> monitor" where
  "after_delay m = (if \<not> m_pending m then finish_with True m
     else if \<not> m_visible m then finish_with False m
     else m\<lparr>m_confirmation := Some SecondProbe\<rparr>)"

definition after_second_probe :: "bool \<Rightarrow> monitor \<Rightarrow> monitor" where
  "after_second_probe reached m =
     (if reached then finish_with True (noteSuccess m)
      else if \<not> m_visible m then finish_with False m
      else finish_with False (setOfflineVisible True (m\<lparr>m_pending := False, m_offline := True\<rparr>)))"

definition settle :: "monitor \<Rightarrow> monitor" where
  "settle m = (let n = m\<lparr>m_confirmation := None\<rparr>
     in if m_pending n \<and> m_visible n then n\<lparr>m_queued := m_queued n + 1\<rparr> else n)"

section \<open>The fetch wrapper and the event hooks\<close>

text \<open>
  \<^verbatim>\<open>isSameOriginRequest\<close>; \<^verbatim>\<open>origin_of u b\<close> is the origin of \<^verbatim>\<open>new URL(u, b)\<close>, \<^term>\<open>None\<close> when the
  constructor throws.
\<close>

datatype fetch_input = UrlInput string | RequestInput string

fun input_target :: "fetch_input \<Rightarrow> string" where
  "input_target (UrlInput u) = u"
| "input_target (RequestInput u) = u"

definition isSameOriginRequest :: "(string \<Rightarrow> string option \<Rightarrow> string option) \<Rightarrow> fetch_input \<Rightarrow> string \<Rightarrow> bool" where
  "isSameOriginRequest origin_of input baseURL =
     (case origin_of baseURL None of
        None \<Rightarrow> False
      | Some base \<Rightarrow>
          (case origin_of (input_target input) (Some baseURL) of None \<Rightarrow> False | Some target \<Rightarrow> target = base))"

datatype fetch_outcome = FetchResponse | FetchTypeError | FetchOtherError

fun wrapped_fetch :: "bool \<Rightarrow> fetch_outcome \<Rightarrow> monitor \<Rightarrow> monitor" where
  "wrapped_fetch tracked FetchResponse m = (if tracked then noteSuccess m else m)"
| "wrapped_fetch tracked FetchTypeError m = (if tracked then noteFailure m else m)"
| "wrapped_fetch tracked FetchOtherError m = m"

datatype monitor_event =
    FetchSettled bool fetch_outcome
  | VisibilityChange bool
  | PageShow
  | Online
  | Retry
  | ProbeDone probe_outcome
  | DelayDone
  | Finally
  | Microtask

fun monitor_step :: "monitor \<Rightarrow> monitor_event \<Rightarrow> monitor option" where
  "monitor_step m (FetchSettled tracked outcome) = Some (wrapped_fetch tracked outcome m)"
| "monitor_step m (VisibilityChange vis) = Some (resume (m\<lparr>m_visible := vis\<rparr>))"
| "monitor_step m PageShow = Some (resume m)"
| "monitor_step m Online = Some (resume m)"
| "monitor_step m Retry = Some (retry m)"
| "monitor_step m (ProbeDone outcome) =
     (case m_confirmation m of
        Some FirstProbe \<Rightarrow> Some (after_first_probe (runProbe outcome) m)
      | Some SecondProbe \<Rightarrow> Some (after_second_probe (runProbe outcome) m)
      | _ \<Rightarrow> None)"
| "monitor_step m DelayDone = (case m_confirmation m of Some Delaying \<Rightarrow> Some (after_delay m) | _ \<Rightarrow> None)"
| "monitor_step m Finally = (case m_confirmation m of Some (Ending r) \<Rightarrow> Some (settle m) | _ \<Rightarrow> None)"
| "monitor_step m Microtask =
     (if 0 < m_queued m then Some (confirm (m\<lparr>m_queued := m_queued m - 1\<rparr>)) else None)"

section \<open>Invariant\<close>

text \<open>A noted failure on a visible page always has a confirmation running or queued, and the overlay
  shows exactly the offline flag.\<close>

definition monitor_inv :: "monitor \<Rightarrow> bool" where
  "monitor_inv m \<longleftrightarrow> (m_overlay m \<longleftrightarrow> m_offline m)
     \<and> (m_pending m \<and> m_visible m \<longrightarrow> m_confirmation m \<noteq> None \<or> 0 < m_queued m)"

lemmas monitor_defs = confirm_def noteFailure_def noteSuccess_def resume_def retry_def after_first_probe_def
  after_delay_def after_second_probe_def settle_def finish_with_def setOfflineVisible_def Let_def

lemma confirm_started: "\<exists>y. m_confirmation (confirm m) = Some y"
  by (simp add: confirm_def split: option.splits)

lemma confirm_frame: "m_overlay (confirm m) = m_overlay m" "m_offline (confirm m) = m_offline m"
  "m_pending (confirm m) = m_pending m" "m_visible (confirm m) = m_visible m" "m_queued (confirm m) = m_queued m"
  by (simp_all add: confirm_def split: option.splits)

lemma monitor_step_inv: "monitor_inv m \<Longrightarrow> monitor_step m e = Some n \<Longrightarrow> monitor_inv n"
proof (induction m e rule: monitor_step.induct)
  case (1 m tracked outcome)
  then show ?case
    by (cases outcome) (auto simp: monitor_inv_def noteFailure_def noteSuccess_def setOfflineVisible_def Let_def
        confirm_frame confirm_started split: if_splits)
qed (auto simp: monitor_inv_def resume_def retry_def confirm_frame confirm_started after_first_probe_def
        after_delay_def after_second_probe_def settle_def finish_with_def setOfflineVisible_def noteSuccess_def Let_def
      split: option.splits stage.splits if_splits)

interpretation availability: machine_invariant monitor_step monitor_inv
  by unfold_locales (rule monitor_step_inv)

lemma new_monitor_inv: "monitor_inv (new_monitor vis)"
  by (simp add: new_monitor_def monitor_inv_def)

section \<open>Properties\<close>

fun failed_probe :: "monitor_event \<Rightarrow> bool" where
  "failed_probe (ProbeDone outcome) = (\<not> runProbe outcome)"
| "failed_probe _ = False"

definition failures_counted :: "nat \<Rightarrow> monitor \<Rightarrow> bool" where
  "failures_counted n m \<longleftrightarrow> (m_confirmation m = Some Delaying \<or> m_confirmation m = Some SecondProbe \<longrightarrow> 1 \<le> n)
     \<and> (m_offline m \<longrightarrow> 2 \<le> n)"

lemma confirm_not_delaying:
  "m_confirmation (confirm m) = Some Delaying \<or> m_confirmation (confirm m) = Some SecondProbe \<Longrightarrow>
     m_confirmation (confirm m) = m_confirmation m"
  by (auto simp: confirm_def split: option.splits if_splits)

lemma failures_counted_confirm: "failures_counted n m \<Longrightarrow> failures_counted n (confirm m)"
  using confirm_not_delaying [of m] by (auto simp: failures_counted_def confirm_frame)

lemma failures_counted_upd [simp]:
  "failures_counted n (m\<lparr>m_pending := p\<rparr>) = failures_counted n m"
  "failures_counted n (m\<lparr>m_visible := p\<rparr>) = failures_counted n m"
  "failures_counted n (m\<lparr>m_queued := q\<rparr>) = failures_counted n m"
  by (simp_all add: failures_counted_def)

lemma failures_counted_resume: "failures_counted n m \<Longrightarrow> failures_counted n (resume m)"
  by (simp add: resume_def failures_counted_confirm)

lemma failures_counted_step:
  assumes "failures_counted n m" "monitor_step m e = Some m'"
  shows "failures_counted (if failed_probe e then n + 1 else n) m'"
proof (cases e)
  case (FetchSettled tracked outcome)
  with assms show ?thesis
    by (cases outcome) (auto simp: noteFailure_def Let_def failures_counted_confirm,
        auto simp: noteSuccess_def setOfflineVisible_def failures_counted_def)
next
  case (ProbeDone outcome)
  with assms show ?thesis
    by (auto simp: after_first_probe_def after_second_probe_def finish_with_def noteSuccess_def
        setOfflineVisible_def failures_counted_def split: option.splits stage.splits if_splits)
next
  case DelayDone
  with assms show ?thesis
    by (auto simp: after_delay_def finish_with_def failures_counted_def split: option.splits stage.splits if_splits)
next
  case Finally
  with assms show ?thesis
    by (auto simp: settle_def Let_def failures_counted_def split: option.splits stage.splits if_splits)
qed (use assms in \<open>auto simp: retry_def failures_counted_resume failures_counted_confirm split: if_splits\<close>)

lemma failures_counted_run:
  "run_events monitor_step (new_monitor vis) es = Some m \<Longrightarrow> failures_counted (length (filter failed_probe es)) m"
proof (induction es arbitrary: m rule: rev_induct)
  case Nil
  then show ?case by (auto simp: failures_counted_def new_monitor_def)
next
  case (snoc e es)
  then obtain k where k: "run_events monitor_step (new_monitor vis) es = Some k" "monitor_step k e = Some m"
    by (auto simp: run_events_append split: option.splits)
  from failures_counted_step [OF snoc.IH [OF k(1)] k(2)] show ?case by (simp split: if_splits)
qed

lemma overlay_frame: "m_overlay (resume m) = m_overlay m" "m_overlay (retry m) = m_overlay m"
  "m_overlay (noteFailure m) = m_overlay m" "\<not> m_overlay (noteSuccess m)" "m_overlay (settle m) = m_overlay m"
  "m_overlay (after_delay m) = m_overlay m" "m_overlay (finish_with r m) = m_overlay m"
  by (simp_all add: resume_def retry_def noteFailure_def noteSuccess_def setOfflineVisible_def settle_def
      after_delay_def finish_with_def Let_def confirm_frame)

lemma overlay_rises:
  assumes "monitor_step m e = Some n" "m_overlay n" "\<not> m_overlay m"
  shows "m_confirmation m = Some SecondProbe \<and> m_visible m \<and> failed_probe e"
proof (cases e)
  case (FetchSettled tracked outcome)
  with assms show ?thesis by (cases outcome) (auto simp: overlay_frame split: if_splits)
next
  case (ProbeDone outcome)
  with assms show ?thesis
    by (auto simp: after_first_probe_def after_second_probe_def overlay_frame split: option.splits stage.splits if_splits)
qed (use assms in \<open>auto simp: overlay_frame confirm_frame split: option.splits stage.splits if_splits\<close>)

text \<open>
  C9: the blocking overlay is only shown after the failure was confirmed: in every run of the monitor,
  the overlay is visible exactly when the offline flag is set, and then at least two health probes
  have failed; the flag can only be raised by a failed second probe on a visible page.
\<close>

theorem offline_needs_two_failed_probes:
  assumes run: "run_events monitor_step (new_monitor vis) es = Some m"
  shows "(m_overlay m \<longleftrightarrow> m_offline m)
    \<and> (m_overlay m \<longrightarrow> 2 \<le> length (filter failed_probe es))
    \<and> (\<forall>e n. monitor_step m e = Some n \<and> m_overlay n \<and> \<not> m_overlay m \<longrightarrow>
         m_confirmation m = Some SecondProbe \<and> m_visible m \<and> failed_probe e)"
proof (intro conjI allI impI)
  note inv = availability.run_inv [OF run new_monitor_inv]
  from inv show "m_overlay m \<longleftrightarrow> m_offline m" by (simp add: monitor_inv_def)
  with failures_counted_run [OF run] show "m_overlay m \<Longrightarrow> 2 \<le> length (filter failed_probe es)"
    by (simp add: failures_counted_def)
  fix e n assume "monitor_step m e = Some n \<and> m_overlay n \<and> \<not> m_overlay m"
  then show "m_confirmation m = Some SecondProbe" "m_visible m" "failed_probe e"
    using overlay_rises by blast+
qed

theorem offline_needs_two_failed_probes_witness:
  "\<exists>m. run_events monitor_step (new_monitor True)
        [FetchSettled True FetchTypeError, ProbeDone ProbeThrew, DelayDone, ProbeDone (ProbeResponse 503)] = Some m
     \<and> m_overlay m \<and> 2 \<le> length (filter failed_probe
        [FetchSettled True FetchTypeError, ProbeDone ProbeThrew, DelayDone, ProbeDone (ProbeResponse 503)])"
  (is "\<exists>m. ?run = Some m \<and> _")
proof -
  have "\<exists>m. ?run = Some m \<and> m_overlay m" by (simp add: new_monitor_def monitor_defs)
  with offline_needs_two_failed_probes show ?thesis by blast
qed

text \<open>
  C10: no failure noted on a visible page is forgotten: in every reachable state with a pending failure
  and a visible page, a confirmation is running or queued, and an enabled step of it exists.
\<close>

theorem pending_failure_is_confirmed:
  assumes "run_events monitor_step (new_monitor vis) es = Some m" "m_pending m" "m_visible m"
  shows "(m_confirmation m \<noteq> None \<or> 0 < m_queued m)
    \<and> (\<exists>e n. e \<in> {ProbeDone ProbeThrew, DelayDone, Finally, Microtask} \<and> monitor_step m e = Some n)"
proof -
  have busy: "m_confirmation m \<noteq> None \<or> 0 < m_queued m"
    using availability.run_inv [OF assms(1) new_monitor_inv] assms(2,3) by (simp add: monitor_inv_def)
  have "\<exists>e n. e \<in> {ProbeDone ProbeThrew, DelayDone, Finally, Microtask} \<and> monitor_step m e = Some n"
  proof (cases "m_confirmation m")
    case None
    with busy have "monitor_step m Microtask \<noteq> None" by simp
    then show ?thesis by blast
  next
    case (Some st)
    then have "\<exists>e \<in> {ProbeDone ProbeThrew, DelayDone, Finally}. monitor_step m e \<noteq> None" by (cases st) auto
    then show ?thesis by blast
  qed
  with busy show ?thesis by blast
qed

theorem pending_failure_is_confirmed_witness:
  "\<exists>m. run_events monitor_step (new_monitor False)
        [FetchSettled True FetchTypeError, VisibilityChange True] = Some m \<and> m_confirmation m \<noteq> None"
proof -
  have "\<exists>m. run_events monitor_step (new_monitor False)
        [FetchSettled True FetchTypeError, VisibilityChange True] = Some m \<and> m_pending m \<and> m_visible m \<and> m_queued m = 0"
    by (simp add: new_monitor_def monitor_defs)
  with pending_failure_is_confirmed show ?thesis by fastforce
qed

end
