(* ===== verification/Update_Package.thy ===== *)
theory Update_Package
  imports Js_Prelude
begin

text \<open>
  Downloading and repackaging of update archives on the public site: \<^verbatim>\<open>web/js/lib/update-package.js\<close>,
  its worker \<^verbatim>\<open>web/js/workers/update-package-worker.js\<close> and \<^verbatim>\<open>web/js/lib/brotli-zip.js\<close>.

  The network, the digest, the Brotli decoder and the ZIP writer are code outside the repository and
  are parameters: \<^verbatim>\<open>environment\<close> collects them. A page and its worker exchange messages; a worker run
  is the list of messages it posts. \<^verbatim>\<open>settled\<close> is the order in which concurrent jobs finish.
\<close>

type_synonym bytes = "nat list"

definition minParallelPartSize :: nat where "minParallelPartSize = 8388608"
definition maxDownloadWorkers :: nat where "maxDownloadWorkers = 4"
definition maxUpdatePackageSize :: nat where "maxUpdatePackageSize = 2 * 1024 * 1024 * 1024"
definition maxUpdateExecutableSize :: nat where "maxUpdateExecutableSize = 512 * 1024 * 1024"

section \<open>Targets and policies\<close>

record update_target =
  t_file :: "string option"
  t_format :: "string option"
  t_packageFormat :: "string option"

definition isBrotliUpdateTarget :: "update_target option \<Rightarrow> bool" where
  "isBrotliUpdateTarget target =
     (let format = toLowerCase (case target of None \<Rightarrow> []
            | Some t \<Rightarrow> str_or (opt_or (t_format t) []) (opt_or (t_packageFormat t) []));
          file = (case target of None \<Rightarrow> [] | Some t \<Rightarrow> opt_or (t_file t) [])
      in format = ''brotli'' \<or> endsWith (toLowerCase file) ''.br'')"

text \<open>Device memory is reported in fractions of GiB, hence the ordered field of its argument.\<close>

definition chooseUpdateDownloadWorkers :: "nat \<Rightarrow> js_number \<Rightarrow> 'a::linordered_idom option \<Rightarrow> nat" where
  "chooseUpdateDownloadWorkers sz hardwareConcurrency deviceMemory =
     (let sizeWorkers = max 1 (ceil_div sz minParallelPartSize);
          cpu = num_or hardwareConcurrency 1 - 1;
          cpuWorkers = nat (max 1 (min (int maxDownloadWorkers) (if cpu = 0 then 1 else cpu)));
          memoryWorkers = (case deviceMemory of
              Some m \<Rightarrow> if m \<le> 2 then 1 else if m \<le> 4 then 2 else maxDownloadWorkers
            | None \<Rightarrow> maxDownloadWorkers)
      in max 1 (min maxDownloadWorkers (min sizeWorkers (min cpuWorkers memoryWorkers))))"

text \<open>\<^verbatim>\<open>navigator.deviceMemory || 4\<close>.\<close>

definition default_memory :: "'a::linordered_idom option \<Rightarrow> 'a option" where
  "default_memory m = (case m of None \<Rightarrow> Some 4 | Some x \<Rightarrow> Some (if x = 0 then 4 else x))"

definition legacyZipFilename :: "string option \<Rightarrow> string" where
  "legacyZipFilename filename =
     (let name = str_or (opt_or filename []) ''renop-update.br''
      in if endsWith (toLowerCase name) ''.br'' then take (length name - 3) name @ ''.zip'' else name @ ''.zip'')"

section \<open>Byte ranges\<close>

text \<open>The loop of \<^verbatim>\<open>byteRanges\<close> from \<open>index\<close> on, with its early exit; ends are inclusive.\<close>

function ranges_from :: "nat \<Rightarrow> nat \<Rightarrow> nat \<Rightarrow> nat \<Rightarrow> (nat \<times> nat) list" where
  "ranges_from sz partSize workers index =
     (if index < workers then
        (if sz \<le> index * partSize then []
         else (index * partSize, min (sz - 1) (index * partSize + partSize - 1))
                # ranges_from sz partSize workers (index + 1))
      else [])"
  by pat_completeness auto
termination by (relation "measure (\<lambda>(sz, part, workers, index). workers - index)") auto

declare ranges_from.simps [simp del]

definition byteRanges :: "nat \<Rightarrow> nat \<Rightarrow> (nat \<times> nat) list" where
  "byteRanges sz workers = ranges_from sz (ceil_div sz workers) workers 0"

text \<open>\<^verbatim>\<open>output.set(part, offset)\<close>, and the copy loop that assembles parts into one array.\<close>

definition set_at :: "bytes \<Rightarrow> nat \<Rightarrow> bytes \<Rightarrow> bytes" where
  "set_at out off part = take off out @ part @ drop (off + length part) out"

definition copy_parts :: "bytes list \<Rightarrow> bytes" where
  "copy_parts parts =
     fst (foldl (\<lambda>(out, off) part. (set_at out off part, off + length part))
            (replicate (foldl (\<lambda>total part. total + length part) 0 parts) 0, 0) parts)"

section \<open>The worker\<close>

record response =
  rs_status :: nat
  rs_length :: js_number
  rs_body :: "bytes option list option"
  rs_buffer :: bytes

definition response_ok :: "response \<Rightarrow> bool" where
  "response_ok r = (200 \<le> rs_status r \<and> rs_status r < 300)"

datatype worker_msg =
    Progress string int
  | Failed string string
  | Data string "bytes option"
  | Crash string

datatype job_kind = DownloadJob "(nat \<times> nat) option" | ConvertJob bytes string nat | OtherJob

text \<open>A file entry of the archive: name, content, and whether it carries the executable mode.\<close>

type_synonym zip_entry = "string \<times> bytes \<times> bool"

record environment =
  env_fetch :: "(nat \<times> nat) option \<Rightarrow> string + response"
  env_document :: "string \<Rightarrow> string + response"
  env_sha256 :: "bytes \<Rightarrow> bytes"
  env_decompress :: "bytes \<Rightarrow> string + bytes"
  env_zip :: "zip_entry list \<Rightarrow> bytes"

text \<open>The read loop of \<^verbatim>\<open>readResponseBytes\<close>: \<open>out\<close> is the preallocated array when the length is known,
  \<open>chunks\<close> the collected chunks (in order) otherwise.\<close>

fun read_loop :: "string \<Rightarrow> bytes option \<Rightarrow> bytes list \<Rightarrow> nat \<Rightarrow> bytes option list \<Rightarrow> worker_msg list \<times> (string + bytes)" where
  "read_loop jobId out chunks received [] =
     ([], case out of
            Some buf \<Rightarrow> if received \<noteq> length buf then Inl ''download_size_mismatch'' else Inr buf
          | None \<Rightarrow> Inr (copy_parts chunks))"
| "read_loop jobId out chunks received (v # vs) =
     (case v of
        None \<Rightarrow> read_loop jobId out chunks received vs
      | Some value \<Rightarrow>
          if value = [] then read_loop jobId out chunks received vs
          else if (case out of Some buf \<Rightarrow> length buf < received + length value | None \<Rightarrow> False)
          then ([], Inl ''download_size_mismatch'')
          else let out1 = map_option (\<lambda>buf. set_at buf received value) out;
                   chunks1 = (if out = None then chunks @ [value] else chunks);
                   received1 = received + length value
               in if maxUpdatePackageSize < received1 then ([], Inl ''package_too_large'')
                  else let (ms, r) = read_loop jobId out1 chunks1 received1 vs
                       in (Progress jobId (int (length value)) # ms, r))"

definition readResponseBytes :: "string \<Rightarrow> response \<Rightarrow> worker_msg list \<times> (string + bytes)" where
  "readResponseBytes jobId r =
     (case rs_body r of
        None \<Rightarrow> ([], Inr (rs_buffer r))
      | Some body \<Rightarrow>
          let expected = num_or_zero (rs_length r)
          in if int maxUpdatePackageSize < expected then ([], Inl ''package_too_large'')
             else read_loop jobId (if 0 < expected then Some (replicate (nat expected) 0) else None) [] 0 body)"

definition download :: "environment \<Rightarrow> string \<Rightarrow> (nat \<times> nat) option \<Rightarrow> worker_msg list \<times> (string + bytes)" where
  "download env jobId rng =
     (case env_fetch env rng of
        Inl e \<Rightarrow> ([], Inl e)
      | Inr r \<Rightarrow>
          if \<not> response_ok r \<or> (rng \<noteq> None \<and> rs_status r \<noteq> 206)
          then ([], Inl (if rng \<noteq> None \<and> rs_status r = 200 then ''range_unsupported''
                          else ''download_http_'' @ show_nat (rs_status r)))
          else readResponseBytes jobId r)"

definition legalNames :: "string list" where
  "legalNames = [''LICENSE'', ''README.md'', ''THIRD_PARTY_NOTICES.md'']"

text \<open>\<^verbatim>\<open>brotliExecutableToZip\<close>; \<^verbatim>\<open>executableName\<close> overrides no document of the same name.\<close>

definition brotliExecutableToZip ::
  "environment \<Rightarrow> bytes \<Rightarrow> string \<Rightarrow> nat \<Rightarrow> (string \<times> bytes) list \<Rightarrow> string + bytes" where
  "brotliExecutableToZip env compressed executableName expectedSize additionalFiles =
     and_then (env_decompress env compressed) (\<lambda>executable.
       if 0 < expectedSize \<and> length executable \<noteq> expectedSize then Inl ''uncompressed_size_mismatch''
       else let windows = endsWith (toLowerCase executableName) ''.exe''
            in Inr (env_zip env ((case map_of additionalFiles executableName of
                      Some doc \<Rightarrow> (executableName, doc, False) | None \<Rightarrow> (executableName, executable, \<not> windows))
                 # map (\<lambda>(n, d). (n, d, False)) (filter (\<lambda>(n, d). n \<noteq> executableName) additionalFiles))))"

text \<open>The loop over the fetched documents: the first one that is not ok stops it.\<close>

fun legal_entries :: "(string \<times> response) list \<Rightarrow> string + (string \<times> bytes) list" where
  "legal_entries [] = Inr []"
| "legal_entries ((name, r) # rs) =
     (if \<not> response_ok r then Inl ''release_document_unavailable''
      else and_then (legal_entries rs) (\<lambda>es. Inr ((name, rs_buffer r) # es)))"

definition convert :: "environment \<Rightarrow> nat list \<Rightarrow> bytes \<Rightarrow> string \<Rightarrow> nat \<Rightarrow> string + bytes" where
  "convert env settled compressed executableName expectedSize =
     and_then (promise_all settled (map (env_document env) legalNames)) (\<lambda>responses.
     and_then (legal_entries (zip legalNames responses)) (\<lambda>legalEntries.
       brotliExecutableToZip env compressed executableName expectedSize legalEntries))"

text \<open>The worker's message handler: the messages it posts for one job.\<close>

definition posted :: "string \<Rightarrow> worker_msg list \<times> (string + bytes) \<Rightarrow> worker_msg list" where
  "posted jobId run = fst run @ [case snd run of Inl e \<Rightarrow> Failed jobId e | Inr data \<Rightarrow> Data jobId (Some data)]"

fun worker_messages :: "environment \<Rightarrow> nat list \<Rightarrow> string \<Rightarrow> job_kind \<Rightarrow> worker_msg list" where
  "worker_messages env settled jobId (DownloadJob rng) = posted jobId (download env jobId rng)"
| "worker_messages env settled jobId (ConvertJob data name expected) =
     posted jobId ([], convert env settled data name expected)"
| "worker_messages env settled jobId OtherJob = posted jobId ([], Inl ''unsupported_worker_job'')"

section \<open>The page\<close>

text \<open>\<^verbatim>\<open>runWorkerJob\<close> over the messages of the worker: the reported deltas and how the promise settles;
  \<^term>\<open>None\<close> while it is pending.\<close>

fun runWorkerJob :: "string \<Rightarrow> worker_msg list \<Rightarrow> int list \<times> (string + bytes) option" where
  "runWorkerJob jobId [] = ([], None)"
| "runWorkerJob jobId (Progress j delta # ms) =
     (if j \<noteq> jobId then runWorkerJob jobId ms
      else let (ds, r) = runWorkerJob jobId ms in (delta # ds, r))"
| "runWorkerJob jobId (Failed j e # ms) =
     (if j \<noteq> jobId then runWorkerJob jobId ms else ([], Some (Inl (str_or e ''worker_failed''))))"
| "runWorkerJob jobId (Data j d # ms) =
     (if j \<noteq> jobId then runWorkerJob jobId ms
      else ([], Some (case d of Some data \<Rightarrow> Inr data | None \<Rightarrow> Inl ''invalid_worker_response'')))"
| "runWorkerJob jobId (Crash e # ms) = ([], Some (Inl (str_or e ''worker_failed'')))"

definition job_result :: "environment \<Rightarrow> nat list \<Rightarrow> string \<Rightarrow> job_kind \<Rightarrow> string + bytes" where
  "job_result env settled jobId job =
     (case snd (runWorkerJob jobId (worker_messages env settled jobId job)) of
        Some r \<Rightarrow> r | None \<Rightarrow> Inl ''pending'')"

text \<open>\<^verbatim>\<open>contentRange.match(/\/(\d+)$/)\<close>, converted to a number.\<close>

definition digit_value :: "char \<Rightarrow> nat" where
  "digit_value c = of_char c - 48"

definition is_digit :: "char \<Rightarrow> bool" where
  "is_digit c = (48 \<le> (of_char c :: nat) \<and> (of_char c :: nat) \<le> 57)"

definition content_range_total :: "string \<Rightarrow> nat option" where
  "content_range_total s =
     (case js_split (CHR ''/'') s of
        [] \<Rightarrow> None | [_] \<Rightarrow> None
      | parts \<Rightarrow> let ds = last parts
                  in if ds \<noteq> [] \<and> list_all is_digit ds then Some (foldl (\<lambda>n c. 10 * n + digit_value c) 0 ds) else None)"

record probe_response =
  pb_status :: nat
  pb_range :: "string option"

definition range_job :: "nat \<Rightarrow> string" where
  "range_job index = ''range-'' @ show_nat index"

definition downloadPackage ::
  "environment \<Rightarrow> (string + probe_response) \<Rightarrow> nat list \<Rightarrow> js_number \<Rightarrow> 'a::linordered_idom option \<Rightarrow> js_number \<Rightarrow> string + bytes" where
  "downloadPackage env probe settled hardwareConcurrency deviceMemory declaredSize =
     (let declared = nat (max 0 (num_or_zero declaredSize))
      in if maxUpdatePackageSize < declared then Inl ''package_too_large''
         else let workerCount = chooseUpdateDownloadWorkers declared hardwareConcurrency (default_memory deviceMemory)
              in if 1 < workerCount \<and> 0 < declared then
                   and_then probe (\<lambda>p.
                     if pb_status p = 206 then
                       (let sz = (case content_range_total (opt_or (pb_range p) []) of
                                    Some n \<Rightarrow> if 0 < n then n else declared | None \<Rightarrow> declared)
                        in and_then (promise_all settled
                              (map (\<lambda>(index, rng). job_result env [] (range_job index) (DownloadJob (Some rng)))
                                 (zip [0..<length (byteRanges sz workerCount)] (byteRanges sz workerCount)))) (\<lambda>parts.
                            let output = copy_parts parts
                            in if length output \<noteq> sz then Inl ''download_size_mismatch'' else Inr output))
                     else if \<not> (200 \<le> pb_status p \<and> pb_status p < 300) then Inl (''download_http_'' @ show_nat (pb_status p))
                     else job_result env [] ''complete-fallback'' (DownloadJob None))
                 else job_result env [] ''complete'' (DownloadJob None))"

text \<open>\<^verbatim>\<open>verifySHA256\<close>: lower-case hexadecimal of the digest against the expected text.\<close>

definition lower_hex :: "nat \<Rightarrow> char" where
  "lower_hex n = char_of (if n < 10 then 48 + n else 87 + n)"

definition hex_byte :: "nat \<Rightarrow> string" where
  "hex_byte b = [lower_hex (b div 16), lower_hex (b mod 16)]"

definition is_lower_hex :: "char \<Rightarrow> bool" where
  "is_lower_hex c = (is_digit c \<or> (97 \<le> (of_char c :: nat) \<and> (of_char c :: nat) \<le> 102))"

definition verifySHA256 :: "environment \<Rightarrow> bytes \<Rightarrow> string option \<Rightarrow> bool" where
  "verifySHA256 env data expectedHex =
     (let expected = toLowerCase (trim (opt_or expectedHex []))
      in if \<not> (length expected = 64 \<and> list_all is_lower_hex expected) then False
         else concat (map hex_byte (env_sha256 env data)) = expected)"

record update_options =
  uo_size :: js_number
  uo_uncompressed :: js_number
  uo_sha256 :: "string option"
  uo_executable :: string
  uo_filename :: "string option"

definition convertBrotliUpdateToZip ::
  "environment \<Rightarrow> (string + probe_response) \<Rightarrow> nat list \<Rightarrow> nat list \<Rightarrow> js_number \<Rightarrow> 'a::linordered_idom option \<Rightarrow>
     update_options \<Rightarrow> string + (bytes \<times> string)" where
  "convertBrotliUpdateToZip env probe settled docs_settled hardwareConcurrency deviceMemory opts =
     (let expectedSize = num_or_zero (uo_uncompressed opts)
      in if expectedSize \<le> 0 \<or> int maxUpdateExecutableSize < expectedSize then Inl ''invalid_uncompressed_size''
         else and_then (downloadPackage env probe settled hardwareConcurrency deviceMemory
                 (Some (num_or_zero (uo_size opts)))) (\<lambda>compressed.
              if \<not> verifySHA256 env compressed (uo_sha256 opts) then Inl ''integrity_failed''
              else and_then (job_result env docs_settled ''convert''
                     (ConvertJob compressed (uo_executable opts) (nat expectedSize))) (\<lambda>zip.
                   Inr (zip, legacyZipFilename (uo_filename opts)))))"

section \<open>Lemmas\<close>

lemma total_length: "foldl (\<lambda>total part. total + length part) n parts = n + length (concat parts)"
  by (induction parts arbitrary: n) auto

lemma copy_loop:
  "length out = off + length (concat parts) \<Longrightarrow>
     fst (foldl (\<lambda>(out, off) part. (set_at out off part, off + length part)) (out, off) parts) = take off out @ concat parts"
  by (induction parts arbitrary: out off) (auto simp: set_at_def)

text \<open>The copy loop computes concatenation.\<close>

lemma copy_parts_concat: "copy_parts parts = concat parts"
  by (simp add: copy_parts_def total_length copy_loop)

definition range_slice :: "bytes \<Rightarrow> nat \<times> nat \<Rightarrow> bytes" where
  "range_slice file rng = slice file (fst rng) (snd rng + 1)"

lemma ranges_from_past: "sz \<le> i * p \<Longrightarrow> ranges_from sz p w i = []"
  by (simp add: ranges_from.simps)

lemma ranges_from_slices:
  assumes "0 < p" "length file \<le> w * p" "i \<le> w"
  shows "concat (map (range_slice file) (ranges_from (length file) p w i)) = drop (i * p) file"
  using assms(3)
proof (induction "w - i" arbitrary: i)
  case 0
  then have "ranges_from (length file) p w i = []" "w * p = i * p" by (simp_all add: ranges_from.simps)
  with assms(2) show ?case by simp
next
  case (Suc k)
  show ?case
  proof (cases "length file \<le> i * p")
    case True
    then show ?thesis by (simp add: ranges_from_past)
  next
    case False
    have i: "i < w" using Suc.hyps(2) by simp
    have IH: "concat (map (range_slice file) (ranges_from (length file) p w (i + 1))) = drop ((i + 1) * p) file"
      using Suc.hyps(1) [of "i + 1"] Suc.hyps(2) i by simp
    have "range_slice file (i * p, min (length file - 1) (i * p + p - 1)) = take p (drop (i * p) file)"
      using False assms(1) by (auto simp: range_slice_def slice_def min_def take_drop intro!: arg_cong2 [where f = take])
    moreover have "ranges_from (length file) p w i
        = (i * p, min (length file - 1) (i * p + p - 1)) # ranges_from (length file) p w (i + 1)"
      using False i by (subst ranges_from.simps) simp
    moreover have "take p (drop (i * p) file) @ drop ((i + 1) * p) file = drop (i * p) file"
      by (metis add.commute append_take_drop_id drop_drop mult_Suc Suc_eq_plus1)
    ultimately show ?thesis using IH by simp
  qed
qed

lemma byteRanges_slices: "0 < w \<Longrightarrow> concat (map (range_slice file) (byteRanges (length file) w)) = file"
proof (cases "file = []")
  case True
  then show ?thesis by (simp add: byteRanges_def ranges_from_past)
next
  case False
  assume w: "0 < w"
  have "0 < ceil_div (length file) w" using False w by (simp add: ceil_div_pos)
  moreover have "length file \<le> w * ceil_div (length file) w" using ceil_div_upper [OF w, of "length file"] by (simp add: mult.commute)
  ultimately show ?thesis unfolding byteRanges_def using ranges_from_slices [of "ceil_div (length file) w" "file" w 0] by simp
qed

lemma ranges_from_bounds:
  assumes "0 < p"
  shows "length (ranges_from sz p w i) \<le> w - i
    \<and> (\<forall>r \<in> set (ranges_from sz p w i). i * p \<le> fst r \<and> fst r \<le> snd r \<and> snd r < sz)
    \<and> sorted_wrt (\<lambda>r s. snd r < fst s) (ranges_from sz p w i)"
proof (induction "w - i" arbitrary: i)
  case 0
  then show ?case by (simp add: ranges_from.simps)
next
  case (Suc k)
  show ?case
  proof (cases "sz \<le> i * p")
    case True
    then show ?thesis by (simp add: ranges_from_past)
  next
    case False
    let ?r = "ranges_from sz p w (i + 1)"
    have eq: "ranges_from sz p w i = (i * p, min (sz - 1) (i * p + p - 1)) # ?r"
      using False Suc.hyps(2) by (subst ranges_from.simps) simp
    have IH: "length ?r \<le> w - (i + 1)" "\<forall>r \<in> set ?r. (i + 1) * p \<le> fst r \<and> fst r \<le> snd r \<and> snd r < sz"
      "sorted_wrt (\<lambda>r s. snd r < fst s) ?r"
      using Suc.hyps(1) [of "i + 1"] Suc.hyps(2) by auto
    have "min (sz - 1) (i * p + p - 1) < fst r" if "r \<in> set ?r" for r
      using IH(2) that assms by fastforce
    moreover have "i * p \<le> fst r" if "r \<in> set ?r" for r
      using IH(2) that by fastforce
    ultimately show ?thesis using IH False assms Suc.hyps(2) unfolding eq by auto
  qed
qed

lemma chooseUpdateDownloadWorkers_bounds:
  "1 \<le> chooseUpdateDownloadWorkers sz hw mem" "chooseUpdateDownloadWorkers sz hw mem \<le> 4"
proof -
  have "1 \<le> max 1 (min maxDownloadWorkers x)" "max 1 (min maxDownloadWorkers x) \<le> 4" for x
    by (simp_all add: maxDownloadWorkers_def)
  then show "1 \<le> chooseUpdateDownloadWorkers sz hw mem" "chooseUpdateDownloadWorkers sz hw mem \<le> 4"
    unfolding chooseUpdateDownloadWorkers_def Let_def by blast+
qed

section \<open>Reading a response\<close>

definition body_bytes :: "bytes option list \<Rightarrow> bytes" where
  "body_bytes vs = concat (map (\<lambda>v. case v of None \<Rightarrow> [] | Some b \<Rightarrow> b) vs)"

lemma body_bytes_simps [simp]: "body_bytes [] = []"
  "body_bytes (None # vs) = body_bytes vs" "body_bytes (Some b # vs) = b @ body_bytes vs"
  by (simp_all add: body_bytes_def)

lemma read_loop_unknown:
  "received = length (concat chunks) \<Longrightarrow> received \<le> maxUpdatePackageSize \<Longrightarrow>
   snd (read_loop jobId None chunks received vs) =
     (if received + length (body_bytes vs) \<le> maxUpdatePackageSize then Inr (concat chunks @ body_bytes vs)
      else Inl ''package_too_large'')"
proof (induction vs arbitrary: chunks received)
  case (Cons v vs)
  show ?case
  proof (cases v)
    case (Some b)
    with Cons.prems Cons.IH [of "received + length b" "chunks @ [b]"] Cons.IH [of received chunks] show ?thesis
      by (auto simp: Let_def split: prod.splits)
  qed (use Cons in simp)
qed (simp add: copy_parts_concat)

lemma read_loop_known:
  "received \<le> length buf \<Longrightarrow> length buf \<le> maxUpdatePackageSize \<Longrightarrow>
   snd (read_loop jobId (Some buf) [] received vs) =
     (if received + length (body_bytes vs) = length buf then Inr (take received buf @ body_bytes vs)
      else Inl ''download_size_mismatch'')"
proof (induction vs arbitrary: buf received)
  case (Cons v vs)
  show ?case
  proof (cases v)
    case (Some b)
    show ?thesis
    proof (cases "b \<noteq> [] \<and> received + length b \<le> length buf")
      case True
      then have "length (set_at buf received b) = length buf"
        "take (received + length b) (set_at buf received b) = take received buf @ b"
        by (auto simp: set_at_def)
      with True Some Cons.prems Cons.IH [of "received + length b" "set_at buf received b"] show ?thesis
        by (auto simp: Let_def split: prod.splits)
    qed (use Some Cons in auto)
  qed (use Cons in simp)
qed simp

text \<open>A response body is returned complete and unchanged, or not at all.\<close>

lemma readResponseBytes_result:
  assumes "rs_body r = Some vs" "num_or_zero (rs_length r) \<le> int maxUpdatePackageSize"
    "length (body_bytes vs) \<le> maxUpdatePackageSize"
  shows "snd (readResponseBytes jobId r) =
    (if num_or_zero (rs_length r) \<le> 0 \<or> num_or_zero (rs_length r) = int (length (body_bytes vs))
     then Inr (body_bytes vs) else Inl ''download_size_mismatch'')"
  using assms by (auto simp: readResponseBytes_def Let_def read_loop_unknown read_loop_known)

lemma runWorkerJob_posted:
  assumes "\<forall>m \<in> set (fst run). \<exists>d. m = Progress jobId d"
  shows "snd (runWorkerJob jobId (posted jobId run)) =
    Some (case snd run of Inl e \<Rightarrow> Inl (str_or e ''worker_failed'') | Inr d \<Rightarrow> Inr d)"
proof -
  have "snd (runWorkerJob jobId (ms @ [m])) = snd (runWorkerJob jobId [m])"
    if "\<forall>m \<in> set ms. \<exists>d. m = Progress jobId d" for ms m
    using that by (induction ms) (auto split: prod.splits)
  with assms show ?thesis unfolding posted_def by (simp split: sum.splits)
qed

lemma read_loop_progress: "m \<in> set (fst (read_loop jobId out chunks received vs)) \<Longrightarrow> \<exists>d. m = Progress jobId d"
  by (induction jobId out chunks received vs rule: read_loop.induct)
     (auto simp: Let_def split: option.splits if_splits prod.splits)

lemma download_progress: "m \<in> set (fst (download env jobId rng)) \<Longrightarrow> \<exists>d. m = Progress jobId d"
  by (auto simp: download_def readResponseBytes_def Let_def split: sum.splits if_splits option.splits
      dest: read_loop_progress)

lemma job_result_download: "job_result env settled jobId (DownloadJob rng) =
    (case snd (download env jobId rng) of Inl e \<Rightarrow> Inl (str_or e ''worker_failed'') | Inr d \<Rightarrow> Inr d)"
  using runWorkerJob_posted [of "download env jobId rng" jobId] download_progress [of _ env jobId rng]
  by (auto simp: job_result_def split: sum.splits)

lemma job_result_convert: "job_result env settled jobId (ConvertJob data name n) =
    (case convert env settled data name n of Inl e \<Rightarrow> Inl (str_or e ''worker_failed'') | Inr d \<Rightarrow> Inr d)"
  using runWorkerJob_posted [of "([], convert env settled data name n)" jobId]
  by (simp add: job_result_def)

section \<open>Properties\<close>

text \<open>
  The byte ranges of a parallel download are disjoint, ascending, non-empty and inside the file,
  there are at most as many as workers, and the slices they name concatenate to the whole file.
\<close>

lemma byte_ranges_partition:
  assumes "0 < workers" "file \<noteq> []"
  shows "concat (map (range_slice file) (byteRanges (length file) workers)) = file
    \<and> length (byteRanges (length file) workers) \<le> workers
    \<and> sorted_wrt (\<lambda>r s. snd r < fst s) (byteRanges (length file) workers)
    \<and> (\<forall>r \<in> set (byteRanges (length file) workers). fst r \<le> snd r \<and> snd r < length file)"
  using byteRanges_slices [OF assms(1), of "file"] assms
    ranges_from_bounds [of "ceil_div (length file) workers" "length file" workers 0]
  by (auto simp: byteRanges_def ceil_div_pos)

lemma ranged_job:
  assumes "env_fetch env (Some rng) = Inr r" "rs_status r = 206" "rs_body r = Some vs" "rs_length r = Some (int (length (body_bytes vs)))"
    "length (body_bytes vs) \<le> maxUpdatePackageSize"
  shows "job_result env [] jobId (DownloadJob (Some rng)) = Inr (body_bytes vs)"
  using assms readResponseBytes_result [of r vs jobId]
  by (simp add: job_result_download download_def response_ok_def num_or_zero_def)

lemma ranged_jobs:
  assumes "\<forall>rng \<in> set rs. \<exists>r vs. env_fetch env (Some rng) = Inr r \<and> rs_status r = 206 \<and> rs_body r = Some vs
      \<and> rs_length r = Some (int (length (range_slice file rng))) \<and> body_bytes vs = range_slice file rng"
    and "length file \<le> maxUpdatePackageSize" "length ns = length rs"
  shows "map (\<lambda>(index, rng). job_result env [] (range_job index) (DownloadJob (Some rng))) (zip ns rs)
    = map Inr (map (range_slice file) rs)"
proof (rule nth_equalityI)
  fix i assume "i < length (map (\<lambda>(index, rng). job_result env [] (range_job index) (DownloadJob (Some rng))) (zip ns rs))"
  then have i: "i < length rs" using assms(3) by simp
  moreover have "length (range_slice file (rs ! i)) \<le> maxUpdatePackageSize"
    using assms(2) by (auto simp: range_slice_def slice_def)
  moreover obtain r vs where "env_fetch env (Some (rs ! i)) = Inr r" "rs_status r = 206" "rs_body r = Some vs"
    "rs_length r = Some (int (length (range_slice file (rs ! i))))" "body_bytes vs = range_slice file (rs ! i)"
    using assms(1) i nth_mem by blast
  ultimately show "map (\<lambda>(index, rng). job_result env [] (range_job index) (DownloadJob (Some rng))) (zip ns rs) ! i
      = map Inr (map (range_slice file) rs) ! i"
    using assms(3) ranged_job [of env "rs ! i" r vs "range_job (ns ! i)"] by simp
qed (use assms(3) in simp)


definition sample_response :: "bytes \<Rightarrow> response" where
  "sample_response b = \<lparr>rs_status = 206, rs_length = Some (int (length b)), rs_body = Some [Some b, None], rs_buffer = b\<rparr>"

definition sample_env :: "bytes \<Rightarrow> environment" where
  "sample_env content =
     \<lparr>env_fetch = (\<lambda>rng. Inr (sample_response (case rng of None \<Rightarrow> content | Some r \<Rightarrow> range_slice content r))),
      env_document = (\<lambda>_. Inr (sample_response [65])), env_sha256 = (\<lambda>_. replicate 32 171),
      env_decompress = (\<lambda>b. Inr (b @ b)), env_zip = (\<lambda>es. concat (map (\<lambda>(n, d, x). d) es))\<rparr>"


lemma legal_entries_names: "legal_entries (zip ns rs) = Inr es \<Longrightarrow> length ns = length rs \<Longrightarrow>
    es = zip ns (map rs_buffer rs) \<and> (\<forall>r \<in> set rs. response_ok r)"
  by (induction ns rs arbitrary: es rule: list_induct2') (auto split: if_splits)

text \<open>
  C11: nothing unauthenticated is repackaged: when \<^verbatim>\<open>convertBrotliUpdateToZip\<close> returns an archive, the
  downloaded package hashes to exactly the published SHA-256, it decompresses to an executable of
  the announced size (positive, at most 512 MiB), and the archive is the one built from that
  executable and the three release documents, each fetched successfully.
\<close>

theorem converted_update_is_authentic:
  assumes "convertBrotliUpdateToZip env probe settled docs hw mem opts = Inr (archive, filename)"
    and "set docs = {..<length legalNames}"
  shows "\<exists>compressed exe responses.
      downloadPackage env probe settled hw mem (Some (num_or_zero (uo_size opts))) = Inr compressed
    \<and> concat (map hex_byte (env_sha256 env compressed)) = toLowerCase (trim (opt_or (uo_sha256 opts) []))
    \<and> env_decompress env compressed = Inr exe
    \<and> int (length exe) = num_or_zero (uo_uncompressed opts) \<and> 0 < length exe \<and> length exe \<le> maxUpdateExecutableSize
    \<and> map (env_document env) legalNames = map Inr responses \<and> (\<forall>r \<in> set responses. response_ok r)
    \<and> (uo_executable opts \<notin> set legalNames \<longrightarrow>
         archive = env_zip env ((uo_executable opts, exe, \<not> endsWith (toLowerCase (uo_executable opts)) ''.exe'')
           # map (\<lambda>(n, r). (n, rs_buffer r, False)) (zip legalNames responses)))"
proof -
  let ?n = "nat (num_or_zero (uo_uncompressed opts))"
  from assms(1) obtain compressed where c:
      "downloadPackage env probe settled hw mem (Some (num_or_zero (uo_size opts))) = Inr compressed"
      "verifySHA256 env compressed (uo_sha256 opts)"
      "convert env docs compressed (uo_executable opts) ?n = Inr archive"
      and size: "0 < num_or_zero (uo_uncompressed opts)" "num_or_zero (uo_uncompressed opts) \<le> int maxUpdateExecutableSize"
    by (auto simp: convertBrotliUpdateToZip_def Let_def job_result_convert split: if_splits sum.splits)
  from c(3) obtain responses es where r: "promise_all docs (map (env_document env) legalNames) = Inr responses"
      "legal_entries (zip legalNames responses) = Inr es"
      "brotliExecutableToZip env compressed (uo_executable opts) ?n es = Inr archive"
    by (auto simp: convert_def)
  have resp: "map (env_document env) legalNames = map Inr responses"
    using promise_all_values [OF r(1)] assms(2) by simp
  then have "length legalNames = length responses" by (metis length_map)
  with legal_entries_names [OF r(2)] have es: "es = zip legalNames (map rs_buffer responses)" "\<forall>r \<in> set responses. response_ok r"
    by auto
  from r(3) size obtain exe where exe: "env_decompress env compressed = Inr exe" "length exe = ?n"
      "archive = env_zip env ((case map_of es (uo_executable opts) of
           Some doc \<Rightarrow> (uo_executable opts, doc, False)
         | None \<Rightarrow> (uo_executable opts, exe, \<not> endsWith (toLowerCase (uo_executable opts)) ''.exe''))
         # map (\<lambda>(n, d). (n, d, False)) (filter (\<lambda>(n, d). n \<noteq> uo_executable opts) es))"
    by (auto simp: brotliExecutableToZip_def Let_def split: if_splits)
  have plain: "archive = env_zip env ((uo_executable opts, exe, \<not> endsWith (toLowerCase (uo_executable opts)) ''.exe'')
      # map (\<lambda>(n, r). (n, rs_buffer r, False)) (zip legalNames responses))" if "uo_executable opts \<notin> set legalNames"
  proof -
    have "filter (\<lambda>(n, d). n \<noteq> uo_executable opts) es = es" "map_of es (uo_executable opts) = None"
      using that es(1) by (auto simp: filter_id_conv map_of_eq_None_iff dest: set_zip_leftD)
    with exe(3) es(1) show ?thesis by (simp add: zip_map2 o_def split_def)
  qed
  from c(2) have "concat (map hex_byte (env_sha256 env compressed)) = toLowerCase (trim (opt_or (uo_sha256 opts) []))"
    by (auto simp: verifySHA256_def Let_def split: if_splits)
  with c(1) exe(1,2) resp es(2) plain size show ?thesis by (auto intro!: exI [of _ compressed])
qed

theorem converted_update_is_authentic_witness:
  "\<exists>archive compressed. convertBrotliUpdateToZip (sample_env [7, 8]) (Inl []) [] [2, 0, 1] (Some 1) (None :: int option)
      \<lparr>uo_size = Some 2, uo_uncompressed = Some 4, uo_sha256 = Some (concat (replicate 32 ''AB'')), uo_executable = ''renop'',
       uo_filename = Some ''renop.br''\<rparr> = Inr (archive, ''renop.zip'')
    \<and> downloadPackage (sample_env [7, 8]) (Inl []) [] (Some 1) (None :: int option) (Some 2) = Inr compressed
    \<and> env_decompress (sample_env [7, 8]) compressed = Inr [7, 8, 7, 8]"
proof -
  let ?o = "\<lparr>uo_size = Some 2, uo_uncompressed = Some 4, uo_sha256 = Some (concat (replicate 32 ''AB'')), uo_executable = ''renop'',
       uo_filename = Some ''renop.br''\<rparr>"
  let ?env = "sample_env [7, 8]"
  have d: "downloadPackage ?env (Inl []) [] (Some 1) (None :: int option) (Some 2) = Inr [7, 8]"
    by (simp add: downloadPackage_def chooseUpdateDownloadWorkers_def default_memory_def ceil_div_def minParallelPartSize_def
        maxDownloadWorkers_def num_or_def num_or_zero_def Let_def maxUpdatePackageSize_def job_result_download
        download_def response_ok_def sample_env_def sample_response_def readResponseBytes_result)
  have "verifySHA256 ?env [7, 8] (uo_sha256 ?o)"
    by code_simp
  moreover have "\<exists>z. convert ?env [2, 0, 1] [7, 8] ''renop'' 4 = Inr z"
    by (simp add: convert_def promise_all_def legalNames_def sample_env_def sample_response_def response_ok_def
        brotliExecutableToZip_def Let_def)
  moreover have "legacyZipFilename (Some ''renop.br'') = ''renop.zip''" by code_simp
  ultimately obtain archive where "convertBrotliUpdateToZip ?env (Inl []) [] [2, 0, 1] (Some 1) (None :: int option) ?o
      = Inr (archive, ''renop.zip'')"
    using d by (auto simp: convertBrotliUpdateToZip_def num_or_zero_def maxUpdateExecutableSize_def job_result_convert Let_def)
  moreover have "set [2, 0, 1] = {..<length legalNames}" by (auto simp: legalNames_def)
  ultimately show ?thesis
    using converted_update_is_authentic [of ?env "Inl []" "[]" "[2, 0, 1]" "Some 1" "None :: int option" ?o archive "''renop.zip''"] d
    by (auto simp: sample_env_def num_or_zero_def)
qed

end
