(* ===== verification/Official_Releases.thy ===== *)
theory Official_Releases
  imports Uri_Codec
begin

text \<open>
  Release metadata of the public site (\<^verbatim>\<open>web/js/lib/official.js\<close>): the platform matrix and its
  queries, platform detection, parsing of the channel \<^verbatim>\<open>info.json\<close>, the choice of a package for a
  platform, the release lists and the paged contributor list.

  A decoded JSON object is a record whose absent members are \<^term>\<open>None\<close>; the JSON parser and the
  network stay outside. Lookups in the matrix concern its own keys.
\<close>

section \<open>Platforms\<close>

definition OFFICIAL_UPDATE_BASE :: string where
  "OFFICIAL_UPDATE_BASE = ''https://mvnc.pkg.one/update/renop''"

definition GITHUB_REPO :: string where
  "GITHUB_REPO = ''404Setup/SRC-RenoP''"

definition PLATFORMS_os :: "(string \<times> string) list" where
  "PLATFORMS_os = [(''windows'', ''Windows''), (''darwin'', ''macOS''), (''linux'', ''Linux''),
     (''freebsd'', ''FreeBSD''), (''netbsd'', ''NetBSD''), (''openbsd'', ''OpenBSD'')]"

definition PLATFORMS_arch :: "(string \<times> string) list" where
  "PLATFORMS_arch = [(''amd64'', ''amd64 (x86_64)''), (''arm64'', ''arm64 (aarch64)''),
     (''loong64'', ''loong64''), (''riscv64'', ''riscv64'')]"

definition X64_VERSIONS :: "(string \<times> string) list" where
  "X64_VERSIONS = [(''amd64'', ''v1''), (''amd64v2'', ''v2''), (''amd64v3'', ''v3''), (''amd64v4'', ''v4'')]"

definition PLATFORM_MATRIX :: "(string \<times> string list) list" where
  "PLATFORM_MATRIX =
     [(''windows'', [''amd64'', ''arm64'']), (''darwin'', [''amd64'', ''arm64'']),
      (''linux'', [''amd64'', ''arm64'', ''loong64'', ''riscv64'']), (''freebsd'', [''amd64'', ''arm64'']),
      (''netbsd'', [''amd64'']), (''openbsd'', [''amd64'', ''arm64''])]"

definition getArchOptionsForOs :: "string \<Rightarrow> (string \<times> string) list" where
  "getArchOptionsForOs os =
     (case map_of PLATFORM_MATRIX os of
        None \<Rightarrow> []
      | Some allowed \<Rightarrow> if allowed = [] then [] else filter (\<lambda>a. fst a \<in> set allowed) PLATFORMS_arch)"

definition base_arch :: "string \<Rightarrow> string" where
  "base_arch arch = (if startsWith arch ''amd64'' then ''amd64'' else arch)"

definition isPlatformSupported :: "string \<Rightarrow> string \<Rightarrow> bool" where
  "isPlatformSupported os arch =
     (if os = [] \<or> arch = [] then False
      else case map_of PLATFORM_MATRIX os of None \<Rightarrow> False | Some arches \<Rightarrow> base_arch arch \<in> set arches)"

definition normalizePlatform :: "string \<Rightarrow> string \<Rightarrow> string \<times> string" where
  "normalizePlatform os arch =
     (let validOs = (if os \<in> set (map fst PLATFORMS_os) then os else ''linux'');
          arches = (case map_of PLATFORM_MATRIX validOs of
                      Some as \<Rightarrow> as | None \<Rightarrow> (case map_of PLATFORM_MATRIX ''linux'' of Some as \<Rightarrow> as | None \<Rightarrow> []));
          validArch = (if base_arch arch \<in> set arches then arch
                       else case arches of [] \<Rightarrow> ''amd64'' | a # _ \<Rightarrow> str_or a ''amd64'')
      in (validOs, validArch))"

text \<open>A case-insensitive test for a literal.\<close>

definition mentions :: "string \<Rightarrow> string \<Rightarrow> bool" where
  "mentions s lit = js_includes (toLowerCase s) (toLowerCase lit)"

record navigator =
  nav_userAgent :: string
  nav_platform :: string
  nav_architecture :: "string option"

definition detectPlatform :: "navigator \<Rightarrow> string \<times> string" where
  "detectPlatform nav =
     (let ua = nav_userAgent nav; platform = nav_platform nav;
          os = (if mentions platform ''Win'' \<or> mentions ua ''Windows'' then ''windows''
                else if mentions platform ''Mac'' \<or> mentions platform ''iPhone'' \<or> mentions platform ''iPad''
                        \<or> mentions ua ''Mac OS'' then ''darwin''
                else if mentions ua ''FreeBSD'' then ''freebsd''
                else if mentions ua ''NetBSD'' then ''netbsd''
                else if mentions ua ''OpenBSD'' then ''openbsd'' else ''linux'');
          uaArch = opt_or (nav_architecture nav) [];
          arch = (if mentions uaArch ''arm'' \<or> mentions ua ''aarch64'' then ''arm64'' else ''amd64'')
      in normalizePlatform os arch)"

section \<open>Channel metadata\<close>

definition channel_segment :: "string \<Rightarrow> string" where
  "channel_segment channel = (if channel = ''nightly'' \<or> channel = ''preview'' then ''nightly'' else ''stable'')"

definition channelInfoUrl :: "string \<Rightarrow> string" where
  "channelInfoUrl channel = OFFICIAL_UPDATE_BASE @ ''/'' @ channel_segment channel @ ''/info.json''"

definition packageDownloadUrl :: "string \<Rightarrow> string \<Rightarrow> string \<Rightarrow> string \<Rightarrow> string" where
  "packageDownloadUrl channel version fname targetUrl =
     (if targetUrl \<noteq> [] then targetUrl
      else OFFICIAL_UPDATE_BASE @ ''/'' @ channel_segment channel @ ''/'' @ encode_component version @ ''/'' @ encode_component fname)"

record raw_target =
  rt_os :: "string option"
  rt_arch :: "string option"
  rt_file :: "string option"
  rt_sha256 :: "string option"
  rt_size :: js_number
  rt_uncompressed_size :: js_number
  rt_uncompressedSize :: js_number
  rt_format :: "string option"
  rt_executable :: "string option"
  rt_download_url :: "string option"
  rt_downloadUrl :: "string option"

record target =
  tg_os :: string
  tg_arch :: string
  tg_file :: string
  tg_sha256 :: string
  tg_size :: int
  tg_uncompressedSize :: int
  tg_format :: string
  tg_executable :: string
  tg_downloadUrl :: string

definition parseTarget :: "raw_target \<Rightarrow> target" where
  "parseTarget t =
     \<lparr>tg_os = opt_or (rt_os t) [], tg_arch = opt_or (rt_arch t) [], tg_file = opt_or (rt_file t) [],
      tg_sha256 = opt_or (rt_sha256 t) [], tg_size = num_or_zero (rt_size t),
      tg_uncompressedSize = num_or (rt_uncompressed_size t) (num_or_zero (rt_uncompressedSize t)),
      tg_format = opt_or (rt_format t) [], tg_executable = opt_or (rt_executable t) [],
      tg_downloadUrl = opt_or (rt_download_url t) (opt_or (rt_downloadUrl t) [])\<rparr>"

record raw_release =
  rr_version :: "string option"
  rr_commit :: "string option"
  rr_previous_commit :: "string option"
  rr_previousCommit :: "string option"
  rr_channel :: "string option"
  rr_development :: bool
  rr_published_at :: "string option"
  rr_publishedAt :: "string option"
  rr_changelog :: "string option"
  rr_targets :: "raw_target list option"

record release =
  rl_version :: string
  rl_commit :: string
  rl_previousCommit :: string
  rl_channel :: string
  rl_development :: bool
  rl_publishedAt :: string
  rl_changelog :: string
  rl_targets :: "target list"

definition parseReleaseItem :: "raw_release \<Rightarrow> string \<Rightarrow> release" where
  "parseReleaseItem r channelDefault =
     \<lparr>rl_version = opt_or (rr_version r) [], rl_commit = opt_or (rr_commit r) [],
      rl_previousCommit = opt_or (rr_previous_commit r) (opt_or (rr_previousCommit r) []),
      rl_channel = opt_or (rr_channel r) channelDefault, rl_development = rr_development r,
      rl_publishedAt = opt_or (rr_published_at r) (opt_or (rr_publishedAt r) []),
      rl_changelog = opt_or (rr_changelog r) [],
      rl_targets = (case rr_targets r of None \<Rightarrow> [] | Some ts \<Rightarrow> map parseTarget ts)\<rparr>"

text \<open>The response of the metadata request: its status and the \<^verbatim>\<open>releases\<close> array of its body, if any.\<close>

record channel_response =
  cr_status :: nat
  cr_releases :: "raw_release list option"

record channel_info =
  ci_latest :: release
  ci_releases :: "release list"

definition fetchChannelInfo :: "(string \<Rightarrow> string + channel_response) \<Rightarrow> string \<Rightarrow> string + channel_info" where
  "fetchChannelInfo net channel =
     and_then (net (channelInfoUrl channel)) (\<lambda>res.
       if \<not> (200 \<le> cr_status res \<and> cr_status res < 300)
       then Inl (''Official update source HTTP '' @ show_nat (cr_status res))
       else case cr_releases res of
           None \<Rightarrow> Inl ''Invalid channel info.json''
         | Some [] \<Rightarrow> Inl ''Invalid channel info.json''
         | Some (r # rs) \<Rightarrow>
             Inr \<lparr>ci_latest = parseReleaseItem r channel,
                  ci_releases = map (\<lambda>r. parseReleaseItem r channel) (r # rs)\<rparr>)"

section \<open>Choosing a package\<close>

definition level_arch :: "nat \<Rightarrow> string" where
  "level_arch l = (if l = 1 then ''amd64'' else ''amd64v'' @ show_nat l)"

definition amd64_level :: "string \<Rightarrow> nat" where
  "amd64_level a = (if a = ''amd64v4'' then 4 else if a = ''amd64v3'' then 3 else if a = ''amd64v2'' then 2 else 1)"

definition arch_at_level :: "nat \<Rightarrow> target \<Rightarrow> bool" where
  "arch_at_level l t =
     (let tArch = toLowerCase (tg_arch t)
      in if l = 1 then tArch = ''amd64'' \<or> tArch = ''amd64v1'' else tArch = level_arch l)"

definition file_at_level :: "string \<Rightarrow> nat \<Rightarrow> target \<Rightarrow> bool" where
  "file_at_level os l t =
     (let fname = toLowerCase (tg_file t)
      in if l = 1
         then js_includes fname (os @ ''-amd64v1'')
              \<or> (js_includes fname (os @ ''-amd64'') \<and> \<not> js_includes fname ''amd64v2''
                 \<and> \<not> js_includes fname ''amd64v3'' \<and> \<not> js_includes fname ''amd64v4'')
         else js_includes fname (os @ ''-'' @ level_arch l))"

definition os_matches :: "string \<Rightarrow> target \<Rightarrow> bool" where
  "os_matches os t = (toLowerCase (tg_os t) = os)"

definition find_at_level :: "target list \<Rightarrow> string \<Rightarrow> nat \<Rightarrow> target option" where
  "find_at_level targets os l =
     (case find (\<lambda>t. os_matches os t \<and> arch_at_level l t) targets of
        Some t \<Rightarrow> Some t
      | None \<Rightarrow> find (\<lambda>t. os_matches os t \<and> file_at_level os l t) targets)"

text \<open>The loop from the requested level down to the first.\<close>

fun search_levels :: "target list \<Rightarrow> string \<Rightarrow> nat \<Rightarrow> target option" where
  "search_levels targets os 0 = None"
| "search_levels targets os (Suc l) =
     (case find_at_level targets os (Suc l) of Some t \<Rightarrow> Some t | None \<Rightarrow> search_levels targets os l)"

definition findTargetForPlatform :: "target list \<Rightarrow> string \<Rightarrow> string \<Rightarrow> target option" where
  "findTargetForPlatform targets os arch =
     (if targets = [] \<or> os = [] \<or> arch = [] then None
      else let o' = toLowerCase os; a = toLowerCase arch
           in if startsWith a ''amd64'' then search_levels targets o' (amd64_level a)
              else case find (\<lambda>t. toLowerCase (tg_os t) = o' \<and> toLowerCase (tg_arch t) = a) targets of
                  Some t \<Rightarrow> Some t
                | None \<Rightarrow> find (\<lambda>t. js_includes (toLowerCase (tg_file t)) (o' @ ''-'' @ a)) targets)"

section \<open>Release lists\<close>

definition commitSubject :: "string option \<Rightarrow> string" where
  "commitSubject message = trim (hd (js_split (CHR 0x0A) (trim (opt_or message []))))"

definition isWebOnlyCommit :: "string option \<Rightarrow> bool" where
  "isWebOnlyCommit subject = startsWith (toLowerCase (commitSubject subject)) ''[web]''"

record card =
  cd_id :: string
  cd_tag :: string
  cd_name :: string
  cd_body :: string
  cd_publishedAt :: string
  cd_commitSha :: string
  cd_targets :: "target list"
  cd_isLatest :: bool

definition stable_target :: "nat \<Rightarrow> string \<Rightarrow> string \<Rightarrow> target \<Rightarrow> target" where
  "stable_target index ver tag t =
     t\<lparr>tg_downloadUrl :=
        (if tg_downloadUrl t \<noteq> [] then tg_downloadUrl t
         else if index \<le> 1 then packageDownloadUrl ''stable'' ver (tg_file t) []
         else ''https://github.com/'' @ GITHUB_REPO @ ''/releases/download/'' @ encode_component tag @ ''/'' @ encode_component (tg_file t))\<rparr>"

definition stable_card :: "nat \<Rightarrow> release \<Rightarrow> card" where
  "stable_card index rel =
     (let ver = rl_version rel; tag = (if startsWith ver ''v'' then ver else ''v'' @ ver)
      in \<lparr>cd_id = ver, cd_tag = tag, cd_name = ver, cd_body = rl_changelog rel, cd_publishedAt = rl_publishedAt rel,
          cd_commitSha = rl_commit rel, cd_targets = map (stable_target index ver tag) (rl_targets rel), cd_isLatest = False\<rparr>)"

definition fetchStableReleases :: "(string \<Rightarrow> string + channel_response) \<Rightarrow> string + card list" where
  "fetchStableReleases net =
     and_then (fetchChannelInfo net ''stable'') (\<lambda>info.
       Inr (map (\<lambda>(index, rel). stable_card index rel) (zip [0..<length (ci_releases info)] (ci_releases info))))"

definition preview_card :: "nat \<Rightarrow> release \<Rightarrow> card" where
  "preview_card index rel =
     (let short = str_or (take 7 (str_or (rl_commit rel) (rl_version rel))) (rl_version rel);
          name = (if startsWith (rl_version rel) ''nightly-'' then rl_version rel else ''nightly-'' @ short)
      in \<lparr>cd_id = rl_version rel, cd_tag = name, cd_name = name, cd_body = rl_changelog rel,
          cd_publishedAt = rl_publishedAt rel, cd_commitSha = rl_commit rel, cd_targets = rl_targets rel, cd_isLatest = (index = 0)\<rparr>)"

definition fetchPreviewReleases :: "(string \<Rightarrow> string + channel_response) \<Rightarrow> string + card list" where
  "fetchPreviewReleases net =
     and_then (fetchChannelInfo net ''nightly'') (\<lambda>info.
       let items = take 100 (ci_releases info)
       in Inr (map (\<lambda>(index, rel). preview_card index rel) (zip [0..<length items] items)))"

definition fetchStableRelease :: "(string \<Rightarrow> string + channel_response) \<Rightarrow> string + card option" where
  "fetchStableRelease net =
     and_then (fetchStableReleases net) (\<lambda>list. Inr (case list of [] \<Rightarrow> None | c # _ \<Rightarrow> Some c))"

definition fetchPreviewInfo :: "(string \<Rightarrow> string + channel_response) \<Rightarrow> string + card option" where
  "fetchPreviewInfo net =
     and_then (fetchPreviewReleases net) (\<lambda>list. Inr (case list of [] \<Rightarrow> None | c # _ \<Rightarrow> Some c))"

section \<open>Contributors\<close>

record raw_contributor =
  rc_id :: int
  rc_login :: string
  rc_type :: "string option"
  rc_avatar_url :: string
  rc_html_url :: string
  rc_contributions :: js_number

record contributor =
  cb_id :: int
  cb_login :: string
  cb_avatarUrl :: string
  cb_htmlUrl :: string
  cb_contributions :: int

text \<open>The inner loop over one batch; a \<^verbatim>\<open>null\<close> entry is \<^term>\<open>None\<close>.\<close>

fun batch_contributors :: "raw_contributor option list \<Rightarrow> contributor list" where
  "batch_contributors [] = []"
| "batch_contributors (None # cs) = batch_contributors cs"
| "batch_contributors (Some c # cs) =
     (if rc_type c = Some ''Bot'' then batch_contributors cs
      else \<lparr>cb_id = rc_id c, cb_login = rc_login c, cb_avatarUrl = rc_avatar_url c, cb_htmlUrl = rc_html_url c,
            cb_contributions = num_or_zero (rc_contributions c)\<rparr> # batch_contributors cs)"

record contributor_page =
  cp_status :: nat
  cp_batch :: "raw_contributor option list option"

function contributor_pages ::
  "(nat \<Rightarrow> string + contributor_page) \<Rightarrow> nat \<Rightarrow> nat \<Rightarrow> nat \<Rightarrow> contributor list \<Rightarrow> string + contributor list" where
  "contributor_pages net perPage maxPages page all =
     (if page \<le> maxPages then
        and_then (net page) (\<lambda>res.
          if \<not> (200 \<le> cp_status res \<and> cp_status res < 300)
          then Inl (''GitHub contributors HTTP '' @ show_nat (cp_status res))
          else case cp_batch res of
              None \<Rightarrow> Inr all
            | Some batch \<Rightarrow>
                if batch = [] then Inr all
                else let all1 = all @ batch_contributors batch
                     in if length batch < perPage then Inr all1
                        else contributor_pages net perPage maxPages (page + 1) all1)
      else Inr all)"
  by pat_completeness auto
termination by (relation "measure (\<lambda>(net, per, maxPages, page, all). Suc maxPages - page)") auto

declare contributor_pages.simps [simp del]

definition fetchContributors :: "(nat \<Rightarrow> string + contributor_page) \<Rightarrow> nat \<Rightarrow> nat \<Rightarrow> string + contributor list" where
  "fetchContributors net perPage maxPages = contributor_pages net perPage maxPages 1 []"

section \<open>Lemmas\<close>

lemma find_SomeD: "find P xs = Some x \<Longrightarrow> x \<in> set xs \<and> P x"
  by (auto simp: find_Some_iff)

lemma find_at_level_sound:
  "find_at_level targets os l = Some t \<Longrightarrow>
     t \<in> set targets \<and> os_matches os t \<and> (arch_at_level l t \<or> file_at_level os l t)"
  by (auto simp: find_at_level_def split: option.splits dest: find_SomeD)

lemma search_levels_sound:
  "search_levels targets os n = Some t \<Longrightarrow>
     t \<in> set targets \<and> os_matches os t \<and> (\<exists>l. 1 \<le> l \<and> l \<le> n \<and> (arch_at_level l t \<or> file_at_level os l t))"
proof (induction n)
  case (Suc n)
  show ?case
  proof (cases "find_at_level targets os (Suc n)")
    case None
    with Suc show ?thesis by fastforce
  next
    case (Some u)
    with Suc.prems find_at_level_sound [OF Some] show ?thesis by auto
  qed
qed simp

lemma search_levels_complete:
  "search_levels targets os n = None \<Longrightarrow> 1 \<le> l \<Longrightarrow> l \<le> n \<Longrightarrow> t \<in> set targets \<Longrightarrow>
     \<not> (os_matches os t \<and> (arch_at_level l t \<or> file_at_level os l t))"
proof (induction n)
  case (Suc n)
  then have none: "find_at_level targets os (Suc n) = None" and rest: "search_levels targets os n = None"
    by (auto split: option.splits)
  show ?case
  proof (cases "l = Suc n")
    case True
    with none Suc.prems(4) show ?thesis
      by (auto simp: find_at_level_def find_None_iff split: option.splits)
  next
    case False
    with Suc.IH [OF rest] Suc.prems show ?thesis by auto
  qed
qed simp

lemma search_levels_exact:
  "0 < n \<Longrightarrow> find (\<lambda>t. os_matches os t \<and> arch_at_level n t) targets = Some t \<Longrightarrow> search_levels targets os n = Some t"
  by (cases n) (simp_all add: find_at_level_def)

lemma amd64_level_bounds: "1 \<le> amd64_level a \<and> amd64_level a \<le> 4"
  by (simp add: amd64_level_def)

section \<open>Properties\<close>

text \<open>
  The package chosen for an x86-64 machine never exceeds its microarchitecture level and is the
  best one: a returned target comes from the list, is for the requested system, and is declared (by
  its architecture or its file name) for a level between 1 and the requested one; the first target
  declared for exactly the requested level wins; and nothing is returned only when no target of
  that system fits any level up to the requested one.
\<close>

lemma amd64_target_choice:
  assumes "startsWith (toLowerCase arch) ''amd64''" "os \<noteq> []" "arch \<noteq> []"
  shows "(\<forall>t. findTargetForPlatform targets os arch = Some t \<longrightarrow>
            t \<in> set targets \<and> os_matches (toLowerCase os) t
            \<and> (\<exists>l. 1 \<le> l \<and> l \<le> amd64_level (toLowerCase arch) \<and> (arch_at_level l t \<or> file_at_level (toLowerCase os) l t)))
    \<and> (\<forall>t. find (\<lambda>t. os_matches (toLowerCase os) t \<and> arch_at_level (amd64_level (toLowerCase arch)) t) targets = Some t
            \<longrightarrow> findTargetForPlatform targets os arch = Some t)
    \<and> (findTargetForPlatform targets os arch = None \<longrightarrow>
         (\<forall>t \<in> set targets. \<forall>l. 1 \<le> l \<and> l \<le> amd64_level (toLowerCase arch) \<longrightarrow>
            \<not> (os_matches (toLowerCase os) t \<and> (arch_at_level l t \<or> file_at_level (toLowerCase os) l t))))"
proof (cases "targets = []")
  case True
  then show ?thesis by (simp add: findTargetForPlatform_def)
next
  case False
  let ?n = "amd64_level (toLowerCase arch)"
  have eq: "findTargetForPlatform targets os arch = search_levels targets (toLowerCase os) ?n"
    using assms False by (simp add: findTargetForPlatform_def Let_def)
  have pos: "0 < ?n" using amd64_level_bounds [of "toLowerCase arch"] by simp
  show ?thesis
    unfolding eq using search_levels_sound [of targets "toLowerCase os" ?n]
      search_levels_complete [of targets "toLowerCase os" ?n] search_levels_exact [OF pos] by blast
qed

definition sample_target :: "string \<Rightarrow> string \<Rightarrow> string \<Rightarrow> target" where
  "sample_target os arch fname = \<lparr>tg_os = os, tg_arch = arch, tg_file = fname, tg_sha256 = [], tg_size = 0,
     tg_uncompressedSize = 0, tg_format = [], tg_executable = [], tg_downloadUrl = []\<rparr>"

lemma matrix_systems: "os \<in> set (map fst PLATFORMS_os) \<longleftrightarrow> map_of PLATFORM_MATRIX os \<noteq> None"
  by (auto simp: PLATFORMS_os_def PLATFORM_MATRIX_def map_of_eq_None_iff)

lemma matrix_values: "map_of PLATFORM_MATRIX os = Some as \<Longrightarrow> hd as = ''amd64'' \<and> as \<noteq> [] \<and> ''amd64'' \<in> set as \<and> [] \<notin> set as \<and> os \<noteq> []"
  by (auto simp: PLATFORM_MATRIX_def split: if_splits)

lemma normalize_supported: "isPlatformSupported (fst (normalizePlatform os arch)) (snd (normalizePlatform os arch))"
proof -
  define v where "v = (if os \<in> set (map fst PLATFORMS_os) then os else ''linux'')"
  have "v \<in> set (map fst PLATFORMS_os)" by (simp add: v_def PLATFORMS_os_def)
  then obtain as where as: "map_of PLATFORM_MATRIX v = Some as" unfolding matrix_systems by blast
  note m = matrix_values [OF as]
  define a where "a = (if base_arch arch \<in> set as then arch else ''amd64'')"
  have "normalizePlatform os arch = (v, a)"
    using as m unfolding normalizePlatform_def v_def [symmetric] Let_def
    by (cases as) (auto simp: a_def str_or_def)
  moreover have "a \<noteq> []" "base_arch a \<in> set as"
    using m by (auto simp: a_def base_arch_def startsWith_def split: if_splits)
  ultimately show ?thesis using as m by (simp add: isPlatformSupported_def)
qed

lemma normalize_keeps: "isPlatformSupported os arch \<Longrightarrow> normalizePlatform os arch = (os, arch)"
proof -
  assume s: "isPlatformSupported os arch"
  then obtain as where as: "map_of PLATFORM_MATRIX os = Some as" "base_arch arch \<in> set as"
    by (auto simp: isPlatformSupported_def split: if_splits option.splits)
  then have "os \<in> set (map fst PLATFORMS_os)" unfolding matrix_systems by simp
  with as show ?thesis by (simp add: normalizePlatform_def)
qed

text \<open>
  Platform normalisation is total and always yields a supported platform: for every system and
  architecture name the result is supported, a platform that is supported already is kept (for a
  known system), normalising twice changes nothing, and the platform detected from any browser
  is supported.
\<close>

lemma normalized_platform_supported:
  "isPlatformSupported (fst (normalizePlatform os arch)) (snd (normalizePlatform os arch))
   \<and> (isPlatformSupported os arch \<longrightarrow> normalizePlatform os arch = (os, arch))
   \<and> normalizePlatform (fst (normalizePlatform os arch)) (snd (normalizePlatform os arch)) = normalizePlatform os arch
   \<and> isPlatformSupported (fst (detectPlatform nav)) (snd (detectPlatform nav))"
  using normalize_supported normalize_keeps [of os arch]
    normalize_keeps [OF normalize_supported [of os arch]]
  by (simp add: detectPlatform_def Let_def)

fun used_pages :: "nat \<Rightarrow> raw_contributor option list list \<Rightarrow> raw_contributor option list list" where
  "used_pages perPage [] = []"
| "used_pages perPage (b # bs) = (if b = [] then [] else if length b < perPage then [b] else b # used_pages perPage bs)"

lemma contributor_pages_spec:
  assumes ok: "\<And>k. page \<le> k \<Longrightarrow> k \<le> maxPages \<Longrightarrow> net k = Inr \<lparr>cp_status = 200, cp_batch = Some (batch k)\<rparr>"
  shows "contributor_pages net perPage maxPages page acc
    = Inr (acc @ concat (map batch_contributors (used_pages perPage (map batch [page..<Suc maxPages]))))"
  using ok
proof (induction "Suc maxPages - page" arbitrary: page acc)
  case 0
  then have "maxPages < page" by simp
  then have "[page..<Suc maxPages] = []" by simp
  with \<open>maxPages < page\<close> show ?case by (subst contributor_pages.simps) (simp del: upt_Suc)
next
  case (Suc n)
  then have p: "page \<le> maxPages" by simp
  have u: "[page..<Suc maxPages] = page # [Suc page..<Suc maxPages]" using p by (simp add: upt_conv_Cons del: upt_Suc)
  have "contributor_pages net perPage maxPages (Suc page) acc'
      = Inr (acc' @ concat (map batch_contributors (used_pages perPage (map batch [Suc page..<Suc maxPages]))))" for acc'
    using Suc.hyps Suc.prems by (intro Suc.hyps(1)) auto
  with p Suc.prems [of page] show ?case unfolding u by (subst contributor_pages.simps) (simp add: Let_def del: upt_Suc)
qed

text \<open>
  The paged contributor list uses at most \<^verbatim>\<open>maxPages\<close> pages and loses nobody: when the pages are
  delivered, the result is the concatenation of the non-bot entries of all pages up to and
  including the first short one, in order.
\<close>

lemma contributors_complete:
  assumes "\<forall>k. 1 \<le> k \<and> k \<le> maxPages \<longrightarrow> net k = Inr \<lparr>cp_status = 200, cp_batch = Some (batch k)\<rparr>"
  shows "fetchContributors net perPage maxPages
    = Inr (concat (map batch_contributors (used_pages perPage (map batch [1..<Suc maxPages]))))"
  unfolding fetchContributors_def using contributor_pages_spec [of 1 maxPages net batch] assms by simp

end
