(* ===== verification/Database_Dsn.thy ===== *)
theory Database_Dsn
  imports Uri_Codec
begin

text \<open>
  The data-source editor of the settings page (\<^verbatim>\<open>js/settings/database-dsn.js\<close>): parsing a MySQL,
  ClickHouse or PostgreSQL connection string into editable fields, and formatting the fields back.

  Strings are lists of UTF-16 code units, because decoded components may hold any unit. \<^verbatim>\<open>new URL\<close>
  belongs to the browser and is the parameter \<^verbatim>\<open>parse_url\<close>; \<^term>\<open>None\<close> is its exception. The
  formatters that call \<^verbatim>\<open>encodeURIComponent\<close> return \<^term>\<open>None\<close> where it throws.
\<close>

section \<open>Fields and defaults\<close>

record dsn_parts =
  d_user :: ustring
  d_password :: ustring
  d_host :: ustring
  d_port :: ustring
  d_database :: ustring
  d_params :: ustring

definition mysqlDefaults :: dsn_parts where
  "mysqlDefaults = \<lparr>d_user = ustr ''root'', d_password = [], d_host = ustr ''127.0.0.1'', d_port = ustr ''3306'',
     d_database = ustr ''renop'', d_params = ustr ''charset=utf8mb4&parseTime=True&loc=Local''\<rparr>"

definition postgresDefaults :: dsn_parts where
  "postgresDefaults = \<lparr>d_user = ustr ''postgres'', d_password = [], d_host = ustr ''127.0.0.1'', d_port = ustr ''5432'',
     d_database = ustr ''renop'', d_params = ustr ''sslmode=disable''\<rparr>"

definition clickHouseDefaults :: dsn_parts where
  "clickHouseDefaults = \<lparr>d_user = ustr ''default'', d_password = [], d_host = ustr ''127.0.0.1'', d_port = ustr ''9000'',
     d_database = ustr ''default'', d_params = []\<rparr>"

definition strip_question :: "ustring \<Rightarrow> ustring" where
  "strip_question s = (case s of c # cs \<Rightarrow> if c = 63 then cs else s | [] \<Rightarrow> [])"

definition formatURLHost :: "ustring \<Rightarrow> ustring \<Rightarrow> ustring" where
  "formatURLHost v fallback =
     (let host = str_or (utrim (str_or v fallback)) fallback
      in if 58 \<in> set host \<and> \<not> (startsWith host [91] \<and> endsWith host [93]) then [91] @ host @ [93] else host)"

section \<open>MySQL\<close>

text \<open>The credentials part, the query part and the address part, in the order the parser removes them.\<close>

definition split_credentials :: "ustring \<Rightarrow> ustring \<times> ustring \<times> ustring" where
  "split_credentials rest =
     (case lastIndexOf rest 64 of
        None \<Rightarrow> ([], [], rest)
      | Some i \<Rightarrow>
          let credentials = take i rest; rest1 = drop (i + 1) rest
          in case indexOf credentials 58 of
               Some j \<Rightarrow> (take j credentials, drop (j + 1) credentials, rest1)
             | None \<Rightarrow> (credentials, [], rest1))"

definition split_query :: "ustring \<Rightarrow> ustring \<times> ustring" where
  "split_query rest = (case indexOf rest 63 of None \<Rightarrow> (rest, []) | Some i \<Rightarrow> (take i rest, drop (i + 1) rest))"

definition unwrap_address :: "ustring \<Rightarrow> ustring" where
  "unwrap_address address =
     (case (indexOf address 40, lastIndexOf address 41) of
        (Some i, Some j) \<Rightarrow> if i < j then slice address (i + 1) j else address
      | _ \<Rightarrow> address)"

definition split_address :: "ustring \<Rightarrow> ustring \<times> ustring" where
  "split_address address =
     (if address = [] then (d_host mysqlDefaults, d_port mysqlDefaults)
      else case lastIndexOf address 58 of
          Some i \<Rightarrow> (take i address, drop (i + 1) address)
        | None \<Rightarrow> (address, d_port mysqlDefaults))"

definition parseMysqlDsn :: "ustring option \<Rightarrow> dsn_parts" where
  "parseMysqlDsn dsnStr =
     (case dsnStr of
        None \<Rightarrow> mysqlDefaults
      | Some s \<Rightarrow>
          if utrim s = [] then mysqlDefaults
          else let (user, password, rest) = split_credentials (utrim s);
                   (rest1, params) = split_query rest;
                   (host, port, database) =
                     (case indexOf rest1 47 of
                        Some i \<Rightarrow> let (h, p) = split_address (unwrap_address (take i rest1)) in (h, p, drop (i + 1) rest1)
                      | None \<Rightarrow> (d_host mysqlDefaults, d_port mysqlDefaults, rest1))
               in \<lparr>d_user = str_or user (d_user mysqlDefaults), d_password = password,
                   d_host = str_or host (d_host mysqlDefaults), d_port = str_or port (d_port mysqlDefaults),
                   d_database = str_or database (d_database mysqlDefaults), d_params = params\<rparr>)"

definition formatMysqlDsn :: "dsn_parts \<Rightarrow> ustring" where
  "formatMysqlDsn parts =
     (let user = utrim (d_user parts); password = d_password parts;
          host = str_or (utrim (str_or (d_host parts) (d_host mysqlDefaults))) (d_host mysqlDefaults);
          port = utrim (str_or (d_port parts) (d_port mysqlDefaults));
          database = utrim (d_database parts);
          params = strip_question (utrim (d_params parts));
          credentials = (if user \<noteq> [] then user @ (if password \<noteq> [] then [58] @ password else []) @ [64] else [])
      in credentials @ ustr ''tcp('' @ host @ (if port \<noteq> [] then [58] @ port else []) @ ustr '')/'' @ database
         @ (if params \<noteq> [] then [63] @ params else []))"

section \<open>URL drivers\<close>

record parsed_url =
  pu_username :: ustring
  pu_password :: ustring
  pu_hostname :: ustring
  pu_port :: ustring
  pu_pathname :: ustring
  pu_search :: ustring

definition strip_slash :: "ustring \<Rightarrow> ustring" where
  "strip_slash s = (case s of c # cs \<Rightarrow> if c = 47 then cs else s | [] \<Rightarrow> [])"

definition parseClickHouseDsn :: "(ustring \<Rightarrow> parsed_url option) \<Rightarrow> ustring option \<Rightarrow> dsn_parts" where
  "parseClickHouseDsn parse_url dsnStr =
     (case dsnStr of
        None \<Rightarrow> clickHouseDefaults
      | Some s \<Rightarrow>
          if \<not> startsWith (utrim s) (ustr ''clickhouse://'') then clickHouseDefaults
          else case parse_url (utrim s) of
              None \<Rightarrow> clickHouseDefaults
            | Some parsed \<Rightarrow>
                (case (decodeURIComponent (pu_username parsed), decodeURIComponent (pu_password parsed),
                       decodeURIComponent (strip_slash (pu_pathname parsed))) of
                   (Some user, Some password, Some database) \<Rightarrow>
                     \<lparr>d_user = str_or user (d_user clickHouseDefaults), d_password = password,
                      d_host = str_or (pu_hostname parsed) (d_host clickHouseDefaults),
                      d_port = str_or (pu_port parsed) (d_port clickHouseDefaults),
                      d_database = str_or database (d_database clickHouseDefaults), d_params = drop 1 (pu_search parsed)\<rparr>
                 | _ \<Rightarrow> clickHouseDefaults))"

text \<open>The text both URL formatters assemble.\<close>

definition url_text :: "ustring \<Rightarrow> ustring \<Rightarrow> ustring \<Rightarrow> ustring \<Rightarrow> ustring \<Rightarrow> ustring \<Rightarrow> ustring" where
  "url_text scheme credentials host port database params =
     scheme @ credentials @ [64] @ host @ (if port \<noteq> [] then [58] @ port else []) @ [47] @ database
       @ (if params \<noteq> [] then [63] @ params else [])"

definition url_credentials :: "ustring \<Rightarrow> ustring \<Rightarrow> ustring option" where
  "url_credentials user password =
     (case encodeURIComponent user of
        None \<Rightarrow> None
      | Some u \<Rightarrow> if password \<noteq> [] then map_option (\<lambda>p. u @ [58] @ p) (encodeURIComponent password) else Some u)"

definition formatClickHouseDsn :: "dsn_parts \<Rightarrow> ustring option" where
  "formatClickHouseDsn parts =
     (case (url_credentials (utrim (str_or (d_user parts) (d_user clickHouseDefaults))) (d_password parts),
            encodeURIComponent (utrim (str_or (d_database parts) (d_database clickHouseDefaults)))) of
        (Some credentials, Some database) \<Rightarrow>
          Some (url_text (ustr ''clickhouse://'') credentials (formatURLHost (d_host parts) (d_host clickHouseDefaults))
            (utrim (str_or (d_port parts) (d_port clickHouseDefaults))) database (strip_question (utrim (d_params parts))))
      | _ \<Rightarrow> None)"

definition formatPostgresDsn :: "dsn_parts \<Rightarrow> ustring option" where
  "formatPostgresDsn parts =
     (case (url_credentials (utrim (str_or (d_user parts) (d_user postgresDefaults))) (d_password parts),
            encodeURIComponent (utrim (str_or (d_database parts) (d_database postgresDefaults)))) of
        (Some credentials, Some database) \<Rightarrow>
          Some (url_text (ustr ''postgres://'') credentials (formatURLHost (d_host parts) (d_host postgresDefaults))
            (utrim (str_or (d_port parts) (d_port postgresDefaults))) database (strip_question (utrim (d_params parts))))
      | _ \<Rightarrow> None)"

section \<open>PostgreSQL keyword strings\<close>

text \<open>
  The pattern \<^verbatim>\<open>([a-zA-Z_]+)=('(?:\\'|[^'])*'|\S+)\<close> with the back-tracking of the language: after the
  opening quote, an escaped quote is passed when a closing quote follows later, and closes the value
  otherwise.
\<close>

fun match_quoted :: "ustring \<Rightarrow> (ustring \<times> ustring) option" where
  "match_quoted [] = None"
| "match_quoted (c # r) =
     (if c = 39 then Some ([], r)
      else if c = 92 \<and> r \<noteq> [] \<and> hd r = 39 then
        (case match_quoted (tl r) of
           Some (v, rest) \<Rightarrow> Some (92 # 39 # v, rest)
         | None \<Rightarrow> Some ([92], tl r))
      else map_option (\<lambda>(v, rest). (c # v, rest)) (match_quoted r))"

definition key_unit :: "nat \<Rightarrow> bool" where
  "key_unit u = ((97 \<le> u \<and> u \<le> 122) \<or> (65 \<le> u \<and> u \<le> 90) \<or> u = 95)"

definition match_plain :: "ustring \<Rightarrow> (ustring \<times> ustring) option" where
  "match_plain s = (let v = takeWhile (\<lambda>u. \<not> unit_space u) s in if v = [] then None else Some (v, drop (length v) s))"

definition match_value :: "ustring \<Rightarrow> (ustring \<times> ustring) option" where
  "match_value s =
     (if s \<noteq> [] \<and> hd s = 39
      then (case match_quoted (tl s) of Some (v, rest) \<Rightarrow> Some ([39] @ v @ [39], rest) | None \<Rightarrow> match_plain s)
      else match_plain s)"

definition match_field :: "ustring \<Rightarrow> (ustring \<times> ustring \<times> ustring) option" where
  "match_field s =
     (let key = takeWhile key_unit s; r = drop (length key) s
      in if key = [] \<or> r = [] \<or> hd r \<noteq> 61 then None
         else map_option (\<lambda>(v, rest). (key, v, rest)) (match_value (tl r)))"

lemma match_quoted_length: "match_quoted s = Some (v, r) \<Longrightarrow> length r < length s"
proof (induction s arbitrary: v r rule: match_quoted.induct)
  case (2 c t)
  show ?case
  proof (cases "c \<noteq> 39 \<and> c = 92 \<and> t \<noteq> [] \<and> hd t = 39")
    case True
    then have "length (tl t) < length (c # t)" by simp
    with True 2 show ?thesis by (cases "match_quoted (tl t)") (fastforce split: prod.splits)+
  qed (use 2 in \<open>fastforce split: if_splits\<close>)
qed simp

lemma match_value_length: "match_value s = Some (v, r) \<Longrightarrow> length r \<le> length s"
  using match_quoted_length [of "tl s"]
  by (fastforce simp: match_value_def match_plain_def Let_def split: if_splits option.splits)

lemma match_field_length: "match_field s = Some (k, v, r) \<Longrightarrow> length r < length s"
proof -
  assume "match_field s = Some (k, v, r)"
  then have "match_value (tl (drop (length (takeWhile key_unit s)) s)) = Some (v, r)"
    "drop (length (takeWhile key_unit s)) s \<noteq> []"
    by (auto simp: match_field_def Let_def split: if_splits)
  with match_value_length show ?thesis by fastforce
qed

text \<open>The \<^verbatim>\<open>exec\<close> loop: the leftmost match from the current position, then on from its end.\<close>

function keyword_fields :: "ustring \<Rightarrow> (ustring \<times> ustring) list" where
  "keyword_fields [] = []"
| "keyword_fields (c # s) =
     (case match_field (c # s) of
        None \<Rightarrow> keyword_fields s
      | Some (key, v, rest) \<Rightarrow> (key, v) # keyword_fields rest)"
  by pat_completeness auto
termination by (relation "measure length") (auto dest: match_field_length)

declare keyword_fields.simps [simp del]

definition lower_key :: "ustring \<Rightarrow> ustring" where
  "lower_key s = map (\<lambda>u. if 65 \<le> u \<and> u \<le> 90 then u + 32 else u) s"

definition unquote :: "ustring \<Rightarrow> ustring" where
  "unquote v = (if startsWith v [39] \<and> endsWith v [39] then replace_all [92, 39] [39] (slice v 1 (length v - 1)) else v)"

definition encoded_pair :: "ustring \<Rightarrow> ustring \<Rightarrow> ustring option" where
  "encoded_pair key v =
     (case (encodeURIComponent key, encodeURIComponent v) of (Some k, Some w) \<Rightarrow> Some (k @ [61] @ w) | _ \<Rightarrow> None)"

text \<open>The body of the loop; \<^term>\<open>None\<close> when \<^verbatim>\<open>encodeURIComponent\<close> throws.\<close>

definition take_field :: "ustring \<times> ustring \<Rightarrow> dsn_parts \<times> ustring list \<Rightarrow> (dsn_parts \<times> ustring list) option" where
  "take_field field acc =
     (let key = lower_key (fst field); v = unquote (snd field); (parts, extra) = acc
      in if key = ustr ''user'' then Some (parts\<lparr>d_user := v\<rparr>, extra)
         else if key = ustr ''password'' then Some (parts\<lparr>d_password := v\<rparr>, extra)
         else if key = ustr ''host'' then Some (parts\<lparr>d_host := v\<rparr>, extra)
         else if key = ustr ''port'' then Some (parts\<lparr>d_port := v\<rparr>, extra)
         else if key = ustr ''dbname'' \<or> key = ustr ''database'' then Some (parts\<lparr>d_database := v\<rparr>, extra)
         else map_option (\<lambda>p. (parts, extra @ [p])) (encoded_pair key v))"

fun take_fields :: "(ustring \<times> ustring) list \<Rightarrow> dsn_parts \<times> ustring list \<Rightarrow> (dsn_parts \<times> ustring list) option" where
  "take_fields [] acc = Some acc"
| "take_fields (f # fs) acc = (case take_field f acc of None \<Rightarrow> None | Some acc1 \<Rightarrow> take_fields fs acc1)"

text \<open>The outer \<^term>\<open>None\<close> is an exception thrown by the keyword branch.\<close>

definition parsePostgresDsn :: "(ustring \<Rightarrow> parsed_url option) \<Rightarrow> ustring option \<Rightarrow> dsn_parts option" where
  "parsePostgresDsn parse_url dsnStr =
     (case dsnStr of
        None \<Rightarrow> Some postgresDefaults
      | Some s \<Rightarrow>
          let val = utrim s
          in if val = [] then Some postgresDefaults
             else if startsWith val (ustr ''postgres://'') \<or> startsWith val (ustr ''postgresql://'') then
               Some (case parse_url val of
                  None \<Rightarrow> postgresDefaults
                | Some parsed \<Rightarrow>
                    (case (decodeURIComponent (pu_username parsed), decodeURIComponent (pu_password parsed),
                           decodeURIComponent (strip_slash (pu_pathname parsed))) of
                       (Some user, Some password, Some database) \<Rightarrow>
                         \<lparr>d_user = str_or user (d_user postgresDefaults), d_password = password,
                          d_host = str_or (pu_hostname parsed) (d_host postgresDefaults),
                          d_port = str_or (pu_port parsed) (d_port postgresDefaults),
                          d_database = str_or database (d_database postgresDefaults),
                          d_params = str_or (drop 1 (pu_search parsed)) (d_params postgresDefaults)\<rparr>
                     | _ \<Rightarrow> postgresDefaults))
             else if \<not> 61 \<in> set val then Some postgresDefaults
             else map_option (\<lambda>(parts, extra). parts\<lparr>d_params := js_join [38] extra\<rparr>)
                    (take_fields (keyword_fields val) (postgresDefaults\<lparr>d_params := []\<rparr>, [])))"

lemma ustr_inject: "ustr a = ustr b \<longleftrightarrow> a = b"
  unfolding ustr_def by (rule inj_map_eq_map) (auto intro: injI)

section \<open>MySQL: parsing inverts formatting\<close>

definition trimmed :: "ustring \<Rightarrow> bool" where
  "trimmed s \<longleftrightarrow> s = [] \<or> (\<not> unit_space (hd s) \<and> \<not> unit_space (last s))"

lemma utrim_id: "trimmed s \<Longrightarrow> utrim s = s"
  unfolding utrim_def by (rule trim_by_id) (simp add: trimmed_def)

text \<open>Field values the editor can round-trip: passwords are arbitrary, the other fields avoid the
  delimiters that end them.\<close>

definition mysql_editable :: "dsn_parts \<Rightarrow> bool" where
  "mysql_editable p \<longleftrightarrow>
     d_user p \<noteq> [] \<and> trimmed (d_user p) \<and> 58 \<notin> set (d_user p)
     \<and> d_host p \<noteq> [] \<and> trimmed (d_host p) \<and> set (d_host p) \<inter> {64, 63, 47} = {}
     \<and> d_port p \<noteq> [] \<and> trimmed (d_port p) \<and> set (d_port p) \<inter> {64, 63, 47, 58} = {}
     \<and> d_database p \<noteq> [] \<and> trimmed (d_database p) \<and> set (d_database p) \<inter> {64, 63} = {}
     \<and> trimmed (d_params p) \<and> 64 \<notin> set (d_params p) \<and> (d_params p \<noteq> [] \<longrightarrow> hd (d_params p) \<noteq> 63)"

lemma split_credentials_format:
  assumes "64 \<notin> set rest" "58 \<notin> set user"
  shows "split_credentials (user @ (if password \<noteq> [] then [58] @ password else []) @ [64] @ rest) = (user, password, rest)"
proof -
  let ?c = "user @ (if password \<noteq> [] then [58] @ password else [])"
  have "lastIndexOf (?c @ 64 # rest) 64 = Some (length ?c)" using assms(1) by (rule lastIndexOf_last)
  moreover have "indexOf ?c 58 = (if password \<noteq> [] then Some (length user) else None)"
    using assms(2) by (auto simp: indexOf_first)
  ultimately show ?thesis by (auto simp: split_credentials_def Let_def)
qed

lemma split_query_format:
  "63 \<notin> set rest \<Longrightarrow> split_query (rest @ (if params \<noteq> [] then [63] @ params else [])) = (rest, params)"
  by (cases "params = []") (simp_all add: split_query_def indexOf_first indexOf_None [THEN iffD2])

lemma unwrap_address_format: "unwrap_address (ustr ''tcp('' @ a @ [41]) = a"
proof -
  have "indexOf (ustr ''tcp('' @ a @ [41]) 40 = Some 3" by (simp add: ustr_def)
  moreover have "lastIndexOf ((ustr ''tcp('' @ a) @ 41 # []) 41 = Some (length (ustr ''tcp('' @ a))"
    by (rule lastIndexOf_last) simp
  ultimately show ?thesis by (simp add: unwrap_address_def slice_def ustr_def)
qed

lemma split_address_format: "58 \<notin> set port \<Longrightarrow> split_address (host @ [58] @ port) = (host, port)"
  using lastIndexOf_last [of 58 port host] by (simp add: split_address_def)

lemma mysql_text:
  assumes "mysql_editable p"
  shows "formatMysqlDsn p = d_user p @ (if d_password p \<noteq> [] then [58] @ d_password p else []) @ [64]
    @ ((ustr ''tcp('' @ (d_host p @ [58] @ d_port p) @ [41]) @ [47] @ d_database p) @ (if d_params p \<noteq> [] then [63] @ d_params p else [])"
proof -
  have "ustr '')/'' = [41, 47]" by (simp add: ustr_def)
  moreover have "strip_question (d_params p) = d_params p"
    using assms by (auto simp: mysql_editable_def strip_question_def split: list.splits)
  ultimately show ?thesis
    using assms by (simp add: formatMysqlDsn_def mysql_editable_def utrim_id str_or_def Let_def)
qed

lemma mysql_text_trimmed: "mysql_editable p \<Longrightarrow> trimmed (formatMysqlDsn p)"
  unfolding mysql_text by (auto simp: trimmed_def mysql_editable_def)

section \<open>PostgreSQL keyword strings: parsing inverts quoting\<close>

definition escape_quotes :: "ustring \<Rightarrow> ustring" where
  "escape_quotes v = concat (map (\<lambda>u. if u = 39 then [92, 39] else [u]) v)"

definition keyword_text :: "ustring \<times> ustring \<Rightarrow> ustring" where
  "keyword_text f = fst f @ [61, 39] @ escape_quotes (snd f) @ [39]"

definition keyword_ok :: "ustring \<times> ustring \<Rightarrow> bool" where
  "keyword_ok f \<longleftrightarrow> fst f \<noteq> [] \<and> (\<forall>u \<in> set (fst f). key_unit u) \<and> 92 \<notin> set (snd f)"

lemma escape_quotes_Cons: "escape_quotes (u # v) = (if u = 39 then [92, 39] else [u]) @ escape_quotes v"
  by (simp add: escape_quotes_def)

lemma match_quoted_escaped: "92 \<notin> set v \<Longrightarrow> match_quoted (escape_quotes v @ 39 # r) = Some (escape_quotes v, r)"
  by (induction v) (auto simp: escape_quotes_Cons, simp add: escape_quotes_def)

lemma unquote_escaped: "92 \<notin> set v \<Longrightarrow> unquote (39 # escape_quotes v @ [39]) = v"
proof -
  assume v: "92 \<notin> set v"
  have hit: "replace_all [92, 39] [39] (92 # 39 # t) = 39 # replace_all [92, 39] [39] t" for t
    using replace_all_hit [of "[92, 39]" "[39]" t] by simp
  from v have "replace_all [92, 39] [39] (escape_quotes v) = v"
    by (induction v) (auto simp: escape_quotes_Cons hit replace_all_skip, simp add: escape_quotes_def)
  then show ?thesis by (simp add: unquote_def startsWith_def endsWith_def slice_def suffix_def)
qed

lemma match_field_keyword:
  assumes "keyword_ok f"
  shows "match_field (keyword_text f @ r) = Some (fst f, 39 # escape_quotes (snd f) @ [39], r)"
proof -
  have "takeWhile key_unit (keyword_text f @ r) = fst f"
    using assms unfolding keyword_ok_def keyword_text_def
    by (simp add: takeWhile_append2 key_unit_def [of 61])
  with assms show ?thesis
    by (simp add: match_field_def Let_def keyword_text_def keyword_ok_def match_value_def match_quoted_escaped)
qed

lemma keyword_fields_step:
  assumes "keyword_ok f"
  shows "keyword_fields (keyword_text f @ r) = (fst f, 39 # escape_quotes (snd f) @ [39]) # keyword_fields r"
proof -
  obtain c s where cs: "keyword_text f @ r = c # s" using assms by (cases "fst f") (auto simp: keyword_ok_def keyword_text_def)
  with match_field_keyword [OF assms, of r] show ?thesis by (simp add: keyword_fields.simps)
qed

lemma keyword_fields_space: "keyword_fields (32 # s) = keyword_fields s"
  by (simp add: keyword_fields.simps match_field_def key_unit_def)

lemma keyword_fields_text:
  "list_all keyword_ok fs \<Longrightarrow>
     keyword_fields (js_join [32] (map keyword_text fs)) = map (\<lambda>f. (fst f, 39 # escape_quotes (snd f) @ [39])) fs"
proof (induction fs)
  case Nil
  show ?case by (simp add: keyword_fields.simps)
next
  case (Cons f fs)
  show ?case
  proof (cases fs)
    case Nil
    with Cons keyword_fields_step [of f "[]"] show ?thesis by (simp add: keyword_fields.simps(1))
  next
    case (Cons g gs)
    with Cons.prems Cons.IH keyword_fields_step [of f] show ?thesis by (simp add: keyword_fields_space)
  qed
qed

section \<open>URL drivers\<close>

definition url_editable :: "dsn_parts \<Rightarrow> bool" where
  "url_editable p \<longleftrightarrow> units_ok (d_user p) \<and> units_ok (d_password p) \<and> units_ok (d_database p)
     \<and> d_user p \<noteq> [] \<and> trimmed (d_user p) \<and> d_host p \<noteq> [] \<and> trimmed (d_host p) \<and> 58 \<notin> set (d_host p)
     \<and> d_port p \<noteq> [] \<and> trimmed (d_port p) \<and> d_database p \<noteq> [] \<and> trimmed (d_database p)
     \<and> trimmed (d_params p) \<and> d_params p \<noteq> [] \<and> hd (d_params p) \<noteq> 63"

text \<open>The components a URL parser reports for the assembled text.\<close>

definition url_components :: "dsn_parts \<Rightarrow> parsed_url" where
  "url_components p =
     \<lparr>pu_username = (case encodeURIComponent (d_user p) of Some u \<Rightarrow> u | None \<Rightarrow> []),
      pu_password = (case encodeURIComponent (d_password p) of Some u \<Rightarrow> u | None \<Rightarrow> []),
      pu_hostname = d_host p, pu_port = d_port p,
      pu_pathname = 47 # (case encodeURIComponent (d_database p) of Some u \<Rightarrow> u | None \<Rightarrow> []),
      pu_search = 63 # d_params p\<rparr>"

lemma encodeURI_Nil [simp]: "encodeURIComponent [] = Some []"
  by (simp add: encodeURIComponent_def)

lemma formatURLHost_plain: "h \<noteq> [] \<Longrightarrow> trimmed h \<Longrightarrow> 58 \<notin> set h \<Longrightarrow> formatURLHost h d = h"
  by (simp add: formatURLHost_def utrim_id str_or_def Let_def)

lemma strip_question_id: "params = [] \<or> hd params \<noteq> 63 \<Longrightarrow> strip_question params = params"
  by (auto simp: strip_question_def split: list.splits)

lemma url_text_trimmed:
  "scheme \<noteq> [] \<Longrightarrow> \<not> unit_space (hd scheme) \<Longrightarrow> params \<noteq> [] \<Longrightarrow> trimmed params \<Longrightarrow>
     trimmed (url_text scheme credentials host port database params)"
  by (auto simp: trimmed_def url_text_def)

lemma url_text_scheme: "startsWith (url_text scheme c h p d q) scheme"
  by (simp add: startsWith_def url_text_def)

lemma url_component_decodes:
  "units_ok s \<Longrightarrow> encodeURIComponent s = Some e \<Longrightarrow> decodeURIComponent e = Some s"
  by (rule uri.dec_enc)

section \<open>Properties\<close>



text \<open>
  A formatted PostgreSQL or ClickHouse URL parses back to the edited fields, including users,
  passwords and database names with reserved or non-ASCII characters, when the browser's URL parser
  reports the components of that URL.
\<close>

lemma url_dsn_roundtrip:
  assumes edit: "url_editable parts"
    and pg: "formatPostgresDsn parts = Some t" "parse_url t = Some (url_components parts)"
    and ch: "formatClickHouseDsn parts = Some u" "parse_url u = Some (url_components parts)"
  shows "parsePostgresDsn parse_url (Some t) = Some parts \<and> parseClickHouseDsn parse_url (Some u) = parts"
proof -
  note e = edit [unfolded url_editable_def]
  have keep: "utrim (str_or (d_user parts) x) = d_user parts" "utrim (str_or (d_database parts) x) = d_database parts"
    for x using e by (simp_all add: str_or_def utrim_id)
  from pg(1) obtain eu ep ed where enc: "encodeURIComponent (d_user parts) = Some eu"
      "encodeURIComponent (d_password parts) = Some ep" "encodeURIComponent (d_database parts) = Some ed"
    by (cases "d_password parts = []") (auto simp: formatPostgresDsn_def url_credentials_def keep split: option.splits)
  have dec: "decodeURIComponent eu = Some (d_user parts)" "decodeURIComponent ep = Some (d_password parts)"
    "decodeURIComponent ed = Some (d_database parts)"
    using e enc by (auto intro: url_component_decodes)
  have comps: "url_components parts = \<lparr>pu_username = eu, pu_password = ep, pu_hostname = d_host parts, pu_port = d_port parts,
      pu_pathname = 47 # ed, pu_search = 63 # d_params parts\<rparr>" by (simp add: url_components_def enc)
  obtain c where t: "t = url_text (ustr ''postgres://'') c (d_host parts) (d_port parts) ed (d_params parts)"
    using pg(1) e by (auto simp: formatPostgresDsn_def keep enc formatURLHost_plain strip_question_id utrim_id str_or_def
        split: option.splits)
  obtain c' where u: "u = url_text (ustr ''clickhouse://'') c' (d_host parts) (d_port parts) ed (d_params parts)"
    using ch(1) e by (auto simp: formatClickHouseDsn_def keep enc formatURLHost_plain strip_question_id utrim_id str_or_def
        split: option.splits)
  have trims: "utrim t = t" "utrim u = u"
    using e unfolding t u by (auto intro!: utrim_id url_text_trimmed simp: ustr_def unit_space_def)
  have schemes: "startsWith t (ustr ''postgres://'')" "startsWith u (ustr ''clickhouse://'')"
    unfolding t u by (rule url_text_scheme)+
  have "t \<noteq> []" by (simp add: t url_text_def)
  have "parsePostgresDsn parse_url (Some t) = Some parts"
    using e \<open>t \<noteq> []\<close> by (simp add: parsePostgresDsn_def Let_def trims schemes pg(2) comps strip_slash_def dec str_or_def)
  moreover have "parseClickHouseDsn parse_url (Some u) = parts"
    using e by (simp add: parseClickHouseDsn_def trims schemes ch(2) comps strip_slash_def dec str_or_def)
  ultimately show ?thesis by blast
qed

definition sample_parts :: dsn_parts where
  "sample_parts = \<lparr>d_user = ustr ''a b'', d_password = ustr ''p@s'', d_host = ustr ''db.local'', d_port = ustr ''5432'',
     d_database = ustr ''x/y'', d_params = ustr ''sslmode=disable''\<rparr>"

text \<open>
  A PostgreSQL keyword string with quoted values parses back to the values, with every quote in
  them (values without backslashes).
\<close>

lemma postgres_keyword_roundtrip:
  assumes "92 \<notin> set user" "92 \<notin> set password" "92 \<notin> set host" "92 \<notin> set port" "92 \<notin> set database"
  shows "parsePostgresDsn parse_url (Some (js_join [32] (map keyword_text
      [(ustr ''user'', user), (ustr ''password'', password), (ustr ''host'', host), (ustr ''port'', port), (ustr ''dbname'', database)])))
    = Some \<lparr>d_user = user, d_password = password, d_host = host, d_port = port, d_database = database, d_params = []\<rparr>"
proof -
  let ?fs = "[(ustr ''user'', user), (ustr ''password'', password), (ustr ''host'', host), (ustr ''port'', port), (ustr ''dbname'', database)]"
  let ?t = "js_join [32] (map keyword_text ?fs)"
  have "list_all keyword_ok ?fs" using assms by (simp add: keyword_ok_def ustr_def key_unit_def)
  note fields = keyword_fields_text [OF this]
  have trim: "utrim ?t = ?t" by (rule utrim_id) (simp add: trimmed_def keyword_text_def ustr_def unit_space_def)
  have kind: "?t \<noteq> []" "\<not> startsWith ?t (ustr ''postgres://'')" "\<not> startsWith ?t (ustr ''postgresql://'')" "61 \<in> set ?t"
    by (simp_all add: keyword_text_def ustr_def startsWith_def)
  have keys: "lower_key (ustr ''user'') = ustr ''user''" "lower_key (ustr ''password'') = ustr ''password''"
    "lower_key (ustr ''host'') = ustr ''host''" "lower_key (ustr ''port'') = ustr ''port''" "lower_key (ustr ''dbname'') = ustr ''dbname''"
    by (simp_all add: lower_key_def ustr_def)
  have "take_fields (keyword_fields ?t) (postgresDefaults\<lparr>d_params := []\<rparr>, [])
      = Some (\<lparr>d_user = user, d_password = password, d_host = host, d_port = port, d_database = database, d_params = []\<rparr>, [])"
    unfolding fields using assms
    by (simp add: take_field_def keys ustr_inject unquote_escaped postgresDefaults_def Let_def)
  with kind show ?thesis unfolding parsePostgresDsn_def option.case Let_def trim by simp
qed

end
