(* ===== verification/Password_Strength.thy ===== *)
theory Password_Strength
  imports Event_Machine
begin

text \<open>
  Password policy and strength meter (\<^verbatim>\<open>js/password-strength.js\<close>): the length check, the 0 to 4
  score, the three warning dialogs before a weak password is accepted, and the meter that follows
  an input element with its animated hiding.

  The translator \<^verbatim>\<open>t\<close> is a parameter; a message argument is a name with a number. The meter is a
  machine whose events are input, reset, a language change, and the hide timer; \<open>reduced\<close> tells
  whether the reader prefers reduced motion at that moment.
\<close>

type_synonym translator = "string \<Rightarrow> (string \<times> nat) option \<Rightarrow> string"

definition MIN_PASSWORD_LENGTH :: nat where "MIN_PASSWORD_LENGTH = 6"
definition MAX_PASSWORD_LENGTH :: nat where "MAX_PASSWORD_LENGTH = 72"

definition getPasswordLengthError :: "translator \<Rightarrow> string \<Rightarrow> string option" where
  "getPasswordLengthError t password =
     (if password = [] then Some (t ''strength.enterPassword'' None)
      else if length password < MIN_PASSWORD_LENGTH then Some (t ''strength.minCharError'' (Some (''min'', MIN_PASSWORD_LENGTH)))
      else if MAX_PASSWORD_LENGTH < length password then Some (t ''strength.maxCharError'' (Some (''max'', MAX_PASSWORD_LENGTH)))
      else None)"

section \<open>Score\<close>

definition code_of :: "char \<Rightarrow> nat" where "code_of c = of_char c"

definition is_lower :: "char \<Rightarrow> bool" where "is_lower c = (97 \<le> code_of c \<and> code_of c \<le> 122)"
definition is_upper :: "char \<Rightarrow> bool" where "is_upper c = (65 \<le> code_of c \<and> code_of c \<le> 90)"
definition is_number :: "char \<Rightarrow> bool" where "is_number c = (48 \<le> code_of c \<and> code_of c \<le> 57)"

definition bonus :: "bool \<Rightarrow> nat" where "bonus b = (if b then 1 else 0)"

text \<open>\<^verbatim>\<open>/^(.)\1+$/\<close>: the dot does not match a line terminator.\<close>

definition single_repeated :: "string \<Rightarrow> bool" where
  "single_repeated p = (case p of
      c # d # cs \<Rightarrow> code_of c \<noteq> 10 \<and> code_of c \<noteq> 13 \<and> list_all (\<lambda>x. x = c) (d # cs)
    | _ \<Rightarrow> False)"

definition common_prefixes :: "string list" where
  "common_prefixes = [''0123'', ''1234'', ''2345'', ''3456'', ''4567'', ''5678'', ''6789'', ''7890'', ''abcd'', ''qwer'',
     ''asdf'', ''password'', ''admin'', ''letmein'']"

definition ascii_lower :: "char \<Rightarrow> char" where
  "ascii_lower c = (if is_upper c then char_of (code_of c + 32) else c)"

definition starts_common :: "string \<Rightarrow> bool" where
  "starts_common p = list_ex (\<lambda>q. startsWith (map ascii_lower p) q) common_prefixes"

definition length_score :: "nat \<Rightarrow> nat" where
  "length_score len = bonus (6 \<le> len) + bonus (8 \<le> len) + bonus (12 \<le> len) + bonus (16 \<le> len)"

definition class_score :: "string \<Rightarrow> nat" where
  "class_score p = bonus (list_ex is_lower p) + bonus (list_ex is_upper p) + bonus (list_ex is_number p)
     + bonus (list_ex (\<lambda>c. \<not> is_lower c \<and> \<not> is_upper c \<and> \<not> is_number c) p)"

text \<open>Subtraction on \<^typ>\<open>nat\<close> is \<^verbatim>\<open>Math.max(0, score - n)\<close>.\<close>

definition password_score :: "string \<Rightarrow> nat" where
  "password_score p =
     (let len = length p;
          s0 = length_score len + class_score p;
          s1 = (if single_repeated p then min s0 1 else s0);
          s2 = (if starts_common p then s1 - 2 else s1);
          s3 = (if p \<noteq> [] \<and> list_all (\<lambda>c. is_lower c \<or> is_upper c) p \<and> len < 12 then s2 - 1 else s2)
      in if p \<noteq> [] \<and> list_all is_number p then min s3 2 else s3)"

definition score_level :: "nat \<Rightarrow> nat \<Rightarrow> nat" where
  "score_level score len =
     (let level = (if score \<le> 2 then 1 else if score \<le> 4 then 2 else if score \<le> 6 then 3 else 4)
      in if len < MIN_PASSWORD_LENGTH then 1 else if len < 8 \<and> 2 < level then 2 else level)"

record strength =
  st_level :: nat
  st_label :: string
  st_hint :: string

definition evaluatePasswordStrength :: "translator \<Rightarrow> string \<Rightarrow> strength" where
  "evaluatePasswordStrength t password =
     (if password = [] then \<lparr>st_level = 0, st_label = [], st_hint = []\<rparr>
      else let len = length password; level = score_level (password_score password) len;
               hint = (if 0 < len \<and> len < MIN_PASSWORD_LENGTH then t ''strength.minChars'' (Some (''min'', MIN_PASSWORD_LENGTH))
                       else if MAX_PASSWORD_LENGTH < len then t ''strength.maxChars'' (Some (''max'', MAX_PASSWORD_LENGTH))
                       else t (''strength.hint'' @ show_nat level) None)
           in \<lparr>st_level = level, st_label = t (''strength.level'' @ show_nat level) None, st_hint = hint\<rparr>)"

text \<open>
  \<^verbatim>\<open>confirmWeakPasswordIfNeeded\<close>: \<^verbatim>\<open>answer n title message\<close> is the reader's answer to the \<open>n\<close>-th dialog. The
  number of dialogs shown is returned with the verdict.
\<close>

fun ask_warnings :: "(nat \<Rightarrow> string \<Rightarrow> string \<Rightarrow> bool) \<Rightarrow> nat \<Rightarrow> (string \<times> string) list \<Rightarrow> nat \<times> bool" where
  "ask_warnings answer n [] = (n, True)"
| "ask_warnings answer n ((title, message) # ws) =
     (if \<not> answer n title message then (n + 1, False) else ask_warnings answer (n + 1) ws)"

definition weak_warnings :: "translator \<Rightarrow> (string \<times> string) list" where
  "weak_warnings t = [(t ''strength.warnTitle1'' None, t ''strength.warnMsg1'' None),
     (t ''strength.warnTitle2'' None, t ''strength.warnMsg2'' None), (t ''strength.warnTitle3'' None, t ''strength.warnMsg3'' None)]"

definition confirmWeakPasswordIfNeeded :: "translator \<Rightarrow> (nat \<Rightarrow> string \<Rightarrow> string \<Rightarrow> bool) \<Rightarrow> string \<Rightarrow> nat \<times> bool" where
  "confirmWeakPasswordIfNeeded t answer password =
     (if 2 \<le> st_level (evaluatePasswordStrength t password) then (0, True) else ask_warnings answer 0 (weak_warnings t))"

section \<open>The meter\<close>

record meter =
  mt_hidden :: bool
  mt_level :: nat
  mt_label :: string
  mt_hint :: string
  mt_classes :: "string list"
  mt_prev :: nat
  mt_timer :: bool
  mt_leaving :: bool

definition EXIT_MS :: nat where "EXIT_MS = 280"

definition add_class :: "string \<Rightarrow> string list \<Rightarrow> string list" where
  "add_class c cs = (if c \<in> set cs then cs else cs @ [c])"

definition remove_classes :: "string list \<Rightarrow> string list \<Rightarrow> string list" where
  "remove_classes ds cs = filter (\<lambda>c. c \<notin> set ds) cs"

definition attached_meter :: meter where
  "attached_meter = \<lparr>mt_hidden = True, mt_level = 0, mt_label = [], mt_hint = [], mt_classes = [''password-strength''],
     mt_prev = 0, mt_timer = False, mt_leaving = False\<rparr>"

definition finishHide :: "meter \<Rightarrow> meter" where
  "finishHide m = m\<lparr>mt_timer := False, mt_hidden := True, mt_level := 0,
     mt_classes := remove_classes [''password-strength--leaving'', ''password-strength--animate'', ''password-strength--level-change''] (mt_classes m),
     mt_leaving := False, mt_label := [], mt_hint := []\<rparr>"

definition showMeter :: "meter \<Rightarrow> meter" where
  "showMeter m =
     (let cs = remove_classes [''password-strength--leaving''] (mt_classes m);
          cs1 = (if mt_hidden m \<or> mt_leaving m
                 then add_class ''password-strength--animate'' (remove_classes [''password-strength--animate''] cs) else cs)
      in m\<lparr>mt_timer := False, mt_leaving := False, mt_classes := cs1, mt_hidden := False\<rparr>)"

definition hideMeter :: "bool \<Rightarrow> bool \<Rightarrow> meter \<Rightarrow> meter" where
  "hideMeter reduced animated m =
     (if mt_hidden m \<and> \<not> mt_leaving m then m
      else if \<not> animated \<or> reduced then finishHide m
      else if mt_leaving m then m
      else m\<lparr>mt_leaving := True,
             mt_classes := add_class ''password-strength--leaving''
               (remove_classes [''password-strength--animate'', ''password-strength--level-change''] (mt_classes m)),
             mt_timer := True\<rparr>)"

definition update :: "translator \<Rightarrow> bool \<Rightarrow> string \<Rightarrow> meter \<Rightarrow> meter" where
  "update t reduced input_value m =
     (let result = evaluatePasswordStrength t input_value;
          m1 = (if 0 < st_level result then
                  (let n = showMeter (m\<lparr>mt_level := st_level result, mt_label := st_label result, mt_hint := st_hint result\<rparr>)
                   in if st_level result \<noteq> mt_prev m
                      then n\<lparr>mt_classes := add_class ''password-strength--level-change''
                             (remove_classes [''password-strength--level-change''] (mt_classes n))\<rparr>
                      else n)
                else hideMeter reduced True m)
      in m1\<lparr>mt_prev := st_level result\<rparr>)"

definition reset :: "bool \<Rightarrow> meter \<Rightarrow> meter" where
  "reset reduced m = hideMeter reduced True (m\<lparr>mt_prev := 0\<rparr>)"

datatype meter_event = Typed bool string | ResetCalled bool | LanguageChanged bool string | HideTimer

fun meter_step :: "translator \<Rightarrow> meter \<Rightarrow> meter_event \<Rightarrow> meter option" where
  "meter_step t m (Typed reduced v) = Some (update t reduced v m)"
| "meter_step t m (ResetCalled reduced) = Some (reset reduced m)"
| "meter_step t m (LanguageChanged reduced v) = Some (update t reduced v m)"
| "meter_step t m HideTimer = (if mt_timer m then Some (finishHide m) else None)"

section \<open>Lemmas\<close>

lemma bonus_le: "bonus b \<le> 1" "bonus b = 1 \<longleftrightarrow> b"
  by (simp_all add: bonus_def)

lemma class_score_le: "class_score p \<le> 4"
  using bonus_le(1) [of "list_ex is_lower p"] bonus_le(1) [of "list_ex is_upper p"] bonus_le(1) [of "list_ex is_number p"]
    bonus_le(1) [of "list_ex (\<lambda>c. \<not> is_lower c \<and> \<not> is_upper c \<and> \<not> is_number c) p"]
  unfolding class_score_def by linarith

lemma length_score_short: "len < 12 \<Longrightarrow> length_score len \<le> 2"
  by (simp add: length_score_def bonus_def)

lemma password_score_le: "password_score p \<le> length_score (length p) + class_score p"
  by (simp add: password_score_def Let_def min_def)

lemma password_score_repeated: "single_repeated p \<Longrightarrow> password_score p \<le> 1"
  by (simp add: password_score_def Let_def min_def)

lemma password_score_digits: "p \<noteq> [] \<Longrightarrow> list_all is_number p \<Longrightarrow> password_score p \<le> 2"
  by (simp add: password_score_def Let_def)

lemma score_level_bounds: "1 \<le> score_level s len \<and> score_level s len \<le> 4"
  by (simp add: score_level_def Let_def)

lemma evaluate_level: "p \<noteq> [] \<Longrightarrow> st_level (evaluatePasswordStrength t p) = score_level (password_score p) (length p)"
  by (simp add: evaluatePasswordStrength_def Let_def)

lemma level_four: "score_level (password_score p) (length p) = 4 \<Longrightarrow> 12 \<le> length p"
proof (rule ccontr)
  assume l: "score_level (password_score p) (length p) = 4" "\<not> 12 \<le> length p"
  then have "password_score p \<le> 6"
    using password_score_le [of p] class_score_le [of p] length_score_short [of "length p"] by linarith
  with l show False by (auto simp: score_level_def Let_def split: if_splits)
qed

definition meter_inv :: "meter \<Rightarrow> bool" where
  "meter_inv m \<longleftrightarrow> (mt_timer m \<longrightarrow> mt_leaving m) \<and> (mt_leaving m \<longrightarrow> \<not> mt_hidden m \<and> mt_timer m \<and> mt_prev m = 0)
     \<and> (mt_hidden m \<longrightarrow> mt_prev m = 0 \<and> mt_level m = 0 \<and> mt_label m = [] \<and> mt_hint m = [])
     \<and> (\<not> mt_hidden m \<and> \<not> mt_leaving m \<longrightarrow> mt_level m = mt_prev m \<and> 0 < mt_prev m)"

lemma hide_inv: "meter_inv m \<Longrightarrow> meter_inv ((hideMeter reduced True m)\<lparr>mt_prev := 0\<rparr>)"
  by (cases "mt_hidden m"; cases "mt_leaving m"; cases reduced)
     (simp_all add: hideMeter_def finishHide_def meter_inv_def)

lemma hideMeter_prev: "hideMeter reduced animated (m\<lparr>mt_prev := x\<rparr>) = (hideMeter reduced animated m)\<lparr>mt_prev := x\<rparr>"
  by (cases m) (simp add: hideMeter_def finishHide_def)

lemma showMeter_fields:
  "mt_hidden (showMeter m) = False" "mt_timer (showMeter m) = False" "mt_leaving (showMeter m) = False"
  "mt_level (showMeter m) = mt_level m" "mt_label (showMeter m) = mt_label m" "mt_hint (showMeter m) = mt_hint m"
  by (simp_all add: showMeter_def Let_def)

lemma update_inv: "meter_inv m \<Longrightarrow> meter_inv (update t reduced v m)"
proof (cases "0 < st_level (evaluatePasswordStrength t v)")
  case True
  then show ?thesis by (simp add: update_def Let_def meter_inv_def showMeter_fields)
next
  case False
  assume "meter_inv m"
  with False hide_inv [of m reduced] show ?thesis by (simp add: update_def Let_def)
qed

lemma meter_reset_inv: "meter_inv m \<Longrightarrow> meter_inv (reset reduced m)"
  using hide_inv by (simp add: reset_def hideMeter_prev)

lemma meter_step_inv: "meter_inv m \<Longrightarrow> meter_step t m e = Some n \<Longrightarrow> meter_inv n"
  by (cases e) (auto simp: update_inv meter_reset_inv, auto simp: finishHide_def meter_inv_def split: if_splits)

interpretation strength_meter: machine_invariant "meter_step t" meter_inv for t
  by unfold_locales (rule meter_step_inv)

lemma attached_inv: "meter_inv attached_meter"
  by (simp add: meter_inv_def attached_meter_def)

lemma update_shows:
  "0 < st_level (evaluatePasswordStrength t v) \<Longrightarrow>
     \<not> mt_hidden (update t r v m) \<and> \<not> mt_timer (update t r v m) \<and> \<not> mt_leaving (update t r v m)
     \<and> mt_level (update t r v m) = st_level (evaluatePasswordStrength t v)
     \<and> mt_label (update t r v m) = st_label (evaluatePasswordStrength t v)
     \<and> mt_hint (update t r v m) = st_hint (evaluatePasswordStrength t v)"
  by (simp add: update_def Let_def showMeter_fields)

section \<open>Properties\<close>

text \<open>
  C15: the strength scale is sound: level 0 is exactly the empty password, the levels stay between 0
  and 4, passwords below the minimum length or made of one repeated character or of digits only
  never exceed level 1, those below eight characters never exceed level 2, the top level needs
  at least twelve characters, and the length check accepts exactly 6 to 72 characters.
\<close>

theorem strength_scale_sound:
  "(st_level (evaluatePasswordStrength t p) = 0 \<longleftrightarrow> p = [])
   \<and> st_level (evaluatePasswordStrength t p) \<le> 4
   \<and> (length p < 6 \<or> single_repeated p \<or> list_all is_number p \<longrightarrow> st_level (evaluatePasswordStrength t p) \<le> 1)
   \<and> (length p < 8 \<longrightarrow> st_level (evaluatePasswordStrength t p) \<le> 2)
   \<and> (st_level (evaluatePasswordStrength t p) = 4 \<longrightarrow> 12 \<le> length p)
   \<and> (getPasswordLengthError t p = None \<longleftrightarrow> 6 \<le> length p \<and> length p \<le> 72)"
proof (cases "p = []")
  case True
  then show ?thesis
    by (simp add: evaluatePasswordStrength_def getPasswordLengthError_def MIN_PASSWORD_LENGTH_def)
next
  case False
  have low: "score_level (password_score p) (length p) \<le> 1" if "password_score p \<le> 2 \<or> length p < 6"
    using that by (auto simp: score_level_def MIN_PASSWORD_LENGTH_def)
  have mid: "score_level (password_score p) (length p) \<le> 2" if "length p < 8"
    using that by (auto simp: score_level_def Let_def)
  show ?thesis
    using False low mid score_level_bounds [of "password_score p" "length p"] level_four [of p]
      password_score_repeated [of p] password_score_digits [of p]
    by (auto simp: evaluate_level getPasswordLengthError_def MIN_PASSWORD_LENGTH_def MAX_PASSWORD_LENGTH_def)
qed

theorem strength_scale_sound_witness:
  "st_level (evaluatePasswordStrength (\<lambda>k a. k) ''1234567890123'') \<le> 1
   \<and> getPasswordLengthError (\<lambda>k a. k) ''1234567890123'' = None"
proof -
  have "list_all is_number ''1234567890123''" "6 \<le> length ''1234567890123'' \<and> length ''1234567890123'' \<le> 72" by code_simp+
  with strength_scale_sound [of "\<lambda>k a. k" "''1234567890123''"] show ?thesis by blast
qed

text \<open>
  C14: the meter never lies: in every run of its machine, after a non-empty password was typed it is
  visible with that password's level, label and hint and no hide timer is left that could blank it;
  while it is visible and not leaving it shows the level of the last evaluation, and when it is hidden
  nothing of the old verdict remains.
\<close>

theorem meter_shows_last_verdict:
  assumes "run_events (meter_step t) attached_meter es = Some m"
  shows "(p \<noteq> [] \<longrightarrow> (\<exists>n. meter_step t m (Typed reduced p) = Some n \<and> \<not> mt_hidden n \<and> \<not> mt_timer n
            \<and> mt_level n = st_level (evaluatePasswordStrength t p) \<and> mt_label n = st_label (evaluatePasswordStrength t p)
            \<and> mt_hint n = st_hint (evaluatePasswordStrength t p)))
    \<and> (mt_timer m \<longrightarrow> mt_prev m = 0)
    \<and> (\<not> mt_hidden m \<and> \<not> mt_leaving m \<longrightarrow> mt_level m = mt_prev m \<and> 0 < mt_level m)
    \<and> (mt_hidden m \<longrightarrow> mt_level m = 0 \<and> mt_label m = [] \<and> mt_hint m = [] \<and> \<not> mt_timer m)"
proof -
  have inv: "meter_inv m" by (rule strength_meter.run_inv [OF assms attached_inv])
  have "0 < st_level (evaluatePasswordStrength t p)" if "p \<noteq> []"
    using that score_level_bounds [of "password_score p" "length p"] by (simp add: evaluate_level)
  with update_shows [of t p reduced m] inv show ?thesis by (auto simp: meter_inv_def)
qed

theorem meter_shows_last_verdict_witness:
  "\<exists>m n. run_events (meter_step (\<lambda>k a. k)) attached_meter [Typed False ''abc'', ResetCalled False] = Some m
     \<and> mt_timer m \<and> meter_step (\<lambda>k a. k) m (Typed False ''abc'') = Some n \<and> \<not> mt_hidden n \<and> \<not> mt_timer n"
proof -
  obtain m where m: "run_events (meter_step (\<lambda>k a. k)) attached_meter [Typed False ''abc'', ResetCalled False] = Some m" "mt_timer m"
    by (simp add: update_def evaluatePasswordStrength_def Let_def score_level_def MIN_PASSWORD_LENGTH_def showMeter_def
        reset_def hideMeter_def attached_meter_def)
  with meter_shows_last_verdict [OF m(1), of "''abc''" False] show ?thesis by blast
qed

text \<open>
  A weak password is only accepted after three explicit confirmations: the check passes without a
  dialog exactly from level 2 on; below, it passes only if all three warnings were confirmed, and the
  first refusal ends it.
\<close>

lemma weak_password_needs_three_confirmations:
  "confirmWeakPasswordIfNeeded t answer p =
     (if 2 \<le> st_level (evaluatePasswordStrength t p) then (0, True)
      else if \<not> answer 0 (t ''strength.warnTitle1'' None) (t ''strength.warnMsg1'' None) then (1, False)
      else if \<not> answer 1 (t ''strength.warnTitle2'' None) (t ''strength.warnMsg2'' None) then (2, False)
      else (3, answer 2 (t ''strength.warnTitle3'' None) (t ''strength.warnMsg3'' None)))"
  by (simp add: confirmWeakPasswordIfNeeded_def weak_warnings_def numeral_eq_Suc)

end
