(* ===== verification/Account_Language.thy ===== *)
theory Account_Language
  imports Event_Machine
begin

text \<open>
  Synchronisation of the interface language with the signed-in account (\<^verbatim>\<open>js/account-language.js\<close>).

  Every sign-in creates a \<^verbatim>\<open>state\<close> object; its asynchronous \<^verbatim>\<open>hydrate\<close> and \<^verbatim>\<open>save\<close> calls outlive a later
  sign-out, so the model keeps all of them in a list and \<^verbatim>\<open>active\<close> is an index into it. The
  stage fields name the await an unfinished call is parked on. The interface language and its
  revision belong to \<^verbatim>\<open>i18n.js\<close> and change by events; \<^verbatim>\<open>langs\<close> are the available languages. Issued
  \<^verbatim>\<open>PUT\<close> requests are logged with the account they were issued for.
\<close>

datatype hydrate_stage = AwaitLookup nat | AwaitBody nat | Applying bool

record account =
  a_username :: string
  a_userID :: string
  a_ready :: bool
  a_pending :: string
  a_saved :: "string option"
  a_saveFailed :: bool
  a_loadFailed :: bool
  a_loading :: "hydrate_stage option"
  a_saving :: "string option"

text \<open>The pending entry of the local storage: absent, a record, other valid JSON, or unreadable text.\<close>

datatype stored = Absent | Entry string string | OtherJson | Unreadable

record put_request =
  pr_account :: nat
  pr_user :: string
  pr_locale :: string

record world =
  w_active :: "nat option"
  w_accounts :: "account list"
  w_storage :: stored
  w_current :: string
  w_revision :: nat
  w_requests :: "put_request list"
  w_alerts :: nat

definition new_account :: "string \<Rightarrow> account" where
  "new_account username = \<lparr>a_username = username, a_userID = [], a_ready = False, a_pending = [], a_saved = None,
     a_saveFailed = False, a_loadFailed = False, a_loading = None, a_saving = None\<rparr>"

definition acct :: "world \<Rightarrow> nat \<Rightarrow> account" where
  "acct w i = w_accounts w ! i"

definition set_acct :: "nat \<Rightarrow> (account \<Rightarrow> account) \<Rightarrow> world \<Rightarrow> world" where
  "set_acct i f w = w\<lparr>w_accounts := (w_accounts w)[i := f (acct w i)]\<rparr>"

definition remember :: "nat \<Rightarrow> string \<Rightarrow> world \<Rightarrow> world" where
  "remember i language w =
     (let w1 = set_acct i (\<lambda>a. a\<lparr>a_pending := language\<rparr>) w
      in if a_userID (acct w i) \<noteq> [] then w1\<lparr>w_storage := Entry (a_userID (acct w i)) language\<rparr> else w1)"

definition forget :: "nat \<Rightarrow> string \<Rightarrow> world \<Rightarrow> world" where
  "forget i language w =
     (if w_storage w = Entry (a_userID (acct w i)) language then w\<lparr>w_storage := Absent\<rparr> else w)"

text \<open>\<^verbatim>\<open>save\<close> up to its await, and its continuation with the \<^verbatim>\<open>finally\<close> block.\<close>

definition save :: "nat \<Rightarrow> world \<Rightarrow> world" where
  "save i w =
     (let a = acct w i
      in if w_active w \<noteq> Some i \<or> \<not> a_ready a \<or> a_saving a \<noteq> None \<or> a_pending a = [] then w
         else if a_saved a = Some (a_pending a) then set_acct i (\<lambda>a. a\<lparr>a_pending := []\<rparr>) (forget i (a_pending a) w)
         else (set_acct i (\<lambda>a. a\<lparr>a_saving := Some (a_pending a)\<rparr>) w)
                \<lparr>w_requests := \<lparr>pr_account = i, pr_user = a_userID a, pr_locale = a_pending a\<rparr> # w_requests w\<rparr>)"

definition save_accepted :: "nat \<Rightarrow> string \<Rightarrow> world \<Rightarrow> world" where
  "save_accepted i language w =
     (if w_active w \<noteq> Some i then w
      else let w1 = set_acct i (\<lambda>a. a\<lparr>a_saved := Some language, a_saveFailed := False\<rparr>) w
           in if a_pending (acct w1 i) = language then forget i language (set_acct i (\<lambda>a. a\<lparr>a_pending := []\<rparr>) w1) else w1)"

definition save_refused :: "nat \<Rightarrow> world \<Rightarrow> world" where
  "save_refused i w =
     (if w_active w = Some i \<and> \<not> a_saveFailed (acct w i)
      then (set_acct i (\<lambda>a. a\<lparr>a_saveFailed := True\<rparr>) w)\<lparr>w_alerts := w_alerts w + 1\<rparr> else w)"

definition save_done :: "nat \<Rightarrow> string \<Rightarrow> bool \<Rightarrow> world \<Rightarrow> world" where
  "save_done i language accepted w =
     (let w1 = (if accepted then save_accepted i language w else save_refused i w);
          w2 = set_acct i (\<lambda>a. a\<lparr>a_saving := None\<rparr>) w1
      in if w_active w2 = Some i \<and> a_pending (acct w2 i) \<noteq> [] \<and> a_pending (acct w2 i) \<noteq> language then save i w2 else w2)"

text \<open>\<^verbatim>\<open>hydrate\<close>: the lookup request, its response and its decoded body.\<close>

definition hydrate :: "nat \<Rightarrow> world \<Rightarrow> world" where
  "hydrate i w =
     (if w_active w \<noteq> Some i \<or> a_loading (acct w i) \<noteq> None then w
      else set_acct i (\<lambda>a. a\<lparr>a_loading := Some (AwaitLookup (w_revision w))\<rparr>) w)"

definition end_hydrate :: "nat \<Rightarrow> world \<Rightarrow> world" where
  "end_hydrate i w = set_acct i (\<lambda>a. a\<lparr>a_loading := None\<rparr>) w"

definition hydrate_failed :: "nat \<Rightarrow> world \<Rightarrow> world" where
  "hydrate_failed i w =
     end_hydrate i (if w_active w = Some i \<and> \<not> a_loadFailed (acct w i)
       then (set_acct i (\<lambda>a. a\<lparr>a_loadFailed := True\<rparr>) w)\<lparr>w_alerts := w_alerts w + 1\<rparr> else w)"

record lookup =
  lk_username :: string
  lk_user_id :: "string option"
  lk_locale :: string

definition lookup_valid :: "string list \<Rightarrow> account \<Rightarrow> lookup \<Rightarrow> bool" where
  "lookup_valid langs a d =
     (lk_username d = a_username a
      \<and> (case lk_user_id d of None \<Rightarrow> False | Some u \<Rightarrow> u \<noteq> [] \<and> length u \<le> 64)
      \<and> (lk_locale d = [] \<or> lk_locale d \<in> set langs))"

text \<open>Adopting an unfinished choice: the one of this visit, or the stored one of the same account.\<close>

definition adopt_pending :: "string list \<Rightarrow> nat \<Rightarrow> world \<Rightarrow> world" where
  "adopt_pending langs i w =
     (let a = acct w i
      in if a_pending a \<noteq> [] then remember i (a_pending a) w
         else case w_storage w of
             Entry uid loc \<Rightarrow> if uid = a_userID a \<and> loc \<in> set langs then set_acct i (\<lambda>a. a\<lparr>a_pending := loc\<rparr>) w else w
           | Unreadable \<Rightarrow> w\<lparr>w_storage := Absent\<rparr>
           | _ \<Rightarrow> w)"

definition apply_language :: "nat \<Rightarrow> nat \<Rightarrow> string \<Rightarrow> world \<Rightarrow> world" where
  "apply_language i revision locale w =
     (let a = acct w i
      in if a_pending a \<noteq> [] then
           (if w_revision w = revision \<and> w_current w \<noteq> a_pending a
            then set_acct i (\<lambda>a. a\<lparr>a_loading := Some (Applying True)\<rparr>) w
            else end_hydrate i (save i w))
         else if w_revision w = revision then
           (if locale \<noteq> [] then
              (if w_current w \<noteq> locale then set_acct i (\<lambda>a. a\<lparr>a_loading := Some (Applying False)\<rparr>) w else end_hydrate i w)
            else end_hydrate i (save i (remember i (w_current w) w)))
         else end_hydrate i w)"

definition hydrate_body :: "string list \<Rightarrow> nat \<Rightarrow> nat \<Rightarrow> lookup \<Rightarrow> world \<Rightarrow> world" where
  "hydrate_body langs i revision d w =
     (if w_active w \<noteq> Some i then end_hydrate i w
      else if \<not> lookup_valid langs (acct w i) d then hydrate_failed i w
      else let w1 = set_acct i (\<lambda>a. a\<lparr>a_userID := (case lk_user_id d of None \<Rightarrow> [] | Some u \<Rightarrow> u)\<rparr>) w;
               w2 = adopt_pending langs i w1;
               w3 = set_acct i (\<lambda>a. a\<lparr>a_saved := Some (lk_locale d), a_ready := True, a_loadFailed := False\<rparr>) w2
           in apply_language i revision (lk_locale d) w3)"

text \<open>The listeners.\<close>

definition authChanged :: "string \<Rightarrow> world \<Rightarrow> world" where
  "authChanged username w =
     (if (case w_active w of None \<Rightarrow> False | Some i \<Rightarrow> a_username (acct w i) = username) then w
      else if username = [] then w\<lparr>w_active := None\<rparr>
      else hydrate (length (w_accounts w))
             (w\<lparr>w_active := Some (length (w_accounts w)), w_accounts := w_accounts w @ [new_account username]\<rparr>))"

definition languageChanged :: "string \<Rightarrow> nat \<Rightarrow> bool \<Rightarrow> world \<Rightarrow> world" where
  "languageChanged lang revision user_set w =
     (let w1 = w\<lparr>w_current := lang, w_revision := revision\<rparr>
      in case w_active w1 of
           Some i \<Rightarrow> if user_set then save i (remember i lang w1) else w1
         | None \<Rightarrow> w1)"

definition retry_sync :: "world \<Rightarrow> world" where
  "retry_sync w = (case w_active w of
       None \<Rightarrow> w | Some i \<Rightarrow> if a_ready (acct w i) then save i w else hydrate i w)"

datatype language_event =
    AuthChanged string
  | LanguageSet string nat bool
  | RetrySync
  | LookupSettled nat bool
  | BodySettled nat "lookup option"
  | ApplySettled nat bool
  | SaveSettled nat bool
  | StorageWritten stored

fun language_step :: "string list \<Rightarrow> world \<Rightarrow> language_event \<Rightarrow> world option" where
  "language_step langs w (AuthChanged username) = Some (authChanged username w)"
| "language_step langs w (LanguageSet lang revision user_set) =
     Some (languageChanged lang revision user_set w)"
| "language_step langs w RetrySync = Some (retry_sync w)"
| "language_step langs w (LookupSettled i accepted) =
     (if i < length (w_accounts w) then
        (case a_loading (acct w i) of
           Some (AwaitLookup r) \<Rightarrow>
             Some (if accepted then set_acct i (\<lambda>a. a\<lparr>a_loading := Some (AwaitBody r)\<rparr>) w else hydrate_failed i w)
         | _ \<Rightarrow> None)
      else None)"
| "language_step langs w (BodySettled i body) =
     (if i < length (w_accounts w) then
        (case a_loading (acct w i) of
           Some (AwaitBody r) \<Rightarrow> Some (case body of None \<Rightarrow> hydrate_failed i w | Some d \<Rightarrow> hydrate_body langs i r d w)
         | _ \<Rightarrow> None)
      else None)"
| "language_step langs w (ApplySettled i applied) =
     (if i < length (w_accounts w) then
        (case a_loading (acct w i) of
           Some (Applying then_save) \<Rightarrow>
             Some (if applied then end_hydrate i (if then_save then save i w else w) else hydrate_failed i w)
         | _ \<Rightarrow> None)
      else None)"
| "language_step langs w (SaveSettled i accepted) =
     (if i < length (w_accounts w) then
        (case a_saving (acct w i) of Some language \<Rightarrow> Some (save_done i language accepted w) | None \<Rightarrow> None)
      else None)"
| "language_step langs w (StorageWritten s) = Some (w\<lparr>w_storage := s\<rparr>)"

definition installAccountLanguageSync :: "stored \<Rightarrow> string \<Rightarrow> nat \<Rightarrow> world" where
  "installAccountLanguageSync storage current revision =
     \<lparr>w_active = None, w_accounts = [], w_storage = storage, w_current = current, w_revision = revision,
      w_requests = [], w_alerts = 0\<rparr>"

section \<open>Invariant\<close>

text \<open>What holds of every account, active or not; and that the active one has no forgotten choice.\<close>

definition base_ok :: "account \<Rightarrow> bool" where
  "base_ok a \<longleftrightarrow>
     (a_ready a \<longrightarrow> a_userID a \<noteq> [] \<and> (\<forall>r. a_loading a \<noteq> Some (AwaitLookup r) \<and> a_loading a \<noteq> Some (AwaitBody r)))
     \<and> (a_saving a \<noteq> None \<longrightarrow> a_ready a)"

definition settled_ok :: "account \<Rightarrow> bool" where
  "settled_ok a \<longleftrightarrow> a_ready a \<and> a_saving a = None \<and> a_pending a \<noteq> [] \<and> a_loading a \<noteq> Some (Applying True)
     \<longrightarrow> a_saveFailed a \<or> a_loadFailed a"

definition language_inv :: "world \<Rightarrow> bool" where
  "language_inv w \<longleftrightarrow> (\<forall>i. w_active w = Some i \<longrightarrow> i < length (w_accounts w) \<and> settled_ok (acct w i))
     \<and> (\<forall>i < length (w_accounts w). base_ok (acct w i))
     \<and> (\<forall>r \<in> set (w_requests w). pr_account r < length (w_accounts w) \<and> a_ready (acct w (pr_account r))
          \<and> pr_user r = a_userID (acct w (pr_account r)) \<and> pr_user r \<noteq> [] \<and> pr_locale r \<noteq> [])"

definition request_of :: "nat \<Rightarrow> account \<Rightarrow> put_request \<Rightarrow> bool" where
  "request_of i a r \<longleftrightarrow> pr_account r = i \<and> a_ready a \<and> pr_user r = a_userID a \<and> pr_user r \<noteq> [] \<and> pr_locale r \<noteq> []"

text \<open>A step that only changes account \<open>i\<close> keeps the invariant if it keeps it for \<open>i\<close>.\<close>

lemma inv_at:
  assumes inv: "language_inv w" and i: "i < length (w_accounts w)"
    and frame: "w_active v = w_active w" "w_accounts v = (w_accounts w)[i := a]"
    and base: "base_ok a" and settled: "w_active w = Some i \<longrightarrow> settled_ok a"
    and keep: "a_ready (acct w i) \<longrightarrow> a_ready a \<and> a_userID a = a_userID (acct w i)"
    and reqs: "\<forall>r \<in> set (w_requests v). r \<in> set (w_requests w) \<or> request_of i a r"
  shows "language_inv v"
proof -
  have acct: "acct v j = (if j = i then a else acct w j)" if "j < length (w_accounts w)" for j
    using that frame(2) i by (simp add: acct_def)
  have len: "length (w_accounts v) = length (w_accounts w)" by (simp add: frame(2))
  have "pr_account r < length (w_accounts v) \<and> a_ready (acct v (pr_account r))
      \<and> pr_user r = a_userID (acct v (pr_account r)) \<and> pr_user r \<noteq> [] \<and> pr_locale r \<noteq> []" if "r \<in> set (w_requests v)" for r
    using reqs that inv keep acct i unfolding len language_inv_def request_of_def by metis
  moreover have "base_ok (acct v j)" if "j < length (w_accounts v)" for j
    using that inv base acct unfolding len by (auto simp: language_inv_def)
  moreover have "j < length (w_accounts v) \<and> settled_ok (acct v j)" if "w_active v = Some j" for j
    using that inv settled acct unfolding len frame(1) by (auto simp: language_inv_def)
  ultimately show ?thesis unfolding language_inv_def by blast
qed

definition saved_account :: "bool \<Rightarrow> account \<Rightarrow> account" where
  "saved_account active a =
     (if \<not> active \<or> \<not> a_ready a \<or> a_saving a \<noteq> None \<or> a_pending a = [] then a
      else if a_saved a = Some (a_pending a) then a\<lparr>a_pending := []\<rparr> else a\<lparr>a_saving := Some (a_pending a)\<rparr>)"

lemma set_acct_fields [simp]:
  "w_active (set_acct i f w) = w_active w" "w_storage (set_acct i f w) = w_storage w"
  "w_current (set_acct i f w) = w_current w" "w_revision (set_acct i f w) = w_revision w"
  "w_requests (set_acct i f w) = w_requests w"
  "w_accounts (set_acct i f w) = (w_accounts w)[i := f (acct w i)]"
  by (simp_all add: set_acct_def)

lemma acct_upd: "i < length (w_accounts w) \<Longrightarrow> acct (set_acct i f w) i = f (acct w i)"
  by (simp add: acct_def)

lemma acct_other [simp]: "acct (w\<lparr>w_storage := s\<rparr>) j = acct w j" "acct (w\<lparr>w_requests := rs\<rparr>) j = acct w j"
  "acct (w\<lparr>w_alerts := n\<rparr>) j = acct w j" "acct (w\<lparr>w_current := c\<rparr>) j = acct w j" "acct (w\<lparr>w_revision := k\<rparr>) j = acct w j"
  "acct (w\<lparr>w_active := x\<rparr>) j = acct w j"
  by (simp_all add: acct_def)

lemma acct_self: "(w_accounts w)[i := acct w i] = w_accounts w"
  by (simp add: acct_def)

lemma forget_fields [simp]:
  "w_active (forget i l w) = w_active w" "w_accounts (forget i l w) = w_accounts w" "w_requests (forget i l w) = w_requests w"
  "w_current (forget i l w) = w_current w" "w_revision (forget i l w) = w_revision w" "acct (forget i l w) j = acct w j"
  by (simp_all add: forget_def)

lemma remember_fields [simp]:
  "w_active (remember i l w) = w_active w" "w_requests (remember i l w) = w_requests w"
  "w_accounts (remember i l w) = (w_accounts w)[i := (acct w i)\<lparr>a_pending := l\<rparr>]"
  "w_current (remember i l w) = w_current w" "w_revision (remember i l w) = w_revision w"
  by (simp_all add: remember_def Let_def)

lemma save_fields:
  "w_active (save i w) = w_active w"
  "w_accounts (save i w) = (w_accounts w)[i := saved_account (w_active w = Some i) (acct w i)]"
  "a_ready (acct w i) \<longrightarrow> a_userID (acct w i) \<noteq> [] \<Longrightarrow> r \<in> set (w_requests (save i w)) \<Longrightarrow>
     r \<in> set (w_requests w) \<or> request_of i (saved_account (w_active w = Some i) (acct w i)) r"
  by (auto simp: save_def saved_account_def Let_def acct_self request_of_def split: if_splits)

lemma saved_account_ok:
  assumes "base_ok a"
  shows "base_ok (saved_account act a)" "act \<Longrightarrow> settled_ok (saved_account act a)"
    "a_ready (saved_account act a) = a_ready a" "a_userID (saved_account act a) = a_userID a"
    "a_loading (saved_account act a) = a_loading a"
  using assms by (auto simp: saved_account_def base_ok_def settled_ok_def)

lemma acct_at: "i < length (w_accounts w) \<Longrightarrow> w_accounts v = (w_accounts w)[i := a] \<Longrightarrow> acct v i = a"
  by (simp add: acct_def)

text \<open>Saving after a change of account \<open>i\<close> restores the invariant, whatever was pending; so does saving at
  the end of \<^verbatim>\<open>hydrate\<close>, just before its flag is cleared.\<close>

lemma save_requests:
  assumes "w_requests v = w_requests w" "acct v i = a" "a_ready a \<longrightarrow> a_userID a \<noteq> []" "w_active v = Some i"
  shows "\<forall>r \<in> set (w_requests (save i v)). r \<in> set (w_requests w) \<or> request_of i (saved_account True a) r"
  using assms save_fields(3) [of v i] by simp

lemma save_after:
  assumes inv: "language_inv w" "i < length (w_accounts w)"
    and v: "w_active v = w_active w" "w_accounts v = (w_accounts w)[i := a]" "w_requests v = w_requests w"
    and a: "base_ok a" "a_ready (acct w i) \<longrightarrow> a_ready a \<and> a_userID a = a_userID (acct w i)"
    and act: "w_active w = Some i"
  shows "language_inv (save i v)"
  using inv
proof (rule inv_at)
  have av: "acct v i = a" using inv(2) v(2) by (rule acct_at)
  show "w_active (save i v) = w_active w" "w_accounts (save i v) = (w_accounts w)[i := saved_account True a]"
    using v act av by (simp_all add: save_fields)
  show "\<forall>r \<in> set (w_requests (save i v)). r \<in> set (w_requests w) \<or> request_of i (saved_account True a) r"
    using v(1,3) av a act by (intro save_requests) (auto simp: base_ok_def)
qed (use saved_account_ok [OF a(1), of True] a(2) in auto)

lemma end_hydrate_fields:
  "w_active (end_hydrate i w) = w_active w" "w_requests (end_hydrate i w) = w_requests w"
  "w_accounts (end_hydrate i w) = (w_accounts w)[i := (acct w i)\<lparr>a_loading := None\<rparr>]"
  by (simp_all add: end_hydrate_def)

lemma save_then_end:
  assumes inv: "language_inv w" "i < length (w_accounts w)"
    and v: "w_active v = w_active w" "w_accounts v = (w_accounts w)[i := a]" "w_requests v = w_requests w"
    and a: "base_ok (a\<lparr>a_loading := None\<rparr>)" "a_ready (acct w i) \<longrightarrow> a_ready a \<and> a_userID a = a_userID (acct w i)"
    and act: "w_active w = Some i"
  shows "language_inv (end_hydrate i (save i v))"
  using inv
proof (rule inv_at)
  let ?b = "(saved_account True a)\<lparr>a_loading := None\<rparr>"
  have av: "acct v i = a" using inv(2) v(2) by (rule acct_at)
  have "acct (save i v) i = saved_account True a"
    using inv(2) v act av by (intro acct_at [of i w]) (simp_all add: save_fields)
  then show "w_active (end_hydrate i (save i v)) = w_active w" "w_accounts (end_hydrate i (save i v)) = (w_accounts w)[i := ?b]"
    using v act av by (simp_all add: save_fields end_hydrate_fields)
  show "\<forall>r \<in> set (w_requests (end_hydrate i (save i v))). r \<in> set (w_requests w) \<or> request_of i ?b r"
    using save_requests [of v w i a] v(1,3) av a act unfolding end_hydrate_fields
    by (auto simp: base_ok_def request_of_def)
  show "base_ok ?b" "w_active w = Some i \<longrightarrow> settled_ok ?b" using a(1) by (auto simp: saved_account_def base_ok_def settled_ok_def)
  show "a_ready (acct w i) \<longrightarrow> a_ready ?b \<and> a_userID ?b = a_userID (acct w i)" using a(2) by (auto simp: saved_account_def)
qed

lemma inactive_save: "w_active w \<noteq> Some i \<Longrightarrow> save i w = w"
  by (simp add: save_def Let_def)

lemma inv_base: "language_inv w \<Longrightarrow> i < length (w_accounts w) \<Longrightarrow> base_ok (acct w i)"
  by (simp add: language_inv_def)

lemma inv_active: "language_inv w \<Longrightarrow> w_active w = Some i \<Longrightarrow> i < length (w_accounts w)"
  by (simp add: language_inv_def)

lemma inv_settled: "language_inv w \<Longrightarrow> w_active w = Some i \<Longrightarrow> settled_ok (acct w i)"
  by (simp add: language_inv_def)

lemma save_inv: "language_inv w \<Longrightarrow> i < length (w_accounts w) \<Longrightarrow> language_inv (save i w)"
  using save_after [of w i w "acct w i"] inactive_save [of w i] inv_base [of w i]
  by (cases "w_active w = Some i") (auto simp: acct_self)

text \<open>The shared way to discharge a step that changes one account and issues nothing.\<close>

lemma inv_quiet:
  assumes "language_inv w" "i < length (w_accounts w)" "w_active v = w_active w" "w_accounts v = (w_accounts w)[i := a]"
    "w_requests v = w_requests w" "base_ok a" "w_active w = Some i \<longrightarrow> settled_ok a"
    "a_ready (acct w i) \<longrightarrow> a_ready a \<and> a_userID a = a_userID (acct w i)"
  shows "language_inv v"
  using assms(1-4,6-8) by (rule inv_at) (simp add: assms(5))

lemma hydrate_inv:
  "language_inv w \<Longrightarrow> i < length (w_accounts w) \<Longrightarrow> \<not> a_ready (acct w i) \<Longrightarrow> language_inv (hydrate i w)"
  using inv_quiet [of w i "set_acct i (\<lambda>a. a\<lparr>a_loading := Some (AwaitLookup (w_revision w))\<rparr>) w"] inv_base [of w i]
  by (auto simp: hydrate_def base_ok_def settled_ok_def)

lemma end_hydrate_inv:
  assumes "language_inv w" "i < length (w_accounts w)"
    "w_active w = Some i \<longrightarrow> a_loading (acct w i) \<noteq> Some (Applying True) \<or> a_loadFailed (acct w i)"
  shows "language_inv (end_hydrate i w)"
  using assms(1,2)
proof (rule inv_quiet)
  show "base_ok ((acct w i)\<lparr>a_loading := None\<rparr>)" using inv_base [OF assms(1,2)] by (simp add: base_ok_def)
  show "w_active w = Some i \<longrightarrow> settled_ok ((acct w i)\<lparr>a_loading := None\<rparr>)"
    using inv_settled [OF assms(1), of i] assms(3) by (auto simp: settled_ok_def)
qed (simp_all add: end_hydrate_def)

lemma hydrate_failed_inv:
  assumes "language_inv w" "i < length (w_accounts w)"
  shows "language_inv (hydrate_failed i w)"
proof (cases "w_active w = Some i \<and> \<not> a_loadFailed (acct w i)")
  case False
  with assms show ?thesis by (auto simp: hydrate_failed_def intro: end_hydrate_inv)
next
  case True
  have "base_ok ((acct w i)\<lparr>a_loadFailed := True, a_loading := None\<rparr>)"
    using inv_base [OF assms] by (simp add: base_ok_def)
  moreover have "settled_ok ((acct w i)\<lparr>a_loadFailed := True, a_loading := None\<rparr>)" by (simp add: settled_ok_def)
  moreover have "w_accounts (hydrate_failed i w) = (w_accounts w)[i := (acct w i)\<lparr>a_loadFailed := True, a_loading := None\<rparr>]"
    using True assms(2) by (simp add: hydrate_failed_def end_hydrate_fields acct_upd)
  moreover have "w_active (hydrate_failed i w) = w_active w" "w_requests (hydrate_failed i w) = w_requests w"
    by (simp_all add: hydrate_failed_def end_hydrate_fields)
  ultimately show ?thesis using assms by (intro inv_quiet [OF assms]) auto
qed

lemma save_done_inv:
  assumes inv: "language_inv w" and i: "i < length (w_accounts w)" and s: "a_saving (acct w i) = Some l"
  shows "language_inv (save_done i l accepted w)"
proof -
  define w1 where "w1 = (if accepted then save_accepted i l w else save_refused i w)"
  define w2 where "w2 = set_acct i (\<lambda>a. a\<lparr>a_saving := None\<rparr>) w1"
  have base: "base_ok (acct w i)" and r: "a_ready (acct w i)" using inv_base [OF inv i] s by (auto simp: base_ok_def)
  define a1 where "a1 = (if w_active w \<noteq> Some i then acct w i
     else if accepted then (acct w i)\<lparr>a_saved := Some l, a_saveFailed := False,
        a_pending := (if a_pending (acct w i) = l then [] else a_pending (acct w i))\<rparr>
     else if a_saveFailed (acct w i) then acct w i else (acct w i)\<lparr>a_saveFailed := True\<rparr>)"
  have w1: "w_active w1 = w_active w" "w_accounts w1 = (w_accounts w)[i := a1]" "w_requests w1 = w_requests w"
    using i by (auto simp: w1_def a1_def save_accepted_def save_refused_def Let_def acct_self acct_def
        intro!: arg_cong2 [where f = "list_update _"])
  have a1: "base_ok (a1\<lparr>a_saving := None\<rparr>)" "a_ready a1" "a_userID a1 = a_userID (acct w i)"
    using base r by (auto simp: a1_def base_ok_def)
  have w2: "w_active w2 = w_active w" "w_accounts w2 = (w_accounts w)[i := a1\<lparr>a_saving := None\<rparr>]" "w_requests w2 = w_requests w"
    using w1 i by (simp_all add: w2_def acct_def)
  have acct2: "acct w2 i = a1\<lparr>a_saving := None\<rparr>" using i w2(2) by (rule acct_at)
  have result: "save_done i l accepted w = (if w_active w2 = Some i \<and> a_pending (acct w2 i) \<noteq> [] \<and> a_pending (acct w2 i) \<noteq> l
      then save i w2 else w2)"
    by (simp add: save_done_def w1_def w2_def Let_def)
  show ?thesis
  proof (cases "w_active w = Some i \<and> a_pending a1 \<noteq> [] \<and> a_pending a1 \<noteq> l")
    case True
    then have "save_done i l accepted w = save i w2" using result w2(1) acct2 by simp
    with save_after [OF inv i w2 a1(1)] a1 True show ?thesis by simp
  next
    case False
    then have eq: "save_done i l accepted w = w2" using result w2(1) acct2 by auto
    have "w_active w = Some i \<longrightarrow> settled_ok (a1\<lparr>a_saving := None\<rparr>)"
      using False by (auto simp: settled_ok_def a1_def split: if_splits)
    with inv_quiet [OF inv i w2 a1(1)] a1 show ?thesis unfolding eq by simp
  qed
qed

lemma languageChanged_inv: "language_inv w \<Longrightarrow> language_inv (languageChanged lang revision user_set w)"
proof -
  assume inv: "language_inv w"
  let ?w = "w\<lparr>w_current := lang, w_revision := revision\<rparr>"
  have inv1: "language_inv ?w" using inv by (auto simp: language_inv_def acct_def)
  have "language_inv (save i (remember i lang ?w))" if a: "w_active w = Some i" for i
  proof (rule save_after [OF inv1])
    show i: "i < length (w_accounts ?w)" using inv a by (simp add: language_inv_def)
    show "w_accounts (remember i lang ?w) = (w_accounts ?w)[i := (acct ?w i)\<lparr>a_pending := lang\<rparr>]" by simp
    show "base_ok ((acct ?w i)\<lparr>a_pending := lang\<rparr>)" using inv_base [OF inv1 i] by (simp add: base_ok_def)
  qed (use a in simp_all)
  with inv1 show ?thesis by (auto simp: languageChanged_def Let_def split: option.splits)
qed

lemma append_inv:
  assumes "language_inv w"
  shows "language_inv (w\<lparr>w_active := Some (length (w_accounts w)), w_accounts := w_accounts w @ [new_account u]\<rparr>)"
proof -
  let ?v = "w\<lparr>w_active := Some (length (w_accounts w)), w_accounts := w_accounts w @ [new_account u]\<rparr>"
  have old: "acct ?v j = acct w j" if "j < length (w_accounts w)" for j using that by (simp add: acct_def nth_append)
  have new: "acct ?v (length (w_accounts w)) = new_account u" by (simp add: acct_def)
  have "base_ok (new_account u)" "settled_ok (new_account u)" by (simp_all add: base_ok_def settled_ok_def new_account_def)
  with assms old new show ?thesis
    unfolding language_inv_def by (auto simp: less_Suc_eq)
qed

lemma authChanged_inv: "language_inv w \<Longrightarrow> language_inv (authChanged u w)"
proof -
  assume inv: "language_inv w"
  have "language_inv (w\<lparr>w_active := None\<rparr>)" using inv by (auto simp: language_inv_def)
  moreover have "language_inv (hydrate (length (w_accounts w))
      (w\<lparr>w_active := Some (length (w_accounts w)), w_accounts := w_accounts w @ [new_account u]\<rparr>))"
    by (rule hydrate_inv [OF append_inv [OF inv]]) (simp_all add: acct_def new_account_def)
  ultimately show ?thesis using inv by (simp add: authChanged_def)
qed

lemma pending_same: "a_pending a = p \<Longrightarrow> a\<lparr>a_pending := p\<rparr> = a"
  by (cases a) simp

lemma adopt_pending_fields:
  "w_active (adopt_pending langs i w) = w_active w" "w_requests (adopt_pending langs i w) = w_requests w"
  "\<exists>p. w_accounts (adopt_pending langs i w) = (w_accounts w)[i := (acct w i)\<lparr>a_pending := p\<rparr>]"
proof -
  show "w_active (adopt_pending langs i w) = w_active w" "w_requests (adopt_pending langs i w) = w_requests w"
    by (auto simp: adopt_pending_def Let_def split: stored.splits)
  have same: "w_accounts w = (w_accounts w)[i := (acct w i)\<lparr>a_pending := a_pending (acct w i)\<rparr>]"
    by (simp add: pending_same acct_self)
  have "w_accounts (adopt_pending langs i w) = w_accounts w
      \<or> (\<exists>p. w_accounts (adopt_pending langs i w) = (w_accounts w)[i := (acct w i)\<lparr>a_pending := p\<rparr>])"
    by (auto simp: adopt_pending_def Let_def acct_self split: stored.splits)
  with same show "\<exists>p. w_accounts (adopt_pending langs i w) = (w_accounts w)[i := (acct w i)\<lparr>a_pending := p\<rparr>]" by metis
qed

text \<open>The end of \<^verbatim>\<open>hydrate\<close>, entered with a ready account whose loading flag is still set.\<close>

lemma apply_language_inv:
  assumes inv: "language_inv w" and i: "i < length (w_accounts w)" and act: "w_active w = Some i"
    and v: "w_active v = w_active w" "w_accounts v = (w_accounts w)[i := a]" "w_requests v = w_requests w"
    and a: "a_ready a" "a_userID a \<noteq> []" and fresh: "\<not> a_ready (acct w i)"
  shows "language_inv (apply_language i r loc v)"
proof -
  have av: "acct v i = a" using i v(2) by (rule acct_at)
  have iv: "i < length (w_accounts v)" using i v(2) by simp
  have loading: "language_inv (set_acct i (\<lambda>a. a\<lparr>a_loading := Some (Applying b)\<rparr>) v)" if "b \<or> a_pending a = []" for b
    by (rule inv_quiet [OF inv i, of _ "a\<lparr>a_loading := Some (Applying b)\<rparr>"])
       (use v av a fresh that i in \<open>auto simp: base_ok_def settled_ok_def\<close>)
  have stop: "language_inv (end_hydrate i v)" if "a_pending a = []"
    by (rule inv_quiet [OF inv i, of _ "a\<lparr>a_loading := None\<rparr>"])
       (use v av a fresh that i in \<open>auto simp: end_hydrate_def base_ok_def settled_ok_def\<close>)
  have save: "language_inv (end_hydrate i (save i u))"
    if u: "w_active u = w_active w" "w_accounts u = (w_accounts w)[i := b]" "w_requests u = w_requests w" "a_ready b" "a_userID b \<noteq> []" for u b
    by (rule save_then_end [OF inv i u(1-3)]) (use u act fresh in \<open>auto simp: base_ok_def\<close>)
  have "language_inv (end_hydrate i (save i v))" using v a by (intro save [of v a])
  moreover have "language_inv (end_hydrate i (save i (remember i (w_current v) v)))"
    using v a av i by (intro save [of _ "a\<lparr>a_pending := w_current v\<rparr>"]) auto
  ultimately show ?thesis
    using loading [of True] loading [of False] stop av by (auto simp: apply_language_def Let_def)
qed

lemma hydrate_body_inv:
  assumes inv: "language_inv w" and i: "i < length (w_accounts w)" and l: "a_loading (acct w i) = Some (AwaitBody r)"
  shows "language_inv (hydrate_body langs i r d w)"
proof (cases "w_active w = Some i \<and> lookup_valid langs (acct w i) d")
  case True
  then obtain u where u: "lk_user_id d = Some u" "u \<noteq> []" by (auto simp: lookup_valid_def split: option.splits)
  have fresh: "\<not> a_ready (acct w i)" using inv_base [OF inv i] l by (auto simp: base_ok_def)
  define w1 where "w1 = set_acct i (\<lambda>a. a\<lparr>a_userID := u\<rparr>) w"
  define w2 where "w2 = adopt_pending langs i w1"
  define w3 where "w3 = set_acct i (\<lambda>a. a\<lparr>a_saved := Some (lk_locale d), a_ready := True, a_loadFailed := False\<rparr>) w2"
  obtain p where "w_accounts w2 = (w_accounts w1)[i := (acct w1 i)\<lparr>a_pending := p\<rparr>]"
    unfolding w2_def using adopt_pending_fields(3) by blast
  then have "w_accounts w3 = (w_accounts w)[i := (acct w i)\<lparr>a_userID := u, a_pending := p, a_saved := Some (lk_locale d),
      a_ready := True, a_loadFailed := False\<rparr>]"
    using i by (simp add: w3_def w1_def acct_def)
  moreover have "w_active w3 = w_active w" "w_requests w3 = w_requests w"
    by (simp_all add: w3_def w2_def w1_def adopt_pending_fields)
  ultimately have "language_inv (apply_language i r (lk_locale d) w3)"
    using True u(2) fresh by (intro apply_language_inv [OF inv i]) auto
  with True u show ?thesis by (simp add: hydrate_body_def Let_def w1_def w2_def w3_def)
next
  case False
  with assms show ?thesis
    by (auto simp: hydrate_body_def intro: end_hydrate_inv hydrate_failed_inv)
qed

lemma apply_settled_inv:
  assumes "language_inv w" "i < length (w_accounts w)" "a_loading (acct w i) = Some (Applying b)"
  shows "language_inv (end_hydrate i (if b then save i w else w))"
proof (cases "b \<and> w_active w = Some i")
  case True
  have "base_ok ((acct w i)\<lparr>a_loading := None\<rparr>)" using inv_base [OF assms(1,2)] by (simp add: base_ok_def)
  with True assms(1,2) show ?thesis
    using save_then_end [of w i w "acct w i"] by (simp add: acct_self)
next
  case False
  then have "(if b then save i w else w) = w" by (auto simp: inactive_save)
  with False assms show ?thesis by (auto intro!: end_hydrate_inv)
qed

lemma lookup_accepted_inv:
  assumes "language_inv w" "i < length (w_accounts w)" "a_loading (acct w i) = Some (AwaitLookup r)"
  shows "language_inv (set_acct i (\<lambda>a. a\<lparr>a_loading := Some (AwaitBody r)\<rparr>) w)"
  using assms(1,2)
proof (rule inv_quiet)
  have fresh: "\<not> a_ready (acct w i)" "base_ok (acct w i)" using inv_base [OF assms(1,2)] assms(3) by (auto simp: base_ok_def)
  then show "base_ok ((acct w i)\<lparr>a_loading := Some (AwaitBody r)\<rparr>)"
    "w_active w = Some i \<longrightarrow> settled_ok ((acct w i)\<lparr>a_loading := Some (AwaitBody r)\<rparr>)"
    by (simp_all add: base_ok_def settled_ok_def)
qed simp_all

lemma language_step_inv: "language_inv w \<Longrightarrow> language_step langs w e = Some v \<Longrightarrow> language_inv v"
proof (induction langs w e rule: language_step.induct)
  case (1 langs w u)
  then show ?case using authChanged_inv by auto
next
  case (2 langs w lang revision user_set)
  then show ?case using languageChanged_inv by auto
next
  case (3 langs w)
  then show ?case
    by (auto simp: retry_sync_def split: option.splits if_splits intro: save_inv hydrate_inv dest: inv_active)
next
  case (4 langs w i accepted)
  then obtain r where i: "i < length (w_accounts w)" and r: "a_loading (acct w i) = Some (AwaitLookup r)"
    by (auto split: if_splits option.splits hydrate_stage.splits)
  from 4(2) i r have "v = (if accepted then set_acct i (\<lambda>a. a\<lparr>a_loading := Some (AwaitBody r)\<rparr>) w else hydrate_failed i w)"
    by simp
  then show ?case using lookup_accepted_inv [OF 4(1) i r] hydrate_failed_inv [OF 4(1) i] by (cases accepted) simp_all
next
  case (5 langs w i body)
  then show ?case
    using hydrate_failed_inv hydrate_body_inv
    by (auto split: if_splits option.splits hydrate_stage.splits)
next
  case (6 langs w i applied)
  then show ?case
    using hydrate_failed_inv [of w i] apply_settled_inv [of w i True] apply_settled_inv [of w i False]
    by (auto split: if_splits option.splits hydrate_stage.splits)
next
  case (7 langs w i accepted)
  then show ?case using save_done_inv by (auto split: if_splits option.splits)
next
  case (8 langs w s)
  then show ?case by (auto simp: language_inv_def)
qed

interpretation account_language: machine_invariant "language_step langs" language_inv for langs
  by unfold_locales (rule language_step_inv)

lemma install_inv: "language_inv (installAccountLanguageSync s c r)"
  by (simp add: installAccountLanguageSync_def language_inv_def)

lemma stale_frame:
  assumes "w_active w \<noteq> Some i"
  shows "w_accounts (hydrate_failed i w) = (w_accounts w)[i := (acct w i)\<lparr>a_loading := None\<rparr>]"
    "w_accounts (hydrate_body langs i r d w) = (w_accounts w)[i := (acct w i)\<lparr>a_loading := None\<rparr>]"
    "w_accounts (save_done i l b w) = (w_accounts w)[i := (acct w i)\<lparr>a_saving := None\<rparr>]"
    "w_storage (hydrate_failed i w) = w_storage w" "w_storage (hydrate_body langs i r d w) = w_storage w"
    "w_storage (save_done i l b w) = w_storage w" "w_requests (hydrate_failed i w) = w_requests w"
    "w_requests (hydrate_body langs i r d w) = w_requests w" "w_requests (save_done i l b w) = w_requests w"
    "w_active (hydrate_failed i w) = w_active w" "w_active (hydrate_body langs i r d w) = w_active w"
    "w_active (save_done i l b w) = w_active w"
  using assms by (simp_all add: hydrate_failed_def hydrate_body_def save_done_def save_accepted_def save_refused_def
      end_hydrate_def Let_def)

section \<open>Properties\<close>


definition sample_visit :: "language_event list" where
  "sample_visit = [AuthChanged ''ann'', LookupSettled 0 True,
     BodySettled 0 (Some \<lparr>lk_username = ''ann'', lk_user_id = Some ''u1'', lk_locale = ''en''\<rparr>),
     LanguageSet ''de'' 1 True, SaveSettled 0 False]"

lemmas language_eval = sample_visit_def installAccountLanguageSync_def authChanged_def hydrate_def hydrate_body_def
  lookup_valid_def adopt_pending_def apply_language_def languageChanged_def remember_def save_def save_done_def
  save_refused_def end_hydrate_def set_acct_def acct_def new_account_def Let_def


text \<open>
  No language choice of the signed-in reader is forgotten: whenever the active account is ready and
  none of its requests is under way, a choice that is still pending has failed visibly (and the
  next retry event writes it); right after the reader picks a language it is pending, or already
  what the server holds.
\<close>

lemma language_choice_not_lost:
  assumes "run_events (language_step langs) (installAccountLanguageSync s c r) es = Some w" "w_active w = Some i"
  shows "(a_ready (acct w i) \<and> a_saving (acct w i) = None \<and> a_loading (acct w i) = None \<and> a_pending (acct w i) \<noteq> [] \<longrightarrow>
            (a_saveFailed (acct w i) \<or> a_loadFailed (acct w i))
            \<and> (\<exists>v. language_step langs w RetrySync = Some v
                 \<and> (a_saving (acct v i) = Some (a_pending (acct w i)) \<or> a_saved (acct v i) = Some (a_pending (acct w i)))))
    \<and> (\<forall>lang rev v. language_step langs w (LanguageSet lang rev True) = Some v \<longrightarrow>
         a_pending (acct v i) = lang \<or> a_saved (acct v i) = Some lang)"
proof -
  have inv: "language_inv w" by (rule account_language.run_inv [OF assms(1) install_inv])
  have i: "i < length (w_accounts w)" using inv assms(2) by (simp add: language_inv_def)
  have settled: "settled_ok (acct w i)" using inv assms(2) by (rule inv_settled)
  have save: "acct (save i v) i = saved_account (w_active v = Some i) (acct v i)" if "i < length (w_accounts v)" for v
    using that by (simp add: acct_at [OF that] save_fields)
  have pick: "a_pending (acct v i) = lang \<or> a_saved (acct v i) = Some lang"
    if "v = save i (remember i lang (w\<lparr>w_current := lang, w_revision := rev\<rparr>))" for lang rev v
  proof -
    let ?w = "remember i lang (w\<lparr>w_current := lang, w_revision := rev\<rparr>)"
    have "acct ?w i = (acct w i)\<lparr>a_pending := lang\<rparr>" using i by (intro acct_at [OF i]) simp
    with that i show ?thesis by (auto simp: save saved_account_def)
  qed
  show ?thesis
    using settled i assms(2) pick
    by (auto simp: settled_ok_def retry_sync_def save saved_account_def languageChanged_def Let_def)
qed

end
