(* ===== verification/Passkey.thy ===== *)
theory Passkey
  imports Js_Prelude
begin

text \<open>
  Passkey helpers (\<^verbatim>\<open>js/fido-utils.js\<close>): the base64url codec over the browser's \<^verbatim>\<open>btoa\<close> and \<^verbatim>\<open>atob\<close>, the
  bounded credential prompt, and the conversion of assertion and registration options and results.

  A buffer is a list of bytes. \<^verbatim>\<open>atob\<close> follows the forgiving base64 decoding of the platform and is
  \<^term>\<open>None\<close> where it throws. What the native prompt does is chosen by the environment of a call.
\<close>

type_synonym buffer = "nat list"

section \<open>base64 and base64url\<close>

definition b64_char :: "nat \<Rightarrow> char" where
  "b64_char n = char_of (if n < 26 then 65 + n else if n < 52 then 71 + n else if n < 62 then n - 4
     else if n = 62 then 43 else 47)"

definition b64_value :: "char \<Rightarrow> nat option" where
  "b64_value c = (let n = of_char c :: nat
     in if 65 \<le> n \<and> n \<le> 90 then Some (n - 65) else if 97 \<le> n \<and> n \<le> 122 then Some (n - 71)
        else if 48 \<le> n \<and> n \<le> 57 then Some (n + 4) else if n = 43 then Some 62 else if n = 47 then Some 63 else None)"

fun b64_sextets :: "buffer \<Rightarrow> nat list" where
  "b64_sextets [] = []"
| "b64_sextets [a] = [a div 4, a mod 4 * 16]"
| "b64_sextets [a, b] = [a div 4, a mod 4 * 16 + b div 16, b mod 16 * 4]"
| "b64_sextets (a # b # c # r) = a div 4 # (a mod 4 * 16 + b div 16) # (b mod 16 * 4 + c div 64) # c mod 64 # b64_sextets r"

definition btoa :: "buffer \<Rightarrow> string" where
  "btoa bs = (let s = map b64_char (b64_sextets bs) in s @ replicate ((4 - length s mod 4) mod 4) (CHR ''=''))"

fun b64_bytes :: "nat list \<Rightarrow> buffer" where
  "b64_bytes (s # t # u # v # r) = (s * 4 + t div 16) # (t mod 16 * 16 + u div 4) # (u mod 4 * 64 + v) # b64_bytes r"
| "b64_bytes [s, t, u] = [s * 4 + t div 16, t mod 16 * 16 + u div 4]"
| "b64_bytes [s, t] = [s * 4 + t div 16]"
| "b64_bytes _ = []"

definition ascii_space :: "char \<Rightarrow> bool" where
  "ascii_space c = ((of_char c :: nat) \<in> {9, 10, 12, 13, 32})"

definition strip_padding :: "string \<Rightarrow> string" where
  "strip_padding s =
     (if endsWith s ''=='' then take (length s - 2) s else if endsWith s ''='' then take (length s - 1) s else s)"

definition atob :: "string \<Rightarrow> buffer option" where
  "atob s =
     (let t = filter (\<lambda>c. \<not> ascii_space c) s;
          u = (if length t mod 4 = 0 then strip_padding t else t)
      in if length u mod 4 = 1 then None else map_option b64_bytes (those (map b64_value u)))"

text \<open>The padding loop of \<^verbatim>\<open>base64urlToBuffer\<close>.\<close>

function pad_base64 :: "string \<Rightarrow> string" where
  "pad_base64 s = (if length s mod 4 \<noteq> 0 then pad_base64 (s @ ''='') else s)"
  by pat_completeness auto
termination
proof (relation "measure (\<lambda>s. (4 - length s mod 4) mod 4)")
  fix s :: string assume "length s mod 4 \<noteq> 0"
  then consider "length s mod 4 = 1" | "length s mod 4 = 2" | "length s mod 4 = 3"
    using mod_less_divisor [of 4 "length s"] by linarith
  then show "(s @ ''='', s) \<in> measure (\<lambda>s. (4 - length s mod 4) mod 4)"
    by cases (simp_all add: mod_Suc)
qed simp

declare pad_base64.simps [simp del]

definition base64urlToBuffer :: "string \<Rightarrow> buffer option" where
  "base64urlToBuffer base64url =
     (if base64url = [] then Some []
      else atob (pad_base64 (map (\<lambda>c. if c = CHR ''-'' then CHR ''+'' else if c = CHR ''_'' then CHR ''/'' else c) base64url)))"

definition bufferToBase64url :: "buffer option \<Rightarrow> string" where
  "bufferToBase64url buf =
     (case buf of None \<Rightarrow> []
      | Some bytes \<Rightarrow> filter (\<lambda>c. c \<noteq> CHR ''='')
          (map (\<lambda>c. if c = CHR ''+'' then CHR ''-'' else if c = CHR ''/'' then CHR ''_'' else c) (btoa bytes)))"

section \<open>The bounded prompt\<close>

definition passkey_keys :: "(string \<times> string) list" where
  "passkey_keys = [(''TimeoutError'', ''fido.timeout''), (''NotAllowedError'', ''fido.cancelled''), (''AbortError'', ''fido.cancelled''),
     (''InvalidStateError'', ''fido.alreadyRegistered''), (''NotSupportedError'', ''login.fidoUnsupported''),
     (''SecurityError'', ''fido.insecure''), (''ConstraintError'', ''fido.verificationUnavailable'')]"

definition passkeyErrorMessage :: "(string \<Rightarrow> string) \<Rightarrow> string option \<Rightarrow> string" where
  "passkeyErrorMessage t error_name =
     t (case error_name of None \<Rightarrow> ''login.fidoFailed''
        | Some n \<Rightarrow> (case map_of passkey_keys n of Some k \<Rightarrow> k | None \<Rightarrow> ''login.fidoFailed''))"

record credential =
  cr_id :: string
  cr_rawId :: "buffer option"
  cr_type :: string
  cr_fields :: "(string \<times> buffer) list"

record button_state =
  bt_children :: "string list"
  bt_busy :: "string option"

text \<open>How the race between the native prompt and the abort signal ends.\<close>

datatype race = PromptResolved "credential option" | PromptRejected string | RaceAborted string

record prompt_env =
  pe_supported :: bool
  pe_insecure :: bool
  pe_signal_aborted :: bool
  pe_race :: race
  pe_aborted_after :: "string option"
  pe_now :: int
  pe_now_after :: int

definition prompt_timeout :: "js_number \<Rightarrow> int" where
  "prompt_timeout requested =
     min (case requested of Some n \<Rightarrow> if 0 < n then n else 60000 | None \<Rightarrow> 60000) 60000"

definition buffer_present :: "buffer option \<Rightarrow> bool" where
  "buffer_present b = (case b of None \<Rightarrow> False | Some bs \<Rightarrow> bs \<noteq> [])"

definition required_fields :: "string \<Rightarrow> string list" where
  "required_fields prompt = (if prompt = ''get'' then [''authenticatorData'', ''clientDataJSON'', ''signature'']
     else [''attestationObject'', ''clientDataJSON''])"

definition credential_complete :: "string \<Rightarrow> credential \<Rightarrow> bool" where
  "credential_complete prompt c =
     (cr_type c = ''public-key'' \<and> cr_id c \<noteq> [] \<and> buffer_present (cr_rawId c)
      \<and> list_all (\<lambda>f. buffer_present (map_of (cr_fields c) f)) (required_fields prompt))"

text \<open>The \<^verbatim>\<open>try\<close> block of \<^verbatim>\<open>requestCredential\<close>.\<close>

definition await_credential :: "prompt_env \<Rightarrow> string \<Rightarrow> int \<Rightarrow> string + credential" where
  "await_credential env prompt timeout =
     (if pe_signal_aborted env then Inl ''AbortError''
      else case pe_race env of
          RaceAborted reason \<Rightarrow> Inl reason
        | PromptRejected name \<Rightarrow> Inl name
        | PromptResolved cred \<Rightarrow>
            (case pe_aborted_after env of
               Some reason \<Rightarrow> Inl reason
             | None \<Rightarrow>
                 if pe_now env + timeout \<le> pe_now_after env then Inl ''TimeoutError''
                 else case cred of
                     None \<Rightarrow> Inl ''NotAllowedError''
                   | Some c \<Rightarrow> if credential_complete prompt c then Inr c else Inl ''DataError''))"

definition waiting_button :: "(string \<Rightarrow> int \<Rightarrow> string) \<Rightarrow> int \<Rightarrow> button_state \<Rightarrow> button_state" where
  "waiting_button t seconds b = \<lparr>bt_children = [t ''fido.waiting'' (max 0 seconds)], bt_busy = Some ''true''\<rparr>"

definition restore_button :: "button_state \<Rightarrow> button_state \<Rightarrow> button_state" where
  "restore_button original b = b\<lparr>bt_children := bt_children original, bt_busy := bt_busy original\<rparr>"

definition requestCredential ::
  "(string \<Rightarrow> int \<Rightarrow> string) \<Rightarrow> prompt_env \<Rightarrow> string \<Rightarrow> js_number \<Rightarrow> button_state option \<Rightarrow> (string + credential) \<times> button_state option" where
  "requestCredential t env prompt requested button =
     (if \<not> pe_supported env then (Inl ''NotSupportedError'', button)
      else if pe_insecure env then (Inl ''SecurityError'', button)
      else let timeout = prompt_timeout requested;
               busy = map_option (waiting_button t ((timeout + 999) div 1000)) button;
               result = await_credential env prompt timeout
           in (result, case (button, busy) of (Some original, Some b) \<Rightarrow> Some (restore_button original b) | _ \<Rightarrow> None))"

section \<open>Assertion and registration\<close>

record pk_descriptor =
  pd_type :: string
  pd_id :: string

record assertion_options =
  ao_challenge :: string
  ao_allow :: "pk_descriptor list option"
  ao_userVerification :: "string option"
  ao_timeout :: js_number

record assertion_request =
  ar_challenge :: buffer
  ar_allow :: "(string \<times> buffer) list option"
  ar_userVerification :: string

definition convert_descriptors :: "pk_descriptor list option \<Rightarrow> (string \<times> buffer) list option option" where
  "convert_descriptors ds =
     (case ds of
        None \<Rightarrow> Some None
      | Some [] \<Rightarrow> Some None
      | Some cs \<Rightarrow> map_option Some (those (map (\<lambda>c. map_option (Pair (pd_type c)) (base64urlToBuffer (pd_id c))) cs)))"

text \<open>The options handed to the prompt; \<^term>\<open>Inl\<close> is the exception of a malformed option.\<close>

definition make_assertion_request :: "assertion_options option \<Rightarrow> string + assertion_request" where
  "make_assertion_request opts =
     (case opts of
        None \<Rightarrow> Inl ''DataError''
      | Some p \<Rightarrow>
          if ao_challenge p = [] then Inl ''DataError''
          else case (base64urlToBuffer (ao_challenge p), convert_descriptors (ao_allow p)) of
              (Some ch, Some allow) \<Rightarrow>
                Inr \<lparr>ar_challenge = ch, ar_allow = allow, ar_userVerification = opt_or (ao_userVerification p) ''preferred''\<rparr>
            | _ \<Rightarrow> Inl ''InvalidCharacterError'')"

record assertion_result =
  as_id :: string
  as_rawId :: string
  as_type :: string
  as_authenticatorData :: string
  as_clientDataJSON :: string
  as_signature :: string
  as_userHandle :: "string option"

definition requestPasskeyAssertion ::
  "(string \<Rightarrow> int \<Rightarrow> string) \<Rightarrow> prompt_env \<Rightarrow> assertion_options option \<Rightarrow> button_state option \<Rightarrow> (string + assertion_result) \<times> button_state option" where
  "requestPasskeyAssertion t env opts button =
     (case make_assertion_request opts of
        Inl e \<Rightarrow> (Inl e, button)
      | Inr _ \<Rightarrow>
          let (r, b) = requestCredential t env ''get'' (case opts of Some p \<Rightarrow> ao_timeout p | None \<Rightarrow> None) button
          in (and_then r (\<lambda>c. Inr \<lparr>as_id = cr_id c, as_rawId = bufferToBase64url (cr_rawId c), as_type = cr_type c,
                as_authenticatorData = bufferToBase64url (map_of (cr_fields c) ''authenticatorData''),
                as_clientDataJSON = bufferToBase64url (map_of (cr_fields c) ''clientDataJSON''),
                as_signature = bufferToBase64url (map_of (cr_fields c) ''signature''),
                as_userHandle = (case map_of (cr_fields c) ''userHandle'' of None \<Rightarrow> None
                   | Some h \<Rightarrow> Some (bufferToBase64url (Some h)))\<rparr>), b))"

record registration_options =
  ro_challenge :: string
  ro_user_id :: string
  ro_exclude :: "pk_descriptor list option"
  ro_userVerification :: "string option"
  ro_residentKey :: "string option"
  ro_attachment :: "string option"
  ro_timeout :: js_number

record registration_request =
  rq_challenge :: buffer
  rq_user_id :: buffer
  rq_exclude :: "(string \<times> buffer) list option"
  rq_userVerification :: string
  rq_residentKey :: string
  rq_attachment :: "string option"

definition make_registration_request :: "registration_options option \<Rightarrow> string + registration_request" where
  "make_registration_request opts =
     (case opts of
        None \<Rightarrow> Inl ''DataError''
      | Some p \<Rightarrow>
          if ro_challenge p = [] \<or> ro_user_id p = [] then Inl ''DataError''
          else case (base64urlToBuffer (ro_challenge p), base64urlToBuffer (ro_user_id p), convert_descriptors (ro_exclude p)) of
              (Some ch, Some uid, Some exclude) \<Rightarrow>
                Inr \<lparr>rq_challenge = ch, rq_user_id = uid, rq_exclude = exclude,
                     rq_userVerification = opt_or (ro_userVerification p) ''preferred'',
                     rq_residentKey = opt_or (ro_residentKey p) ''preferred'', rq_attachment = None\<rparr>
            | _ \<Rightarrow> Inl ''InvalidCharacterError'')"

definition requestPasskeyRegistration ::
  "(string \<Rightarrow> int \<Rightarrow> string) \<Rightarrow> prompt_env \<Rightarrow> registration_options option \<Rightarrow> button_state option \<Rightarrow>
     (string + (string \<times> string \<times> string \<times> string \<times> string)) \<times> button_state option" where
  "requestPasskeyRegistration t env opts button =
     (case make_registration_request opts of
        Inl e \<Rightarrow> (Inl e, button)
      | Inr _ \<Rightarrow>
          let (r, b) = requestCredential t env ''create'' (case opts of Some p \<Rightarrow> ro_timeout p | None \<Rightarrow> None) button
          in (and_then r (\<lambda>c. Inr (cr_id c, bufferToBase64url (cr_rawId c), cr_type c,
                bufferToBase64url (map_of (cr_fields c) ''attestationObject''),
                bufferToBase64url (map_of (cr_fields c) ''clientDataJSON''))), b))"

section \<open>The codec inverts itself\<close>

definition byte_list :: "buffer \<Rightarrow> bool" where
  "byte_list bs \<longleftrightarrow> (\<forall>b \<in> set bs. b < 256)"

lemma sextets_bound: "byte_list bs \<Longrightarrow> x \<in> set (b64_sextets bs) \<Longrightarrow> x < 64"
proof (induction bs rule: b64_sextets.induct)
  case (4 a b c r)
  have "a div 4 < 64" "b div 16 < 16" "c div 64 < 4"
    using 4(2) less_mult_imp_div_less [of a 64 4] less_mult_imp_div_less [of b 16 16] less_mult_imp_div_less [of c 4 64]
    by (auto simp: byte_list_def)
  moreover have "a mod 4 < 4" "b mod 16 < 16" "c mod 64 < 64" by simp_all
  ultimately have "a div 4 < 64" "a mod 4 * 16 + b div 16 < 64" "b mod 16 * 4 + c div 64 < 64" "c mod 64 < 64" by linarith+
  with 4 show ?case by (auto simp: byte_list_def)
next
  case (3 a b)
  have "a div 4 < 64" "b div 16 < 16"
    using 3(1) less_mult_imp_div_less [of a 64 4] less_mult_imp_div_less [of b 16 16] by (auto simp: byte_list_def)
  moreover have "a mod 4 < 4" "b mod 16 < 16" by simp_all
  ultimately have "a div 4 < 64" "a mod 4 * 16 + b div 16 < 64" "b mod 16 * 4 < 64" by linarith+
  with 3 show ?case by auto
next
  case (2 a)
  have "a div 4 < 64" using 2(1) less_mult_imp_div_less [of a 64 4] by (auto simp: byte_list_def)
  moreover have "a mod 4 < 4" by simp
  ultimately have "a div 4 < 64" "a mod 4 * 16 < 64" by linarith+
  with 2 show ?case by auto
qed simp

lemma bytes_sextets: "byte_list bs \<Longrightarrow> b64_bytes (b64_sextets bs) = bs"
proof (induction bs rule: b64_sextets.induct)
  case (4 a b c r)
  have "b div 16 < 16" "c div 64 < 4"
    using 4(2) less_mult_imp_div_less [of b 16 16] less_mult_imp_div_less [of c 4 64] by (auto simp: byte_list_def)
  with 4 show ?case by (simp add: byte_list_def mult.commute [of _ 16] mult.commute [of _ 4] mult.commute [of _ 64])
next
  case (3 a b)
  have "b div 16 < 16" using 3(1) less_mult_imp_div_less [of b 16 16] by (auto simp: byte_list_def)
  then show ?case by (simp add: mult.commute [of _ 16] mult.commute [of _ 4])
qed (simp_all add: mult.commute [of _ 16] mult.commute [of _ 4])

definition url_char :: "char \<Rightarrow> char" where
  "url_char c = (if c = CHR ''+'' then CHR ''-'' else if c = CHR ''/'' then CHR ''_'' else c)"

definition std_char :: "char \<Rightarrow> char" where
  "std_char c = (if c = CHR ''-'' then CHR ''+'' else if c = CHR ''_'' then CHR ''/'' else c)"

lemma b64_code: "n < 64 \<Longrightarrow> (of_char (b64_char n) :: nat)
    = (if n < 26 then 65 + n else if n < 52 then 71 + n else if n < 62 then n - 4 else if n = 62 then 43 else 47)"
  by (auto simp: b64_char_def)

lemma b64_value_char: "n < 64 \<Longrightarrow> b64_value (b64_char n) = Some n"
  by (auto simp: b64_value_def Let_def b64_code)

lemma char_by_code: "c = CHR ''='' \<longleftrightarrow> (of_char c :: nat) = 61" "c = CHR ''-'' \<longleftrightarrow> (of_char c :: nat) = 45"
  "c = CHR ''_'' \<longleftrightarrow> (of_char c :: nat) = 95" "c = CHR ''+'' \<longleftrightarrow> (of_char c :: nat) = 43" "c = CHR ''/'' \<longleftrightarrow> (of_char c :: nat) = 47"
proof -
  have "(of_char c :: nat) = of_char d \<longleftrightarrow> c = d" for d by simp
  from this [of "CHR ''=''"] this [of "CHR ''-''"] this [of "CHR ''_''"] this [of "CHR ''+''"] this [of "CHR ''/''"]
  show "c = CHR ''='' \<longleftrightarrow> (of_char c :: nat) = 61" "c = CHR ''-'' \<longleftrightarrow> (of_char c :: nat) = 45"
    "c = CHR ''_'' \<longleftrightarrow> (of_char c :: nat) = 95" "c = CHR ''+'' \<longleftrightarrow> (of_char c :: nat) = 43" "c = CHR ''/'' \<longleftrightarrow> (of_char c :: nat) = 47"
    by simp_all
qed

lemma b64_char_plain: "n < 64 \<Longrightarrow> b64_char n \<noteq> CHR ''='' \<and> b64_char n \<noteq> CHR ''-'' \<and> b64_char n \<noteq> CHR ''_'' \<and> \<not> ascii_space (b64_char n)"
  unfolding char_by_code ascii_space_def by (auto simp: b64_code)

lemma std_url: "n < 64 \<Longrightarrow> std_char (url_char (b64_char n)) = b64_char n"
  using b64_char_plain [of n] by (auto simp: std_char_def url_char_def)

lemma url_plain: "n < 64 \<Longrightarrow> url_char (b64_char n) \<noteq> CHR ''=''"
  using b64_char_plain [of n] by (auto simp: url_char_def)

lemma sextets_length: "length (b64_sextets bs) mod 4 \<noteq> 1"
  by (induction bs rule: b64_sextets.induct) auto

lemma bufferToBase64url_chars:
  assumes "byte_list bs"
  shows "bufferToBase64url (Some bs) = map url_char (map b64_char (b64_sextets bs))"
proof -
  let ?s = "map b64_char (b64_sextets bs)"
  have "filter (\<lambda>c. c \<noteq> CHR ''='') (map url_char ?s) = map url_char ?s"
    using url_plain sextets_bound [OF assms] by (intro filter_True) auto
  moreover have "map url_char (replicate n (CHR ''='')) = replicate n (CHR ''='')" for n
    by (simp add: url_char_def)
  ultimately show ?thesis
    by (simp add: bufferToBase64url_def btoa_def Let_def url_char_def [abs_def])
qed

lemma pad_base64_replicate: "length s mod 4 \<noteq> 1 \<Longrightarrow>
    pad_base64 s = s @ (if length s mod 4 = 0 then [] else if length s mod 4 = 2 then ''=='' else ''='')"
proof -
  assume s: "length s mod 4 \<noteq> 1"
  then consider "length s mod 4 = 0" | "length s mod 4 = 2" | "length s mod 4 = 3"
    using mod_less_divisor [of 4 "length s"] by linarith
  then show ?thesis
    by cases (simp_all add: pad_base64.simps [of s] pad_base64.simps [of "s @ ''=''"] pad_base64.simps [of "s @ ''==''"] mod_Suc)
qed

lemma pad_to_four: "n mod 4 \<noteq> (1 :: nat) \<Longrightarrow> (n + (if n mod 4 = 0 then 0 else if n mod 4 = 2 then 2 else 1)) mod 4 = 0"
  by presburger

lemma strip_padding_append:
  "s = [] \<or> last s \<noteq> CHR ''='' \<Longrightarrow> p \<in> {[], ''='', ''==''} \<Longrightarrow> strip_padding (s @ p) = s"
  by (cases s rule: rev_cases) (auto simp: strip_padding_def endsWith_def suffix_def append_eq_append_conv2 Cons_eq_append_conv)

lemma those_b64: "\<forall>x \<in> set xs. x < 64 \<Longrightarrow> those (map b64_value (map b64_char xs)) = Some xs"
  by (induction xs) (auto simp: b64_value_char)

section \<open>Properties\<close>

text \<open>
  C17: every byte sequence survives the base64url transport: decoding what \<^verbatim>\<open>bufferToBase64url\<close> produced
  gives the bytes back, and the text holds only letters, digits, \<^verbatim>\<open>-\<close> and \<^verbatim>\<open>_\<close>, so it needs no escaping.
\<close>

theorem base64url_roundtrip:
  assumes "byte_list bs"
  shows "base64urlToBuffer (bufferToBase64url (Some bs)) = Some bs
    \<and> (\<forall>c \<in> set (bufferToBase64url (Some bs)). c \<notin> {CHR ''+'', CHR ''/'', CHR ''=''} \<and> \<not> ascii_space c)"
proof -
  let ?x = "b64_sextets bs"
  let ?s = "map b64_char ?x"
  have bound: "\<forall>x \<in> set ?x. x < 64" using sextets_bound [OF assms] by blast
  have wire: "bufferToBase64url (Some bs) = map url_char ?s" by (rule bufferToBase64url_chars [OF assms])
  have undo: "map std_char (map url_char ?s) = ?s" using bound std_url by auto
  define p where "p = (if length ?s mod 4 = 0 then [] else if length ?s mod 4 = 2 then ''=='' else ''='')"
  have pad: "pad_base64 ?s = ?s @ p" unfolding p_def using sextets_length by (intro pad_base64_replicate) simp
  have p: "p \<in> {[], ''='', ''==''}" "\<forall>c \<in> set p. \<not> ascii_space c" by (auto simp: p_def ascii_space_def)
  have "length (?s @ p) mod 4 = 0"
    using pad_to_four [OF sextets_length [of bs]] by (simp add: p_def split: if_splits)
  moreover have "filter (\<lambda>c. \<not> ascii_space c) (?s @ p) = ?s @ p"
    using bound b64_char_plain p(2) by (intro filter_True) auto
  moreover have "strip_padding (?s @ p) = ?s"
    using bound b64_char_plain p(1) by (intro strip_padding_append) (auto simp: last_map)
  ultimately have "atob (?s @ p) = Some bs"
    using sextets_length [of bs] those_b64 [OF bound] by (simp add: atob_def Let_def bytes_sextets [OF assms] del: map_map)
  then have "base64urlToBuffer (map url_char ?s) = Some bs" if "bs \<noteq> []"
    using that undo pad by (cases bs rule: b64_sextets.cases) (simp_all add: base64urlToBuffer_def std_char_def [abs_def] del: map_map list.map)
  moreover have "base64urlToBuffer (map url_char ?s) = Some bs" if "bs = []" using that by (simp add: base64urlToBuffer_def)
  moreover have "c \<notin> {CHR ''+'', CHR ''/'', CHR ''=''} \<and> \<not> ascii_space c" if "c \<in> set (map url_char ?s)" for c
    using that bound b64_char_plain by (auto simp: url_char_def ascii_space_def split: if_splits)
  ultimately show ?thesis unfolding wire by blast
qed

theorem base64url_roundtrip_witness:
  "bufferToBase64url (Some [251, 255, 190, 1]) = ''-_--AQ'' \<and> base64urlToBuffer ''-_--AQ'' = Some [251, 255, 190, 1]"
proof -
  have "bufferToBase64url (Some [251, 255, 190, 1]) = ''-_--AQ''"
    by code_simp
  with base64url_roundtrip [of "[251, 255, 190, 1]"] show ?thesis by (simp add: byte_list_def)
qed

text \<open>
  The native prompt is bounded and leaves no trace: the timeout is positive and at most a minute,
  a credential is only returned when it is complete, arrived before the deadline and nothing was
  aborted, and the button that started it is restored whatever happens.
\<close>

lemma prompt_bounded:
  "0 < prompt_timeout requested \<and> prompt_timeout requested \<le> 60000
   \<and> snd (requestCredential t env prompt requested button) = button
   \<and> (\<forall>c. fst (requestCredential t env prompt requested button) = Inr c \<longrightarrow>
        credential_complete prompt c \<and> pe_supported env \<and> \<not> pe_insecure env \<and> \<not> pe_signal_aborted env
        \<and> pe_aborted_after env = None \<and> pe_race env = PromptResolved (Some c)
        \<and> pe_now_after env < pe_now env + prompt_timeout requested)"
proof -
  have "snd (requestCredential t env prompt requested button) = button"
    by (auto simp: requestCredential_def Let_def restore_button_def waiting_button_def split: option.splits)
  moreover have "0 < prompt_timeout requested \<and> prompt_timeout requested \<le> 60000"
    by (auto simp: prompt_timeout_def split: option.splits)
  ultimately show ?thesis
    by (auto simp: requestCredential_def await_credential_def Let_def split: if_splits race.splits option.splits)
qed

end
