(* ===== verification/Mfa_Login.thy ===== *)
theory Mfa_Login
  imports Event_Machine Passkey
begin

text \<open>
  The second-factor step of the login page (\<^verbatim>\<open>js/mfa-login.js\<close>).

  \<^verbatim>\<open>sequence\<close> numbers the attempts; \<^verbatim>\<open>showMFALogin\<close> and \<^verbatim>\<open>verifyFactor\<close> are asynchronous and compare the
  number they started with before they touch the page. The machine keeps every unfinished call as
  a task parked on one of its awaits; abort controllers are numbered. The forms, the error boxes
  and the issued requests are part of the state. \<open>t\<close> translates a message key.
\<close>

section \<open>State\<close>

datatype factor = Totp | PasskeyFactor

datatype show_stage = AwaitStatus | AwaitStatusError | AwaitStatusJson

record show_task =
  sh_current :: nat
  sh_silent :: bool
  sh_stage :: show_stage

datatype verify_stage = AwaitConsent | AwaitBegin | AwaitBeginError | AwaitBeginJson | AwaitAssertion | AwaitFinish
  | AwaitFinishError | AwaitFinishJson

record verify_task =
  vf_current :: nat
  vf_controller :: nat
  vf_factor :: factor
  vf_stage :: verify_stage

datatype mfa_request = StatusGet | ChallengeDelete | PasskeyBegin | TotpPost string | PasskeyFinish string

record mfa =
  q_sequence :: nat
  q_active :: bool
  q_deadline :: "nat option"
  q_abort :: "nat option"
  q_controllers :: nat
  q_aborted :: "nat list"
  q_form_hidden :: bool
  q_password_hidden :: bool
  q_error :: "string option"
  q_login_error :: "string option"
  q_code :: string
  q_code_disabled :: bool
  q_totp_hidden :: bool
  q_submit_hidden :: bool
  q_passkey_hidden :: bool
  q_passkey_disabled :: bool
  q_shows :: "show_task option list"
  q_verifies :: "verify_task option list"
  q_requests :: "mfa_request list"
  q_completed :: "string list"

definition mfa_page :: mfa where
  "mfa_page = \<lparr>q_sequence = 0, q_active = False, q_deadline = None, q_abort = None, q_controllers = 0, q_aborted = [],
     q_form_hidden = True, q_password_hidden = False, q_error = None, q_login_error = None, q_code = [], q_code_disabled = False,
     q_totp_hidden = False, q_submit_hidden = False, q_passkey_hidden = False, q_passkey_disabled = False,
     q_shows = [], q_verifies = [], q_requests = [], q_completed = []\<rparr>"

definition showChallengeError :: "string \<Rightarrow> mfa \<Rightarrow> mfa" where
  "showChallengeError message s = (if q_active s then s\<lparr>q_error := Some message\<rparr> else s\<lparr>q_login_error := Some message\<rparr>)"

definition mfaRequest :: "mfa_request \<Rightarrow> mfa \<Rightarrow> mfa" where
  "mfaRequest r s = s\<lparr>q_requests := r # q_requests s\<rparr>"

definition abort_current :: "mfa \<Rightarrow> mfa" where
  "abort_current s = (case q_abort s of None \<Rightarrow> s | Some c \<Rightarrow> s\<lparr>q_aborted := c # q_aborted s\<rparr>)"

definition resetMFALogin :: "mfa \<Rightarrow> mfa" where
  "resetMFALogin s =
     (let hadChallenge = q_active s;
          s1 = (abort_current s)\<lparr>q_sequence := q_sequence s + 1, q_active := False, q_deadline := None, q_abort := None,
                 q_code := [], q_form_hidden := True, q_error := None, q_code_disabled := False,
                 q_passkey_disabled := False, q_password_hidden := False\<rparr>
      in if hadChallenge then mfaRequest ChallengeDelete s1 else s1)"

section \<open>Showing the challenge\<close>

record challenge_status =
  cs_totp :: bool
  cs_passkey :: bool

definition end_show :: "nat \<Rightarrow> mfa \<Rightarrow> mfa" where
  "end_show i s = s\<lparr>q_shows := (q_shows s)[i := None]\<rparr>"

definition stage_show :: "nat \<Rightarrow> show_task \<Rightarrow> show_stage \<Rightarrow> mfa \<Rightarrow> mfa" where
  "stage_show i k st s = s\<lparr>q_shows := (q_shows s)[i := Some (k\<lparr>sh_stage := st\<rparr>)]\<rparr>"

definition showMFALogin :: "bool \<Rightarrow> mfa \<Rightarrow> mfa" where
  "showMFALogin silent s =
     mfaRequest StatusGet (s\<lparr>q_sequence := q_sequence s + 1,
       q_shows := q_shows s @ [Some \<lparr>sh_current = q_sequence s + 1, sh_silent = silent, sh_stage = AwaitStatus\<rparr>]\<rparr>)"

definition show_failed :: "(string \<Rightarrow> string) \<Rightarrow> nat \<Rightarrow> show_task \<Rightarrow> mfa \<Rightarrow> mfa" where
  "show_failed t i k s =
     end_show i (if \<not> sh_silent k \<and> sh_current k = q_sequence s then showChallengeError (t ''mfa.unavailable'') s else s)"

definition show_response :: "nat \<Rightarrow> show_task \<Rightarrow> bool \<Rightarrow> mfa \<Rightarrow> mfa" where
  "show_response i k resp_ok s =
     (if sh_current k \<noteq> q_sequence s then end_show i s
      else if \<not> resp_ok then (if \<not> sh_silent k then stage_show i k AwaitStatusError s else end_show i s)
      else stage_show i k AwaitStatusJson s)"

definition show_status :: "nat \<Rightarrow> show_task \<Rightarrow> challenge_status \<Rightarrow> mfa \<Rightarrow> mfa" where
  "show_status i k st s =
     (if sh_current k \<noteq> q_sequence s then end_show i s
      else end_show i (s\<lparr>q_active := True, q_password_hidden := True, q_form_hidden := False, q_error := None, q_code := [],
             q_totp_hidden := \<not> cs_totp st, q_code_disabled := \<not> cs_totp st, q_submit_hidden := \<not> cs_totp st,
             q_passkey_hidden := \<not> cs_passkey st, q_passkey_disabled := False, q_deadline := Some (sh_current k)\<rparr>))"

definition deadline_passed :: "(string \<Rightarrow> string) \<Rightarrow> nat \<Rightarrow> mfa \<Rightarrow> mfa" where
  "deadline_passed t current s =
     (let s1 = s\<lparr>q_deadline := None\<rparr>
      in if current \<noteq> q_sequence s1 then s1 else showChallengeError (t ''mfa.invalid'') (resetMFALogin s1))"

definition updateMFALoginPage :: "bool \<Rightarrow> bool \<Rightarrow> mfa \<Rightarrow> mfa" where
  "updateMFALoginPage visible entering s =
     (if \<not> visible then resetMFALogin s else if entering then showMFALogin True s else s)"

section \<open>Verifying a factor\<close>

definition end_verify :: "nat \<Rightarrow> mfa \<Rightarrow> mfa" where
  "end_verify i s = s\<lparr>q_verifies := (q_verifies s)[i := None]\<rparr>"

definition stage_verify :: "nat \<Rightarrow> verify_task \<Rightarrow> verify_stage \<Rightarrow> mfa \<Rightarrow> mfa" where
  "stage_verify i k st s = s\<lparr>q_verifies := (q_verifies s)[i := Some (k\<lparr>vf_stage := st\<rparr>)]\<rparr>"

definition verify_aborted :: "verify_task \<Rightarrow> mfa \<Rightarrow> bool" where
  "verify_aborted k s = (vf_controller k \<in> set (q_aborted s))"

definition verifyFactor :: "factor \<Rightarrow> mfa \<Rightarrow> mfa" where
  "verifyFactor factor s =
     (if \<not> q_active s then s
      else let c = q_controllers s
           in (abort_current s)\<lparr>q_controllers := c + 1, q_abort := Some c, q_error := None,
                q_verifies := q_verifies s @ [Some \<lparr>vf_current = q_sequence s, vf_controller = c, vf_factor = factor,
                  vf_stage = AwaitConsent\<rparr>]\<rparr>)"

text \<open>The \<^verbatim>\<open>catch\<close> block, with the name of the error.\<close>

definition verify_failed :: "(string \<Rightarrow> string) \<Rightarrow> nat \<Rightarrow> verify_task \<Rightarrow> string \<Rightarrow> mfa \<Rightarrow> mfa" where
  "verify_failed t i k name s =
     end_verify i
       (if vf_current k \<noteq> q_sequence s \<or> verify_aborted k s then s
        else let s1 = (if name = ''TimeoutError'' then resetMFALogin s else s)
             in showChallengeError (if vf_factor k = PasskeyFactor then passkeyErrorMessage t (Some name) else t ''mfa.unavailable'') s1)"

definition consent_given :: "nat \<Rightarrow> verify_task \<Rightarrow> bool \<Rightarrow> mfa \<Rightarrow> mfa" where
  "consent_given i k consent s =
     (if \<not> consent \<or> vf_current k \<noteq> q_sequence s \<or> verify_aborted k s then end_verify i s
      else if vf_factor k = PasskeyFactor then mfaRequest PasskeyBegin (stage_verify i k AwaitBegin s)
      else mfaRequest (TotpPost (q_code s)) (stage_verify i k AwaitFinish s))"

definition begin_response :: "nat \<Rightarrow> verify_task \<Rightarrow> bool \<Rightarrow> mfa \<Rightarrow> mfa" where
  "begin_response i k resp_ok s =
     (if verify_aborted k s then end_verify i s
      else stage_verify i k (if resp_ok then AwaitBeginJson else AwaitBeginError) s)"

definition begin_options :: "nat \<Rightarrow> verify_task \<Rightarrow> mfa \<Rightarrow> mfa" where
  "begin_options i k s = (if verify_aborted k s then end_verify i s else stage_verify i k AwaitAssertion s)"

definition assertion_made :: "nat \<Rightarrow> verify_task \<Rightarrow> string \<Rightarrow> mfa \<Rightarrow> mfa" where
  "assertion_made i k cred s =
     (if verify_aborted k s then end_verify i s else mfaRequest (PasskeyFinish cred) (stage_verify i k AwaitFinish s))"

definition show_factor_error :: "nat \<Rightarrow> string \<Rightarrow> mfa \<Rightarrow> mfa" where
  "show_factor_error i message s = end_verify i (s\<lparr>q_error := Some message\<rparr>)"

definition finish_response :: "nat \<Rightarrow> verify_task \<Rightarrow> bool \<Rightarrow> mfa \<Rightarrow> mfa" where
  "finish_response i k resp_ok s =
     (if vf_current k \<noteq> q_sequence s \<or> verify_aborted k s then end_verify i s
      else stage_verify i k (if resp_ok then AwaitFinishJson else AwaitFinishError) (s\<lparr>q_code := []\<rparr>))"

definition finish_session :: "nat \<Rightarrow> verify_task \<Rightarrow> string \<Rightarrow> mfa \<Rightarrow> mfa" where
  "finish_session i k session s =
     (if vf_current k \<noteq> q_sequence s \<or> verify_aborted k s then end_verify i s
      else let s1 = resetMFALogin (s\<lparr>q_active := False\<rparr>)
           in end_verify i (s1\<lparr>q_completed := session # q_completed s1\<rparr>))"

section \<open>The machine\<close>

text \<open>An awaited value, or the name of the error it was rejected with.\<close>

datatype mfa_event =
    ShowCalled bool
  | ShowResponded nat "bool option"
  | ShowErrorText nat "string option"
  | ShowStatus nat "challenge_status option"
  | DeadlinePassed
  | ResetCalled
  | PageUpdated bool bool
  | CodeTyped string
  | VerifyCalled factor
  | ConsentSettled nat "string + bool"
  | BeginResponded nat "string + bool"
  | BeginErrorText nat "string + string"
  | BeginOptions nat "string option"
  | AssertionSettled nat "string + string"
  | FinishResponded nat "string + bool"
  | FinishErrorText nat "string + string"
  | FinishSession nat "string + string"

definition on_show :: "nat \<Rightarrow> show_stage \<Rightarrow> (show_task \<Rightarrow> mfa) \<Rightarrow> mfa \<Rightarrow> mfa option" where
  "on_show i st f s = (if i < length (q_shows s) then
     (case q_shows s ! i of Some k \<Rightarrow> if sh_stage k = st then Some (f k) else None | None \<Rightarrow> None) else None)"

definition on_verify :: "nat \<Rightarrow> verify_stage \<Rightarrow> (verify_task \<Rightarrow> mfa) \<Rightarrow> mfa \<Rightarrow> mfa option" where
  "on_verify i st f s = (if i < length (q_verifies s) then
     (case q_verifies s ! i of Some k \<Rightarrow> if vf_stage k = st then Some (f k) else None | None \<Rightarrow> None) else None)"

fun mfa_step :: "(string \<Rightarrow> string) \<Rightarrow> mfa \<Rightarrow> mfa_event \<Rightarrow> mfa option" where
  "mfa_step t s (ShowCalled silent) = Some (showMFALogin silent s)"
| "mfa_step t s (ShowResponded i r) = on_show i AwaitStatus
     (\<lambda>k. case r of None \<Rightarrow> show_failed t i k s | Some resp_ok \<Rightarrow> show_response i k resp_ok s) s"
| "mfa_step t s (ShowErrorText i r) = on_show i AwaitStatusError
     (\<lambda>k. case r of None \<Rightarrow> show_failed t i k s | Some message \<Rightarrow> end_show i (showChallengeError message s)) s"
| "mfa_step t s (ShowStatus i r) = on_show i AwaitStatusJson
     (\<lambda>k. case r of None \<Rightarrow> show_failed t i k s | Some st \<Rightarrow> show_status i k st s) s"
| "mfa_step t s DeadlinePassed = (case q_deadline s of None \<Rightarrow> None | Some current \<Rightarrow> Some (deadline_passed t current s))"
| "mfa_step t s ResetCalled = Some (resetMFALogin s)"
| "mfa_step t s (PageUpdated visible entering) = Some (updateMFALoginPage visible entering s)"
| "mfa_step t s (CodeTyped c) = Some (s\<lparr>q_code := c\<rparr>)"
| "mfa_step t s (VerifyCalled factor) = Some (verifyFactor factor s)"
| "mfa_step t s (ConsentSettled i r) = on_verify i AwaitConsent
     (\<lambda>k. case r of Inl e \<Rightarrow> verify_failed t i k e s | Inr consent \<Rightarrow> consent_given i k consent s) s"
| "mfa_step t s (BeginResponded i r) = on_verify i AwaitBegin
     (\<lambda>k. case r of Inl e \<Rightarrow> verify_failed t i k e s | Inr resp_ok \<Rightarrow> begin_response i k resp_ok s) s"
| "mfa_step t s (BeginErrorText i r) = on_verify i AwaitBeginError
     (\<lambda>k. case r of Inl e \<Rightarrow> verify_failed t i k e s | Inr message \<Rightarrow> show_factor_error i message s) s"
| "mfa_step t s (BeginOptions i r) = on_verify i AwaitBeginJson
     (\<lambda>k. case r of Some e \<Rightarrow> verify_failed t i k e s | None \<Rightarrow> begin_options i k s) s"
| "mfa_step t s (AssertionSettled i r) = on_verify i AwaitAssertion
     (\<lambda>k. case r of Inl e \<Rightarrow> verify_failed t i k e s | Inr cred \<Rightarrow> assertion_made i k cred s) s"
| "mfa_step t s (FinishResponded i r) = on_verify i AwaitFinish
     (\<lambda>k. case r of Inl e \<Rightarrow> verify_failed t i k e s | Inr resp_ok \<Rightarrow> finish_response i k resp_ok s) s"
| "mfa_step t s (FinishErrorText i r) = on_verify i AwaitFinishError
     (\<lambda>k. case r of Inl e \<Rightarrow> verify_failed t i k e s | Inr message \<Rightarrow> show_factor_error i message s) s"
| "mfa_step t s (FinishSession i r) = on_verify i AwaitFinishJson
     (\<lambda>k. case r of Inl e \<Rightarrow> verify_failed t i k e s | Inr session \<Rightarrow> finish_session i k session s) s"

section \<open>Invariant\<close>

definition mfa_inv :: "mfa \<Rightarrow> bool" where
  "mfa_inv s \<longleftrightarrow> (q_form_hidden s \<longleftrightarrow> \<not> q_active s) \<and> (q_password_hidden s \<longleftrightarrow> q_active s)
     \<and> (\<forall>k. Some k \<in> set (q_verifies s) \<longrightarrow> vf_current k \<le> q_sequence s \<and> (vf_current k = q_sequence s \<longrightarrow> q_active s))
     \<and> (\<forall>k. Some k \<in> set (q_shows s) \<longrightarrow> sh_current k \<le> q_sequence s)"

text \<open>How a step relates the tasks and the flags; every operation below is an instance.\<close>

lemma inv_tasks:
  assumes "mfa_inv s" "q_form_hidden u \<longleftrightarrow> \<not> q_active u" "q_password_hidden u \<longleftrightarrow> q_active u"
    "q_sequence s \<le> q_sequence u" "q_sequence u = q_sequence s \<Longrightarrow> q_active s \<Longrightarrow> q_active u"
    "\<forall>k. Some k \<in> set (q_verifies u) \<longrightarrow> (\<exists>l. Some l \<in> set (q_verifies s) \<and> vf_current l = vf_current k)"
    "\<forall>k. Some k \<in> set (q_shows u) \<longrightarrow> (\<exists>l. Some l \<in> set (q_shows s) \<and> sh_current l = sh_current k)"
  shows "mfa_inv u"
proof -
  have "vf_current k \<le> q_sequence u \<and> (vf_current k = q_sequence u \<longrightarrow> q_active u)" if k: "Some k \<in> set (q_verifies u)" for k
  proof -
    obtain l where "Some l \<in> set (q_verifies s)" "vf_current l = vf_current k" using assms(6) k by blast
    then have "vf_current k \<le> q_sequence s \<and> (vf_current k = q_sequence s \<longrightarrow> q_active s)"
      using assms(1) unfolding mfa_inv_def by metis
    with assms(4,5) show ?thesis by auto
  qed
  moreover have "sh_current k \<le> q_sequence u" if "Some k \<in> set (q_shows u)" for k
    using assms(1,4,7) that unfolding mfa_inv_def by fastforce
  ultimately show ?thesis using assms(2,3) unfolding mfa_inv_def by blast
qed

lemma update_Some: "Some k \<in> set (xs[i := None]) \<Longrightarrow> Some k \<in> set xs"
  by (metis insertE option.distinct(1) set_update_subset_insert subset_iff)

lemma update_stage: "Some k \<in> set (xs[i := Some k']) \<Longrightarrow> Some k \<in> set xs \<or> k = k'"
  using set_update_subset_insert [of xs i "Some k'"] by auto

lemmas mfa_ops = showChallengeError_def mfaRequest_def end_show_def stage_show_def end_verify_def stage_verify_def

lemma error_inv: "mfa_inv s \<Longrightarrow> mfa_inv (showChallengeError m s)"
  by (auto simp: mfa_inv_def showChallengeError_def)

lemma end_show_inv: "mfa_inv s \<Longrightarrow> mfa_inv (end_show i s)"
  by (auto simp: mfa_inv_def end_show_def dest: update_Some)

lemma end_verify_inv: "mfa_inv s \<Longrightarrow> mfa_inv (end_verify i s)"
  by (auto simp: mfa_inv_def end_verify_def dest: update_Some)

lemma request_inv: "mfa_inv s \<Longrightarrow> mfa_inv (mfaRequest r s)"
  by (simp add: mfa_inv_def mfaRequest_def)

lemma stage_show_inv: "mfa_inv s \<Longrightarrow> Some k \<in> set (q_shows s) \<Longrightarrow> mfa_inv (stage_show i k st s)"
  by (auto simp: mfa_inv_def stage_show_def dest: update_stage)

lemma stage_verify_inv: "mfa_inv s \<Longrightarrow> Some k \<in> set (q_verifies s) \<Longrightarrow> mfa_inv (stage_verify i k st s)"
  by (auto simp: mfa_inv_def stage_verify_def dest: update_stage)

lemma abort_fields [simp]:
  "q_sequence (abort_current s) = q_sequence s" "q_shows (abort_current s) = q_shows s" "q_verifies (abort_current s) = q_verifies s"
  "q_active (abort_current s) = q_active s" "q_form_hidden (abort_current s) = q_form_hidden s"
  "q_password_hidden (abort_current s) = q_password_hidden s" "q_requests (abort_current s) = q_requests s"
  "q_completed (abort_current s) = q_completed s"
  by (simp_all add: abort_current_def split: option.splits)

lemma reset_fields [simp]:
  "q_sequence (resetMFALogin s) = q_sequence s + 1" "\<not> q_active (resetMFALogin s)" "q_form_hidden (resetMFALogin s)"
  "\<not> q_password_hidden (resetMFALogin s)" "q_shows (resetMFALogin s) = q_shows s" "q_verifies (resetMFALogin s) = q_verifies s"
  "q_deadline (resetMFALogin s) = None" "q_completed (resetMFALogin s) = q_completed s" "q_code (resetMFALogin s) = []"
  "q_requests (resetMFALogin s) = (if q_active s then ChallengeDelete # q_requests s else q_requests s)"
  by (simp_all add: resetMFALogin_def mfaRequest_def Let_def)

lemma reset_inv:
  assumes "\<forall>k. Some k \<in> set (q_verifies s) \<longrightarrow> vf_current k \<le> q_sequence s" "\<forall>k. Some k \<in> set (q_shows s) \<longrightarrow> sh_current k \<le> q_sequence s"
  shows "mfa_inv (resetMFALogin s)"
  using assms by (fastforce simp: mfa_inv_def)

lemma inv_bounds: "mfa_inv s \<Longrightarrow> Some k \<in> set (q_verifies s) \<Longrightarrow> vf_current k \<le> q_sequence s"
  "mfa_inv s \<Longrightarrow> Some k' \<in> set (q_shows s) \<Longrightarrow> sh_current k' \<le> q_sequence s"
  by (auto simp: mfa_inv_def)

lemma reset_mfa_inv: "mfa_inv s \<Longrightarrow> mfa_inv (resetMFALogin s)"
  by (rule reset_inv) (auto intro: inv_bounds)

lemma show_inv: "mfa_inv s \<Longrightarrow> mfa_inv (showMFALogin silent s)"
  by (auto simp: mfa_inv_def showMFALogin_def mfaRequest_def le_Suc_eq)

lemma show_status_inv: "mfa_inv s \<Longrightarrow> mfa_inv (show_status i k st s)"
proof -
  assume inv: "mfa_inv s"
  have "mfa_inv (s\<lparr>q_active := True, q_password_hidden := True, q_form_hidden := False, q_error := None, q_code := [],
      q_totp_hidden := \<not> cs_totp st, q_code_disabled := \<not> cs_totp st, q_submit_hidden := \<not> cs_totp st,
      q_passkey_hidden := \<not> cs_passkey st, q_passkey_disabled := False, q_deadline := Some (sh_current k)\<rparr>)"
    using inv by (auto simp: mfa_inv_def)
  with inv show ?thesis unfolding show_status_def by (auto intro: end_show_inv)
qed

lemma deadline_inv: "mfa_inv s \<Longrightarrow> mfa_inv (deadline_passed t c s)"
proof -
  assume "mfa_inv s"
  then have "mfa_inv (s\<lparr>q_deadline := None\<rparr>)" by (simp add: mfa_inv_def)
  then show ?thesis by (auto simp: deadline_passed_def Let_def intro: error_inv reset_mfa_inv)
qed

lemma verify_inv: "mfa_inv s \<Longrightarrow> mfa_inv (verifyFactor f s)"
  by (auto simp: mfa_inv_def verifyFactor_def Let_def)

lemma verify_failed_inv: "mfa_inv s \<Longrightarrow> mfa_inv (verify_failed t i k e s)"
  unfolding verify_failed_def Let_def by (auto intro: end_verify_inv error_inv reset_mfa_inv)

lemma code_inv: "mfa_inv s \<Longrightarrow> mfa_inv (s\<lparr>q_code := c\<rparr>)" "mfa_inv s \<Longrightarrow> mfa_inv (s\<lparr>q_error := e\<rparr>)"
  "mfa_inv s \<Longrightarrow> mfa_inv (s\<lparr>q_completed := d\<rparr>)"
  by (simp_all add: mfa_inv_def)

lemma finish_session_inv: "mfa_inv s \<Longrightarrow> mfa_inv (finish_session i k session s)"
proof -
  assume inv: "mfa_inv s"
  have "mfa_inv (resetMFALogin (s\<lparr>q_active := False\<rparr>))"
    by (rule reset_inv) (use inv in \<open>auto intro: inv_bounds\<close>)
  with inv show ?thesis unfolding finish_session_def Let_def by (auto intro: end_verify_inv code_inv)
qed

lemma finish_response_inv:
  "mfa_inv s \<Longrightarrow> Some k \<in> set (q_verifies s) \<Longrightarrow> mfa_inv (finish_response i k b s)"
  unfolding finish_response_def by (auto intro!: end_verify_inv stage_verify_inv code_inv)

lemma on_show_SomeD: "on_show i st f s = Some u \<Longrightarrow> \<exists>k. Some k \<in> set (q_shows s) \<and> i < length (q_shows s) \<and> q_shows s ! i = Some k \<and> sh_stage k = st \<and> u = f k"
  by (auto simp: on_show_def split: if_splits option.splits) (metis nth_mem)

lemma on_verify_SomeD: "on_verify i st f s = Some u \<Longrightarrow>
    \<exists>k. Some k \<in> set (q_verifies s) \<and> i < length (q_verifies s) \<and> q_verifies s ! i = Some k \<and> vf_stage k = st \<and> u = f k"
  by (auto simp: on_verify_def split: if_splits option.splits) (metis nth_mem)

lemma show_failed_inv: "mfa_inv s \<Longrightarrow> mfa_inv (show_failed t i k s)"
  unfolding show_failed_def by (auto intro: end_show_inv error_inv)

lemmas mfa_op_inv = end_show_inv end_verify_inv error_inv request_inv stage_show_inv stage_verify_inv show_inv show_status_inv
  deadline_inv verify_inv verify_failed_inv show_failed_inv code_inv finish_session_inv finish_response_inv reset_mfa_inv

lemma mfa_step_inv: "mfa_inv s \<Longrightarrow> mfa_step t s e = Some u \<Longrightarrow> mfa_inv u"
  by (induction t s e rule: mfa_step.induct)
     (auto dest!: on_show_SomeD on_verify_SomeD intro!: mfa_op_inv
        simp: show_response_def updateMFALoginPage_def consent_given_def begin_response_def begin_options_def
          assertion_made_def show_factor_error_def
        split: option.splits sum.splits)

interpretation mfa_login: machine_invariant "mfa_step t" mfa_inv for t
  by unfold_locales (rule mfa_step_inv)

lemma mfa_page_inv: "mfa_inv mfa_page"
  by (simp add: mfa_inv_def mfa_page_def)

section \<open>What a step can do\<close>

lemma plain_frame [simp]:
  "q_completed (showChallengeError m s) = q_completed s" "q_completed (mfaRequest r s) = q_completed s"
  "q_completed (end_show i s) = q_completed s" "q_completed (stage_show i k st s) = q_completed s"
  "q_completed (end_verify i s) = q_completed s" "q_completed (stage_verify i v vst s) = q_completed s"
  "q_active (showChallengeError m s) = q_active s" "q_active (mfaRequest r s) = q_active s"
  "q_active (end_show i s) = q_active s" "q_active (stage_show i k st s) = q_active s"
  "q_active (end_verify i s) = q_active s" "q_active (stage_verify i v vst s) = q_active s"
  by (simp_all add: mfa_ops)

lemmas mfa_unfold = show_response_def show_failed_def show_status_def updateMFALoginPage_def consent_given_def begin_response_def
  begin_options_def assertion_made_def show_factor_error_def finish_response_def verify_failed_def deadline_passed_def
  showMFALogin_def verifyFactor_def

lemma finish_session_completed:
  "q_completed (finish_session i k session s) \<noteq> q_completed s \<Longrightarrow> vf_current k = q_sequence s \<and> \<not> verify_aborted k s"
  by (auto simp: finish_session_def split: if_splits)

lemma completion_step:
  assumes "mfa_step t s e = Some u" "q_completed u \<noteq> q_completed s"
  shows "\<exists>i k session. e = FinishSession i (Inr session) \<and> i < length (q_verifies s) \<and> q_verifies s ! i = Some k
    \<and> vf_stage k = AwaitFinishJson \<and> vf_current k = q_sequence s \<and> \<not> verify_aborted k s \<and> u = finish_session i k session s"
  using assms
  by (induction t s e rule: mfa_step.induct)
     (auto dest!: on_show_SomeD on_verify_SomeD simp: mfa_unfold Let_def finish_session_completed split: option.splits sum.splits if_splits)

lemma activation_step:
  assumes "mfa_step t s e = Some u" "q_active u" "\<not> q_active s"
  shows "\<exists>i k st. e = ShowStatus i (Some st) \<and> i < length (q_shows s) \<and> q_shows s ! i = Some k
    \<and> sh_stage k = AwaitStatusJson \<and> sh_current k = q_sequence s"
  using assms
  by (induction t s e rule: mfa_step.induct)
     (auto dest!: on_show_SomeD on_verify_SomeD simp: mfa_unfold Let_def finish_session_def split: option.splits sum.splits if_splits)

section \<open>Properties\<close>

text \<open>
  C18: a login is completed at most by the newest attempt. Whenever a step of a reachable page publishes
  a session, it is the response to a verification that was started under the current challenge and
  not aborted since; the challenge was still shown; afterwards it is closed, the code is cleared, no
  other unfinished verification can complete any more, and the consumed challenge is not discarded
  at the server.
\<close>

theorem mfa_completion_guarded:
  assumes "run_events (mfa_step t) mfa_page es = Some s" "mfa_step t s e = Some u" "q_completed u \<noteq> q_completed s"
  shows "\<exists>i k session. e = FinishSession i (Inr session) \<and> q_verifies s ! i = Some k \<and> q_active s
     \<and> vf_current k = q_sequence s \<and> \<not> verify_aborted k s
     \<and> q_completed u = session # q_completed s \<and> \<not> q_active u \<and> q_code u = [] \<and> q_requests u = q_requests s
     \<and> (\<forall>l. Some l \<in> set (q_verifies u) \<longrightarrow> vf_current l \<noteq> q_sequence u)"
proof -
  have inv: "mfa_inv s" by (rule mfa_login.run_inv [OF assms(1) mfa_page_inv])
  obtain i k session where c: "e = FinishSession i (Inr session)" "i < length (q_verifies s)" "q_verifies s ! i = Some k"
      "vf_current k = q_sequence s" "\<not> verify_aborted k s" "u = finish_session i k session s"
    using completion_step [OF assms(2,3)] by blast
  have "Some k \<in> set (q_verifies s)" using c(2,3) by (metis nth_mem)
  with inv c(4) have act: "q_active s" by (auto simp: mfa_inv_def)
  have u: "q_completed u = session # q_completed s" "\<not> q_active u" "q_code u = []" "q_requests u = q_requests s"
      "q_sequence u = q_sequence s + 1" "q_verifies u = (q_verifies s)[i := None]"
    using c(4,5) by (simp_all add: c(6) finish_session_def Let_def end_verify_def)
  have "vf_current l \<noteq> q_sequence u" if "Some l \<in> set (q_verifies u)" for l
    using that inv_bounds(1) [OF inv, of l] u(5,6) update_Some [of l "q_verifies s" i] by fastforce
  with c u act show ?thesis by blast
qed

text \<open>
  The page is never left half-way: in every reachable state exactly one of the two forms is shown, the
  second-factor form exactly while a challenge is active; only the answer to the newest request
  activates it; and leaving or restarting closes it, clears the code and the expiry timer, and
  discards the challenge at the server exactly if one was active.
\<close>

lemma mfa_page_consistent:
  assumes "run_events (mfa_step t) mfa_page es = Some s"
  shows "(q_form_hidden s \<longleftrightarrow> \<not> q_active s) \<and> (q_password_hidden s \<longleftrightarrow> q_active s)
    \<and> (\<forall>e u. mfa_step t s e = Some u \<and> q_active u \<and> \<not> q_active s \<longrightarrow>
         (\<exists>i k st. e = ShowStatus i (Some st) \<and> q_shows s ! i = Some k \<and> sh_current k = q_sequence s))
    \<and> (\<exists>u. mfa_step t s ResetCalled = Some u \<and> \<not> q_active u \<and> q_form_hidden u \<and> \<not> q_password_hidden u
         \<and> q_code u = [] \<and> q_deadline u = None
         \<and> q_requests u = (if q_active s then ChallengeDelete # q_requests s else q_requests s))"
proof -
  have inv: "mfa_inv s" by (rule mfa_login.run_inv [OF assms mfa_page_inv])
  have "\<exists>i k st. e = ShowStatus i (Some st) \<and> q_shows s ! i = Some k \<and> sh_current k = q_sequence s"
    if "mfa_step t s e = Some u" "q_active u" "\<not> q_active s" for e u
    using activation_step [OF that] by blast
  with inv show ?thesis unfolding mfa_inv_def by auto
qed

definition sample_login :: "mfa_event list" where
  "sample_login = [ShowCalled False, ShowResponded 0 (Some True), ShowStatus 0 (Some \<lparr>cs_totp = True, cs_passkey = False\<rparr>),
     CodeTyped ''123456'', VerifyCalled Totp, ConsentSettled 0 (Inr True), FinishResponded 0 (Inr True)]"

lemmas mfa_eval = sample_login_def mfa_page_def mfa_unfold on_show_def on_verify_def mfa_ops finish_session_def resetMFALogin_def
  abort_current_def verify_aborted_def Let_def

theorem mfa_completion_guarded_witness:
  "\<exists>s u. run_events (mfa_step (\<lambda>k. k)) mfa_page sample_login = Some s \<and> mfa_step (\<lambda>k. k) s (FinishSession 0 (Inr ''session'')) = Some u
     \<and> q_completed u = [''session''] \<and> \<not> q_active u \<and> q_requests u = [TotpPost ''123456'', StatusGet]"
proof -
  obtain s u where s: "run_events (mfa_step (\<lambda>k. k)) mfa_page sample_login = Some s"
      "mfa_step (\<lambda>k. k) s (FinishSession 0 (Inr ''session'')) = Some u" "q_completed u \<noteq> q_completed s"
      "q_completed s = []" "q_requests s = [TotpPost ''123456'', StatusGet]"
    by (simp add: mfa_eval)
  with mfa_completion_guarded [OF s(1-3)] show ?thesis by auto
qed

end
