(* ===== verification/Captcha.thy ===== *)
theory Captcha
  imports Event_Machine Js_Prelude
begin

text \<open>
  The captcha client (\<^verbatim>\<open>js/captcha.js\<close>): the widget of one challenge as a machine over its frame,
  messages, timers and verification requests; \<^verbatim>\<open>captchaHeaders\<close>; and \<^verbatim>\<open>captchaFetch\<close>, which
  replays a refused request with the approval.

  Frames are numbered; random nonces and the answers of \<^verbatim>\<open>optionalServicesAllowed\<close> and of the network
  are chosen by events. \<open>t\<close> translates a message key. \<^verbatim>\<open>finish\<close> decides the promise of the challenge
  once; its error or proof is \<^verbatim>\<open>wg_settled\<close>.
\<close>

section \<open>The widget of a challenge\<close>

definition scopes :: "string list" where
  "scopes = [''password_login'', ''registration'', ''manual_mail'', ''super_team_create'', ''domain_create'', ''package_create'']"

definition providers :: "string list" where
  "providers = [''recaptcha_v2'', ''recaptcha_invisible'', ''recaptcha_v3'', ''turnstile'', ''hcaptcha'', ''friendlycaptcha'']"

definition isHiddenByDefault :: "string \<Rightarrow> bool" where
  "isHiddenByDefault provider = (provider = ''turnstile'' \<or> provider = ''recaptcha_invisible'' \<or> provider = ''recaptcha_v3'')"

record challenge_info =
  ch_scope :: string
  ch_provider :: string
  ch_site_key :: string
  ch_epoch :: nat

datatype verify_state = VerifyResponse | VerifyBody | VerifyConsent string

record verify_request =
  vr_scope :: string
  vr_provider :: string
  vr_site_key :: string
  vr_response :: string

record widget =
  wg_settled :: "(string + string) option"
  wg_frame :: "nat option"
  wg_frames :: nat
  wg_nonce :: string
  wg_frameTimer :: bool
  wg_verifying :: bool
  wg_host_hidden :: bool
  wg_height :: "int option"
  wg_status :: string
  wg_retry_hidden :: bool
  wg_renders :: nat
  wg_aborted :: bool
  wg_generation :: nat
  wg_verifies :: "verify_state option list"
  wg_requests :: "verify_request list"

definition finish :: "string + string \<Rightarrow> widget \<Rightarrow> widget" where
  "finish r w = (if wg_settled w \<noteq> None then w else w\<lparr>wg_settled := Some r, wg_frameTimer := False\<rparr>)"

definition abort_challenge :: "(string \<Rightarrow> string) \<Rightarrow> widget \<Rightarrow> widget" where
  "abort_challenge t w = (if wg_aborted w then w else finish (Inl (t ''captcha.cancelled'')) (w\<lparr>wg_aborted := True\<rparr>))"

definition failed :: "(string \<Rightarrow> string) \<Rightarrow> widget \<Rightarrow> widget" where
  "failed t w = (if wg_settled w \<noteq> None then w
     else w\<lparr>wg_frameTimer := False, wg_frame := None, wg_verifying := False, wg_host_hidden := True,
            wg_status := t ''captcha.failed'', wg_retry_hidden := False\<rparr>)"

text \<open>\<^verbatim>\<open>render\<close> up to its await, and after \<^verbatim>\<open>optionalServicesAllowed\<close> answered.\<close>

definition busy :: "widget \<Rightarrow> bool" where
  "busy w = (wg_frame w \<noteq> None \<or> wg_verifying w \<or> wg_settled w \<noteq> None)"

definition render :: "widget \<Rightarrow> widget" where
  "render w = (if busy w then w else w\<lparr>wg_renders := wg_renders w + 1\<rparr>)"

definition render_allowed :: "(string \<Rightarrow> string) \<Rightarrow> challenge_info \<Rightarrow> string \<Rightarrow> bool \<Rightarrow> widget \<Rightarrow> widget" where
  "render_allowed t info nonce allowed w =
     (if \<not> allowed then w\<lparr>wg_host_hidden := True, wg_status := t ''captcha.consent''\<rparr>
      else if busy w \<or> wg_aborted w then w
      else w\<lparr>wg_retry_hidden := True, wg_host_hidden := isHiddenByDefault (ch_provider info),
             wg_status := (if isHiddenByDefault (ch_provider info) then t ''captcha.verifying'' else t ''captcha.loading''),
             wg_nonce := nonce, wg_frame := Some (wg_frames w), wg_frames := wg_frames w + 1, wg_frameTimer := True\<rparr>)"

datatype message_kind = SizeMessage int | InteractiveMessage | ErrorMessage | ExpiredMessage | CompleteMessage "string option" | OtherMessage

record message =
  ms_source :: nat
  ms_same_origin :: bool
  ms_nonce :: string
  ms_kind :: message_kind

definition trusted :: "widget \<Rightarrow> message \<Rightarrow> bool" where
  "trusted w m = (wg_settled w = None \<and> wg_frame w = Some (ms_source m) \<and> ms_same_origin m \<and> ms_nonce m = wg_nonce w)"

definition begin_verify :: "(string \<Rightarrow> string) \<Rightarrow> challenge_info \<Rightarrow> string \<Rightarrow> widget \<Rightarrow> widget" where
  "begin_verify t info response w =
     w\<lparr>wg_verifying := True, wg_host_hidden := True, wg_status := t ''captcha.verifying'', wg_frame := None,
       wg_verifies := wg_verifies w @ [Some VerifyResponse],
       wg_requests := \<lparr>vr_scope = ch_scope info, vr_provider = ch_provider info, vr_site_key = ch_site_key info,
         vr_response = response\<rparr> # wg_requests w\<rparr>"

definition onMessage :: "(string \<Rightarrow> string) \<Rightarrow> challenge_info \<Rightarrow> message \<Rightarrow> widget \<Rightarrow> widget" where
  "onMessage t info m w =
     (if \<not> trusted w m then w
      else let w1 = w\<lparr>wg_frameTimer := False\<rparr>
           in case ms_kind m of
                SizeMessage h \<Rightarrow> if 50 \<le> h \<and> h \<le> 900 then w1\<lparr>wg_height := Some h\<rparr> else w1
              | InteractiveMessage \<Rightarrow> w1\<lparr>wg_host_hidden := False, wg_status := t ''captcha.loading''\<rparr>
              | ErrorMessage \<Rightarrow> failed t w1
              | ExpiredMessage \<Rightarrow> failed t w1
              | CompleteMessage (Some response) \<Rightarrow>
                  if \<not> wg_verifying w1 \<and> length response \<le> 16384 then begin_verify t info response w1 else w1
              | CompleteMessage None \<Rightarrow> w1
              | OtherMessage \<Rightarrow> w1)"

text \<open>The verification: its response, its decoded proof, and the last consent check.\<close>

definition set_verify :: "nat \<Rightarrow> verify_state option \<Rightarrow> widget \<Rightarrow> widget" where
  "set_verify i st w = w\<lparr>wg_verifies := (wg_verifies w)[i := st]\<rparr>"

definition verify_threw :: "(string \<Rightarrow> string) \<Rightarrow> nat \<Rightarrow> widget \<Rightarrow> widget" where
  "verify_threw t i w = set_verify i None (if wg_aborted w then w else failed t w)"

definition verify_responded :: "(string \<Rightarrow> string) \<Rightarrow> nat \<Rightarrow> nat \<Rightarrow> widget \<Rightarrow> widget" where
  "verify_responded t i status w =
     (if 200 \<le> status \<and> status < 300 then set_verify i (Some VerifyBody) w
      else set_verify i None (if status = 409 then finish (Inl (t ''captcha.changed'')) w else failed t w))"

definition proof_valid :: "string option \<Rightarrow> bool" where
  "proof_valid p = (case p of None \<Rightarrow> False | Some s \<Rightarrow> s \<noteq> [] \<and> length s \<le> 128)"

definition verify_body :: "(string \<Rightarrow> string) \<Rightarrow> challenge_info \<Rightarrow> nat \<Rightarrow> string option \<Rightarrow> widget \<Rightarrow> widget" where
  "verify_body t info i p w =
     (if \<not> proof_valid p then set_verify i None (failed t w)
      else if ch_epoch info \<noteq> wg_generation w \<or> wg_aborted w then set_verify i None (abort_challenge t w)
      else set_verify i (Some (VerifyConsent (case p of Some s \<Rightarrow> s | None \<Rightarrow> []))) w)"

definition verify_consent :: "(string \<Rightarrow> string) \<Rightarrow> nat \<Rightarrow> string \<Rightarrow> bool \<Rightarrow> widget \<Rightarrow> widget" where
  "verify_consent t i p allowed w = set_verify i None (if allowed then finish (Inr p) w else abort_challenge t w)"

datatype widget_event =
    RetryClicked
  | PreferencesChanged bool
  | RenderAnswered "(bool \<times> string) option"
  | FrameTimeout
  | MessageReceived message
  | VerifyResponded nat "nat option"
  | VerifyDecoded nat "string option option"
  | VerifyAllowed nat "bool option"
  | AbortRequested
  | GenerationBumped
  | OverallTimeout

fun widget_step :: "(string \<Rightarrow> string) \<Rightarrow> challenge_info \<Rightarrow> widget \<Rightarrow> widget_event \<Rightarrow> widget option" where
  "widget_step t info w RetryClicked = Some (render w)"
| "widget_step t info w (PreferencesChanged optional) =
     Some (if optional then (if wg_settled w = None then render w else w) else abort_challenge t (w\<lparr>wg_generation := wg_generation w + 1\<rparr>))"
| "widget_step t info w (RenderAnswered r) =
     (if wg_renders w = 0 then None
      else let w1 = w\<lparr>wg_renders := wg_renders w - 1\<rparr>
           in Some (case r of None \<Rightarrow> failed t w1 | Some (allowed, nonce) \<Rightarrow> render_allowed t info nonce allowed w1))"
| "widget_step t info w FrameTimeout = (if wg_frameTimer w then Some (failed t (w\<lparr>wg_frameTimer := False\<rparr>)) else None)"
| "widget_step t info w (MessageReceived m) = Some (onMessage t info m w)"
| "widget_step t info w (VerifyResponded i r) =
     (if i < length (wg_verifies w) \<and> wg_verifies w ! i = Some VerifyResponse
      then Some (case r of None \<Rightarrow> verify_threw t i w | Some status \<Rightarrow> verify_responded t i status w) else None)"
| "widget_step t info w (VerifyDecoded i r) =
     (if i < length (wg_verifies w) \<and> wg_verifies w ! i = Some VerifyBody
      then Some (case r of None \<Rightarrow> verify_threw t i w | Some p \<Rightarrow> verify_body t info i p w) else None)"
| "widget_step t info w (VerifyAllowed i r) =
     (if i < length (wg_verifies w) then
        (case wg_verifies w ! i of
           Some (VerifyConsent p) \<Rightarrow> Some (case r of None \<Rightarrow> verify_threw t i w | Some allowed \<Rightarrow> verify_consent t i p allowed w)
         | _ \<Rightarrow> None)
      else None)"
| "widget_step t info w AbortRequested = Some (abort_challenge t w)"
| "widget_step t info w GenerationBumped = Some (abort_challenge t (w\<lparr>wg_generation := wg_generation w + 1\<rparr>))"
| "widget_step t info w OverallTimeout =
     (if wg_settled w = None then Some (finish (Inl (t ''captcha.failed'')) w) else None)"

definition open_widget :: "(string \<Rightarrow> string) \<Rightarrow> challenge_info \<Rightarrow> widget" where
  "open_widget t info = render
     \<lparr>wg_settled = None, wg_frame = None, wg_frames = 0, wg_nonce = [], wg_frameTimer = False, wg_verifying = False,
      wg_host_hidden = isHiddenByDefault (ch_provider info), wg_height = None,
      wg_status = t (if isHiddenByDefault (ch_provider info) then ''captcha.verifying'' else ''captcha.loading''),
      wg_retry_hidden = True, wg_renders = 0, wg_aborted = False, wg_generation = ch_epoch info, wg_verifies = [], wg_requests = []\<rparr>"

section \<open>Headers and replay\<close>

text \<open>The metadata answer that decides whether a challenge is shown at all.\<close>

record captcha_metadata =
  md_provider :: string
  md_scope_enabled :: bool
  md_site_key :: "string option"

text \<open>
  \<^verbatim>\<open>challenge\<close> around the widget: \<open>live1\<close> and \<open>live2\<close> tell whether the attempt was still current (same
  generation, signal not aborted) before and after the metadata request.
\<close>

definition challenge ::
  "(string \<Rightarrow> string) \<Rightarrow> bool \<Rightarrow> bool \<Rightarrow> string + captcha_metadata \<Rightarrow> (string + string) \<Rightarrow> string + string" where
  "challenge t live1 live2 metadata outcome =
     (if \<not> live1 then Inl (t ''captcha.cancelled'')
      else and_then metadata (\<lambda>md.
        if md_provider md = ''disabled'' \<or> \<not> md_scope_enabled md then Inr []
        else if md_provider md \<notin> set providers \<or> md_site_key md = None then Inl (t ''captcha.unavailable'')
        else if \<not> live2 then Inl (t ''captcha.cancelled'')
        else outcome))"

record denial =
  dn_status :: nat
  dn_code :: "string option"
  dn_scope :: "string option"

text \<open>\<^verbatim>\<open>captchaHeaders\<close>: \<^term>\<open>Inr None\<close> is \<^verbatim>\<open>null\<close>. \<open>proof\<close> is the outcome of the queued challenge and \<open>live\<close> whether
  the attempt was still current when it settled.\<close>

definition captchaHeaders ::
  "(string \<Rightarrow> string) \<Rightarrow> bool \<Rightarrow> nat \<Rightarrow> (string \<Rightarrow> string + string) \<Rightarrow> bool \<Rightarrow> denial \<Rightarrow> string + (string \<times> string) list option" where
  "captchaHeaders t same_origin pending run_challenge live r =
     (if dn_status r \<noteq> 428 \<or> dn_code r \<noteq> Some ''captcha_required'' then Inr None
      else if \<not> same_origin then Inr None
      else case dn_scope r of
          None \<Rightarrow> Inl (t ''captcha.unavailable'')
        | Some scope \<Rightarrow>
            if scope \<notin> set scopes then Inl (t ''captcha.unavailable'')
            else if 8 \<le> pending then Inl (t ''captcha.unavailable'')
            else and_then (run_challenge scope) (\<lambda>p.
              if \<not> live then Inl (t ''captcha.cancelled'')
              else Inr (Some (if p \<noteq> [] then [(''X-Renop-Captcha'', p)] else []))))"

text \<open>\<^verbatim>\<open>new Headers(init)\<close>, \<^verbatim>\<open>headers.set\<close> and \<^verbatim>\<open>headers.get\<close>: names are compared and kept in lower case, and the
  values of one name are combined.\<close>

fun headers_set :: "headers \<Rightarrow> string \<Rightarrow> string \<Rightarrow> headers" where
  "headers_set [] k v = [(toLowerCase k, v)]"
| "headers_set ((a, b) # hs) k v = (if a = toLowerCase k then (a, v) # hs else (a, b) # headers_set hs k v)"

definition headers_get :: "headers \<Rightarrow> string \<Rightarrow> string option" where
  "headers_get hs k = map_of hs (toLowerCase k)"

definition headers_append :: "headers \<Rightarrow> string \<times> string \<Rightarrow> headers" where
  "headers_append hs kv = headers_set hs (fst kv)
     (case headers_get hs (fst kv) of None \<Rightarrow> snd kv | Some v \<Rightarrow> v @ '', '' @ snd kv)"

definition new_Headers :: "headers \<Rightarrow> headers" where
  "new_Headers init = foldl headers_append [] init"

record fetch_options =
  fo_headers :: headers
  fo_stream :: bool

record net_response =
  nr_denial :: denial
  nr_body :: string

text \<open>\<^verbatim>\<open>captchaFetch\<close>: the requests it sends (their headers as the browser normalizes them, in order) and its
  result. \<^verbatim>\<open>net n hs\<close> answers the \<open>n\<close>-th request.\<close>

definition captchaFetch ::
  "(nat \<Rightarrow> headers \<Rightarrow> string + net_response) \<Rightarrow> (denial \<Rightarrow> string + (string \<times> string) list option) \<Rightarrow> fetch_options \<Rightarrow>
     headers list \<times> (string + net_response)" where
  "captchaFetch net approve opts =
     (let sent = new_Headers (fo_headers opts) in
      case net 0 sent of
        Inl e \<Rightarrow> ([sent], Inl e)
      | Inr r \<Rightarrow>
          if fo_stream opts then ([sent], Inr r)
          else case approve (nr_denial r) of
              Inl e \<Rightarrow> ([sent], Inl e)
            | Inr None \<Rightarrow> ([sent], Inr r)
            | Inr (Some approval) \<Rightarrow>
                let hs = foldl (\<lambda>hs (k, v). headers_set hs k v) (new_Headers (fo_headers opts)) approval
                in ([sent, hs], net 1 hs))"

section \<open>Invariant\<close>

definition widget_inv :: "challenge_info \<Rightarrow> widget \<Rightarrow> bool" where
  "widget_inv info w \<longleftrightarrow> (wg_aborted w \<longrightarrow> wg_settled w \<noteq> None) \<and> (wg_generation w \<noteq> ch_epoch info \<longrightarrow> wg_aborted w)
     \<and> (\<forall>p. Some (VerifyConsent p) \<in> set (wg_verifies w) \<longrightarrow> p \<noteq> [] \<and> length p \<le> 128)
     \<and> (\<forall>p. wg_settled w = Some (Inr p) \<longrightarrow> p \<noteq> [] \<and> length p \<le> 128)
     \<and> (wg_frame w \<noteq> None \<longrightarrow> \<not> wg_verifying w)"

lemma verify_set: "Some (VerifyConsent p) \<in> set (xs[i := st]) \<Longrightarrow> Some (VerifyConsent p) \<in> set xs \<or> st = Some (VerifyConsent p)"
  using set_update_subset_insert [of xs i st] by auto

lemma abort_inv: "widget_inv info w \<or> (\<exists>v. widget_inv info v \<and> w = v\<lparr>wg_generation := g\<rparr>) \<Longrightarrow> widget_inv info (abort_challenge t w)"
  by (auto simp: widget_inv_def abort_challenge_def finish_def)

lemma failed_inv: "widget_inv info w \<Longrightarrow> widget_inv info (failed t w)"
  by (auto simp: widget_inv_def failed_def)

lemma finish_inv: "widget_inv info w \<Longrightarrow> (\<forall>p. r = Inr p \<longrightarrow> p \<noteq> [] \<and> length p \<le> 128) \<Longrightarrow> widget_inv info (finish r w)"
  by (auto simp: widget_inv_def finish_def)

lemma set_verify_inv:
  "widget_inv info w \<Longrightarrow> (\<forall>p. st = Some (VerifyConsent p) \<longrightarrow> p \<noteq> [] \<and> length p \<le> 128) \<Longrightarrow> widget_inv info (set_verify i st w)"
  by (auto simp: widget_inv_def set_verify_def dest!: verify_set)

lemma quiet_inv: "widget_inv info w \<Longrightarrow> widget_inv info (w\<lparr>wg_renders := n\<rparr>)" "widget_inv info w \<Longrightarrow> widget_inv info (w\<lparr>wg_frameTimer := b\<rparr>)"
  "widget_inv info w \<Longrightarrow> widget_inv info (w\<lparr>wg_height := h\<rparr>)" "widget_inv info w \<Longrightarrow> widget_inv info (w\<lparr>wg_host_hidden := b, wg_status := m\<rparr>)"
  by (simp_all add: widget_inv_def)

lemma render_allowed_inv: "widget_inv info w \<Longrightarrow> widget_inv info (render_allowed t info nonce allowed w)"
  by (auto simp: widget_inv_def render_allowed_def busy_def)

lemma begin_verify_inv: "widget_inv info w \<Longrightarrow> widget_inv info (begin_verify t info r w)"
  by (auto simp: widget_inv_def begin_verify_def)

lemma onMessage_inv: "widget_inv info w \<Longrightarrow> widget_inv info (onMessage t info m w)"
  unfolding onMessage_def Let_def
  by (auto split: message_kind.splits option.splits intro: failed_inv quiet_inv begin_verify_inv)

lemma verify_body_inv: "widget_inv info w \<Longrightarrow> widget_inv info (verify_body t info i p w)"
  unfolding verify_body_def
  by (auto intro!: set_verify_inv failed_inv abort_inv simp: proof_valid_def split: option.splits)

lemma widget_step_inv: "widget_inv info w \<Longrightarrow> widget_step t info w e = Some v \<Longrightarrow> widget_inv info v"
proof (induction t info w e rule: widget_step.induct)
  case (8 t info w i r)
  then obtain p where i: "i < length (wg_verifies w)" "wg_verifies w ! i = Some (VerifyConsent p)"
    by (auto split: if_splits option.splits verify_state.splits)
  then have "Some (VerifyConsent p) \<in> set (wg_verifies w)" by (metis nth_mem)
  with 8(1) have "p \<noteq> [] \<and> length p \<le> 128" by (auto simp: widget_inv_def)
  with 8 i show ?case
    by (auto simp: verify_threw_def verify_consent_def intro!: set_verify_inv failed_inv finish_inv abort_inv split: option.splits)
qed (auto simp: render_def Let_def verify_threw_def verify_responded_def
      intro!: quiet_inv failed_inv render_allowed_inv onMessage_inv set_verify_inv finish_inv verify_body_inv abort_inv
      split: if_splits option.splits prod.splits)

interpretation captcha_widget: machine_invariant "widget_step t info" "widget_inv info" for t info
  by unfold_locales (rule widget_step_inv)

lemma open_widget_inv: "widget_inv info (open_widget t info)"
  by (simp add: widget_inv_def open_widget_def render_def)

section \<open>Properties\<close>

lemma headers_set_get: "headers_get (headers_set hs k v) j = (if toLowerCase j = toLowerCase k then Some v else headers_get hs j)"
  by (induction hs k v rule: headers_set.induct) (auto simp: headers_get_def)

lemma settled_kept:
  "wg_settled w = Some r \<Longrightarrow> wg_settled (finish r' w) = Some r" "wg_settled w = Some r \<Longrightarrow> wg_settled (failed t w) = Some r"
  "wg_settled w = Some r \<Longrightarrow> wg_settled (abort_challenge t w) = Some r" "wg_settled (set_verify i st w) = wg_settled w"
  "wg_settled w = Some r \<Longrightarrow> wg_settled (onMessage t info m w) = Some r" "wg_settled (render w) = wg_settled w"
  "wg_settled (render_allowed t info n b w) = wg_settled w"
  by (simp_all add: finish_def failed_def abort_challenge_def set_verify_def onMessage_def trusted_def render_def render_allowed_def)

lemma settled_step: "widget_step t info w e = Some v \<Longrightarrow> wg_settled w = Some r \<Longrightarrow> wg_settled v = Some r"
  by (induction t info w e rule: widget_step.induct)
    (auto simp: settled_kept Let_def verify_threw_def verify_responded_def verify_body_def verify_consent_def
      split: if_splits option.splits verify_state.splits)

text \<open>What can never resolve the promise with a proof.\<close>

lemma no_proof:
  "wg_settled w = None \<Longrightarrow> wg_settled (failed t w) = None"
  "wg_settled w = None \<Longrightarrow> wg_settled (abort_challenge t w) \<noteq> Some (Inr p)"
  "wg_settled w = None \<Longrightarrow> wg_settled (finish (Inl err) w) \<noteq> Some (Inr p)"
  "wg_settled w = None \<Longrightarrow> wg_settled (onMessage t info m w) = None"
  by (auto simp: failed_def abort_challenge_def finish_def onMessage_def Let_def begin_verify_def
      split: message_kind.splits option.splits)

lemma proof_step:
  assumes "widget_step t info w e = Some v" "wg_settled w = None" "wg_settled v = Some (Inr p)"
  shows "\<exists>i. e = VerifyAllowed i (Some True) \<and> i < length (wg_verifies w) \<and> wg_verifies w ! i = Some (VerifyConsent p)"
  using assms
  by (induction t info w e rule: widget_step.induct)
    (auto simp: settled_kept no_proof Let_def verify_threw_def verify_responded_def verify_body_def verify_consent_def finish_def
      split: if_splits option.splits verify_state.splits prod.splits)

text \<open>A verification that waits for the consent answer was preceded by a posted answer of the provider frame.\<close>

lemma requests_step:
  assumes "widget_step t info w e = Some v" "wg_requests v \<noteq> wg_requests w"
  shows "\<exists>m response. e = MessageReceived m \<and> trusted w m \<and> ms_kind m = CompleteMessage (Some response)
      \<and> length response \<le> 16384 \<and> \<not> wg_verifying w
      \<and> wg_requests v = \<lparr>vr_scope = ch_scope info, vr_provider = ch_provider info, vr_site_key = ch_site_key info,
            vr_response = response\<rparr> # wg_requests w"
  using assms
  by (induction t info w e rule: widget_step.induct)
    (auto simp: Let_def verify_threw_def verify_responded_def verify_body_def verify_consent_def finish_def failed_def
      abort_challenge_def set_verify_def render_def render_allowed_def onMessage_def begin_verify_def
      split: if_splits option.splits verify_state.splits prod.splits message_kind.splits)

lemma untrusted_ignored: "\<not> trusted w m \<Longrightarrow> onMessage t info m w = w"
  by (simp add: onMessage_def)

text \<open>
  C19: a challenge yields a proof only through its whole protocol. Let \<open>w\<close> be any state of the widget that
  frames, messages, timers, preference changes and server answers can lead to, and \<open>v\<close> the state after one
  more event. A message that is not from the current frame, the own origin and the current nonce changes
  nothing. A decided outcome never changes again. A posted verification request answers a trusted completion message
  with at most 16384 characters and carries the scope, provider and site key of this challenge. And if the
  event decides the outcome as a proof, then it is the positive consent answer of a verification whose server
  answer was that proof, the proof has 1 to 128 characters, and the challenge was neither aborted nor outdated.
\<close>

theorem captcha_proof_guarded:
  assumes "run_events (widget_step t info) (open_widget t info) es = Some w" "widget_step t info w e = Some v"
  shows "(\<forall>m. e = MessageReceived m \<and> \<not> trusted w m \<longrightarrow> v = w)
    \<and> (wg_settled w \<noteq> None \<longrightarrow> wg_settled v = wg_settled w)
    \<and> (wg_requests v = wg_requests w
       \<or> (\<exists>m response. e = MessageReceived m \<and> trusted w m \<and> ms_kind m = CompleteMessage (Some response)
            \<and> length response \<le> 16384
            \<and> wg_requests v = \<lparr>vr_scope = ch_scope info, vr_provider = ch_provider info, vr_site_key = ch_site_key info,
                vr_response = response\<rparr> # wg_requests w))
    \<and> (\<forall>p. wg_settled w = None \<and> wg_settled v = Some (Inr p) \<longrightarrow>
         (\<exists>i. e = VerifyAllowed i (Some True) \<and> i < length (wg_verifies w) \<and> wg_verifies w ! i = Some (VerifyConsent p))
         \<and> p \<noteq> [] \<and> length p \<le> 128 \<and> \<not> wg_aborted w \<and> wg_generation w = ch_epoch info)"
proof (intro conjI)
  have inv: "widget_inv info w"
    using captcha_widget.run_inv [OF assms(1) open_widget_inv] .
  have inv': "widget_inv info v" by (rule widget_step_inv [OF inv assms(2)])
  show "\<forall>m. e = MessageReceived m \<and> \<not> trusted w m \<longrightarrow> v = w"
    using assms(2) by (auto simp: untrusted_ignored)
  show "wg_settled w \<noteq> None \<longrightarrow> wg_settled v = wg_settled w"
    using settled_step [OF assms(2)] by auto
  show "wg_requests v = wg_requests w
       \<or> (\<exists>m response. e = MessageReceived m \<and> trusted w m \<and> ms_kind m = CompleteMessage (Some response)
            \<and> length response \<le> 16384
            \<and> wg_requests v = \<lparr>vr_scope = ch_scope info, vr_provider = ch_provider info, vr_site_key = ch_site_key info,
                vr_response = response\<rparr> # wg_requests w)"
    using requests_step [OF assms(2)] by blast
  show "\<forall>p. wg_settled w = None \<and> wg_settled v = Some (Inr p) \<longrightarrow>
         (\<exists>i. e = VerifyAllowed i (Some True) \<and> i < length (wg_verifies w) \<and> wg_verifies w ! i = Some (VerifyConsent p))
         \<and> p \<noteq> [] \<and> length p \<le> 128 \<and> \<not> wg_aborted w \<and> wg_generation w = ch_epoch info"
    using proof_step [OF assms(2)] inv inv' by (auto simp: widget_inv_def)
qed

definition example_info :: challenge_info where
  "example_info = \<lparr>ch_scope = ''registration'', ch_provider = ''turnstile'', ch_site_key = ''k'', ch_epoch = 0\<rparr>"

definition example_events :: "widget_event list" where
  "example_events = [RenderAnswered (Some (True, ''n1'')),
     MessageReceived \<lparr>ms_source = 0, ms_same_origin = True, ms_nonce = ''n1'', ms_kind = CompleteMessage (Some ''answer'')\<rparr>,
     VerifyResponded 0 (Some 200), VerifyDecoded 0 (Some (Some ''proof''))]"

lemmas widget_eval = example_info_def example_events_def open_widget_def render_def busy_def render_allowed_def
  isHiddenByDefault_def onMessage_def trusted_def begin_verify_def verify_responded_def verify_body_def proof_valid_def
  set_verify_def verify_consent_def finish_def

definition example_waiting :: widget where
  "example_waiting = \<lparr>wg_settled = None, wg_frame = None, wg_frames = 1, wg_nonce = ''n1'', wg_frameTimer = False, wg_verifying = True,
      wg_host_hidden = True, wg_height = None, wg_status = ''captcha.verifying'', wg_retry_hidden = True, wg_renders = 0,
      wg_aborted = False, wg_generation = 0, wg_verifies = [Some (VerifyConsent ''proof'')],
      wg_requests = [\<lparr>vr_scope = ''registration'', vr_provider = ''turnstile'', vr_site_key = ''k'', vr_response = ''answer''\<rparr>]\<rparr>"

lemma example_run: "run_events (widget_step id example_info) (open_widget id example_info) example_events = Some example_waiting"
  by (simp add: widget_eval example_waiting_def Let_def)

lemma example_allowed:
  "widget_step id example_info example_waiting (VerifyAllowed 0 (Some True))
     = Some (example_waiting\<lparr>wg_settled := Some (Inr ''proof''), wg_verifies := [None]\<rparr>)"
  by (simp add: widget_eval example_waiting_def)

theorem captcha_proof_guarded_witness:
  "run_events (widget_step id example_info) (open_widget id example_info) example_events = Some example_waiting
    \<and> widget_step id example_info example_waiting (VerifyAllowed 0 (Some True))
      = Some (example_waiting\<lparr>wg_settled := Some (Inr ''proof''), wg_verifies := [None]\<rparr>)
    \<and> \<not> wg_aborted example_waiting \<and> wg_generation example_waiting = ch_epoch example_info"
proof -
  note guard = captcha_proof_guarded [OF example_run example_allowed]
  have "wg_settled example_waiting = None" by (simp add: example_waiting_def)
  moreover have "wg_settled (example_waiting\<lparr>wg_settled := Some (Inr ''proof''), wg_verifies := [None]\<rparr>) = Some (Inr ''proof'')"
    by simp
  ultimately show ?thesis using guard example_run example_allowed by blast
qed

text \<open>
  C25: \<^verbatim>\<open>captchaFetch\<close> sends a second request at most once, and exactly when the first, not streamed request was
  refused with status 428 and code captcha_required at the own origin for a known scope, fewer than 8 challenges
  were pending, the challenge gave an approval and the attempt was still current. That
  request carries the approval (if it is not empty) and otherwise the headers of the first, and its answer is the result.
  In every other case the result is the first answer or an error, and the first request carried the given headers.
\<close>

lemma captcha_replay_once:
  "let approve = captchaHeaders t same_origin pending run_challenge live;
       first = new_Headers (fo_headers opts);
       out = captchaFetch net approve opts;
       replayed = (\<exists>r scope p. net 0 first = Inr r \<and> \<not> fo_stream opts \<and> dn_status (nr_denial r) = 428
          \<and> dn_code (nr_denial r) = Some ''captcha_required'' \<and> same_origin \<and> dn_scope (nr_denial r) = Some scope
          \<and> scope \<in> set scopes \<and> pending < 8 \<and> run_challenge scope = Inr p \<and> live)
   in hd (fst out) = first
    \<and> (length (fst out) = 2 \<longleftrightarrow> replayed)
    \<and> (if replayed then
         (\<exists>scope p hs. run_challenge scope = Inr p \<and> fst out = [first, hs] \<and> snd out = net 1 hs
            \<and> (\<forall>k. headers_get hs k =
                 (if p \<noteq> [] \<and> toLowerCase k = ''x-renop-captcha'' then Some p else headers_get first k)))
       else fst out = [first] \<and> (snd out = net 0 first \<or> (\<exists>m. snd out = Inl m)))"
proof (cases "net 0 (new_Headers (fo_headers opts))")
  case (Inl m)
  then show ?thesis by (simp add: captchaFetch_def Let_def)
next
  case (Inr r)
  have low: "toLowerCase ''X-Renop-Captcha'' = ''x-renop-captcha''" by code_simp
  note eval = captchaFetch_def captchaHeaders_def Let_def Inr
  show ?thesis
  proof (cases "fo_stream opts \<or> dn_status (nr_denial r) \<noteq> 428 \<or> dn_code (nr_denial r) \<noteq> Some ''captcha_required'' \<or> \<not> same_origin")
    case True
    then show ?thesis by (auto simp: eval)
  next
    case guard: False
    show ?thesis
    proof (cases "\<exists>scope p. dn_scope (nr_denial r) = Some scope \<and> scope \<in> set scopes \<and> pending < 8 \<and> run_challenge scope = Inr p \<and> live")
      case True
      then obtain scope p where sp: "dn_scope (nr_denial r) = Some scope" "scope \<in> set scopes" "pending < 8" "run_challenge scope = Inr p" "live"
        by blast
      with guard show ?thesis by (cases "p = []") (auto simp: eval headers_set_get low)
    next
      case False
      show ?thesis
      proof (cases "dn_scope (nr_denial r)")
        case None
        with guard show ?thesis by (simp add: eval)
      next
        case (Some scope)
        with guard False show ?thesis by (cases "run_challenge scope") (auto simp: eval)
      qed
    qed
  qed
qed

end
