(* ===== verification/Api_Client.thy ===== *)
theory Api_Client
  imports Captcha
begin

text \<open>
  The API client (\<^verbatim>\<open>js/api.js\<close>): request defaults, the logout boundary, and the protobuf requests. The
  server, the captcha approval and the message codecs are parameters; a request goes through
  \<^verbatim>\<open>captchaFetch\<close>, so the model lists every request it really sends.
\<close>

section \<open>Requests\<close>

definition PROTO_CONTENT_TYPE :: string where
  "PROTO_CONTENT_TYPE = ''application/x-protobuf''"

datatype request_body = Bytes string | StreamBody

record request_init =
  ri_credentials :: "string option"
  ri_cache :: "string option"
  ri_method :: "string option"
  ri_headers :: "headers option"
  ri_body :: "request_body option"

definition empty_init :: request_init where
  "empty_init = \<lparr>ri_credentials = None, ri_cache = None, ri_method = None, ri_headers = None, ri_body = None\<rparr>"

definition getAuthHeaders :: headers where
  "getAuthHeaders = []"

definition given_headers :: "request_init \<Rightarrow> headers" where
  "given_headers options = (case ri_headers options of None \<Rightarrow> [] | Some hs \<Rightarrow> hs)"

definition or_default :: "'a option \<Rightarrow> 'a \<Rightarrow> 'a option" where
  "or_default x d = (case x of None \<Rightarrow> Some d | Some v \<Rightarrow> Some v)"

definition withCredentials :: "string \<Rightarrow> request_init \<Rightarrow> request_init" where
  "withCredentials lang options = options
     \<lparr>ri_credentials := or_default (ri_credentials options) ''include'',
      ri_cache := or_default (ri_cache options) ''no-store'',
      ri_headers := Some (spread (spread [(''Accept-Language'', str_or lang ''en-US'')] getAuthHeaders) (given_headers options))\<rparr>"

section \<open>Sending\<close>

text \<open>The environment: the page language, the server (its answer to the \<open>n\<close>-th request of a call) and the captcha
  approval for a URL.\<close>

record api_env =
  ae_lang :: string
  ae_server :: "nat \<Rightarrow> string \<Rightarrow> request_init \<Rightarrow> string + net_response"
  ae_approve :: "string \<Rightarrow> denial \<Rightarrow> string + (string \<times> string) list option"

type_synonym sent_requests = "request_init list"

definition api_fetch :: "api_env \<Rightarrow> string \<Rightarrow> request_init \<Rightarrow> sent_requests \<times> (string + net_response)" where
  "api_fetch env url options =
     (let out = captchaFetch (\<lambda>n hs. ae_server env n url (options\<lparr>ri_headers := Some hs\<rparr>)) (ae_approve env url)
                  \<lparr>fo_headers = given_headers options, fo_stream = (ri_body options = Some StreamBody)\<rparr>
      in (map (\<lambda>hs. options\<lparr>ri_headers := Some hs\<rparr>) (fst out), snd out))"

abbreviation response_status :: "net_response \<Rightarrow> nat" where
  "response_status r \<equiv> dn_status (nr_denial r)"

definition http_ok :: "net_response \<Rightarrow> bool" where
  "http_ok r = (200 \<le> response_status r \<and> response_status r < 300)"

text \<open>\<^verbatim>\<open>handleAuthFailure\<close>: the reason it logs out with, if it does; it then throws \<^verbatim>\<open>Unauthorized\<close>.\<close>

definition handleAuthFailure :: "net_response \<Rightarrow> bool \<Rightarrow> string option" where
  "handleAuthFailure r logoutOnForbidden =
     (if response_status r = 401 \<or> (response_status r = 403 \<and> logoutOnForbidden) then Some ''kicked'' else None)"

record api_outcome =
  ao_sent :: sent_requests
  ao_logout :: "string option"
  ao_result :: "string + net_response"

definition apiRequest :: "api_env \<Rightarrow> string \<Rightarrow> request_init \<Rightarrow> bool \<Rightarrow> api_outcome" where
  "apiRequest env url options logoutOnForbidden =
     (case api_fetch env url (withCredentials (ae_lang env) options) of
        (sent, Inl e) \<Rightarrow> \<lparr>ao_sent = sent, ao_logout = None, ao_result = Inl e\<rparr>
      | (sent, Inr r) \<Rightarrow>
          (case handleAuthFailure r logoutOnForbidden of
             Some reason \<Rightarrow> \<lparr>ao_sent = sent, ao_logout = Some reason, ao_result = Inl ''Unauthorized''\<rparr>
           | None \<Rightarrow> \<lparr>ao_sent = sent, ao_logout = None, ao_result = Inr r\<rparr>))"

section \<open>Protobuf requests\<close>

definition decodeProtoResponse :: "net_response \<Rightarrow> (string \<Rightarrow> string + 'm) \<Rightarrow> ('m \<Rightarrow> 'o) \<Rightarrow> string + 'o" where
  "decodeProtoResponse r decode toObject = and_then (decode (nr_body r)) (\<lambda>m. Inr (toObject m))"

definition fetchProto ::
  "api_env \<Rightarrow> string \<Rightarrow> (string \<Rightarrow> string + 'm) \<Rightarrow> ('m \<Rightarrow> 'o) \<Rightarrow> request_init \<Rightarrow>
     sent_requests \<times> (string + net_response \<times> 'o option)" where
  "fetchProto env url decode toObject options =
     (let out = api_fetch env url (withCredentials (ae_lang env)
                  (options\<lparr>ri_headers := Some (spread [(''Accept'', PROTO_CONTENT_TYPE)] (given_headers options))\<rparr>))
      in (fst out, and_then (snd out) (\<lambda>r.
            if \<not> http_ok r then Inr (r, None)
            else and_then (decodeProtoResponse r decode toObject) (\<lambda>data. Inr (r, Some data)))))"

text \<open>\<^verbatim>\<open>RequestType\<close> is its encoder, applied to \<^verbatim>\<open>requestPayload || {}\<close>; \<^verbatim>\<open>ResponseType\<close> its decoder with
  \<^verbatim>\<open>toObject\<close>.\<close>

definition proto_body :: "('p \<Rightarrow> string) option \<Rightarrow> 'p \<Rightarrow> 'p option \<Rightarrow> request_body option" where
  "proto_body RequestType empty_payload requestPayload =
     map_option (\<lambda>encode. Bytes (encode (case requestPayload of None \<Rightarrow> empty_payload | Some p \<Rightarrow> p))) RequestType"

definition proto_headers :: "bool \<Rightarrow> request_init \<Rightarrow> headers" where
  "proto_headers has_body options =
     (let hs = spread [(''Accept'', PROTO_CONTENT_TYPE)] (given_headers options)
      in if has_body then spread hs [(''Content-Type'', PROTO_CONTENT_TYPE)] else hs)"

definition sendProto ::
  "api_env \<Rightarrow> string \<Rightarrow> string \<Rightarrow> ('p \<Rightarrow> string) option \<Rightarrow> 'p \<Rightarrow> 'p option \<Rightarrow>
     ((string \<Rightarrow> string + 'm) \<times> ('m \<Rightarrow> 'o)) option \<Rightarrow> request_init \<Rightarrow> sent_requests \<times> (string + net_response \<times> 'o option)" where
  "sendProto env url method RequestType empty_payload requestPayload ResponseType options =
     (let init = options\<lparr>ri_method := or_default (ri_method options) method,
                         ri_headers := Some (proto_headers (RequestType \<noteq> None) options),
                         ri_body := proto_body RequestType empty_payload requestPayload\<rparr>;
          out = api_fetch env url (withCredentials (ae_lang env) init)
      in (fst out, and_then (snd out) (\<lambda>r.
            case ResponseType of
              None \<Rightarrow> Inr (r, None)
            | Some (decode, toObject) \<Rightarrow>
                if \<not> http_ok r then Inr (r, None)
                else and_then (decodeProtoResponse r decode toObject) (\<lambda>data. Inr (r, Some data)))))"

definition postProto ::
  "api_env \<Rightarrow> string \<Rightarrow> ('p \<Rightarrow> string) option \<Rightarrow> 'p \<Rightarrow> 'p option \<Rightarrow>
     ((string \<Rightarrow> string + 'm) \<times> ('m \<Rightarrow> 'o)) option \<Rightarrow> request_init \<Rightarrow> sent_requests \<times> (string + net_response \<times> 'o option)" where
  "postProto env url = sendProto env url ''POST''"

definition putProto ::
  "api_env \<Rightarrow> string \<Rightarrow> ('p \<Rightarrow> string) option \<Rightarrow> 'p \<Rightarrow> 'p option \<Rightarrow>
     ((string \<Rightarrow> string + 'm) \<times> ('m \<Rightarrow> 'o)) option \<Rightarrow> request_init \<Rightarrow> sent_requests \<times> (string + net_response \<times> 'o option)" where
  "putProto env url = sendProto env url ''PUT''"

section \<open>Properties\<close>

lemma withCredentials_header:
  "map_of (given_headers (withCredentials lang options)) k =
     (case map_of (given_headers options) k of
        Some v \<Rightarrow> Some v | None \<Rightarrow> if k = ''Accept-Language'' then Some (str_or lang ''en-US'') else None)"
  by (auto simp: withCredentials_def given_headers_def spread_lookup getAuthHeaders_def split: option.splits)

lemma captchaFetch_sent: "length (fst (captchaFetch net approve opts)) \<in> {1, 2} \<and> hd (fst (captchaFetch net approve opts)) = new_Headers (fo_headers opts)"
  by (auto simp: captchaFetch_def Let_def split: sum.splits option.splits)

lemma captchaFetch_result:
  "snd (captchaFetch net approve opts) = Inr r \<Longrightarrow>
     \<exists>hs. hs = last (fst (captchaFetch net approve opts)) \<and> net (length (fst (captchaFetch net approve opts)) - 1) hs = Inr r"
  by (auto simp: captchaFetch_def Let_def split: sum.splits option.splits if_splits)

lemma captchaFetch_nonempty: "fst (captchaFetch net approve opts) \<noteq> []"
  using captchaFetch_sent [of net approve opts] by auto

lemma api_fetch_sent:
  "length (fst (api_fetch env url options)) \<in> {1, 2}"
  "q \<in> set (fst (api_fetch env url options)) \<Longrightarrow> ri_credentials q = ri_credentials options \<and> ri_cache q = ri_cache options
     \<and> ri_method q = ri_method options \<and> ri_body q = ri_body options"
  using captchaFetch_sent by (auto simp: api_fetch_def Let_def)

lemma api_fetch_result:
  assumes "snd (api_fetch env url options) = Inr r"
  shows "ae_server env (length (fst (api_fetch env url options)) - 1) url (last (fst (api_fetch env url options))) = Inr r"
proof -
  let ?out = "captchaFetch (\<lambda>n hs. ae_server env n url (options\<lparr>ri_headers := Some hs\<rparr>)) (ae_approve env url)
     \<lparr>fo_headers = given_headers options, fo_stream = (ri_body options = Some StreamBody)\<rparr>"
  have "snd ?out = Inr r" using assms by (simp add: api_fetch_def Let_def)
  then have "ae_server env (length (fst ?out) - 1) url (options\<lparr>ri_headers := Some (last (fst ?out))\<rparr>) = Inr r"
    by (auto dest!: captchaFetch_result)
  then show ?thesis by (simp add: api_fetch_def Let_def last_map captchaFetch_nonempty)
qed

text \<open>A body sent by \<^verbatim>\<open>sendProto\<close> is declared as protobuf whatever the caller's headers say, and an answer is decoded
  only when it is one the caller asked for.\<close>

lemma sendProto_headers:
  "map_of (proto_headers True options) ''Content-Type'' = Some PROTO_CONTENT_TYPE"
  "map_of (given_headers options) ''Accept'' = Some a \<Longrightarrow> map_of (proto_headers b options) ''Accept'' = Some a"
  "map_of (given_headers options) ''Accept'' = None \<Longrightarrow> map_of (proto_headers b options) ''Accept'' = Some PROTO_CONTENT_TYPE"
  by (auto simp: proto_headers_def Let_def spread_lookup)

lemma sendProto_decoded:
  "snd (sendProto env url m req e p resp options) = Inr (r, Some x) \<Longrightarrow>
     http_ok r \<and> (\<exists>decode toObject msg. resp = Some (decode, toObject) \<and> decode (nr_body r) = Inr msg \<and> x = toObject msg)"
  by (cases resp) (auto simp: sendProto_def Let_def decodeProtoResponse_def split: if_splits)


end
