(* ===== verification/Translation.thy ===== *)
theory Translation
  imports Js_Prelude
begin

text \<open>
  Message lookup: \<^verbatim>\<open>packages/renop-ui/js/i18n-util.js\<close> (locale matching, interpolation, key lookup) and the
  pure part of \<^verbatim>\<open>js/i18n.js\<close> (aliases, the registered backend phrases, \<^verbatim>\<open>translateKnownError\<close> and
  \<^verbatim>\<open>translateError\<close>).

  The sources look keys up in plain objects, so a key that is not an own property may name a member of
  \<^verbatim>\<open>Object.prototype\<close>; a looked-up value is therefore \<^verbatim>\<open>undefined\<close>, a text or such a built-in member.
  \<^verbatim>\<open>JSON.parse\<close> is a parameter. The names of interpolation parameters are identifiers, for which the pattern
  the source builds from them matches literally.
\<close>

section \<open>Values of object properties\<close>

datatype js_value = Undefined | Text string | Builtin string

definition object_members :: "string list" where
  "object_members = [''constructor'', ''__defineGetter__'', ''__defineSetter__'', ''hasOwnProperty'', ''__lookupGetter__'',
     ''__lookupSetter__'', ''isPrototypeOf'', ''propertyIsEnumerable'', ''toString'', ''valueOf'', ''__proto__'', ''toLocaleString'']"

type_synonym string_table = "(string \<times> string) list"

definition obj_get :: "string_table \<Rightarrow> string \<Rightarrow> js_value" where
  "obj_get tab k = (case map_of tab k of Some v \<Rightarrow> Text v | None \<Rightarrow> if k \<in> set object_members then Builtin k else Undefined)"

fun truthy :: "js_value \<Rightarrow> bool" where
  "truthy Undefined = False"
| "truthy (Text s) = (s \<noteq> [])"
| "truthy (Builtin n) = True"

definition value_or :: "js_value \<Rightarrow> js_value \<Rightarrow> js_value" where
  "value_or a b = (if truthy a then a else b)"

text \<open>\<^verbatim>\<open>String(v)\<close>, also what a value is converted to when it is used as a property key.\<close>

fun value_string :: "js_value \<Rightarrow> string" where
  "value_string Undefined = ''undefined''"
| "value_string (Text s) = s"
| "value_string (Builtin n) =
     (if n = ''__proto__'' then ''[object Object]''
      else if n = ''constructor'' then ''function Object() { [native code] }''
      else ''function '' @ n @ ''() { [native code] }'')"

section \<open>Interpolation\<close>

text \<open>The replacement patterns of \<^verbatim>\<open>String.prototype.replace\<close>: \<^verbatim>\<open>$$\<close>, \<^verbatim>\<open>$&\<close>, and the text before and
  after the match. The pattern has no groups.\<close>

fun expand_replacement :: "string \<Rightarrow> string \<Rightarrow> string \<Rightarrow> string \<Rightarrow> string" where
  "expand_replacement matched before after [] = []"
| "expand_replacement matched before after [c] = [c]"
| "expand_replacement matched before after (c # d # r) =
     (if c = CHR ''$'' \<and> d = CHR ''$'' then CHR ''$'' # expand_replacement matched before after r
      else if c = CHR ''$'' \<and> d = CHR ''&'' then matched @ expand_replacement matched before after r
      else if c = CHR ''$'' \<and> d = CHR 0x60 then before @ expand_replacement matched before after r
      else if c = CHR ''$'' \<and> d = CHR 0x27 then after @ expand_replacement matched before after r
      else c # expand_replacement matched before after (d # r))"

function replace_pattern :: "string \<Rightarrow> string \<Rightarrow> string \<Rightarrow> string \<Rightarrow> string" where
  "replace_pattern pat rep before [] = []"
| "replace_pattern pat rep before (c # cs) =
     (if pat \<noteq> [] \<and> prefix pat (c # cs)
      then expand_replacement pat before (drop (length pat - 1) cs) rep
             @ replace_pattern pat rep (before @ pat) (drop (length pat - 1) cs)
      else c # replace_pattern pat rep (before @ [c]) cs)"
  by pat_completeness auto
termination
  by (relation "measure (\<lambda>(pat, rep, before, s). length s)") auto

declare replace_pattern.simps [simp del]

definition placeholder :: "string \<Rightarrow> string" where
  "placeholder k = ''{'' @ k @ ''}''"

definition interpolate_text :: "string_table \<Rightarrow> string \<Rightarrow> string" where
  "interpolate_text params txt = foldl (\<lambda>out (k, v). replace_pattern (placeholder k) v [] out) txt params"

fun interpolateMessage :: "js_value \<Rightarrow> string_table \<Rightarrow> js_value" where
  "interpolateMessage (Text s) params = Text (interpolate_text params s)"
| "interpolateMessage v params = v"

text \<open>\<^verbatim>\<open>translateKey\<close> for a key of any kind: a built-in member stands for itself when no message has its text as key.\<close>

record dictionaries =
  dc_current :: string_table
  dc_fallback :: string_table

definition translateKey :: "dictionaries \<Rightarrow> js_value \<Rightarrow> string_table \<Rightarrow> js_value" where
  "translateKey d key params =
     interpolateMessage (value_or (obj_get (dc_current d) (value_string key))
       (value_or (obj_get (dc_fallback d) (value_string key)) key)) params"

definition tr :: "dictionaries \<Rightarrow> string \<Rightarrow> string_table \<Rightarrow> js_value" where
  "tr d key params = translateKey d (Text key) params"

section \<open>Locales\<close>

definition first_match :: "('a \<Rightarrow> bool) \<Rightarrow> 'a list \<Rightarrow> 'a option" where
  "first_match P xs = find P xs"

definition before_separator :: "string \<Rightarrow> string" where
  "before_separator s = takeWhile (\<lambda>c. c \<noteq> CHR ''-'' \<and> c \<noteq> CHR ''_'') s"

text \<open>The Chinese family, after no exact match was found.\<close>

definition match_chinese :: "string \<Rightarrow> string list \<Rightarrow> string option" where
  "match_chinese low keys =
     (if ''zh-YUE'' \<in> set keys \<and> (js_includes low ''yue'' \<or> js_includes low ''cantonese'') then Some ''zh-YUE''
      else if ''zh-HK'' \<in> set keys \<and> js_includes low ''hk'' then Some ''zh-HK''
      else if ''zh-TW'' \<in> set keys \<and> (js_includes low ''tw'' \<or> js_includes low ''hant'') then Some ''zh-TW''
      else if ''zh-CN'' \<in> set keys
        \<and> (js_includes low ''cn'' \<or> js_includes low ''hans'' \<or> js_includes low ''sg'' \<or> low = ''zh'' \<or> startsWith low ''zh-'')
        then Some ''zh-CN''
      else first_match (\<lambda>k. startsWith (toLowerCase k) ''zh'') keys)"

definition match_base :: "string \<Rightarrow> string list \<Rightarrow> string option" where
  "match_base clean keys =
     (let base = toLowerCase (before_separator clean)
      in if base = [] then None
         else first_match (\<lambda>k. toLowerCase k = base \<or> startsWith (toLowerCase k) (base @ ''-'')) keys)"

definition matchLocaleKey :: "string option \<Rightarrow> string list \<Rightarrow> string option" where
  "matchLocaleKey lang keys =
     (case lang of
        None \<Rightarrow> None
      | Some raw \<Rightarrow>
          let clean = trim raw; low = toLowerCase clean
          in if clean = [] \<or> keys = [] then None
             else case first_match (\<lambda>k. toLowerCase k = low) keys of
                 Some k \<Rightarrow> Some k
               | None \<Rightarrow>
                   (case (if startsWith low ''zh'' \<or> startsWith low ''yue'' then match_chinese low keys else None) of
                      Some k \<Rightarrow> Some k
                    | None \<Rightarrow> match_base clean keys))"

definition DEFAULT_LANG :: string where
  "DEFAULT_LANG = ''en-US''"

definition languageAliases :: "(string \<times> string) list" where
  "languageAliases =
    [(''en-US'', ''en-US''),
     (''en'', ''en-US''),
     (''zh-CN'', ''zh-CN''),
     (''zh-cn'', ''zh-CN''),
     (''zh-Hans'', ''zh-CN''),
     (''zh-hans'', ''zh-CN''),
     (''zh'', ''zh-CN''),
     (''zh-HK'', ''zh-HK''),
     (''zh-hk'', ''zh-HK''),
     (''zh-Hant-HK'', ''zh-HK''),
     (''zh-hant-hk'', ''zh-HK''),
     (''zh-TW'', ''zh-TW''),
     (''zh-tw'', ''zh-TW''),
     (''zh-Hant'', ''zh-TW''),
     (''zh-hant'', ''zh-TW''),
     (''zh-Hant-TW'', ''zh-TW''),
     (''zh-hant-tw'', ''zh-TW''),
     (''zh-YUE'', ''zh-YUE''),
     (''zh-yue'', ''zh-YUE''),
     (''yue'', ''zh-YUE''),
     (''yue-HK'', ''zh-YUE''),
     (''yue-hk'', ''zh-YUE''),
     (''zh-Hant-HK-yue'', ''zh-YUE''),
     (''ko-KR'', ''ko-KR''),
     (''ko-kr'', ''ko-KR''),
     (''ko'', ''ko-KR''),
     (''ja-JP'', ''ja-JP''),
     (''ja'', ''ja-JP''),
     (''de-DE'', ''de-DE''),
     (''de'', ''de-DE''),
     (''fr-FR'', ''fr-FR''),
     (''fr'', ''fr-FR''),
     (''ru-RU'', ''ru-RU''),
     (''ru-ru'', ''ru-RU''),
     (''ru'', ''ru-RU''),
     (''es-ES'', ''es-ES''),
     (''es-es'', ''es-ES''),
     (''es'', ''es-ES''),
     (''pt-PT'', ''pt-PT''),
     (''pt-pt'', ''pt-PT''),
     (''pt-BR'', ''pt-PT''),
     (''pt-br'', ''pt-PT''),
     (''pt'', ''pt-PT'')]"

definition getAvailableLanguages :: "string list" where
  "getAvailableLanguages = [''zh-CN'', ''zh-HK'', ''zh-TW'', ''zh-YUE'', ''ko-KR'', ''en-US'', ''ja-JP'', ''de-DE'', ''fr-FR'',
     ''ru-RU'', ''es-ES'', ''pt-PT'']"

text \<open>A matched key is an own property of the alias table.\<close>

definition resolveLanguage :: "string option \<Rightarrow> string option" where
  "resolveLanguage lang =
     (case matchLocaleKey lang (map fst languageAliases) of None \<Rightarrow> None | Some k \<Rightarrow> map_of languageAliases k)"

datatype language_source = FromStorage | FromBrowser | FromFallback | FromDefault | UserSet | FromAccount

definition non_empty :: "string option \<Rightarrow> string option" where
  "non_empty x = (if opt_or x [] = [] then None else x)"

fun first_resolved :: "(string option \<Rightarrow> string option) \<Rightarrow> string option list \<Rightarrow> string option" where
  "first_resolved resolve [] = None"
| "first_resolved resolve (b # bs) =
     (if non_empty b = None then first_resolved resolve bs
      else case non_empty (resolve b) of Some l \<Rightarrow> Some l | None \<Rightarrow> first_resolved resolve bs)"

definition browser_languages :: "string option list \<Rightarrow> string option \<Rightarrow> string option list" where
  "browser_languages langs single = (if langs \<noteq> [] then langs else [single])"

definition detectLanguage ::
  "(string option \<Rightarrow> string option) \<Rightarrow> string option \<Rightarrow> string option list \<Rightarrow> string option \<Rightarrow> string \<Rightarrow> string \<times> language_source" where
  "detectLanguage resolve saved langs single defaultLang =
     (case (if non_empty saved = None then None else non_empty (resolve saved)) of
        Some l \<Rightarrow> (l, FromStorage)
      | None \<Rightarrow>
          (case first_resolved resolve (browser_languages langs single) of
             Some l \<Rightarrow> (l, FromBrowser)
           | None \<Rightarrow> (defaultLang, FromFallback)))"

section \<open>Backend phrases\<close>

definition ERROR_KEY_MAP :: "(string \<times> string) list" where
  "ERROR_KEY_MAP =
    [(''A user may register at most 10 GPG keys'', ''profile.gpgKeyLimit''),
     (''An error occurred during FIDO login'', ''error.fidoLoginError''),
     (''An error occurred during login'', ''login.loginError''),
     (''An unexpected error occurred while attempting to encode a Protobuf message'', ''error.internalServerError''),
     (''Authentication failed'', ''login.loginError''),
     (''Artifact or directory was deleted before publication'', ''profile.gpgFailure.deletedBeforePublication''),
     (''Artifact redeployment is not allowed'', ''profile.gpgFailure.redeploymentDenied''),
     (''Detached GPG signature was not uploaded before the publication deadline'', ''profile.gpgFailure.signatureDeadline''),
     (''Failed to register GPG key'', ''profile.gpgAddFailed''),
     (''GPG key could not be resolved by configured key servers'', ''profile.gpgResolveFailed''),
     (''GPG key ID is ambiguous; use the full fingerprint'', ''profile.gpgAmbiguousKey''),
     (''GPG key server URLs must contain only an HTTPS origin'', ''settings.gpgOriginOnly''),
     (''GPG key server URLs must use HTTPS'', ''settings.gpgHttpsOnly''),
     (''GPG validation timed out'', ''profile.gpgFailure.validationTimedOut''),
     (''Invalid GPG key ID or fingerprint'', ''profile.gpgInvalidKey''),
     (''Invalid profile links'', ''profile.linksInvalid''),
     (''Maven artifact was not uploaded before the publication deadline'', ''profile.gpgFailure.artifactDeadline''),
     (''Publication failed during GPG validation or storage commit'', ''profile.gpgFailure.generic''),
     (''Failed to update profile links'', ''profile.linksUpdateFailed''),
     (''Repository was deleted before publication'', ''profile.gpgFailure.repositoryDeleted''),
     (''The detached GPG signature is invalid'', ''profile.gpgFailure.invalidSignature''),
     (''The quarantined artifact or signature is no longer available'', ''profile.gpgFailure.quarantineMissing''),
     (''The signing key is not registered for the uploader'', ''profile.gpgFailure.keyUnregistered''),
     (''The target repository no longer exists'', ''profile.gpgFailure.repositoryMissing''),
     (''Uploader account was deleted'', ''profile.gpgFailure.uploaderDeleted''),
     (''at least one GPG key server is required'', ''settings.gpgAtLeastOne''),
     (''at most 8 GPG key servers are allowed'', ''settings.gpgAtMostEight''),
     (''at most 16 global proxies are allowed'', ''settings.proxyAtMostSixteen''),
     (''global proxy configuration is too long'', ''settings.proxyInvalidConfig''),
     (''global proxy credentials must use the username and password fields'', ''settings.proxyInvalidUrl''),
     (''global proxy name is invalid'', ''settings.proxyInvalidConfig''),
     (''global proxy name is required'', ''settings.proxyNameRequired''),
     (''global proxy names must be unique'', ''settings.proxyNamesUnique''),
     (''global proxy URL is invalid'', ''settings.proxyInvalidUrl''),
     (''global proxy URL must not contain a path, query, or fragment'', ''settings.proxyInvalidUrl''),
     (''global proxy URL must use http, https, or socks5'', ''settings.proxyInvalidUrl''),
     (''invalid GPG key server URL'', ''settings.gpgInvalidServer''),
     (''selected global proxy does not exist'', ''settings.proxySelectedMissing''),
     (''SOCKS5 global proxy URL must include a port'', ''settings.proxyInvalidUrl''),
     (''storage path cannot be changed while GPG publications are pending'', ''settings.gpgPendingStorageChange''),
     (''Background image exceeds 5 MiB'', ''error.bgExceedsSize''),
     (''Background URL must be a valid WebP image'', ''error.bgMustBeWebp''),
     (''Bad path'', ''error.badPath''),
     (''Bad request'', ''error.badRequest''),
     (''Bad Request'', ''error.badRequest''),
     (''Cancel'', ''confirm.cancelBtn''),
     (''Cannot delete current account'', ''error.cannotDeleteCurrentAccount''),
     (''Click to copy'', ''prompt.clickToCopy''),
     (''Close mirrors'', ''details.closeMirrors''),
     (''Close modal'', ''modal.close''),
     (''Confirm'', ''confirm.confirmBtn''),
     (''Confirm Action'', ''confirm.title''),
     (''Conflict'', ''error.conflict''),
     (''Copied to clipboard!'', ''prompt.copied''),
     (''Could not resolve host'', ''error.couldNotResolveHost''),
     (''Database DSN must not be empty'', ''error.dbDsnEmpty''),
     (''Debug mode is not active (enable server.debug_mode and restart)'', ''error.debugModeInactive''),
     (''Error'', ''common.error''),
     (''Error generating token'', ''profile.genTokenError''),
     (''Error loading FIDO devices'', ''error.fidoLoadFailed''),
     (''Error updating password'', ''profile.updatePasswordError''),
     (''Executable binary does not match current system or architecture'', ''error.incompatibleBinary''),
     (''Failed to access background URL or returned non-success status'', ''error.failedAccessBackgroundUrl''),
     (''Failed to begin FIDO login'', ''error.fidoBeginLoginFailed''),
     (''Failed to begin registration'', ''error.fidoBeginRegFailed''),
     (''Failed to create session'', ''error.failedCreateSession''),
     (''Failed to delete FIDO device'', ''error.fidoDeleteFailed''),
     (''Failed to delete file.'', ''browser.failedDelete''),
     (''Failed to delete repository'', ''repos.failedDelete''),
     (''Failed to delete token'', ''users.failedDeleteToken''),
     (''Failed to generate token'', ''profile.genTokenFailed''),
     (''Failed to load policy.'', ''privacy.failedLoad''),
     (''Failed to parse assertion response'', ''error.fidoParseAssertionFailed''),
     (''Failed to parse creation response'', ''error.fidoParseCreationFailed''),
     (''Failed to read chunk'', ''error.readChunk''),
     (''Failed to revoke session'', ''sessions.revokeFailed''),
     (''Failed to revoke sessions'', ''sessions.revokeOthersFailed''),
     (''Failed to save FIDO device'', ''error.failedSaveFidoDevice''),
     (''Failed to save token'', ''error.failedSaveToken''),
     (''Failed to save user'', ''users.failedSaveUser''),
     (''Failed to update FIDO device'', ''error.failedUpdateFidoDevice''),
     (''Failed to update password'', ''profile.updatePasswordFailed''),
     (''Failed to update token'', ''error.failedUpdateToken''),
     (''FIDO authentication failed'', ''error.fidoAuthFailed''),
     (''FIDO credential not found'', ''error.fidoCredNotFound''),
     (''File not found on S3'', ''error.notFound''),
     (''Forbidden'', ''error.forbidden''),
     (''Input Required'', ''prompt.title''),
     (''Installation already in progress'', ''error.installInProgress''),
     (''Insufficient disk space'', ''error.insufficientStorage''),
     (''Insufficient disk space to download update package'', ''updater.insufficientDiskSpace''),
     (''Insufficient disk space to generate POM'', ''error.insufficientStorage''),
     (''Insufficient disk space to upload file'', ''error.insufficientStorage''),
     (''Insufficient disk space to upload update package'', ''updater.insufficientDiskSpace''),
     (''Insufficient storage'', ''error.insufficientStorage''),
     (''Internal Server Error'', ''error.internalServerError''),
     (''Invalid channel'', ''error.invalidChannel''),
     (''Invalid credential payload'', ''error.invalidCredentialPayload''),
     (''Invalid credentials'', ''login.invalidCreds''),
     (''Invalid database driver'', ''error.invalidDbDriver''),
     (''Invalid domain'', ''error.invalidDomain''),
     (''Invalid domain.'', ''error.invalidDomain''),
     (''Invalid FIDO credential'', ''error.invalidFidoCred''),
     (''Invalid mode'', ''error.invalidMode''),
     ((''Invalid mode. Expected '' @ [CHR 0x27] @ ''full'' @ [CHR 0x27] @ '' or '' @ [CHR 0x27] @ ''diff'' @ [CHR 0x27]), ''error.invalidRebuildMode''),
     (''Invalid or expired login session'', ''error.invalidOrExpiredLoginSession''),
     (''Invalid or expired session'', ''error.invalidOrExpiredSession''),
     (''Invalid repository name'', ''error.invalidRepoName''),
     (''Invalid S3 key prefix'', ''error.invalidS3KeyPrefix''),
     (''Invalid URL'', ''error.invalidUrl''),
     (''Invalid URL host'', ''error.invalidUrlHost''),
     (''Invalid visibility. Expected PUBLIC, HIDDEN, or PRIVATE'', ''error.invalidVisibility''),
     (''Is a dir'', ''error.isDirectory''),
     (''Javadocs preview is not enabled on this RenoP instance.'', ''error.javadocsPreviewDisabled''),
     (''Max active requests must be positive'', ''error.maxActiveRequestsPositive''),
     (''Max Javadocs size limit must be positive'', ''error.maxJavadocSizePositive''),
     (''Method not allowed'', ''error.methodNotAllowed''),
     (''No update package file uploaded'', ''error.noUpdatePackageUploaded''),
     (''No update ready to install'', ''error.noUpdateReady''),
     (''Not found'', ''error.notFound''),
     (''Not Found'', ''error.notFound''),
     (''OK'', ''common.ok''),
     (''Password must be between 6 and 72 bytes'', ''error.passwordLength''),
     (''Port must be between 1 and 65535'', ''error.invalidPort''),
     (''profile not found'', ''error.notFound''),
     (''Registration failed'', ''error.fidoRegFailed''),
     (''Repository not found'', ''error.notFound''),
     (''Request Entity Too Large'', ''error.requestEntityTooLarge''),
     (''Service Unavailable'', ''error.serviceUnavailable''),
     (''Session not found'', ''error.sessionNotFound''),
     (''Storage path must not be empty'', ''error.storagePathEmpty''),
     (''Target executable not found in update package'', ''error.targetExeNotFound''),
     (''Task submission failed'', ''error.taskFailed''),
     (''This is an invalid domain'', ''error.invalidDomain''),
     (''This is an invalid domain.'', ''error.invalidDomain''),
     (''Token name already exists'', ''error.tokenExists''),
     (''Too Many Requests'', ''error.tooManyRequests''),
     (''Unauthorized'', ''error.unauthorized''),
     (''Uploaded file must be a .zip package'', ''error.mustBeZipPackage''),
     (''Uploaded file must be a .br or .zip package'', ''error.mustBeZipPackage''),
     (''URL must be http or https'', ''error.urlMustBeHttpOrHttps''),
     (''URL must not contain credentials'', ''error.urlNoCredentials''),
     (''URL points to an internal or private IP'', ''error.urlInternalIp''),
     (''Users cannot clear their own activity logs'', ''error.cannotClearOwnAuditLogs''),
     (''WebAuthn initialization failed'', ''error.webauthnInitFailed'')]"

text \<open>The fields of a JSON error payload that are strings; \<^term>\<open>None\<close> for a payload that does not parse.\<close>

record error_payload =
  ep_error :: "string option"
  ep_message :: "string option"

definition strip_punctuation :: "string \<Rightarrow> string" where
  "strip_punctuation s = trim (rev (dropWhile (\<lambda>c. c = CHR ''.'' \<or> c = CHR '':'') (rev s)))"

definition payload_text :: "error_payload \<Rightarrow> string \<Rightarrow> string" where
  "payload_text p s =
     (if opt_or (ep_error p) [] \<noteq> [] then trim (opt_or (ep_error p) [])
      else if opt_or (ep_message p) [] \<noteq> [] then trim (opt_or (ep_message p) [])
      else s)"

definition is_json_object :: "string \<Rightarrow> bool" where
  "is_json_object s = (startsWith s ''{'' \<and> endsWith s ''}'')"

fun translate_candidates :: "dictionaries \<Rightarrow> string list \<Rightarrow> js_value" where
  "translate_candidates d [] = Text []"
| "translate_candidates d (c # cs) =
     (let mapped = obj_get ERROR_KEY_MAP c; direct = tr d c []
      in if truthy mapped then translateKey d mapped []
         else if direct \<noteq> Text c then direct
         else translate_candidates d cs)"

definition known_candidates :: "string \<Rightarrow> string list" where
  "known_candidates s = (if s = strip_punctuation s then [s] else [s, strip_punctuation s])"

definition translateKnownError :: "(string \<Rightarrow> error_payload option) \<Rightarrow> dictionaries \<Rightarrow> string \<Rightarrow> js_value" where
  "translateKnownError parse d errorText =
     (let s = trim errorText
      in if errorText = [] then Text []
         else if is_json_object s
         then (case parse s of None \<Rightarrow> Text [] | Some p \<Rightarrow> translate_candidates d (known_candidates (payload_text p s)))
         else translate_candidates d (known_candidates s))"

definition tryTranslateSingle :: "dictionaries \<Rightarrow> string \<Rightarrow> js_value" where
  "tryTranslateSingle d s =
     (if s = [] then Text s
      else let clean = trim s; stripped = strip_punctuation clean
           in if truthy (obj_get ERROR_KEY_MAP clean) then translateKey d (obj_get ERROR_KEY_MAP clean) []
              else if truthy (obj_get ERROR_KEY_MAP stripped) then translateKey d (obj_get ERROR_KEY_MAP stripped) []
              else if tr d clean [] \<noteq> Text clean then tr d clean []
              else if tr d stripped [] \<noteq> Text stripped then tr d stripped []
              else Text clean)"

text \<open>\<^verbatim>\<open>s.split(': ')\<close>: the part before the first separator and the rest joined again.\<close>

fun split_prefix :: "string \<Rightarrow> (string \<times> string) option" where
  "split_prefix [] = None"
| "split_prefix (c # cs) =
     (if prefix '': '' (c # cs) then Some ([], tl cs)
      else map_option (\<lambda>(p, r). (c # p, r)) (split_prefix cs))"

definition translateError :: "(string \<Rightarrow> error_payload option) \<Rightarrow> dictionaries \<Rightarrow> string \<Rightarrow> js_value" where
  "translateError parse d errorText =
     (if errorText = [] then Text errorText
      else let s = trim errorText;
               trimmed = (if is_json_object s then (case parse s of None \<Rightarrow> s | Some p \<Rightarrow> payload_text p s) else s);
               directRes = tryTranslateSingle d trimmed
           in if directRes \<noteq> Text trimmed \<and> directRes \<noteq> Text (strip_punctuation trimmed) then directRes
              else case split_prefix trimmed of
                  None \<Rightarrow> directRes
                | Some (p, r) \<Rightarrow>
                    let tp = tryTranslateSingle d (trim p); rr = tryTranslateSingle d (trim r)
                    in if tp \<noteq> Text (trim p) \<or> rr \<noteq> Text (trim r)
                       then Text (value_string tp @ '': '' @ value_string rr)
                       else directRes)"

section \<open>Facts\<close>

lemma expand_replacement_plain: "CHR ''$'' \<notin> set rep \<Longrightarrow> expand_replacement m b a rep = rep"
  by (induction m b a rep rule: expand_replacement.induct) auto

lemma replace_pattern_plain: "CHR ''$'' \<notin> set rep \<Longrightarrow> replace_pattern pat rep before s = replace_all pat rep s"
proof (induction pat rep before s rule: replace_pattern.induct)
  case (2 pat rep before c cs)
  then show ?case
    by (cases "pat = []") (simp_all add: replace_pattern.simps(2) [of _ rep before] replace_all.simps(2) [of _ rep] expand_replacement_plain)
qed (simp add: replace_pattern.simps)

text \<open>For values without dollar signs interpolation is plain replacement, one parameter after the other.\<close>

lemma interpolate_plain:
  "\<forall>(k, v)\<in>set params. CHR ''$'' \<notin> set v \<Longrightarrow>
     interpolate_text params s = foldl (\<lambda>out (k, v). replace_all (placeholder k) v out) s params"
  unfolding interpolate_text_def
  by (induction params arbitrary: s) (auto simp: replace_pattern_plain)

lemma first_match_in: "first_match P xs = Some x \<Longrightarrow> x \<in> set xs \<and> P x"
  unfolding first_match_def by (induction xs) (auto split: if_splits)

lemma matchLocaleKey_in: "matchLocaleKey lang keys = Some k \<Longrightarrow> k \<in> set keys"
  by (auto simp: matchLocaleKey_def Let_def match_chinese_def match_base_def dest!: first_match_in split: option.splits if_splits)

lemma alias_targets: "list_all (\<lambda>(k, v). v \<in> set getAvailableLanguages) languageAliases"
  by code_simp

lemma resolveLanguage_available: "resolveLanguage lang = Some l \<Longrightarrow> l \<in> set getAvailableLanguages"
  using alias_targets by (auto simp: resolveLanguage_def list_all_iff split: option.splits dest!: map_of_SomeD)

lemma lower_aliases:
  "toLowerCase ''en-US'' = ''en-us''"
  "toLowerCase ''en'' = ''en''"
  "toLowerCase ''zh-CN'' = ''zh-cn''"
  "toLowerCase ''zh-cn'' = ''zh-cn''"
  "toLowerCase ''zh-Hans'' = ''zh-hans''"
  "toLowerCase ''zh-hans'' = ''zh-hans''"
  "toLowerCase ''zh'' = ''zh''"
  "toLowerCase ''zh-HK'' = ''zh-hk''"
  "toLowerCase ''zh-hk'' = ''zh-hk''"
  "toLowerCase ''zh-Hant-HK'' = ''zh-hant-hk''"
  "toLowerCase ''zh-hant-hk'' = ''zh-hant-hk''"
  "toLowerCase ''zh-TW'' = ''zh-tw''"
  "toLowerCase ''zh-tw'' = ''zh-tw''"
  "toLowerCase ''zh-Hant'' = ''zh-hant''"
  "toLowerCase ''zh-hant'' = ''zh-hant''"
  "toLowerCase ''zh-Hant-TW'' = ''zh-hant-tw''"
  "toLowerCase ''zh-hant-tw'' = ''zh-hant-tw''"
  "toLowerCase ''zh-YUE'' = ''zh-yue''"
  "toLowerCase ''zh-yue'' = ''zh-yue''"
  "toLowerCase ''yue'' = ''yue''"
  "toLowerCase ''yue-HK'' = ''yue-hk''"
  "toLowerCase ''yue-hk'' = ''yue-hk''"
  "toLowerCase ''zh-Hant-HK-yue'' = ''zh-hant-hk-yue''"
  "toLowerCase ''ko-KR'' = ''ko-kr''"
  "toLowerCase ''ko-kr'' = ''ko-kr''"
  "toLowerCase ''ko'' = ''ko''"
  "toLowerCase ''ja-JP'' = ''ja-jp''"
  "toLowerCase ''ja'' = ''ja''"
  "toLowerCase ''de-DE'' = ''de-de''"
  "toLowerCase ''de'' = ''de''"
  "toLowerCase ''fr-FR'' = ''fr-fr''"
  "toLowerCase ''fr'' = ''fr''"
  "toLowerCase ''ru-RU'' = ''ru-ru''"
  "toLowerCase ''ru-ru'' = ''ru-ru''"
  "toLowerCase ''ru'' = ''ru''"
  "toLowerCase ''es-ES'' = ''es-es''"
  "toLowerCase ''es-es'' = ''es-es''"
  "toLowerCase ''es'' = ''es''"
  "toLowerCase ''pt-PT'' = ''pt-pt''"
  "toLowerCase ''pt-pt'' = ''pt-pt''"
  "toLowerCase ''pt-BR'' = ''pt-br''"
  "toLowerCase ''pt-br'' = ''pt-br''"
  "toLowerCase ''pt'' = ''pt''"
  by code_simp+

lemma trim_available:
  "trim ''zh-CN'' = ''zh-CN''"
  "trim ''zh-HK'' = ''zh-HK''"
  "trim ''zh-TW'' = ''zh-TW''"
  "trim ''zh-YUE'' = ''zh-YUE''"
  "trim ''ko-KR'' = ''ko-KR''"
  "trim ''en-US'' = ''en-US''"
  "trim ''ja-JP'' = ''ja-JP''"
  "trim ''de-DE'' = ''de-DE''"
  "trim ''fr-FR'' = ''fr-FR''"
  "trim ''ru-RU'' = ''ru-RU''"
  "trim ''es-ES'' = ''es-ES''"
  "trim ''pt-PT'' = ''pt-PT''"
  by code_simp+

lemma available_resolve: "list_all (\<lambda>l. resolveLanguage (Some l) = Some l) getAvailableLanguages"
  by (simp add: getAvailableLanguages_def resolveLanguage_def matchLocaleKey_def languageAliases_def Let_def first_match_def
      trim_available lower_aliases)

lemma available_nonempty: "l \<in> set getAvailableLanguages \<Longrightarrow> l \<noteq> []"
  by (auto simp: getAvailableLanguages_def)

lemma default_available: "DEFAULT_LANG \<in> set getAvailableLanguages"
  by (simp add: DEFAULT_LANG_def getAvailableLanguages_def)

lemma first_resolved_in: "first_resolved resolve bs = Some l \<Longrightarrow> \<exists>b. resolve b = Some l"
  by (induction resolve bs rule: first_resolved.induct) (auto simp: non_empty_def split: if_splits option.splits)

lemma detectLanguage_available: "fst (detectLanguage resolveLanguage saved langs single DEFAULT_LANG) \<in> set getAvailableLanguages"
  by (auto simp: detectLanguage_def default_available non_empty_def dest!: first_resolved_in split: option.splits if_splits
      intro: resolveLanguage_available)

text \<open>What a translation can be: the text of a message, or the key itself.\<close>

lemma truthy_Builtin_or_Text: "truthy v \<Longrightarrow> (\<exists>s. v = Text s \<and> s \<noteq> []) \<or> (\<exists>n. v = Builtin n)"
  by (cases v) auto

lemma obj_get_Text: "obj_get tab k = Text s \<longleftrightarrow> map_of tab k = Some s"
  by (auto simp: obj_get_def split: option.splits)

lemma obj_get_Builtin: "obj_get tab k = Builtin n \<longleftrightarrow> map_of tab k = None \<and> n = k \<and> k \<in> set object_members"
  by (auto simp: obj_get_def split: option.splits)

lemma interpolate_none [simp]: "interpolateMessage v [] = v"
  by (cases v) (auto simp: interpolate_text_def)

end
