(* ===== verification/Language_State.thy ===== *)
theory Language_State
  imports Translation Event_Machine
begin

text \<open>
  The stateful part of \<^verbatim>\<open>js/i18n.js\<close>: loading and switching the language (\<^verbatim>\<open>initI18n\<close>,
  \<^verbatim>\<open>setLanguage\<close>), and the queue of document roots that wait for translation.

  A call of \<^verbatim>\<open>setLanguage\<close> that waits for its catalog is a task; the outcome of \<^verbatim>\<open>loadLocale\<close> and the abort
  flag its continuation reads are chosen by events. A document node is named by its path from the document body, so
  \<^verbatim>\<open>contains\<close> is the prefix order.
\<close>

section \<open>Switching the language\<close>

record lang_task =
  lt_id :: nat
  lt_resolved :: string
  lt_source :: language_source
  lt_fetches :: bool

record i18n_state =
  is_current :: string
  is_source :: language_source
  is_storage :: "string option"
  is_loaded :: "string list"
  is_request :: nat
  is_loading :: bool
  is_tasks :: "lang_task option list"
  is_dispatched :: "(string \<times> language_source) list"
  is_returned :: "(nat \<times> string) list"

text \<open>\<^verbatim>\<open>ensureLanguage\<close> fetches a catalog only once it is not there.\<close>

definition needs_fetch :: "i18n_state \<Rightarrow> string \<Rightarrow> bool" where
  "needs_fetch s lang = (lang \<notin> set (is_loaded s))"

definition setLanguage :: "string option \<Rightarrow> language_source \<Rightarrow> i18n_state \<Rightarrow> i18n_state" where
  "setLanguage lang source s =
     (let (resolved, src) = (case resolveLanguage lang of Some l \<Rightarrow> (l, source) | None \<Rightarrow> (DEFAULT_LANG, FromFallback))
      in s\<lparr>is_request := is_request s + 1, is_loading := True,
           is_tasks := is_tasks s @ [Some \<lparr>lt_id = is_request s + 1, lt_resolved = resolved, lt_source = src,
             lt_fetches = needs_fetch s resolved\<rparr>]\<rparr>)"

definition end_call :: "nat \<Rightarrow> lang_task \<Rightarrow> string \<Rightarrow> i18n_state \<Rightarrow> i18n_state" where
  "end_call i tk r s = s\<lparr>is_tasks := (is_tasks s)[i := None], is_returned := (lt_id tk, r) # is_returned s,
     is_loading := (if lt_id tk = is_request s then False else is_loading s)\<rparr>"

definition activate :: "string \<Rightarrow> language_source \<Rightarrow> i18n_state \<Rightarrow> i18n_state" where
  "activate resolved source s = s\<lparr>is_current := resolved, is_source := source, is_storage := Some resolved,
     is_dispatched := (resolved, source) # is_dispatched s\<rparr>"

definition catalog_settled :: "nat \<Rightarrow> lang_task \<Rightarrow> bool \<Rightarrow> bool \<Rightarrow> i18n_state \<Rightarrow> i18n_state" where
  "catalog_settled i tk loaded aborted s =
     (let s1 = (if loaded \<and> lt_fetches tk then s\<lparr>is_loaded := lt_resolved tk # is_loaded s\<rparr> else s);
          (resolved, source) = (if loaded then (lt_resolved tk, lt_source tk) else (DEFAULT_LANG, FromFallback))
      in if lt_id tk \<noteq> is_request s1 \<or> aborted then end_call i tk (is_current s1) s1
         else end_call i tk resolved (activate resolved source s1))"

datatype i18n_event = LanguageChosen "string option" language_source | CatalogSettled nat bool bool

fun i18n_step :: "i18n_state \<Rightarrow> i18n_event \<Rightarrow> i18n_state option" where
  "i18n_step s (LanguageChosen lang source) = Some (setLanguage lang source s)"
| "i18n_step s (CatalogSettled i loaded aborted) =
     (if i < length (is_tasks s) then
        (case is_tasks s ! i of
           None \<Rightarrow> None
         | Some tk \<Rightarrow> if loaded \<or> lt_fetches tk then Some (catalog_settled i tk loaded aborted s) else None)
      else None)"

text \<open>\<^verbatim>\<open>initI18n\<close>, once the catalog of the detected language was fetched (\<open>loaded\<close>) or not.\<close>

definition initI18n :: "string option \<Rightarrow> string option list \<Rightarrow> string option \<Rightarrow> bool \<Rightarrow> i18n_state" where
  "initI18n saved langs single loaded =
     (let (lang, source) = detectLanguage resolveLanguage saved langs single DEFAULT_LANG;
          s = \<lparr>is_current = lang, is_source = source, is_storage = saved, is_loaded = [DEFAULT_LANG], is_request = 0,
               is_loading = False, is_tasks = [], is_dispatched = [], is_returned = []\<rparr>
      in if \<not> needs_fetch s lang then s
         else if loaded then s\<lparr>is_loaded := [lang, DEFAULT_LANG]\<rparr>
         else s\<lparr>is_current := DEFAULT_LANG, is_source := FromFallback\<rparr>)"

definition task_ok :: "i18n_state \<Rightarrow> lang_task \<Rightarrow> bool" where
  "task_ok s tk = (lt_id tk \<le> is_request s \<and> lt_resolved tk \<in> set getAvailableLanguages
     \<and> (lt_fetches tk \<or> lt_resolved tk \<in> set (is_loaded s)))"

definition i18n_inv :: "i18n_state \<Rightarrow> bool" where
  "i18n_inv s \<longleftrightarrow> is_current s \<in> set (is_loaded s) \<and> DEFAULT_LANG \<in> set (is_loaded s)
     \<and> set (is_loaded s) \<subseteq> set getAvailableLanguages
     \<and> (\<forall>tk. Some tk \<in> set (is_tasks s) \<longrightarrow> task_ok s tk)
     \<and> unique_tasks lt_id (is_tasks s)
     \<and> (is_loading s \<longleftrightarrow> (\<exists>tk. Some tk \<in> set (is_tasks s) \<and> lt_id tk = is_request s))
     \<and> (is_dispatched s \<noteq> [] \<longrightarrow> hd (is_dispatched s) = (is_current s, is_source s) \<and> is_storage s = Some (is_current s))"

lemma setLanguage_inv: "i18n_inv s \<Longrightarrow> i18n_inv (setLanguage lang source s)"
proof -
  assume inv: "i18n_inv s"
  obtain l src where r: "(case resolveLanguage lang of Some l \<Rightarrow> (l, source) | None \<Rightarrow> (DEFAULT_LANG, FromFallback)) = (l, src)"
    by (metis surj_pair)
  then have "l \<in> set getAvailableLanguages"
    by (auto split: option.splits intro: resolveLanguage_available default_available)
  moreover have "lt_id a \<noteq> is_request s + 1" if "Some a \<in> set (is_tasks s)" for a
    using inv that by (auto simp: i18n_inv_def task_ok_def)
  ultimately show ?thesis
    using inv by (auto simp: i18n_inv_def setLanguage_def r task_ok_def needs_fetch_def intro!: unique_tasks_start)
qed

lemma end_call_inv:
  assumes inv: "i18n_inv s" and i: "i < length (is_tasks s)" "is_tasks s ! i = Some tk"
  shows "i18n_inv (end_call i tk r s)"
proof -
  have u: "unique_tasks lt_id (is_tasks s)" using inv by (simp add: i18n_inv_def)
  note gone = ended_task [OF u i]
  have "is_loading (end_call i tk r s) \<longleftrightarrow>
      (\<exists>a. Some a \<in> set (is_tasks (end_call i tk r s)) \<and> lt_id a = is_request (end_call i tk r s))"
    using inv i gone by (auto simp: i18n_inv_def end_call_def)
  then show ?thesis
    using inv gone unique_tasks_end [OF u, of i] by (auto simp: i18n_inv_def end_call_def task_ok_def)
qed

lemma activate_inv:
  "i18n_inv s \<Longrightarrow> l \<in> set (is_loaded s) \<Longrightarrow> i18n_inv (activate l src s)"
  by (auto simp: i18n_inv_def activate_def task_ok_def)

lemma loaded_inv: "i18n_inv s \<Longrightarrow> l \<in> set getAvailableLanguages \<Longrightarrow> i18n_inv (s\<lparr>is_loaded := l # is_loaded s\<rparr>)"
  by (auto simp: i18n_inv_def task_ok_def)

lemma catalog_settled_inv:
  assumes inv: "i18n_inv s" and i: "i < length (is_tasks s)" "is_tasks s ! i = Some tk"
  shows "i18n_inv (catalog_settled i tk loaded aborted s)"
proof -
  have "task_ok s tk" using inv i by (metis i18n_inv_def nth_mem)
  then have av: "lt_resolved tk \<in> set getAvailableLanguages" "lt_fetches tk \<or> lt_resolved tk \<in> set (is_loaded s)"
    by (auto simp: task_ok_def)
  define s1 where "s1 = (if loaded \<and> lt_fetches tk then s\<lparr>is_loaded := lt_resolved tk # is_loaded s\<rparr> else s)"
  have "i18n_inv s1" using inv av loaded_inv by (simp add: s1_def)
  then have s1: "i18n_inv s1" "is_tasks s1 = is_tasks s" "loaded \<longrightarrow> lt_resolved tk \<in> set (is_loaded s1)" "DEFAULT_LANG \<in> set (is_loaded s1)"
    using av by (auto simp: s1_def i18n_inv_def)
  have act: "i18n_inv (activate l src s1)" "is_tasks (activate l src s1) = is_tasks s" if "l \<in> set (is_loaded s1)" for l src
    using s1 that activate_inv by (auto simp: activate_def)
  show ?thesis
    using s1 act i unfolding catalog_settled_def s1_def [symmetric] Let_def
    by (auto intro!: end_call_inv split: if_splits)
qed

lemma i18n_step_inv: "i18n_inv s \<Longrightarrow> i18n_step s e = Some u \<Longrightarrow> i18n_inv u"
  by (cases e) (auto intro: setLanguage_inv catalog_settled_inv split: if_splits option.splits)

interpretation language: machine_invariant i18n_step i18n_inv
  by unfold_locales (rule i18n_step_inv)

lemma initI18n_inv: "i18n_inv (initI18n saved langs single loaded)"
proof -
  obtain l src where d: "detectLanguage resolveLanguage saved langs single DEFAULT_LANG = (l, src)" by (metis surj_pair)
  then have "l \<in> set getAvailableLanguages" using detectLanguage_available [of saved langs single] by simp
  then show ?thesis
    by (auto simp: initI18n_def d Let_def i18n_inv_def needs_fetch_def unique_tasks_def default_available)
qed

section \<open>The translation queue\<close>

type_synonym node = "nat list"

definition contains :: "node \<Rightarrow> node \<Rightarrow> bool" where
  "contains a b = prefix a b"

record translation_queue =
  tq_pending :: "node list"
  tq_scheduled :: bool

text \<open>The loop over the pending roots: it stops at a root that contains the node, and deletes those the node contains.\<close>

fun scan_roots :: "node \<Rightarrow> node list \<Rightarrow> node list \<times> bool" where
  "scan_roots n [] = ([], False)"
| "scan_roots n (r # rs) =
     (if contains r n then (r # rs, True)
      else let (rest, hit) = scan_roots n rs in (if contains n r then rest else r # rest, hit))"

definition queueTranslationRoot :: "node \<Rightarrow> translation_queue \<Rightarrow> translation_queue" where
  "queueTranslationRoot n q =
     (let (rest, hit) = scan_roots n (tq_pending q)
      in if hit then q\<lparr>tq_pending := rest\<rparr> else q\<lparr>tq_pending := rest @ [n], tq_scheduled := True\<rparr>)"

datatype binding_target = TextTarget | PlaceholderTarget | TitleTarget | AriaLabelTarget

definition translationBindings :: "binding_target list" where
  "translationBindings = [TextTarget, PlaceholderTarget, TitleTarget, AriaLabelTarget]"

record bound_element =
  be_key :: "binding_target \<Rightarrow> string option"
  be_shown :: "binding_target \<Rightarrow> string option"

definition translate_binding :: "dictionaries \<Rightarrow> binding_target \<Rightarrow> bound_element \<Rightarrow> bound_element" where
  "translate_binding d b el =
     (case non_empty (be_key el b) of
        None \<Rightarrow> el
      | Some key \<Rightarrow>
          let translation = tr d key []
          in if translation = Text key then el
             else if be_shown el b \<noteq> Some (value_string translation)
             then el\<lparr>be_shown := (be_shown el)(b := Some (value_string translation))\<rparr> else el)"

definition translateBoundElement :: "dictionaries \<Rightarrow> bound_element \<Rightarrow> bound_element" where
  "translateBoundElement d el = foldl (\<lambda>e b. translate_binding d b e) el translationBindings"

type_synonym page = "(node \<times> bound_element) list"

definition translateSubtree :: "dictionaries \<Rightarrow> node \<Rightarrow> page \<Rightarrow> page" where
  "translateSubtree d root pg = map (\<lambda>(n, el). (n, if contains root n then translateBoundElement d el else el)) pg"

definition flush_roots :: "dictionaries \<Rightarrow> translation_queue \<times> page \<Rightarrow> translation_queue \<times> page" where
  "flush_roots d qp = (\<lparr>tq_pending = [], tq_scheduled = False\<rparr>, foldl (\<lambda>pg r. translateSubtree d r pg) (snd qp) (tq_pending (fst qp)))"

definition updatePageTranslations :: "dictionaries \<Rightarrow> page \<Rightarrow> page" where
  "updatePageTranslations d pg = translateSubtree d [] pg"

definition antichain :: "node list \<Rightarrow> bool" where
  "antichain rs = (distinct rs \<and> (\<forall>a\<in>set rs. \<forall>b\<in>set rs. contains a b \<longrightarrow> a = b))"

lemma scan_roots_hit: "snd (scan_roots n rs) \<longleftrightarrow> (\<exists>r\<in>set rs. contains r n)"
  by (induction n rs rule: scan_roots.induct) (auto simp: Let_def split: prod.splits)

lemma scan_roots_miss: "\<not> snd (scan_roots n rs) \<Longrightarrow> fst (scan_roots n rs) = filter (\<lambda>r. \<not> contains n r) rs"
  by (induction n rs rule: scan_roots.induct) (auto simp: Let_def split: prod.splits)

text \<open>With no root inside another, the loop that stops early has deleted nothing.\<close>

lemma scan_roots_keeps: "antichain rs \<Longrightarrow> snd (scan_roots n rs) \<Longrightarrow> fst (scan_roots n rs) = rs"
proof (induction n rs rule: scan_roots.induct)
  case (2 n r rs)
  show ?case
  proof (cases "contains r n")
    case False
    from 2(3) have "\<exists>q\<in>set (r # rs). contains q n" by (simp only: scan_roots_hit)
    with False obtain q where q: "q \<in> set rs" "contains q n" by auto
    have "\<not> contains n r"
    proof
      assume "contains n r"
      with q have "contains q r" by (simp add: contains_def)
      with q 2(2) have "q = r" by (auto simp: antichain_def)
      with q 2(2) show False by (auto simp: antichain_def)
    qed
    with False 2 show ?thesis by (auto simp: antichain_def Let_def split: prod.splits)
  qed simp
qed simp

definition queue_ok :: "node list \<Rightarrow> translation_queue \<Rightarrow> bool" where
  "queue_ok ns q \<longleftrightarrow> antichain (tq_pending q) \<and> (tq_scheduled q \<longleftrightarrow> tq_pending q \<noteq> [])
     \<and> set (tq_pending q) \<subseteq> set ns \<and> (\<forall>n\<in>set ns. \<exists>r\<in>set (tq_pending q). contains r n)"

lemma queueTranslationRoot_ok: "queue_ok ns q \<Longrightarrow> queue_ok (ns @ [n]) (queueTranslationRoot n q)"
proof (cases "snd (scan_roots n (tq_pending q))")
  case True
  assume ok: "queue_ok ns q"
  then have "queueTranslationRoot n q = q"
    using scan_roots_keeps [OF _ True] True by (cases q; cases "scan_roots n (tq_pending q)") (auto simp: queue_ok_def queueTranslationRoot_def)
  with ok True show ?thesis by (auto simp: queue_ok_def scan_roots_hit)
next
  case False
  assume ok: "queue_ok ns q"
  let ?rest = "filter (\<lambda>r. \<not> contains n r) (tq_pending q)"
  have q: "queueTranslationRoot n q = q\<lparr>tq_pending := ?rest @ [n], tq_scheduled := True\<rparr>"
    using scan_roots_miss [OF False] False by (cases "scan_roots n (tq_pending q)") (simp add: queueTranslationRoot_def)
  have out: "\<not> contains r n" if "r \<in> set (tq_pending q)" for r using that False by (auto simp: scan_roots_hit)
  have refl: "contains n n" by (simp add: contains_def)
  have "antichain (?rest @ [n])" using ok out by (auto simp: queue_ok_def antichain_def refl)
  moreover have "\<exists>r\<in>set (?rest @ [n]). contains r m" if m: "m \<in> set (ns @ [n])" for m
  proof (cases "m = n")
    case False
    with ok m obtain r where r: "r \<in> set (tq_pending q)" "contains r m" by (auto simp: queue_ok_def)
    show ?thesis
    proof (cases "contains n r")
      case True
      with r have "contains n m" by (auto simp: contains_def)
      then show ?thesis by simp
    qed (use r in auto)
  qed (simp add: refl)
  ultimately show ?thesis using ok q by (auto simp: queue_ok_def)
qed

lemma queue_all_ok: "queue_ok ns (foldl (\<lambda>q n. queueTranslationRoot n q) \<lparr>tq_pending = [], tq_scheduled = False\<rparr> ns)"
  by (induction ns rule: rev_induct) (auto simp: queueTranslationRoot_ok, simp add: queue_ok_def antichain_def)

lemma contains_comparable: "contains a n \<Longrightarrow> contains b n \<Longrightarrow> contains a b \<or> contains b a"
  unfolding contains_def by (rule prefix_same_cases) auto

lemma translate_roots:
  "antichain rs \<Longrightarrow> foldl (\<lambda>pg r. translateSubtree d r pg) pg rs
     = map (\<lambda>(n, el). (n, if \<exists>r\<in>set rs. contains r n then translateBoundElement d el else el)) pg"
proof (induction rs arbitrary: pg)
  case (Cons r rs)
  have "\<not> (\<exists>q\<in>set rs. contains q n)" if "contains r n" for n
    using Cons.prems contains_comparable [OF that] by (fastforce simp: antichain_def)
  moreover have "antichain rs" using Cons.prems by (simp add: antichain_def)
  ultimately show ?case using Cons.IH [of "translateSubtree d r pg"] by (auto simp: translateSubtree_def)
qed (auto simp: split_beta)

lemma translate_binding_other: "b \<noteq> c \<Longrightarrow> be_shown (translate_binding d b el) c = be_shown el c"
  by (auto simp: translate_binding_def Let_def split: option.splits)

lemma translate_binding_key: "be_key (translate_binding d b el) = be_key el"
  by (auto simp: translate_binding_def Let_def split: option.splits)

lemma translate_binding_shown:
  "be_shown (translate_binding d b el) b =
     (case non_empty (be_key el b) of
        None \<Rightarrow> be_shown el b
      | Some key \<Rightarrow> if tr d key [] = Text key then be_shown el b else Some (value_string (tr d key [])))"
  by (auto simp: translate_binding_def Let_def split: option.splits)

lemma translateBoundElement_shown:
  "be_shown (translateBoundElement d el) b = be_shown (translate_binding d b el) b"
  by (cases b) (auto simp: translateBoundElement_def translationBindings_def translate_binding_shown translate_binding_key
      translate_binding_other [of TextTarget] translate_binding_other [of PlaceholderTarget] translate_binding_other [of TitleTarget]
      translate_binding_other [of AriaLabelTarget] split: option.splits)

section \<open>Properties\<close>

text \<open>
  C22: coalescing the queued roots loses and adds nothing. After any sequence of queued nodes, the pending roots are
  pairwise outside each other and a flush is scheduled exactly if there is one; the flush translates exactly the elements
  inside some queued node and leaves the others alone, and a translated element shows the message of each of its keys
  that has one.
\<close>

theorem translation_queue_complete:
  "let q = foldl (\<lambda>q n. queueTranslationRoot n q) \<lparr>tq_pending = [], tq_scheduled = False\<rparr> ns
   in antichain (tq_pending q) \<and> (tq_scheduled q \<longleftrightarrow> ns \<noteq> [])
    \<and> snd (flush_roots d (q, pg)) =
        map (\<lambda>(n, el). (n, if \<exists>m\<in>set ns. contains m n then translateBoundElement d el else el)) pg
    \<and> (\<forall>el b. be_shown (translateBoundElement d el) b =
         (case non_empty (be_key el b) of
            None \<Rightarrow> be_shown el b
          | Some key \<Rightarrow> if tr d key [] = Text key then be_shown el b else Some (value_string (tr d key []))))"
proof -
  define q where "q = foldl (\<lambda>q n. queueTranslationRoot n q) \<lparr>tq_pending = [], tq_scheduled = False\<rparr> ns"
  have ok: "queue_ok ns q" unfolding q_def by (rule queue_all_ok)
  have same: "(\<exists>r\<in>set (tq_pending q). contains r n) \<longleftrightarrow> (\<exists>m\<in>set ns. contains m n)" for n
    using ok unfolding queue_ok_def contains_def by (meson prefix_order.trans subsetD)
  have "snd (flush_roots d (q, pg)) =
        map (\<lambda>(n, el). (n, if \<exists>m\<in>set ns. contains m n then translateBoundElement d el else el)) pg"
    using ok translate_roots [of "tq_pending q" d pg] by (simp add: flush_roots_def queue_ok_def same)
  moreover have "tq_scheduled q \<longleftrightarrow> ns \<noteq> []" using ok by (cases ns) (auto simp: queue_ok_def)
  ultimately show ?thesis
    using ok unfolding q_def [symmetric] Let_def by (simp add: queue_ok_def translateBoundElement_shown translate_binding_shown)
qed

text \<open>
  C21: the newest choice decides the language. In every state that choices and catalog answers can lead to after
  the start, the current language is one of the available ones and its catalog is loaded, the picker shows progress exactly
  while the newest choice is unfinished, and what was stored and announced last is the current language. If a catalog
  answer is not that of the newest choice, or the choice was aborted, nothing is announced and the language stays; otherwise
  the language becomes the chosen one, or the default if the catalog could not be loaded. Choosing an available language
  asks for that language.
\<close>

theorem language_newest_wins:
  assumes "run_events i18n_step (initI18n saved langs single initially) es = Some s"
  shows "is_current s \<in> set getAvailableLanguages \<and> is_current s \<in> set (is_loaded s)
    \<and> (is_loading s \<longleftrightarrow> (\<exists>tk. Some tk \<in> set (is_tasks s) \<and> lt_id tk = is_request s))
    \<and> (is_dispatched s = [] \<or> hd (is_dispatched s) = (is_current s, is_source s) \<and> is_storage s = Some (is_current s))
    \<and> (\<forall>i loaded aborted u tk. i18n_step s (CatalogSettled i loaded aborted) = Some u \<and> is_tasks s ! i = Some tk \<longrightarrow>
         (if lt_id tk \<noteq> is_request s \<or> aborted
          then is_current u = is_current s \<and> is_storage u = is_storage s \<and> is_dispatched u = is_dispatched s
          else is_current u = (if loaded then lt_resolved tk else DEFAULT_LANG) \<and> \<not> is_loading u
            \<and> is_storage u = Some (is_current u) \<and> is_dispatched u = (is_current u, is_source u) # is_dispatched s))
    \<and> (\<forall>l source. l \<in> set getAvailableLanguages \<longrightarrow>
         (\<exists>tk. is_tasks (setLanguage (Some l) source s) = is_tasks s @ [Some tk] \<and> lt_resolved tk = l \<and> lt_source tk = source
            \<and> lt_id tk = is_request (setLanguage (Some l) source s)))"
proof -
  have inv: "i18n_inv s" by (rule language.run_inv [OF assms initI18n_inv])
  have "is_tasks (setLanguage (Some l) source s)
      = is_tasks s @ [Some \<lparr>lt_id = is_request s + 1, lt_resolved = l, lt_source = source, lt_fetches = needs_fetch s l\<rparr>]
      \<and> is_request (setLanguage (Some l) source s) = is_request s + 1"
    if "l \<in> set getAvailableLanguages" for l source
    using that available_resolve by (auto simp: setLanguage_def list_all_iff)
  then have choose: "\<exists>tk. is_tasks (setLanguage (Some l) source s) = is_tasks s @ [Some tk] \<and> lt_resolved tk = l \<and> lt_source tk = source
            \<and> lt_id tk = is_request (setLanguage (Some l) source s)" if "l \<in> set getAvailableLanguages" for l source
    using that by force
  have settle: "if lt_id tk \<noteq> is_request s \<or> aborted
          then is_current u = is_current s \<and> is_storage u = is_storage s \<and> is_dispatched u = is_dispatched s
          else is_current u = (if loaded then lt_resolved tk else DEFAULT_LANG) \<and> \<not> is_loading u
            \<and> is_storage u = Some (is_current u) \<and> is_dispatched u = (is_current u, is_source u) # is_dispatched s"
    if "i18n_step s (CatalogSettled i loaded aborted) = Some u \<and> is_tasks s ! i = Some tk" for i loaded aborted u tk
  proof -
    have u: "u = catalog_settled i tk loaded aborted s" using that by (auto split: if_splits)
    show ?thesis unfolding u catalog_settled_def Let_def by (auto simp: end_call_def activate_def)
  qed
  have cur: "is_current s \<in> set getAvailableLanguages \<and> is_current s \<in> set (is_loaded s)
    \<and> (is_loading s \<longleftrightarrow> (\<exists>tk. Some tk \<in> set (is_tasks s) \<and> lt_id tk = is_request s))
    \<and> (is_dispatched s = [] \<or> hd (is_dispatched s) = (is_current s, is_source s) \<and> is_storage s = Some (is_current s))"
    using inv by (auto simp: i18n_inv_def)
  show ?thesis using cur settle choose by blast
qed

definition example_choices :: "i18n_event list" where
  "example_choices = [LanguageChosen (Some ''de'') UserSet, LanguageChosen (Some ''fr-FR'') UserSet,
     CatalogSettled 1 True False, CatalogSettled 0 True False]"

definition example_language_state :: i18n_state where
  "example_language_state = \<lparr>is_current = ''fr-FR'', is_source = UserSet, is_storage = Some ''fr-FR'',
     is_loaded = [''de-DE'', ''fr-FR'', ''en-US''], is_request = 2, is_loading = False, is_tasks = [None, None],
     is_dispatched = [(''fr-FR'', UserSet)], is_returned = [(1, ''fr-FR''), (2, ''fr-FR'')]\<rparr>"

lemma example_resolved: "resolveLanguage (Some ''de'') = Some ''de-DE''" "resolveLanguage (Some ''fr-FR'') = Some ''fr-FR''"
  by code_simp+

lemma example_start: "initI18n None [] None False = \<lparr>is_current = ''en-US'', is_source = FromFallback, is_storage = None,
     is_loaded = [''en-US''], is_request = 0, is_loading = False, is_tasks = [], is_dispatched = [], is_returned = []\<rparr>"
  by (simp add: initI18n_def needs_fetch_def detectLanguage_def non_empty_def opt_or_def browser_languages_def DEFAULT_LANG_def)

lemma example_language_run: "run_events i18n_step (initI18n None [] None False) example_choices = Some example_language_state"
  by (simp add: example_choices_def example_start needs_fetch_def DEFAULT_LANG_def setLanguage_def example_resolved
      catalog_settled_def end_call_def activate_def example_language_state_def)

theorem language_newest_wins_witness:
  "run_events i18n_step (initI18n None [] None False) example_choices = Some example_language_state
    \<and> is_current example_language_state = ''fr-FR'' \<and> ''fr-FR'' \<in> set getAvailableLanguages"
  using language_newest_wins [OF example_language_run] example_language_run by (simp add: example_language_state_def)

end
