(* ===== verification/Response_Errors.thy ===== *)
theory Response_Errors
  imports Translation
begin

text \<open>
  Error messages for failed requests: \<^verbatim>\<open>js/response-errors.js\<close> and the tables of stable error codes in
  \<^verbatim>\<open>npm-errors.js\<close>, \<^verbatim>\<open>docker-errors.js\<close>, \<^verbatim>\<open>updater-errors.js\<close>, \<^verbatim>\<open>super-team-errors.js\<close> and
  \<^verbatim>\<open>review-errors.js\<close>. The text decoder and \<^verbatim>\<open>JSON.parse\<close> are parameters; decoding the chunks of a stream one
  after the other and flushing the decoder gives the decoding of their concatenation.
\<close>

section \<open>Error codes\<close>

definition commonErrorCodeKeys :: "(string \<times> string) list" where
  "commonErrorCodeKeys =
    [(''captcha_required'', ''captcha.complete''),
     (''captcha_invalid'', ''captcha.failed''),
     (''captcha_unavailable'', ''captcha.unavailable''),
     (''captcha_changed'', ''captcha.changed''),
     (''captcha_cookies_required'', ''captcha.cookiesRequired''),
     (''captcha_settings_invalid'', ''captcha.settingsInvalid''),
     (''captcha_settings_save_failed'', ''captcha.settingsSaveFailed''),
     (''legal_consent_required'', ''legal.consentRequired''),
     (''legal_settings_invalid'', ''legal.invalid''),
     (''legal_settings_save_failed'', ''legal.saveFailed''),
     (''oauth_invalid'', ''oauth.failed''),
     (''oauth_unavailable'', ''oauth.failed''),
     (''oauth_last_login_method'', ''oauth.onlyLogin''),
     (''oauth_settings_invalid'', ''oauth.settingsInvalid''),
     (''oauth_settings_save_failed'', ''oauth.failed''),
     (''registration_disabled'', ''registration.disabled''),
     (''registration_ip_limited'', ''registration.ipLimited''),
     (''registration_cooldown'', ''registration.cooldown''),
     (''registration_pending'', ''registration.pending''),
     (''registration_invalid'', ''registration.invalid''),
     (''registration_unavailable'', ''registration.unavailable''),
     (''registration_username_conflict'', ''registration.usernameConflict''),
     (''registration_identity_linked'', ''registration.identityLinked''),
     (''registration_settings_invalid'', ''registration.settingsInvalid''),
     (''registration_settings_save_failed'', ''registration.unavailable''),
     (''MFA_REQUIRED'', ''mfa.loginHint''),
     (''MFA_PRIMARY_REQUIRED'', ''mfa.primaryRequired''),
     (''MFA_INVALID'', ''mfa.invalid''),
     (''MFA_UNAVAILABLE'', ''mfa.unavailable''),
     (''MFA_REAUTH_REQUIRED'', ''mfa.reauth''),
     (''cache_settings_invalid'', ''cache.invalid''),
     (''cache_settings_save_failed'', ''cache.saveFailed''),
     (''cache_connection_failed'', ''cache.testFailed''),
     (''mail_settings_invalid'', ''mail.invalid''),
     (''mail_settings_save_failed'', ''mail.requestFailed''),
     (''mail_request_invalid'', ''mail.invalid''),
     (''mail_unavailable'', ''mail.requestFailed''),
     (''mail_status_unavailable'', ''mail.requestFailed''),
     (''mail_disabled'', ''mail.disabled''),
     (''mail_manual_rate_limited'', ''mail.rateLimited''),
     (''mail_queue_full'', ''mail.queueFull''),
     (''mail_no_account'', ''mail.noAccount''),
     (''mail_recipient_blocked'', ''mail.recipientBlocked''),
     (''ACCOUNT_BANNED'', ''login.accountBanned''),
     (''LOG_FILTER_INVALID'', ''audit.invalidFilter''),
     (''ACCOUNT_DELETED'', ''login.accountDeleted''),
     (''ACCOUNT_RETIREMENT_BLOCKED'', ''profile.retireBlockedHint''),
     (''ACCOUNT_RETIREMENT_CONFIRMATION'', ''profile.retireConfirmationMismatch''),
     (''ACCOUNT_BAN_INVALID'', ''users.banInvalid''),
     (''ACCOUNT_BAN_SELF'', ''users.banSelf''),
     (''ACCOUNT_BAN_PROTECTED'', ''users.banProtected''),
     (''ACCOUNT_BAN_IP_UNKNOWN'', ''users.banIPUnknown''),
     (''IP_BANNED'', ''login.ipBanned''),
     (''ACCOUNT_EMAIL_CONFLICT'', ''profile.privateEmailConflict''),
     (''ACCOUNT_LOCALE_INVALID'', ''profile.languageSaveFailed''),
     (''ACCOUNT_EMAIL_PROOF_REQUIRED'', ''profile.providerEmailUnverified''),
     (''ACCOUNT_EMAIL_LIMIT'', ''profile.emailAliasLimit''),
     (''ACCOUNT_EMAIL_PRIMARY'', ''profile.primaryEmailRequired''),
     (''ACCOUNT_EMAIL_INVALID'', ''profile.privateEmailInvalid''),
     (''ACCOUNT_EMAIL_CODE_INVALID'', ''login.emailCodeInvalid''),
     (''ACCOUNT_LAST_LOGIN_METHOD'', ''profile.passwordLoginNeedsAlternative''),
     (''ACCOUNT_PASSWORD_NOT_CONFIGURED'', ''profile.passwordLoginNotConfigured''),
     (''API_TOKEN_INVALID'', ''profile.apiTokenCreateFailed''),
     (''API_TOKEN_LIMIT'', ''profile.apiTokenLimitReached''),
     (''API_TOKEN_NAME_CONFLICT'', ''profile.apiTokenNameConflict''),
     (''GITHUB_LAST_LOGIN_METHOD'', ''profile.githubOnlyLogin''),
     (''MAVEN_USER_NOT_FOUND'', ''maven.userNotFound''),
     (''package_deprecated'', ''package.deprecationNotice''),
     (''resource_locked'', ''resourceLock.blocked''),
     (''review_pending'', ''package.reviewPending''),
     (''maven_domain_closed'', ''maven.domainClosedError''),
     (''maven_domain_locked'', ''maven.domainLockedError''),
     (''maven_domain_review_pending'', ''maven.domainReviewPending''),
     (''maven_claim_review_invalid'', ''maven.claimReviewInvalid''),
     (''publication_file_quota'', ''publicationQuota.fileExceeded''),
     (''publication_byte_quota'', ''publicationQuota.byteExceeded''),
     (''publication_count_quota'', ''publicationQuota.countExceeded''),
     (''repository_migration_pending_gpg'', ''repos.migrationPendingGpg''),
     (''repository_migration_pending_review'', ''repos.migrationPendingReview''),
     (''repository_pending_review'', ''repos.pendingReviewMutation'')]"

definition statusErrorKeys :: "(nat \<times> string) list" where
  "statusErrorKeys = [(401, ''error.unauthorized''), (403, ''error.forbidden''), (404, ''error.notFound''), (409, ''error.conflict''),
     (413, ''error.requestEntityTooLarge''), (429, ''error.tooManyRequests''), (503, ''error.serviceUnavailable''),
     (507, ''error.insufficientStorage'')]"

definition npmErrorKeys :: "(string \<times> string) list" where
  "npmErrorKeys =
    [(''authentication_required'', ''npm.authenticationRequired''),
     (''cannot_invite_self'', ''npm.cannotInviteSelf''),
     (''internal_error'', ''npm.operationFailed''),
     (''invalid_package_name'', ''npm.invalidPackageName''),
     (''invalid_request'', ''npm.invalidRequest''),
     (''invitation_invalid'', ''npm.invitationInvalid''),
     (''invitation_pending'', ''npm.invitationPending''),
     (''last_owner'', ''npm.lastOwner''),
     (''member_exists'', ''npm.memberExists''),
     (''package_exists'', ''npm.packageExists''),
     (''package_not_found'', ''npm.packageNotFound''),
     (''permission_denied'', ''npm.permissionDenied''),
     (''publication_file_quota'', ''publicationQuota.fileExceeded''),
     (''publication_byte_quota'', ''publicationQuota.byteExceeded''),
     (''publication_count_quota'', ''publicationQuota.countExceeded''),
     (''private_requires_scope'', ''npm.privateRequiresScope''),
     (''repository_not_found'', ''npm.repositoryNotFound''),
     (''resource_locked'', ''resourceLock.blocked''),
     (''review_pending'', ''review.alreadyPending''),
     (''review_unavailable'', ''review.serviceUnavailable''),
     (''super_team_mismatch'', ''superTeam.bindingMismatch''),
     (''super_team_permission'', ''superTeam.bindingPermission''),
     (''super_team_required'', ''superTeam.bindingRequired''),
     (''user_not_found'', ''npm.userNotFound'')]"

definition dockerErrorKeys :: "(string \<times> string) list" where
  "dockerErrorKeys =
    [(''authentication_required'', ''docker.authenticationRequired''),
     (''cannot_invite_self'', ''docker.cannotInviteSelf''),
     (''image_not_found'', ''docker.imageNotFound''),
     (''invalid_permission_level'', ''docker.invalidPermissionLevel''),
     (''invalid_request'', ''docker.invalidRequest''),
     (''invitation_invalid'', ''docker.invitationInvalid''),
     (''invitation_pending'', ''docker.invitationAlreadyPending''),
     (''member_exists'', ''docker.memberAlreadyExists''),
     (''permission_denied'', ''docker.permissionDenied''),
     (''publication_file_quota'', ''publicationQuota.fileExceeded''),
     (''publication_byte_quota'', ''publicationQuota.byteExceeded''),
     (''publication_count_quota'', ''publicationQuota.countExceeded''),
     (''readme_too_large'', ''docker.readmeTooLarge''),
     (''repository_not_found'', ''docker.repositoryNotFound''),
     (''resource_locked'', ''resourceLock.blocked''),
     (''review_pending'', ''review.alreadyPending''),
     (''review_unavailable'', ''review.serviceUnavailable''),
     (''service_unavailable'', ''docker.serviceUnavailable''),
     (''super_team_mismatch'', ''superTeam.bindingMismatch''),
     (''super_team_permission'', ''superTeam.bindingPermission''),
     (''super_team_required'', ''superTeam.bindingRequired''),
     (''user_not_found'', ''docker.userNotFound'')]"

definition updaterErrorKeys :: "(string \<times> string) list" where
  "updaterErrorKeys =
    [(''forbidden'', ''error.forbidden''),
     (''insufficient_space'', ''updater.insufficientDiskSpace''),
     (''missing_file'', ''updater.selectZipFirst''),
     (''install_busy'', ''error.installInProgress''),
     (''invalid_package'', ''updater.invalidZip''),
     (''incompatible_binary'', ''error.incompatibleBinary''),
     (''package_too_large'', ''error.requestEntityTooLarge''),
     (''package_processing_failed'', ''updaterNotice.installFailedTitle''),
     (''check_failed'', ''updaterNotice.checkFailedTitle''),
     (''notification_failed'', ''common.error''),
     (''restart_failed'', ''updaterNotice.restartFailedTitle'')]"

definition SUPER_TEAM_ERROR_KEYS :: "(string \<times> string) list" where
  "SUPER_TEAM_ERROR_KEYS =
    [(''authentication_required'', ''superTeam.authenticationRequired''),
     (''create_limit'', ''superTeam.createLimitReached''),
     (''invalid_request'', ''superTeam.invalidRequest''),
     (''invitation_invalid'', ''superTeam.invitationInvalid''),
     (''invitation_pending'', ''superTeam.invitationPending''),
     (''join_limit'', ''superTeam.joinLimitReached''),
     (''last_owner'', ''superTeam.lastOwner''),
     (''member_exists'', ''superTeam.memberExists''),
     (''owner_cannot_leave'', ''superTeam.ownerCannotLeave''),
     (''operation_failed'', ''superTeam.operationFailed''),
     (''permission_denied'', ''superTeam.permissionDenied''),
     (''service_unavailable'', ''superTeam.serviceUnavailable''),
     (''super_team_mismatch'', ''superTeam.bindingMismatch''),
     (''super_team_permission'', ''superTeam.bindingPermission''),
     (''super_team_required'', ''superTeam.bindingRequired''),
     (''team_exists'', ''superTeam.teamExists''),
     (''team_not_found'', ''superTeam.teamNotFound''),
     (''team_not_empty'', ''superTeam.teamNotEmpty''),
     (''user_not_found'', ''superTeam.userNotFound'')]"

definition REVIEW_ERROR_KEYS :: "(string \<times> string) list" where
  "REVIEW_ERROR_KEYS =
    [(''ticket_claim_required'', ''ticket.claimRequired''),
     (''ticket_occupied'', ''ticket.occupied''),
     (''ticket_escalation_limit'', ''ticket.escalationLimit''),
     (''authentication_required'', ''review.authenticationRequired''),
     (''invalid_request'', ''review.invalidRequest''),
     (''resource_changed'', ''review.resourceChanged''),
     (''review_decided'', ''review.alreadyDecided''),
     (''review_exists'', ''review.alreadyPending''),
     (''review_failed'', ''review.operationFailed''),
     (''review_not_found'', ''review.notFound''),
     (''review_permission'', ''review.permissionDenied''),
     (''publication_active'', ''review.publicationActive''),
     (''publication_sealed'', ''review.publicationSealed''),
     (''review_file_not_found'', ''review.fileNotFound''),
     (''review_limit'', ''review.limitReached''),
     (''service_unavailable'', ''review.serviceUnavailable''),
     (''super_team_mismatch'', ''superTeam.bindingMismatch''),
     (''transfer_restricted'', ''review.transferRestricted'')]"

section \<open>Responses\<close>

definition MAX_ERROR_BODY_BYTES :: nat where
  "MAX_ERROR_BODY_BYTES = 2048"

text \<open>The body of a response: what its reader returns, chunk by chunk, or the error it throws.\<close>

record error_response =
  er_code :: "string option"
  er_status :: "nat option"
  er_body_used :: bool
  er_has_reader :: bool
  er_reads :: "(string + nat list) list"

text \<open>The loop: the bytes it keeps and whether the stream ended (otherwise the reader is cancelled).\<close>

fun read_bounded :: "nat \<Rightarrow> (string + nat list) list \<Rightarrow> nat list \<Rightarrow> string + (nat list \<times> bool)" where
  "read_bounded limit reads acc =
     (if limit \<le> length acc then Inr (acc, False)
      else case reads of
          [] \<Rightarrow> Inr (acc, True)
        | Inl e # _ \<Rightarrow> Inl e
        | Inr v # rest \<Rightarrow>
            let chunk = take (limit - length acc) v
            in if length chunk \<noteq> length v then Inr (acc @ chunk, False) else read_bounded limit rest (acc @ chunk))"

declare read_bounded.simps [simp del]

definition readBoundedErrorText :: "(nat list \<Rightarrow> string) \<Rightarrow> error_response option \<Rightarrow> string + string" where
  "readBoundedErrorText decode response =
     (case response of
        None \<Rightarrow> Inr []
      | Some r \<Rightarrow>
          if er_body_used r \<or> \<not> er_has_reader r then Inr []
          else and_then (read_bounded MAX_ERROR_BODY_BYTES (er_reads r) []) (\<lambda>(bytes, complete). Inr (decode bytes)))"

definition response_code :: "error_response option \<Rightarrow> string" where
  "response_code response = (case response of None \<Rightarrow> [] | Some r \<Rightarrow> opt_or (er_code r) [])"

definition response_status_or_zero :: "error_response option \<Rightarrow> nat" where
  "response_status_or_zero response =
     (case response of None \<Rightarrow> 0 | Some r \<Rightarrow> (case er_status r of None \<Rightarrow> 0 | Some n \<Rightarrow> n))"

record message_env =
  me_decode :: "nat list \<Rightarrow> string"
  me_parse :: "string \<Rightarrow> error_payload option"
  me_dicts :: dictionaries

definition responseErrorMessage ::
  "message_env \<Rightarrow> error_response option \<Rightarrow> string \<Rightarrow> string_table \<Rightarrow> string_table \<Rightarrow> string + js_value" where
  "responseErrorMessage env response fallbackKey params errorCodeKeys =
     (let code = response_code response;
          codeKey = value_or (obj_get errorCodeKeys code) (obj_get commonErrorCodeKeys code)
      in if truthy codeKey then Inr (translateKey (me_dicts env) codeKey params)
         else and_then (readBoundedErrorText (me_decode env) response) (\<lambda>body.
           let translatedBody = translateKnownError (me_parse env) (me_dicts env) body
           in if truthy translatedBody then Inr translatedBody
              else let statusKey = map_of statusErrorKeys (response_status_or_zero response)
                   in Inr (tr (me_dicts env) (opt_or statusKey fallbackKey) params)))"

record localized_error =
  le_message :: string
  le_status :: nat

definition LocalizedResponseError :: "js_value \<Rightarrow> nat option \<Rightarrow> localized_error" where
  "LocalizedResponseError message status =
     \<lparr>le_message = value_string message, le_status = (case status of None \<Rightarrow> 0 | Some n \<Rightarrow> n)\<rparr>"

definition localizedResponseError ::
  "message_env \<Rightarrow> error_response option \<Rightarrow> string \<Rightarrow> string_table \<Rightarrow> string_table \<Rightarrow> string + localized_error" where
  "localizedResponseError env response fallbackKey params errorCodeKeys =
     and_then (responseErrorMessage env response fallbackKey params errorCodeKeys)
       (\<lambda>m. Inr (LocalizedResponseError m (case response of None \<Rightarrow> None | Some r \<Rightarrow> er_status r)))"

text \<open>A caught value: an error made above, or anything else.\<close>

datatype caught = Localized localized_error | OtherError

definition caughtErrorMessage :: "dictionaries \<Rightarrow> caught \<Rightarrow> string \<Rightarrow> string_table \<Rightarrow> js_value" where
  "caughtErrorMessage d e fallbackKey params =
     (case e of Localized le \<Rightarrow> Text (le_message le) | OtherError \<Rightarrow> tr d fallbackKey params)"

definition npmResponseError :: "dictionaries \<Rightarrow> error_response option \<Rightarrow> string \<Rightarrow> js_value" where
  "npmResponseError d response fallbackKey =
     translateKey d (value_or (obj_get npmErrorKeys (response_code response)) (Text fallbackKey)) []"

definition dockerResponseError :: "dictionaries \<Rightarrow> error_response option \<Rightarrow> string \<Rightarrow> string_table \<Rightarrow> js_value" where
  "dockerResponseError d response fallbackKey params =
     translateKey d (value_or (obj_get dockerErrorKeys (response_code response)) (Text fallbackKey)) params"

text \<open>The source of an updater error is a response or an upload result with its own \<^verbatim>\<open>errorCode\<close>.\<close>

record updater_source =
  us_header_code :: "string option"
  us_errorCode :: "string option"
  us_status :: "nat option"

definition updaterErrorMessage :: "dictionaries \<Rightarrow> updater_source option \<Rightarrow> string \<Rightarrow> js_value" where
  "updaterErrorMessage d source fallbackKey =
     (let code = (case source of None \<Rightarrow> [] | Some u \<Rightarrow> opt_or (us_header_code u) (opt_or (us_errorCode u) []));
          status = (case source of None \<Rightarrow> 0 | Some u \<Rightarrow> (case us_status u of None \<Rightarrow> 0 | Some n \<Rightarrow> n))
      in if truthy (obj_get updaterErrorKeys code) then translateKey d (obj_get updaterErrorKeys code) []
         else if status = 0 then tr d fallbackKey []
         else if status = 413 then tr d ''error.requestEntityTooLarge'' []
         else if status = 507 then tr d ''updater.insufficientDiskSpace'' []
         else if status = 409 then tr d ''error.installInProgress'' []
         else if status = 403 then tr d ''error.forbidden'' []
         else tr d fallbackKey [])"

section \<open>Facts\<close>

lemma read_bounded_bytes:
  "read_bounded limit (map Inr chunks) acc = Inr (bytes, complete) \<Longrightarrow> length acc \<le> limit \<Longrightarrow>
     bytes = take limit (acc @ concat chunks)"
proof (induction chunks arbitrary: acc)
  case Nil
  then show ?case by (auto simp: read_bounded.simps split: if_splits)
next
  case (Cons v rest)
  show ?case
  proof (cases "limit \<le> length acc")
    case False
    show ?thesis
    proof (cases "length v \<le> limit - length acc")
      case True
      with False Cons.prems have "read_bounded limit (map Inr rest) (acc @ v) = Inr (bytes, complete)"
        by (simp add: read_bounded.simps [of limit "Inr v # _"] Let_def)
      with Cons.IH [of "acc @ v"] True False show ?thesis by simp
    next
      case long: False
      with False Cons.prems show ?thesis by (simp add: read_bounded.simps [of limit "Inr v # _"] Let_def)
    qed
  qed (use Cons.prems in \<open>auto simp: read_bounded.simps [of _ "Inr v # _"]\<close>)
qed

lemma read_bounded_returns: "\<exists>bytes complete. read_bounded limit (map Inr chunks) acc = Inr (bytes, complete)"
  by (induction chunks arbitrary: acc) (auto simp: read_bounded.simps [of limit "[]"] read_bounded.simps [of limit "Inr _ # _"] Let_def)

text \<open>The keys a message may be looked up under: those of the tables, of the catalogs and of the caller.\<close>

definition registered_keys :: "dictionaries \<Rightarrow> string_table \<Rightarrow> string \<Rightarrow> string set" where
  "registered_keys d errorCodeKeys fallbackKey =
     snd ` set errorCodeKeys \<union> snd ` set commonErrorCodeKeys \<union> snd ` set ERROR_KEY_MAP \<union> snd ` set statusErrorKeys
     \<union> fst ` set (dc_current d) \<union> fst ` set (dc_fallback d) \<union> {fallbackKey}"

definition registered_message :: "dictionaries \<Rightarrow> string set \<Rightarrow> js_value \<Rightarrow> bool" where
  "registered_message d keys v \<longleftrightarrow>
     (\<exists>k\<in>keys. \<exists>ps. v = tr d k ps) \<or> (\<exists>n\<in>set object_members. \<exists>ps. v = translateKey d (Builtin n) ps)"

lemma map_of_value: "map_of tab k = Some v \<Longrightarrow> v \<in> snd ` set tab" "map_of tab k = Some v \<Longrightarrow> k \<in> fst ` set tab"
  by (force dest: map_of_SomeD)+

lemma registered_tables:
  "snd ` set errorCodeKeys \<subseteq> registered_keys d errorCodeKeys fb" "snd ` set commonErrorCodeKeys \<subseteq> registered_keys d errorCodeKeys fb"
  "snd ` set ERROR_KEY_MAP \<subseteq> registered_keys d errorCodeKeys fb"
  by (auto simp: registered_keys_def)

lemma registered_lookup:
  assumes "truthy (obj_get tab k)" "snd ` set tab \<subseteq> keys"
  shows "registered_message d keys (translateKey d (obj_get tab k) ps)"
proof (cases "obj_get tab k")
  case (Text s)
  then have "s \<in> keys" using assms(2) map_of_value(1) [of tab k s] by (auto simp: obj_get_Text)
  with Text show ?thesis by (auto simp: registered_message_def tr_def)
next
  case (Builtin n)
  then have "n \<in> set object_members" by (simp add: obj_get_Builtin)
  with Builtin show ?thesis by (auto simp: registered_message_def)
qed (use assms in simp)

lemma phrases_nonempty: "list_all (\<lambda>(k, v). v \<noteq> []) ERROR_KEY_MAP"
  by (simp add: ERROR_KEY_MAP_def)

lemma unmapped_not_member: "\<not> truthy (obj_get ERROR_KEY_MAP c) \<Longrightarrow> c \<notin> set object_members"
  using phrases_nonempty
  by (auto simp: obj_get_def list_all_iff split: option.splits if_splits dest!: map_of_SomeD)

lemma direct_registered:
  assumes "tr d c [] \<noteq> Text c" "c \<notin> set object_members"
  shows "c \<in> fst ` set (dc_current d) \<union> fst ` set (dc_fallback d)"
proof (rule ccontr)
  assume "\<not> ?thesis"
  then have "map_of (dc_current d) c = None" "map_of (dc_fallback d) c = None"
    by (auto simp: map_of_eq_None_iff)
  with assms show False by (simp add: tr_def translateKey_def obj_get_def value_or_def)
qed

lemma translate_candidates_registered:
  "truthy (translate_candidates d cs) \<Longrightarrow> registered_message d (registered_keys d codes fb) (translate_candidates d cs)"
proof (induction d cs rule: translate_candidates.induct)
  case (2 d c cs)
  show ?case
  proof (cases "truthy (obj_get ERROR_KEY_MAP c)")
    case True
    then show ?thesis using registered_lookup [OF True registered_tables(3)] by (simp add: Let_def)
  next
    case False
    note nm = unmapped_not_member [OF False]
    show ?thesis
    proof (cases "tr d c [] = Text c")
      case True
      with False 2 show ?thesis by (simp add: Let_def)
    next
      case direct: False
      with direct_registered [OF direct nm] False show ?thesis
        by (auto simp: Let_def registered_message_def registered_keys_def)
    qed
  qed
qed simp

lemma translateKnownError_registered:
  "truthy (translateKnownError parse d body) \<Longrightarrow> registered_message d (registered_keys d codes fb) (translateKnownError parse d body)"
  unfolding translateKnownError_def Let_def
  by (auto split: if_splits option.splits intro: translate_candidates_registered)

lemma error_code_prototype:
  "responseErrorMessage env (Some \<lparr>er_code = Some ''constructor'', er_status = st, er_body_used = b, er_has_reader = g, er_reads = rs\<rparr>)
     fallbackKey params [] = Inr (translateKey (me_dicts env) (Builtin ''constructor'') params)"
  by (simp add: responseErrorMessage_def response_code_def opt_or_def str_or_def obj_get_def value_or_def commonErrorCodeKeys_def object_members_def)

section \<open>Property\<close>


definition example_env :: message_env where
  "example_env = \<lparr>me_decode = map char_of, me_parse = (\<lambda>_. None),
     me_dicts = \<lparr>dc_current = [(''error.badPath'', ''Chemin invalide'')], dc_fallback = []\<rparr>\<rparr>"

definition example_response :: error_response where
  "example_response = \<lparr>er_code = None, er_status = Some 404, er_body_used = False, er_has_reader = True,
     er_reads = [Inr [66, 97, 100, 32], Inr [112, 97, 116, 104]]\<rparr>"

lemma example_body: "readBoundedErrorText (me_decode example_env) (Some example_response) = Inr ''Bad path''"
  by (simp add: readBoundedErrorText_def example_response_def example_env_def MAX_ERROR_BODY_BYTES_def read_bounded.simps Let_def)
    code_simp

lemma example_phrase: "translateKnownError (me_parse example_env) (me_dicts example_env) ''Bad path'' = Text ''Chemin invalide''"
proof -
  have "trim ''Bad path'' = ''Bad path''" "strip_punctuation ''Bad path'' = ''Bad path''" by code_simp+
  then show ?thesis
    by (simp add: translateKnownError_def is_json_object_def startsWith_def known_candidates_def obj_get_def ERROR_KEY_MAP_def
        translateKey_def example_env_def value_or_def)
qed

lemma example_message: "responseErrorMessage example_env (Some example_response) ''npm.operationFailed'' [] npmErrorKeys = Inr (Text ''Chemin invalide'')"
proof -
  have "response_code (Some example_response) = []" by (simp add: response_code_def example_response_def opt_or_def)
  moreover have "\<not> truthy (value_or (obj_get npmErrorKeys []) (obj_get commonErrorCodeKeys []))"
    by (simp add: value_or_def obj_get_def npmErrorKeys_def commonErrorCodeKeys_def object_members_def)
  ultimately show ?thesis by (simp add: responseErrorMessage_def example_body example_phrase Let_def)
qed


end
