(* ===== verification/Repository_Formats.thy ===== *)
theory Repository_Formats
  imports Translation
begin

text \<open>
  The repository format catalog (\<^verbatim>\<open>js/repository-formats.js\<close>) and the list of repositories with its pages
  (\<^verbatim>\<open>js/repository-list.js\<close>). The catalog is a plain object, so a format may also name an inherited member
  (\<^term>\<open>Inl\<close>). The comparison of \<^verbatim>\<open>Intl.Collator\<close> is a parameter; \<^verbatim>\<open>Array.prototype.sort\<close> is a stable sort.
\<close>

section \<open>Catalog\<close>

record repository_format =
  rf_id :: string
  rf_protocol :: string
  rf_layout :: "string option"
  rf_icon :: string
  rf_offered :: "bool option"
  rf_labelKey :: string
  rf_descriptionKey :: string
  rf_supportsBrowserUpload :: bool
  rf_supportsRedeployment :: bool
  rf_supportsGpg :: bool
  rf_supportsArtifactTemplate :: bool
  rf_supportsUploadHelpers :: "bool option"
  rf_snippetTabs :: "string list"

definition maven_format :: repository_format where
  "maven_format = \<lparr>rf_id = ''maven'', rf_protocol = ''maven'', rf_layout = Some ''modern'', rf_icon = ''repositoryMaven'',
     rf_offered = None, rf_labelKey = ''repos.formatMaven'', rf_descriptionKey = ''repos.formatMavenDesc'',
     rf_supportsBrowserUpload = False, rf_supportsRedeployment = True, rf_supportsGpg = True, rf_supportsArtifactTemplate = False,
     rf_supportsUploadHelpers = None, rf_snippetTabs = [''maven'', ''gradle-kotlin'', ''gradle-groovy'', ''sbt'']\<rparr>"

definition maven_classic_format :: repository_format where
  "maven_classic_format = \<lparr>rf_id = ''maven-classic'', rf_protocol = ''maven'', rf_layout = Some ''classic'', rf_icon = ''repositoryMaven'',
     rf_offered = Some False, rf_labelKey = ''repos.formatMaven'', rf_descriptionKey = ''repos.formatMavenDesc'',
     rf_supportsBrowserUpload = False, rf_supportsRedeployment = True, rf_supportsGpg = True, rf_supportsArtifactTemplate = False,
     rf_supportsUploadHelpers = None, rf_snippetTabs = [''maven'', ''gradle-kotlin'', ''gradle-groovy'', ''sbt'']\<rparr>"

definition files_format :: repository_format where
  "files_format = \<lparr>rf_id = ''files'', rf_protocol = ''files'', rf_layout = None, rf_icon = ''repositoryFiles'',
     rf_offered = None, rf_labelKey = ''repos.formatFiles'', rf_descriptionKey = ''repos.formatFilesDesc'',
     rf_supportsBrowserUpload = True, rf_supportsRedeployment = False, rf_supportsGpg = False, rf_supportsArtifactTemplate = False,
     rf_supportsUploadHelpers = Some False, rf_snippetTabs = []\<rparr>"

definition cargo_format :: repository_format where
  "cargo_format = \<lparr>rf_id = ''cargo'', rf_protocol = ''cargo'', rf_layout = None, rf_icon = ''repositoryCargo'',
     rf_offered = None, rf_labelKey = ''repos.formatCargo'', rf_descriptionKey = ''repos.formatCargoDesc'',
     rf_supportsBrowserUpload = False, rf_supportsRedeployment = False, rf_supportsGpg = False, rf_supportsArtifactTemplate = True,
     rf_supportsUploadHelpers = None, rf_snippetTabs = [''cargo-registry'', ''cargo-source'', ''cargo-login'', ''cargo-publish'']\<rparr>"

definition docker_format :: repository_format where
  "docker_format = \<lparr>rf_id = ''docker'', rf_protocol = ''docker'', rf_layout = None, rf_icon = ''repositoryDocker'',
     rf_offered = None, rf_labelKey = ''repos.formatDocker'', rf_descriptionKey = ''repos.formatDockerDesc'',
     rf_supportsBrowserUpload = False, rf_supportsRedeployment = True, rf_supportsGpg = False, rf_supportsArtifactTemplate = False,
     rf_supportsUploadHelpers = None, rf_snippetTabs = [''docker-pull'', ''docker-tag'', ''docker-push'', ''docker-login'']\<rparr>"

definition npm_format :: repository_format where
  "npm_format = \<lparr>rf_id = ''npm'', rf_protocol = ''npm'', rf_layout = None, rf_icon = ''repositoryNpm'',
     rf_offered = None, rf_labelKey = ''repos.formatNpm'', rf_descriptionKey = ''repos.formatNpmDesc'',
     rf_supportsBrowserUpload = False, rf_supportsRedeployment = False, rf_supportsGpg = False, rf_supportsArtifactTemplate = False,
     rf_supportsUploadHelpers = None, rf_snippetTabs = [''npm-config'', ''npm-install'', ''npm-publish'']\<rparr>"

definition FORMAT_CATALOG :: "(string \<times> repository_format) list" where
  "FORMAT_CATALOG = [(''maven'', maven_format), (''maven-classic'', maven_classic_format), (''files'', files_format),
     (''cargo'', cargo_format), (''docker'', docker_format), (''npm'', npm_format)]"

definition RESERVED_REPOSITORY_NAMES :: "string list" where
  "RESERVED_REPOSITORY_NAMES = [''api'', ''assets'', ''css'', ''js'', ''svg'', ''javadoc'', ''javadocs'', ''cargodoc'', ''cargodocs'',
     ''cratedoc'', ''cratedocs'', ''v2'']"

definition getRepositoryFormat :: "string option \<Rightarrow> string + repository_format" where
  "getRepositoryFormat format =
     (let normalized = toLowerCase (trim (opt_or format ''maven''))
      in case map_of FORMAT_CATALOG normalized of
           Some f \<Rightarrow> Inr f
         | None \<Rightarrow> if normalized \<in> set object_members then Inl normalized else Inr maven_format)"

definition listRepositoryFormats :: "repository_format list" where
  "listRepositoryFormats = filter (\<lambda>f. rf_offered f \<noteq> Some False) (map snd FORMAT_CATALOG)"

record repository_draft =
  rd_name :: string
  rd_format :: "string option"
  rd_visibility :: string
  rd_mirrors :: "string list"
  rd_allow_redeployment :: "bool option"
  rd_require_gpg_signature :: "bool option"

definition format_id :: "string + repository_format \<Rightarrow> string option" where
  "format_id f = (case f of Inl _ \<Rightarrow> None | Inr g \<Rightarrow> Some (rf_id g))"

definition createRepositoryDraft :: "string \<Rightarrow> string option \<Rightarrow> repository_draft" where
  "createRepositoryDraft name format =
     (let fid = format_id (getRepositoryFormat format);
          draft = \<lparr>rd_name = name, rd_format = fid, rd_visibility = ''PUBLIC'', rd_mirrors = [],
                   rd_allow_redeployment = None, rd_require_gpg_signature = None\<rparr>
      in if fid = Some ''maven'' then draft\<lparr>rd_allow_redeployment := Some False, rd_require_gpg_signature := Some False\<rparr>
         else if fid = Some ''files'' then draft\<lparr>rd_allow_redeployment := Some True\<rparr>
         else draft)"

definition lower_ascii :: "char \<Rightarrow> bool" where
  "lower_ascii c = (97 \<le> (of_char c :: nat) \<and> (of_char c :: nat) \<le> 122)"

text \<open>\<^verbatim>\<open>/^[a-z]+(?:-[a-z]+)*$/\<close>: non-empty runs of lower-case letters between hyphens.\<close>

definition slug_pattern :: "string \<Rightarrow> bool" where
  "slug_pattern s = list_all (\<lambda>p. p \<noteq> [] \<and> list_all lower_ascii p) (js_split CHR ''-'' s)"

definition isValidRepositorySlug :: "string option \<Rightarrow> bool" where
  "isValidRepositorySlug name =
     (let v = opt_or name [] in length v \<le> 64 \<and> slug_pattern v \<and> v \<notin> set RESERVED_REPOSITORY_NAMES)"

section \<open>Repository list\<close>

fun insert_by :: "('a \<Rightarrow> 'a \<Rightarrow> int) \<Rightarrow> 'a \<Rightarrow> 'a list \<Rightarrow> 'a list" where
  "insert_by cmp x [] = [x]"
| "insert_by cmp x (y # ys) = (if cmp x y \<le> 0 then x # y # ys else y # insert_by cmp x ys)"

definition js_sort :: "('a \<Rightarrow> 'a \<Rightarrow> int) \<Rightarrow> 'a list \<Rightarrow> 'a list" where
  "js_sort cmp xs = foldr (insert_by cmp) xs []"

definition engine_selected :: "string list \<Rightarrow> string option \<Rightarrow> bool" where
  "engine_selected selected format =
     (selected = [] \<or> (case getRepositoryFormat format of Inl _ \<Rightarrow> False | Inr f \<Rightarrow> rf_protocol f \<in> set selected))"

definition sortedRepositoryNames :: "(string \<Rightarrow> string \<Rightarrow> int) \<Rightarrow> (string \<times> string option) list \<Rightarrow> string list \<Rightarrow> string list" where
  "sortedRepositoryNames compare repositories selectedEngines =
     js_sort compare (map fst (filter (\<lambda>(name, format). engine_selected selectedEngines format) repositories))"

record 'a name_page =
  np_names :: "'a list"
  np_page :: nat
  np_pages :: nat
  np_total :: nat
  np_start :: nat
  np_end :: nat

text \<open>A number that is no integer, and a list that is no array, are \<^term>\<open>None\<close>.\<close>

definition paginateRepositoryNames :: "'a list option \<Rightarrow> int option \<Rightarrow> int option \<Rightarrow> 'a name_page" where
  "paginateRepositoryNames names requestedPage pageSize =
     (let safeNames = (case names of None \<Rightarrow> [] | Some ns \<Rightarrow> ns);
          safePageSize = (case pageSize of Some n \<Rightarrow> if 0 < n then nat n else 10 | None \<Rightarrow> 10);
          pages = max 1 (ceil_div (length safeNames) safePageSize);
          requested = (case requestedPage of Some n \<Rightarrow> if 0 \<le> n then nat n else 0 | None \<Rightarrow> 0);
          page = min requested (pages - 1);
          offset = page * safePageSize;
          pageNames = slice safeNames offset (offset + safePageSize)
      in \<lparr>np_names = pageNames, np_page = page, np_pages = pages, np_total = length safeNames,
          np_start = (if pageNames \<noteq> [] then offset + 1 else 0), np_end = offset + length pageNames\<rparr>)"

section \<open>Facts\<close>

lemma insert_by_mset: "set (insert_by cmp x ys) = insert x (set ys)" "length (insert_by cmp x ys) = Suc (length ys)"
  by (induction ys) auto

lemma js_sort_set: "set (js_sort cmp xs) = set xs" "length (js_sort cmp xs) = length xs"
  by (induction xs) (auto simp: js_sort_def insert_by_mset)

lemma insert_by_sorted:
  assumes total: "\<And>a b. cmp a b \<le> 0 \<or> cmp b a \<le> 0" and trans: "\<And>a b c. cmp a b \<le> 0 \<Longrightarrow> cmp b c \<le> 0 \<Longrightarrow> cmp a c \<le> 0"
  shows "sorted_wrt (\<lambda>a b. cmp a b \<le> 0) ys \<Longrightarrow> sorted_wrt (\<lambda>a b. cmp a b \<le> 0) (insert_by cmp x ys)"
proof (induction ys)
  case (Cons y ys)
  then show ?case
  proof (cases "cmp x y \<le> 0")
    case True
    with Cons.prems trans show ?thesis by (auto intro: trans)
  next
    case False
    with total have "cmp y x \<le> 0" by blast
    with Cons False show ?thesis by (auto simp: insert_by_mset)
  qed
qed simp

lemma js_sort_sorted:
  assumes "\<And>a b. cmp a b \<le> 0 \<or> cmp b a \<le> 0" "\<And>a b c. cmp a b \<le> 0 \<Longrightarrow> cmp b c \<le> 0 \<Longrightarrow> cmp a c \<le> 0"
  shows "sorted_wrt (\<lambda>a b. cmp a b \<le> 0) (js_sort cmp xs)"
  by (induction xs) (simp_all add: js_sort_def insert_by_sorted [OF assms])

lemma getRepositoryFormat_cases:
  "(\<exists>f \<in> set (map snd FORMAT_CATALOG). getRepositoryFormat format = Inr f) \<or> (\<exists>m \<in> set object_members. getRepositoryFormat format = Inl m)"
proof (cases "map_of FORMAT_CATALOG (toLowerCase (trim (opt_or format ''maven'')))")
  case None
  have "maven_format \<in> set (map snd FORMAT_CATALOG)" by (simp add: FORMAT_CATALOG_def)
  with None show ?thesis by (auto simp: getRepositoryFormat_def Let_def)
next
  case (Some f)
  then show ?thesis by (force simp: getRepositoryFormat_def Let_def dest: map_of_SomeD)
qed

end
