(* ===== verification/Snippets.thy ===== *)
theory Snippets
  imports Repository_Formats Uri_Codec Event_Machine
begin

text \<open>
  The usage snippets of a repository page (\<^verbatim>\<open>js/browser/snippets.js\<close>): the Maven coordinates of a path, the
  snippets of each format, and \<^verbatim>\<open>updateSnippets\<close> with its concurrent calls and the tab clicks as a machine.

  Paths and snippets are full 16-bit strings. The page has all the elements the source looks up. Scrolling, heights and
  the copy button are left out.
\<close>

section \<open>Snippets of a format\<close>

definition dq :: ustring where "dq = [34]"
definition sq :: ustring where "sq = [39]"
definition nl :: ustring where "nl = [10]"

record site =
  st_origin :: ustring
  st_host :: ustring
  st_title :: "ustring option"

record coordinates =
  co_groupId :: ustring
  co_artifactId :: ustring
  co_version :: ustring

text \<open>A parsed metadata document: whether it is a parser error, and the texts of its elements in document order.\<close>

record xml_document =
  xd_parsererror :: bool
  xd_groupId :: "ustring list"
  xd_artifactId :: "ustring list"
  xd_version :: "ustring list"

definition xmlText :: "ustring list \<Rightarrow> ustring" where
  "xmlText nodes = (case nodes of [] \<Rightarrow> [] | x # _ \<Rightarrow> x)"

text \<open>The server: whether the details of a path answer with success, and the artifact at a path (\<^term>\<open>Inr None\<close> for a
  failed status); \<^term>\<open>Inl\<close> for a request that throws.\<close>

record maven_server =
  ms_details :: "ustring \<Rightarrow> unit + bool"
  ms_artifact :: "ustring \<Rightarrow> unit + xml_document option"

definition details_url :: "ustring \<Rightarrow> ustring" where
  "details_url p = ustr ''/api/repositories/details'' @ p"

definition metadata_document :: "maven_server \<Rightarrow> ustring \<Rightarrow> ustring \<Rightarrow> unit + coordinates option" where
  "metadata_document srv metadataPath version =
     and_then (ms_artifact srv metadataPath) (\<lambda>doc.
       case doc of
         None \<Rightarrow> Inr None
       | Some d \<Rightarrow>
           if xd_parsererror d then Inr None
           else let g = xmlText (xd_groupId d); a = xmlText (xd_artifactId d);
                    v = (if version = [] then (if xd_version d = [] then [] else last (xd_version d)) else version)
                in Inr (if g \<noteq> [] \<and> a \<noteq> [] \<and> v \<noteq> [] then Some \<lparr>co_groupId = g, co_artifactId = a, co_version = v\<rparr> else None))"

definition detectMavenCoordinates :: "maven_server \<Rightarrow> ustring \<Rightarrow> ustring list \<Rightarrow> coordinates option" where
  "detectMavenCoordinates srv path pathParts =
     (if length pathParts \<le> 3 then None
      else let directoryPath = (if endsWith path (ustr ''/'') then path else path @ ustr ''/'');
               metadataPath = directoryPath @ ustr ''maven-metadata.xml'';
               parentPath = ustr ''/'' @ js_join (ustr ''/'') (butlast pathParts) @ ustr ''/'' @ ustr ''maven-metadata.xml'';
               found = and_then (ms_details srv (details_url metadataPath)) (\<lambda>ok.
                 if ok then metadata_document srv metadataPath []
                 else and_then (ms_details srv (details_url parentPath)) (\<lambda>ok2.
                   if ok2 then metadata_document srv parentPath (last pathParts) else Inr None))
           in case found of Inl _ \<Rightarrow> None | Inr c \<Rightarrow> c)"

type_synonym snippet_table = "(string \<times> ustring) list"

definition artifact_snippets :: "coordinates \<Rightarrow> snippet_table" where
  "artifact_snippets c =
     (let g = co_groupId c; a = co_artifactId c; v = co_version c in
      [(''maven'', ustr ''<dependency>'' @ nl @ ustr ''  <groupId>'' @ g @ ustr ''</groupId>'' @ nl @ ustr ''  <artifactId>'' @ a
          @ ustr ''</artifactId>'' @ nl @ ustr ''  <version>'' @ v @ ustr ''</version>'' @ nl @ ustr ''</dependency>''),
       (''gradle-kotlin'', ustr ''implementation('' @ dq @ g @ ustr '':'' @ a @ ustr '':'' @ v @ dq @ ustr '')''),
       (''gradle-groovy'', ustr ''implementation '' @ sq @ g @ ustr '':'' @ a @ ustr '':'' @ v @ sq),
       (''sbt'', ustr ''libraryDependencies += '' @ dq @ g @ dq @ ustr '' % '' @ dq @ a @ dq @ ustr '' % '' @ dq @ v @ dq)])"

definition id_char :: "nat \<Rightarrow> nat" where
  "id_char c = (if 65 \<le> c \<and> c \<le> 90 then c + 32 else if (97 \<le> c \<and> c \<le> 122) \<or> (48 \<le> c \<and> c \<le> 57) \<or> c = 45 then c else 45)"

definition repository_snippets :: "site \<Rightarrow> ustring list \<Rightarrow> snippet_table option" where
  "repository_snippets st pathParts =
     map_option (\<lambda>repositoryPath.
       let repositoryURL = st_origin st @ repositoryPath;
           instanceName = (case st_title st of None \<Rightarrow> ustr ''Renop'' | Some x \<Rightarrow> utrim x);
           cleanName = map id_char instanceName;
           repositoryID = (case pathParts of [] \<Rightarrow> cleanName | p # _ \<Rightarrow> cleanName @ ustr ''-'' @ p);
           repositoryName = (case pathParts of [] \<Rightarrow> instanceName | p # _ \<Rightarrow> instanceName @ ustr '' - '' @ p)
       in [(''maven'', ustr ''<repository>'' @ nl @ ustr ''  <id>'' @ repositoryID @ ustr ''</id>'' @ nl @ ustr ''  <name>'' @ repositoryName
              @ ustr ''</name>'' @ nl @ ustr ''  <url>'' @ repositoryURL @ ustr ''</url>'' @ nl @ ustr ''</repository>''),
           (''gradle-kotlin'', ustr ''maven {'' @ nl @ ustr ''  url = uri('' @ dq @ repositoryURL @ dq @ ustr '')'' @ nl @ ustr ''}''),
           (''gradle-groovy'', ustr ''maven {'' @ nl @ ustr ''  url '' @ dq @ repositoryURL @ dq @ nl @ ustr ''}''),
           (''sbt'', ustr ''resolvers += '' @ dq @ repositoryName @ dq @ ustr '' at '' @ dq @ repositoryURL @ dq)])
       (case pathParts of [] \<Rightarrow> Some [] | p # _ \<Rightarrow> map_option (\<lambda>e. ustr ''/'' @ e) (encodeURIComponent p))"

definition buildMavenSnippets :: "site \<Rightarrow> maven_server \<Rightarrow> ustring \<Rightarrow> ustring list \<Rightarrow> (snippet_table \<times> bool) option" where
  "buildMavenSnippets st srv path pathParts =
     (case detectMavenCoordinates srv path pathParts of
        Some c \<Rightarrow> Some (artifact_snippets c, True)
      | None \<Rightarrow> map_option (\<lambda>s. (s, False)) (repository_snippets st pathParts))"

definition buildCargoSnippets :: "site \<Rightarrow> ustring \<Rightarrow> snippet_table option" where
  "buildCargoSnippets st repositoryName =
     map_option (\<lambda>encodedName.
       let sparseURL = ustr ''sparse+'' @ st_origin st @ ustr ''/'' @ encodedName @ ustr ''/''
       in [(''cargo-registry'', ustr ''[registries.'' @ repositoryName @ ustr '']'' @ nl @ ustr ''index = '' @ dq @ sparseURL @ dq),
           (''cargo-source'', ustr ''[source.crates-io]'' @ nl @ ustr ''replace-with = '' @ dq @ repositoryName @ dq @ nl @ nl
              @ ustr ''[source.'' @ repositoryName @ ustr '']'' @ nl @ ustr ''registry = '' @ dq @ sparseURL @ dq),
           (''cargo-login'', ustr ''cargo login --registry '' @ repositoryName),
           (''cargo-publish'', ustr ''cargo publish --registry '' @ repositoryName)])
       (encodeURIComponent repositoryName)"

definition buildDockerSnippets :: "site \<Rightarrow> ustring \<Rightarrow> snippet_table" where
  "buildDockerSnippets st repositoryName =
     (let pre = st_host st @ ustr ''/'' @ repositoryName
      in [(''docker-pull'', ustr ''docker pull '' @ pre @ ustr ''/<image>:<tag>''),
          (''docker-tag'', ustr ''docker tag <source-image>:<tag> '' @ pre @ ustr ''/<image>:<tag>''),
          (''docker-push'', ustr ''docker push '' @ pre @ ustr ''/<image>:<tag>''),
          (''docker-login'', ustr ''docker login '' @ st_host st)])"

definition buildNPMSnippets :: "site \<Rightarrow> ustring \<Rightarrow> snippet_table option" where
  "buildNPMSnippets st repositoryName =
     map_option (\<lambda>encodedName.
       let registryURL = st_origin st @ ustr ''/'' @ encodedName @ ustr ''/'';
           authPath = st_host st @ ustr ''/'' @ encodedName @ ustr ''/''
       in [(''npm-config'', ustr ''npm config set registry '' @ registryURL @ nl @ ustr ''npm config set //'' @ authPath @ ustr '':_authToken <API_TOKEN>''),
           (''npm-install'', ustr ''npm install <package> --registry '' @ registryURL),
           (''npm-publish'', ustr ''npm publish --registry '' @ registryURL)])
       (encodeURIComponent repositoryName)"

text \<open>\<^verbatim>\<open>snippetTabLabel\<close>: a product name or a translated key.\<close>

definition snippetTabLabel :: "(string \<Rightarrow> string) \<Rightarrow> string \<Rightarrow> string" where
  "snippetTabLabel t type =
     (if type = ''gradle-kotlin'' then ''Gradle Kotlin''
      else if type = ''gradle-groovy'' then ''Gradle Groovy''
      else if type = ''sbt'' then ''SBT''
      else if type = ''cargo-registry'' then t ''details.cargoRegistryTab''
      else if type = ''cargo-source'' then t ''details.cargoSourceTab''
      else if type = ''cargo-login'' then t ''details.cargoLoginTab''
      else if type = ''cargo-publish'' then t ''details.cargoPublishTab''
      else if type = ''docker-pull'' then t ''details.dockerPullTab''
      else if type = ''docker-tag'' then t ''details.dockerTagTab''
      else if type = ''docker-push'' then t ''details.dockerPushTab''
      else if type = ''docker-login'' then t ''details.dockerLoginTab''
      else if type = ''npm-config'' then t ''details.npmConfigTab''
      else if type = ''npm-install'' then t ''details.npmInstallTab''
      else if type = ''npm-publish'' then t ''details.npmPublishTab''
      else ''Maven'')"

section \<open>The snippet card\<close>

text \<open>
  The contract between the catalog and a snippet builder: one non-empty snippet for every tab of the format, in order.
\<close>

locale snippet_builder =
  fixes tabs :: "string list" and built :: "snippet_table \<Rightarrow> bool"
  assumes tabs_nonempty: "tabs \<noteq> []"
    and tabs_distinct: "distinct tabs"
    and keys: "built s \<Longrightarrow> map fst s = tabs"
    and texts: "built s \<Longrightarrow> list_all (\<lambda>(k, v). v \<noteq> []) s"
begin

lemma first_code: "built s \<Longrightarrow> map_of s (hd tabs) = Some (snd (hd s)) \<and> snd (hd s) \<noteq> []"
  using keys [of s] texts [of s] tabs_nonempty by (cases s) auto

lemma built_ok: "built s \<Longrightarrow> tabs \<noteq> [] \<and> distinct tabs \<and> map fst s = tabs \<and> list_all (\<lambda>(k, v). v \<noteq> []) s"
  using keys texts tabs_nonempty tabs_distinct by blast

lemma every_tab: "built s \<Longrightarrow> k \<in> set tabs \<Longrightarrow> \<exists>v. map_of s k = Some v \<and> v \<noteq> []"
  using keys [of s] texts [of s] map_of_eq_None_iff [of s k] by (cases "map_of s k") (force simp: list_all_iff dest: map_of_SomeD)+

end

interpretation cargo: snippet_builder "rf_snippetTabs cargo_format" "\<lambda>s. \<exists>st n. buildCargoSnippets st n = Some s"
  by unfold_locales (auto simp: cargo_format_def buildCargoSnippets_def Let_def ustr_def)

interpretation docker: snippet_builder "rf_snippetTabs docker_format" "\<lambda>s. \<exists>st n. s = buildDockerSnippets st n"
  by unfold_locales (auto simp: docker_format_def buildDockerSnippets_def Let_def ustr_def)

interpretation npm: snippet_builder "rf_snippetTabs npm_format" "\<lambda>s. \<exists>st n. buildNPMSnippets st n = Some s"
  by unfold_locales (auto simp: npm_format_def buildNPMSnippets_def Let_def ustr_def)

interpretation maven: snippet_builder "rf_snippetTabs maven_format" "\<lambda>s. \<exists>st srv path parts b. buildMavenSnippets st srv path parts = Some (s, b)"
  by unfold_locales
    (auto simp: maven_format_def buildMavenSnippets_def artifact_snippets_def repository_snippets_def Let_def ustr_def split: option.splits)

section \<open>Updating the card\<close>

text \<open>\<^verbatim>\<open>AwaitMaven\<close> keeps the tabs of the format, \<^term>\<open>None\<close> for an inherited catalog member, which has none.\<close>

datatype snippet_stage = AwaitDetails | AwaitMaven "string list option"

record snippet_task =
  sk_sequence :: nat
  sk_path :: ustring
  sk_parts :: "ustring list"
  sk_stage :: snippet_stage

record snippet_view =
  sv_sequence :: nat
  sv_card :: bool
  sv_sidebar :: bool
  sv_current :: snippet_table
  sv_title :: string
  sv_subtitle :: string
  sv_tabs :: "string list"
  sv_active :: "string option"
  sv_code :: ustring
  sv_fade :: "string option"
  sv_tasks :: "snippet_task option list"
  sv_failed :: bool

definition code_of :: "snippet_table \<Rightarrow> string \<Rightarrow> ustring" where
  "code_of current k = (case map_of current k of None \<Rightarrow> [] | Some c \<Rightarrow> c)"

definition renderSnippetTabs :: "string list \<Rightarrow> snippet_view \<Rightarrow> snippet_view" where
  "renderSnippetTabs types v = v\<lparr>sv_tabs := types, sv_active := (case types of [] \<Rightarrow> None | k # _ \<Rightarrow> Some k)\<rparr>"

definition show_snippets :: "(string \<Rightarrow> string) \<Rightarrow> snippet_table \<Rightarrow> string \<Rightarrow> string \<Rightarrow> string list \<Rightarrow> snippet_view \<Rightarrow> snippet_view" where
  "show_snippets t s title subtitle types v =
     (let v1 = renderSnippetTabs types (v\<lparr>sv_current := s, sv_title := t title, sv_subtitle := t subtitle\<rparr>)
      in v1\<lparr>sv_code := (case types of [] \<Rightarrow> [] | k # _ \<Rightarrow> code_of s k)\<rparr>)"

definition show_built :: "(string \<Rightarrow> string) \<Rightarrow> snippet_table option \<Rightarrow> string \<Rightarrow> string \<Rightarrow> string list \<Rightarrow> snippet_view \<Rightarrow> snippet_view" where
  "show_built t built title subtitle types v =
     (case built of None \<Rightarrow> v\<lparr>sv_failed := True\<rparr> | Some s \<Rightarrow> show_snippets t s title subtitle types v)"

text \<open>\<^verbatim>\<open>updateSnippets\<close> after the details of the newest call are known: the new view, and the stage the call waits in if it
  goes on to the Maven metadata.\<close>

definition after_details ::
  "(string \<Rightarrow> string) \<Rightarrow> site \<Rightarrow> string option \<Rightarrow> ustring list \<Rightarrow> snippet_view \<Rightarrow> snippet_view \<times> snippet_stage option" where
  "after_details t st format parts v =
     (let f = getRepositoryFormat format; fid = format_id f; tabs = (case f of Inl _ \<Rightarrow> None | Inr g \<Rightarrow> Some (rf_snippetTabs g)); shown = v\<lparr>sv_card := True\<rparr>
      in if fid = Some ''files'' then (v\<lparr>sv_current := []\<rparr>, None)
         else if fid = Some ''cargo'' \<and> parts \<noteq> []
           then (show_built t (buildCargoSnippets st (hd parts)) ''details.cargoTitle'' ''details.cargoSubtitle'' (the tabs) shown, None)
         else if fid = Some ''docker'' \<and> parts \<noteq> []
           then (show_snippets t (buildDockerSnippets st (hd parts)) ''details.dockerTitle'' ''details.dockerSubtitle'' (the tabs) shown, None)
         else if fid = Some ''npm'' \<and> parts \<noteq> []
           then (show_built t (buildNPMSnippets st (hd parts)) ''details.npmTitle'' ''details.npmSubtitle'' (the tabs) shown, None)
         else (shown, Some (AwaitMaven tabs)))"

definition after_maven :: "(string \<Rightarrow> string) \<Rightarrow> (snippet_table \<times> bool) option \<Rightarrow> string list option \<Rightarrow> snippet_view \<Rightarrow> snippet_view" where
  "after_maven t built tabs v =
     (case built of
        None \<Rightarrow> v\<lparr>sv_failed := True\<rparr>
      | Some (s, artifact) \<Rightarrow>
          let title = (if artifact then ''details.artifactTitle'' else ''details.title'')
          in case tabs of
               Some types \<Rightarrow> show_snippets t s title ''details.subtitle'' types v
             | None \<Rightarrow> v\<lparr>sv_current := s, sv_title := t title, sv_subtitle := t ''details.subtitle'', sv_tabs := [], sv_active := None,
                           sv_failed := True\<rparr>)"

definition start_task :: "snippet_task \<Rightarrow> snippet_view \<Rightarrow> snippet_view" where
  "start_task tk v = v\<lparr>sv_tasks := sv_tasks v @ [Some tk]\<rparr>"

definition updateSnippets :: "(string \<Rightarrow> string) \<Rightarrow> site \<Rightarrow> ustring \<Rightarrow> bool \<Rightarrow> snippet_view \<Rightarrow> snippet_view" where
  "updateSnippets t st path has_promise v =
     (let parts = map decodePathSegment (path_parts path);
          v1 = v\<lparr>sv_sequence := sv_sequence v + 1, sv_failed := False, sv_card := False\<rparr>;
          tk = \<lparr>sk_sequence = sv_sequence v + 1, sk_path = path, sk_parts = parts, sk_stage = AwaitDetails\<rparr>
      in if parts = [] \<or> hd parts = ustr ''index.html'' then v1\<lparr>sv_sidebar := False\<rparr>
         else let v2 = v1\<lparr>sv_sidebar := True\<rparr>
              in if has_promise then start_task tk v2
                 else case after_details t st None parts v2 of
                     (v3, None) \<Rightarrow> v3
                   | (v3, Some stage) \<Rightarrow> start_task (tk\<lparr>sk_stage := stage\<rparr>) v3)"

definition put_task :: "nat \<Rightarrow> snippet_task option \<Rightarrow> snippet_view \<Rightarrow> snippet_view" where
  "put_task i tk v = v\<lparr>sv_tasks := (sv_tasks v)[i := tk]\<rparr>"

definition details_settled :: "(string \<Rightarrow> string) \<Rightarrow> site \<Rightarrow> nat \<Rightarrow> snippet_task \<Rightarrow> string option \<Rightarrow> snippet_view \<Rightarrow> snippet_view" where
  "details_settled t st i tk format v =
     (if sk_sequence tk \<noteq> sv_sequence v then put_task i None v
      else case after_details t st format (sk_parts tk) v of
          (u, None) \<Rightarrow> put_task i None u
        | (u, Some stage) \<Rightarrow> put_task i (Some (tk\<lparr>sk_stage := stage\<rparr>)) u)"

definition maven_settled :: "(string \<Rightarrow> string) \<Rightarrow> site \<Rightarrow> nat \<Rightarrow> snippet_task \<Rightarrow> string list option \<Rightarrow> maven_server \<Rightarrow> snippet_view \<Rightarrow> snippet_view" where
  "maven_settled t st i tk tabs srv v =
     put_task i None (if sk_sequence tk \<noteq> sv_sequence v then v
       else after_maven t (buildMavenSnippets st srv (sk_path tk) (sk_parts tk)) tabs v)"

definition handleSnippetTabClick :: "string \<Rightarrow> snippet_view \<Rightarrow> snippet_view" where
  "handleSnippetTabClick k v = v\<lparr>sv_active := Some k, sv_fade := Some k\<rparr>"

definition applySnippetChange :: "string \<Rightarrow> snippet_view \<Rightarrow> snippet_view" where
  "applySnippetChange k v = v\<lparr>sv_code := code_of (sv_current v) k, sv_fade := None\<rparr>"

datatype snippet_event =
    SnippetsRequested ustring bool
  | DetailsSettled nat "string option"
  | MavenSettled nat maven_server
  | TabClicked string
  | FadeFired

fun snippet_step :: "(string \<Rightarrow> string) \<Rightarrow> site \<Rightarrow> snippet_view \<Rightarrow> snippet_event \<Rightarrow> snippet_view option" where
  "snippet_step t st v (SnippetsRequested path has_promise) = Some (updateSnippets t st path has_promise v)"
| "snippet_step t st v (DetailsSettled i format) =
     (if i < length (sv_tasks v) then
        (case sv_tasks v ! i of
           None \<Rightarrow> None
         | Some tk \<Rightarrow> if sk_stage tk = AwaitDetails then Some (details_settled t st i tk format v) else None)
      else None)"
| "snippet_step t st v (MavenSettled i srv) =
     (if i < length (sv_tasks v) then
        (case sv_tasks v ! i of
           None \<Rightarrow> None
         | Some tk \<Rightarrow> (case sk_stage tk of AwaitDetails \<Rightarrow> None | AwaitMaven tabs \<Rightarrow> Some (maven_settled t st i tk tabs srv v)))
      else None)"
| "snippet_step t st v (TabClicked k) = (if k \<in> set (sv_tabs v) then Some (handleSnippetTabClick k v) else None)"
| "snippet_step t st v FadeFired = map_option (\<lambda>k. applySnippetChange k v) (sv_fade v)"

definition empty_view :: snippet_view where
  "empty_view = \<lparr>sv_sequence = 0, sv_card = False, sv_sidebar = True, sv_current = [], sv_title = [], sv_subtitle = [], sv_tabs = [],
     sv_active = None, sv_code = [], sv_fade = None, sv_tasks = [], sv_failed = False\<rparr>"

section \<open>Invariant\<close>

definition complete :: "snippet_view \<Rightarrow> bool" where
  "complete v \<longleftrightarrow> sv_tabs v \<noteq> [] \<and> distinct (sv_tabs v) \<and> map fst (sv_current v) = sv_tabs v
     \<and> list_all (\<lambda>(k, c). c \<noteq> []) (sv_current v)"

definition snippet_inv :: "snippet_view \<Rightarrow> bool" where
  "snippet_inv v \<longleftrightarrow> unique_tasks sk_sequence (sv_tasks v)
     \<and> (\<forall>tk. Some tk \<in> set (sv_tasks v) \<longrightarrow> sk_sequence tk \<le> sv_sequence v \<and> sk_parts tk \<noteq> []
          \<and> (\<forall>types. sk_stage tk = AwaitMaven (Some types) \<longrightarrow> types = rf_snippetTabs maven_format)
          \<and> (sk_sequence tk = sv_sequence v \<and> sk_stage tk = AwaitDetails \<longrightarrow> \<not> sv_card v))
     \<and> (sv_card v \<and> \<not> sv_failed v \<and> (\<forall>tk. Some tk \<in> set (sv_tasks v) \<longrightarrow> sk_sequence tk \<noteq> sv_sequence v) \<longrightarrow> complete v)"

lemma show_snippets_fields:
  "sv_sequence (show_snippets t s a b types v) = sv_sequence v" "sv_tasks (show_snippets t s a b types v) = sv_tasks v"
  "sv_current (show_snippets t s a b types v) = s" "sv_tabs (show_snippets t s a b types v) = types"
  "sv_card (show_snippets t s a b types v) = sv_card v" "sv_failed (show_snippets t s a b types v) = sv_failed v"
  "sv_code (show_snippets t s a b types v) = (case types of [] \<Rightarrow> [] | k # _ \<Rightarrow> code_of s k)"
  by (simp_all add: show_snippets_def renderSnippetTabs_def Let_def)

text \<open>A view that a builder of the format has filled is complete.\<close>

lemma filled_complete:
  assumes "tabs \<noteq> [] \<and> distinct tabs \<and> map fst s = tabs \<and> list_all (\<lambda>(k, v). v \<noteq> []) s"
  shows "complete (show_snippets t s a b tabs v)"
  using assms unfolding complete_def show_snippets_fields by simp

lemma cargo_complete: "buildCargoSnippets st n = Some s \<Longrightarrow> complete (show_snippets t s a b (rf_snippetTabs cargo_format) v)"
  by (rule filled_complete, rule cargo.built_ok) blast

lemma docker_complete: "complete (show_snippets t (buildDockerSnippets st n) a b (rf_snippetTabs docker_format) v)"
  by (rule filled_complete, rule docker.built_ok) blast

lemma npm_complete: "buildNPMSnippets st n = Some s \<Longrightarrow> complete (show_snippets t s a b (rf_snippetTabs npm_format) v)"
  by (rule filled_complete, rule npm.built_ok) blast

lemma maven_complete:
  "buildMavenSnippets st srv path parts = Some (s, art) \<Longrightarrow> complete (show_snippets t s a b (rf_snippetTabs maven_format) v)"
  by (rule filled_complete, rule maven.built_ok) blast

lemma format_ids: "rf_id maven_format = ''maven''" "rf_id maven_classic_format = ''maven-classic''" "rf_id files_format = ''files''"
  "rf_id cargo_format = ''cargo''" "rf_id docker_format = ''docker''" "rf_id npm_format = ''npm''"
  "rf_snippetTabs maven_classic_format = rf_snippetTabs maven_format"
  by (simp_all add: maven_format_def maven_classic_format_def files_format_def cargo_format_def docker_format_def npm_format_def)

lemma catalog_by_id:
  assumes "getRepositoryFormat format = Inr f"
  shows "f = files_format \<or> f = cargo_format \<or> f = docker_format \<or> f = npm_format
    \<or> rf_id f \<notin> {''files'', ''cargo'', ''docker'', ''npm''} \<and> rf_snippetTabs f = rf_snippetTabs maven_format"
proof -
  have "f \<in> set (map snd FORMAT_CATALOG)" using getRepositoryFormat_cases [of format] assms by auto
  then have "f = maven_format \<or> f = maven_classic_format \<or> f = files_format \<or> f = cargo_format \<or> f = docker_format \<or> f = npm_format"
    by (simp add: FORMAT_CATALOG_def)
  then show ?thesis by (elim disjE) (simp_all add: format_ids)
qed

lemma after_details_spec:
  assumes "after_details t st format parts v = (u, next)" "parts \<noteq> []"
  shows "sv_sequence u = sv_sequence v \<and> sv_tasks u = sv_tasks v
    \<and> (case next of
         None \<Rightarrow> sv_card u = sv_card v \<or> sv_failed u \<or> complete u
       | Some stage \<Rightarrow> \<exists>tabs. stage = AwaitMaven tabs \<and> (tabs = None \<or> tabs = Some (rf_snippetTabs maven_format)))"
proof (cases "getRepositoryFormat format")
  case (Inl m)
  with assms show ?thesis by (auto simp: after_details_def format_id_def Let_def)
next
  case (Inr f)
  note eval = after_details_def format_id_def Let_def show_built_def show_snippets_fields format_ids Inr
  from catalog_by_id [OF Inr] show ?thesis
  proof (elim disjE)
    assume "f = cargo_format"
    with assms show ?thesis by (auto simp: eval cargo_complete split: option.splits)
  next
    assume "f = npm_format"
    with assms show ?thesis by (auto simp: eval npm_complete split: option.splits)
  next
    assume "f = docker_format"
    with assms show ?thesis by (auto simp: eval docker_complete)
  next
    assume "f = files_format"
    with assms show ?thesis by (auto simp: eval)
  next
    assume "rf_id f \<notin> {''files'', ''cargo'', ''docker'', ''npm''} \<and> rf_snippetTabs f = rf_snippetTabs maven_format"
    with assms show ?thesis by (auto simp: eval)
  qed
qed

lemma complete_tasks [simp]: "complete (v\<lparr>sv_tasks := ts\<rparr>) = complete v"
  by (simp add: complete_def)

lemma end_newest:
  assumes inv: "snippet_inv v" and i: "i < length (sv_tasks v)" "sv_tasks v ! i = Some tk" "sk_sequence tk = sv_sequence v"
    and u: "sv_tasks u = sv_tasks v" "sv_sequence u = sv_sequence v" "\<not> sv_card u \<or> sv_failed u \<or> complete u"
  shows "snippet_inv (put_task i None u)"
proof -
  have un: "unique_tasks sk_sequence (sv_tasks v)" using inv by (simp add: snippet_inv_def)
  note gone = ended_task [OF un i(1,2)]
  show ?thesis
    using inv u i(3) unique_tasks_end [OF un, of i] gone by (auto simp: snippet_inv_def put_task_def)
qed

lemma end_stale:
  assumes inv: "snippet_inv v" and i: "i < length (sv_tasks v)" "sv_tasks v ! i = Some tk" "sk_sequence tk \<noteq> sv_sequence v"
  shows "snippet_inv (put_task i None v)"
proof -
  have un: "unique_tasks sk_sequence (sv_tasks v)" using inv by (simp add: snippet_inv_def)
  note gone = ended_task [OF un i(1,2)]
  show ?thesis
    using inv i(3) unique_tasks_end [OF un, of i] gone by (auto simp: snippet_inv_def put_task_def)
qed

lemma wait_maven:
  assumes inv: "snippet_inv v" and i: "i < length (sv_tasks v)" "sv_tasks v ! i = Some tk" "sk_sequence tk = sv_sequence v"
    and u: "sv_tasks u = sv_tasks v" "sv_sequence u = sv_sequence v"
    and tabs: "tabs = None \<or> tabs = Some (rf_snippetTabs maven_format)"
  shows "snippet_inv (put_task i (Some (tk\<lparr>sk_stage := AwaitMaven tabs\<rparr>)) u)"
proof -
  let ?tk = "tk\<lparr>sk_stage := AwaitMaven tabs\<rparr>"
  have un: "unique_tasks sk_sequence (sv_tasks v)" using inv by (simp add: snippet_inv_def)
  have move: "unique_tasks sk_sequence ((sv_tasks v)[i := Some ?tk])" by (rule unique_tasks_move [OF un i(1,2)]) simp
  have here: "Some ?tk \<in> set ((sv_tasks v)[i := Some ?tk])" using i(1) by (rule set_update_memI)
  have split: "a = ?tk \<or> Some a \<in> set (sv_tasks v) \<and> sk_sequence a \<noteq> sk_sequence tk" if k: "Some a \<in> set ((sv_tasks v)[i := Some ?tk])" for a
  proof -
    from k obtain j where j: "j < length (sv_tasks v)" "(sv_tasks v)[i := Some ?tk] ! j = Some a" by (auto simp: in_set_conv_nth)
    show ?thesis
    proof (cases "j = i")
      case True
      with j show ?thesis by simp
    next
      case False
      with j have "(sv_tasks v)[i := None] ! j = Some a" by simp
      with j(1) have "Some a \<in> set ((sv_tasks v)[i := None])" by (metis length_list_update nth_mem)
      then show ?thesis using ended_task [OF un i(1,2)] by blast
    qed
  qed
  have parts: "sk_parts tk \<noteq> []" using inv i by (metis nth_mem snippet_inv_def)
  have each: "sk_sequence a \<le> sv_sequence v \<and> sk_parts a \<noteq> [] \<and> (\<forall>types. sk_stage a = AwaitMaven (Some types) \<longrightarrow> types = rf_snippetTabs maven_format)
      \<and> (sk_sequence a = sv_sequence v \<longrightarrow> sk_stage a \<noteq> AwaitDetails)" if "Some a \<in> set ((sv_tasks v)[i := Some ?tk])" for a
    using split [OF that]
  proof
    assume "a = ?tk"
    with i(3) tabs parts show ?thesis by auto
  next
    assume "Some a \<in> set (sv_tasks v) \<and> sk_sequence a \<noteq> sk_sequence tk"
    with inv i(3) show ?thesis by (auto simp: snippet_inv_def)
  qed
  have "\<exists>a. Some a \<in> set ((sv_tasks v)[i := Some ?tk]) \<and> sk_sequence a = sv_sequence v" using here i(3) by force
  then show ?thesis unfolding snippet_inv_def using each move u by (auto simp: put_task_def)
qed

lemma started_inv:
  assumes old: "\<And>a. Some a \<in> set (sv_tasks u) \<Longrightarrow> sk_sequence a < sv_sequence u \<and> sk_parts a \<noteq> [] \<and> (\<forall>types. sk_stage a = AwaitMaven (Some types) \<longrightarrow> types = rf_snippetTabs maven_format)"
    and un: "unique_tasks sk_sequence (sv_tasks u)" and tk: "sk_sequence tk = sv_sequence u" "sk_parts tk \<noteq> []"
    and stage: "sk_stage tk = AwaitDetails \<and> \<not> sv_card u \<or> (\<exists>tabs. sk_stage tk = AwaitMaven tabs \<and> (tabs = None \<or> tabs = Some (rf_snippetTabs maven_format)))"
  shows "snippet_inv (start_task tk u)"
proof -
  have "sk_sequence a \<noteq> sk_sequence tk" if "Some a \<in> set (sv_tasks u)" for a using old [OF that] tk by simp
  then have "unique_tasks sk_sequence (sv_tasks u @ [Some tk])" by (rule unique_tasks_start [OF un])
  then show ?thesis using old tk stage by (fastforce simp: snippet_inv_def start_task_def)
qed

lemma quiet_started_inv:
  assumes old: "\<And>a. Some a \<in> set (sv_tasks u) \<Longrightarrow> sk_sequence a < sv_sequence u \<and> sk_parts a \<noteq> [] \<and> (\<forall>types. sk_stage a = AwaitMaven (Some types) \<longrightarrow> types = rf_snippetTabs maven_format)"
    and un: "unique_tasks sk_sequence (sv_tasks u)" and shown: "\<not> sv_card u \<or> sv_failed u \<or> complete u"
  shows "snippet_inv u"
  using assms by (fastforce simp: snippet_inv_def)

lemma updateSnippets_inv: "snippet_inv v \<Longrightarrow> snippet_inv (updateSnippets t st path has_promise v)"
proof -
  assume inv: "snippet_inv v"
  let ?parts = "map decodePathSegment (path_parts path)"
  define v1 where "v1 = v\<lparr>sv_sequence := sv_sequence v + 1, sv_failed := False, sv_card := False\<rparr>"
  define tk where "tk = \<lparr>sk_sequence = sv_sequence v + 1, sk_path = path, sk_parts = ?parts, sk_stage = AwaitDetails\<rparr>"
  have old: "sk_sequence a < sv_sequence v + 1 \<and> sk_parts a \<noteq> [] \<and> (\<forall>types. sk_stage a = AwaitMaven (Some types) \<longrightarrow> types = rf_snippetTabs maven_format)"
    if "Some a \<in> set (sv_tasks v)" for a using inv that by (auto simp: snippet_inv_def le_imp_less_Suc)
  have un: "unique_tasks sk_sequence (sv_tasks v)" using inv by (simp add: snippet_inv_def)
  obtain u nxt where ad: "after_details t st None ?parts (v1\<lparr>sv_sidebar := True\<rparr>) = (u, nxt)" by (metis surj_pair)
  have root: "snippet_inv (v1\<lparr>sv_sidebar := False\<rparr>)"
    using old un by (intro quiet_started_inv) (auto simp: v1_def)
  have promised: "snippet_inv (start_task tk (v1\<lparr>sv_sidebar := True\<rparr>))" if "?parts \<noteq> []"
    using old un that by (intro started_inv) (auto simp: v1_def tk_def)
  have direct: "snippet_inv (case nxt of None \<Rightarrow> u | Some stage \<Rightarrow> start_task (tk\<lparr>sk_stage := stage\<rparr>) u)" if "?parts \<noteq> []"
  proof (cases nxt)
    case None
    then show ?thesis
      using after_details_spec [OF ad that] old un by (auto intro!: quiet_started_inv simp: v1_def)
  next
    case (Some stage)
    then show ?thesis
      using after_details_spec [OF ad that] old un that by (auto intro!: started_inv simp: v1_def tk_def)
  qed
  show ?thesis
    using root promised direct ad unfolding updateSnippets_def Let_def v1_def [symmetric] tk_def [symmetric]
    by (auto split: option.splits)
qed

lemma details_settled_inv:
  assumes inv: "snippet_inv v" and i: "i < length (sv_tasks v)" "sv_tasks v ! i = Some tk" "sk_stage tk = AwaitDetails"
  shows "snippet_inv (details_settled t st i tk format v)"
proof (cases "sk_sequence tk = sv_sequence v")
  case True
  obtain u nxt where ad: "after_details t st format (sk_parts tk) v = (u, nxt)" by (metis surj_pair)
  have "\<not> sv_card v" using inv i True by (metis nth_mem snippet_inv_def)
  have parts: "sk_parts tk \<noteq> []" using inv i by (metis nth_mem snippet_inv_def)
  with \<open>\<not> sv_card v\<close> show ?thesis
    using after_details_spec [OF ad parts] True inv i ad
    by (cases nxt) (auto simp: details_settled_def intro!: end_newest wait_maven)
qed (use inv i end_stale in \<open>simp add: details_settled_def\<close>)

lemma maven_settled_inv:
  assumes inv: "snippet_inv v" and i: "i < length (sv_tasks v)" "sv_tasks v ! i = Some tk" "sk_stage tk = AwaitMaven tabs"
  shows "snippet_inv (maven_settled t st i tk tabs srv v)"
proof (cases "sk_sequence tk = sv_sequence v")
  case True
  have tabs: "tabs = None \<or> tabs = Some (rf_snippetTabs maven_format)"
    using inv i by (cases tabs) (auto simp: snippet_inv_def dest!: nth_mem)
  let ?u = "after_maven t (buildMavenSnippets st srv (sk_path tk) (sk_parts tk)) tabs v"
  have "sv_tasks ?u = sv_tasks v \<and> sv_sequence ?u = sv_sequence v \<and> (\<not> sv_card ?u \<or> sv_failed ?u \<or> complete ?u)"
    using tabs by (auto simp: after_maven_def Let_def show_snippets_fields maven_complete split: option.splits)
  with inv i True show ?thesis by (auto simp: maven_settled_def intro!: end_newest)
qed (use inv i end_stale in \<open>simp add: maven_settled_def\<close>)

lemma tab_inv: "snippet_inv v \<Longrightarrow> snippet_inv (handleSnippetTabClick k v)" "snippet_inv v \<Longrightarrow> snippet_inv (applySnippetChange k v)"
  by (auto simp: snippet_inv_def handleSnippetTabClick_def applySnippetChange_def complete_def)

lemma snippet_step_inv: "snippet_inv v \<Longrightarrow> snippet_step t st v e = Some u \<Longrightarrow> snippet_inv u"
  by (cases e) (auto split: if_splits option.splits snippet_stage.splits
      intro: updateSnippets_inv details_settled_inv maven_settled_inv tab_inv)

interpretation snippet_card: machine_invariant "snippet_step t st" snippet_inv for t st
  by unfold_locales (rule snippet_step_inv)

lemma empty_view_inv: "snippet_inv empty_view"
  by (simp add: snippet_inv_def empty_view_def unique_tasks_def)

lemma complete_code: "complete v \<Longrightarrow> k \<in> set (sv_tabs v) \<Longrightarrow> code_of (sv_current v) k \<noteq> []"
proof -
  assume c: "complete v" "k \<in> set (sv_tabs v)"
  then have "k \<in> fst ` set (sv_current v)" unfolding complete_def by (metis set_map)
  then obtain x where x: "map_of (sv_current v) k = Some x" by (cases "map_of (sv_current v) k") (auto simp: map_of_eq_None_iff)
  then have "x \<noteq> []" using c(1) by (auto simp: complete_def list_all_iff dest!: map_of_SomeD)
  with x show ?thesis by (simp add: code_of_def)
qed

section \<open>Properties\<close>


definition example_site :: site where
  "example_site = \<lparr>st_origin = ustr ''https://r'', st_host = ustr ''r'', st_title = None\<rparr>"

definition docker_view :: snippet_view where
  "docker_view = \<lparr>sv_sequence = 1, sv_card = True, sv_sidebar = True, sv_current = buildDockerSnippets example_site (ustr ''i''),
     sv_title = ''details.dockerTitle'', sv_subtitle = ''details.dockerSubtitle'', sv_tabs = rf_snippetTabs docker_format,
     sv_active = Some ''docker-pull'', sv_code = code_of (buildDockerSnippets example_site (ustr ''i'')) ''docker-pull'', sv_fade = None,
     sv_tasks = [None], sv_failed = False\<rparr>"

lemma example_paths: "map decodePathSegment (path_parts (ustr ''/i'')) = [ustr ''i'']" "map decodePathSegment (path_parts (ustr ''/c'')) = [ustr ''c'']"
  "ustr ''i'' \<noteq> ustr ''index.html''" "ustr ''c'' \<noteq> ustr ''index.html''"
  by code_simp+

lemma example_formats: "getRepositoryFormat (Some ''docker'') = Inr docker_format" "getRepositoryFormat (Some ''cargo'') = Inr cargo_format"
proof -
  have "toLowerCase (trim ''docker'') = ''docker''" "toLowerCase (trim ''cargo'') = ''cargo''" by code_simp+
  then show "getRepositoryFormat (Some ''docker'') = Inr docker_format" "getRepositoryFormat (Some ''cargo'') = Inr cargo_format"
    by (simp_all add: getRepositoryFormat_def opt_or_def str_or_def FORMAT_CATALOG_def)
qed

lemma example_tabs: "rf_snippetTabs docker_format = [''docker-pull'', ''docker-tag'', ''docker-push'', ''docker-login'']"
  "rf_snippetTabs cargo_format = [''cargo-registry'', ''cargo-source'', ''cargo-login'', ''cargo-publish'']"
  by (simp_all add: docker_format_def cargo_format_def)

lemmas snippet_eval = updateSnippets_def example_paths start_task_def details_settled_def put_task_def after_details_def example_formats
  format_id_def format_ids Let_def show_snippets_def renderSnippetTabs_def example_tabs

lemma docker_run: "run_events (snippet_step id example_site) empty_view [SnippetsRequested (ustr ''/i'') True, DetailsSettled 0 (Some ''docker'')] = Some docker_view"
  by (simp add: snippet_eval empty_view_def docker_view_def)


text \<open>A click that is still fading when the card changes to another format blanks the code of the new card: its timer is not
  cleared by \<^verbatim>\<open>updateSnippets\<close>.\<close>

lemma stale_fade_blanks_code:
  "\<exists>v. run_events (snippet_step id example_site) docker_view
       [TabClicked ''docker-tag'', SnippetsRequested (ustr ''/c'') True, DetailsSettled 1 (Some ''cargo''), FadeFired] = Some v
     \<and> sv_card v \<and> \<not> sv_failed v \<and> sv_active v = Some ''cargo-registry'' \<and> sv_code v = []"
proof -
  obtain s where s: "buildCargoSnippets example_site (ustr ''c'') = Some s"
    using encode_component_total [of "''c''"] by (auto simp: buildCargoSnippets_def Let_def)
  then have "map fst s = rf_snippetTabs cargo_format" by (intro cargo.keys) blast
  then have "fst ` set s = set (rf_snippetTabs cargo_format)" by (metis set_map)
  then have "map_of s ''docker-tag'' = None" by (simp add: map_of_eq_None_iff example_tabs)
  with s show ?thesis
    by (simp add: snippet_eval docker_view_def handleSnippetTabClick_def applySnippetChange_def show_built_def code_of_def)
qed

end
