(* ===== verification/Pagination.thy ===== *)
theory Pagination
  imports Event_Machine Repository_Formats
begin

text \<open>
  In-memory pagination (\<^verbatim>\<open>packages/renop-ui/js/pagination.js\<close>): the clamped page, the pager and the collection
  controller as a machine over its two operations. The abstract view of a paginated list is the list of its pages; both
  this controller and \<^verbatim>\<open>paginateRepositoryNames\<close> show one of them.

  Page numbers are integers or not a number (\<^term>\<open>None\<close>). The animation of a page change is left out: a render shows
  the state at its time.
\<close>

section \<open>Pages\<close>

definition page_count :: "nat \<Rightarrow> nat \<Rightarrow> nat" where
  "page_count totalItems pageSize = max 1 (ceil_div totalItems (max 1 pageSize))"

definition clampCollectionPage :: "js_number \<Rightarrow> nat \<Rightarrow> nat \<Rightarrow> nat" where
  "clampCollectionPage page totalItems pageSize = nat (max 0 (min (num_or_zero page) (int (page_count totalItems pageSize) - 1)))"

record pager_view =
  pg_previous_disabled :: bool
  pg_next_disabled :: bool
  pg_status :: string

text \<open>\<^verbatim>\<open>createCollectionPager\<close>, with the formatter of its summary as a parameter.\<close>

definition createCollectionPager :: "(nat \<Rightarrow> nat \<Rightarrow> nat \<Rightarrow> string) \<Rightarrow> nat \<Rightarrow> nat \<Rightarrow> nat \<Rightarrow> pager_view option" where
  "createCollectionPager summary page totalItems pageSize =
     (let pages = max 1 (ceil_div totalItems pageSize)
      in if pages \<le> 1 then None
         else Some \<lparr>pg_previous_disabled = (page = 0), pg_next_disabled = (pages - 1 \<le> page), pg_status = summary (page + 1) pages totalItems\<rparr>)"

record ('a, 'n) collection_options =
  op_pageSize :: js_number
  op_initialPage :: js_number
  op_renderItem :: "'a \<Rightarrow> nat \<Rightarrow> 'n option"
  op_renderEmpty :: "'n option option"
  op_summary :: "nat \<Rightarrow> nat \<Rightarrow> nat \<Rightarrow> string"

record ('a, 'n) collection =
  cn_items :: "'a list"
  cn_size :: nat
  cn_page :: nat
  cn_nodes :: "'n list"
  cn_pager :: "pager_view option"
  cn_notified :: "nat list"

definition boundedPageSize :: "js_number \<Rightarrow> nat" where
  "boundedPageSize pageSize = nat (max 1 (min 100 (num_or pageSize 8)))"

definition replacePage :: "('a, 'n) collection_options \<Rightarrow> ('a, 'n) collection \<Rightarrow> ('a, 'n) collection" where
  "replacePage opts c =
     (let start = cn_page c * cn_size c;
          pageItems = slice (cn_items c) start (start + cn_size c);
          nodes = List.map_filter (\<lambda>(item, index). op_renderItem opts item (start + index)) (zip pageItems [0..<length pageItems]);
          filled = (if nodes = [] then (case op_renderEmpty opts of Some (Some e) \<Rightarrow> [e] | _ \<Rightarrow> nodes) else nodes)
      in c\<lparr>cn_nodes := filled, cn_pager := createCollectionPager (op_summary opts) (cn_page c) (length (cn_items c)) (cn_size c)\<rparr>)"

definition setPage :: "('a, 'n) collection_options \<Rightarrow> js_number \<Rightarrow> ('a, 'n) collection \<Rightarrow> ('a, 'n) collection" where
  "setPage opts page c =
     (let nextPage = clampCollectionPage page (length (cn_items c)) (cn_size c)
      in if nextPage = cn_page c then c
         else replacePage opts (c\<lparr>cn_page := nextPage, cn_notified := nextPage # cn_notified c\<rparr>))"

definition setItems :: "('a, 'n) collection_options \<Rightarrow> 'a list option \<Rightarrow> bool \<Rightarrow> ('a, 'n) collection \<Rightarrow> ('a, 'n) collection" where
  "setItems opts nextItems preservePage c =
     (let items = (case nextItems of None \<Rightarrow> [] | Some xs \<Rightarrow> xs);
          page = clampCollectionPage (Some (if preservePage then int (cn_page c) else 0)) (length items) (cn_size c)
      in replacePage opts (c\<lparr>cn_items := items, cn_page := page, cn_notified := page # cn_notified c\<rparr>))"

definition createPaginatedCollection :: "('a, 'n) collection_options \<Rightarrow> 'a list option \<Rightarrow> ('a, 'n) collection" where
  "createPaginatedCollection opts items =
     (let xs = (case items of None \<Rightarrow> [] | Some ys \<Rightarrow> ys);
          s = boundedPageSize (op_pageSize opts);
          page = clampCollectionPage (op_initialPage opts) (length xs) s
      in replacePage opts \<lparr>cn_items = xs, cn_size = s, cn_page = page, cn_nodes = [], cn_pager = None, cn_notified = [page]\<rparr>)"

text \<open>The pager's buttons select the neighbouring page.\<close>

datatype 'a collection_event = PreviousClicked | NextClicked | PageSet js_number | ItemsSet "'a list option" bool

fun collection_step :: "('a, 'n) collection_options \<Rightarrow> ('a, 'n) collection \<Rightarrow> 'a collection_event \<Rightarrow> ('a, 'n) collection option" where
  "collection_step opts c PreviousClicked =
     (case cn_pager c of
        Some p \<Rightarrow> if pg_previous_disabled p then None else Some (setPage opts (Some (int (cn_page c) - 1)) c) | None \<Rightarrow> None)"
| "collection_step opts c NextClicked =
     (case cn_pager c of
        Some p \<Rightarrow> if pg_next_disabled p then None else Some (setPage opts (Some (int (cn_page c) + 1)) c) | None \<Rightarrow> None)"
| "collection_step opts c (PageSet page) = Some (setPage opts page c)"
| "collection_step opts c (ItemsSet items preserve) = Some (setItems opts items preserve c)"

section \<open>The abstract view\<close>

definition page_blocks :: "nat \<Rightarrow> 'a list \<Rightarrow> 'a list list" where
  "page_blocks n xs = map (\<lambda>i. slice xs (i * n) (i * n + n)) [0..<page_count (length xs) n]"

lemma slices_concat: "concat (map (\<lambda>i. slice xs (i * n) (i * n + n)) [0..<k]) = take (k * n) xs"
proof (induction k)
  case (Suc k)
  have "take (k * n) xs @ slice xs (k * n) (k * n + n) = take (k * n + n) xs"
    using slice_append [of 0 "k * n" "k * n + n" xs] by (simp add: slice_def)
  with Suc show ?case by (simp add: add.commute)
qed simp

lemma page_blocks_concat: "0 < n \<Longrightarrow> concat (page_blocks n xs) = xs"
proof -
  assume n: "0 < n"
  have "length xs \<le> ceil_div (length xs) n * n" by (rule ceil_div_upper [OF n])
  also have "\<dots> \<le> page_count (length xs) n * n" using n by (intro mult_le_mono1) (simp add: page_count_def max_def)
  finally show ?thesis unfolding page_blocks_def slices_concat by simp
qed

lemma page_blocks_length: "length (page_blocks n xs) = page_count (length xs) n"
  by (simp add: page_blocks_def)

lemma page_block: "i < page_count (length xs) n \<Longrightarrow> page_blocks n xs ! i = slice xs (i * n) (i * n + n)"
  by (simp add: page_blocks_def)

lemma page_block_full: "0 < n \<Longrightarrow> Suc i < page_count (length xs) n \<Longrightarrow> length (page_blocks n xs ! i) = n"
proof -
  assume n: "0 < n" and i: "Suc i < page_count (length xs) n"
  then have "Suc i < ceil_div (length xs) n" by (auto simp: page_count_def max_def split: if_splits)
  from ceil_div_lower [OF n this] show ?thesis using i by (simp add: page_block length_slice)
qed

lemma clamp_bound: "clampCollectionPage p tot n < page_count tot n"
  by (auto simp: clampCollectionPage_def page_count_def num_or_zero_def split: option.splits)

lemma clamp_id: "i < page_count tot n \<Longrightarrow> clampCollectionPage (Some (int i)) tot n = i"
  by (auto simp: clampCollectionPage_def num_or_zero_def)

definition collection_inv :: "('a, 'n) collection_options \<Rightarrow> ('a, 'n) collection \<Rightarrow> bool" where
  "collection_inv opts c \<longleftrightarrow> 1 \<le> cn_size c \<and> cn_size c \<le> 100 \<and> cn_page c < page_count (length (cn_items c)) (cn_size c)
     \<and> c = replacePage opts c \<and> cn_notified c \<noteq> [] \<and> hd (cn_notified c) = cn_page c"

lemma replacePage_idem: "replacePage opts (replacePage opts c) = replacePage opts c"
  by (simp add: replacePage_def Let_def)

lemma replacePage_fields: "cn_items (replacePage opts c) = cn_items c" "cn_size (replacePage opts c) = cn_size c" "cn_page (replacePage opts c) = cn_page c"
  "cn_notified (replacePage opts c) = cn_notified c"
  by (simp_all add: replacePage_def Let_def)

lemma setPage_inv: "collection_inv opts c \<Longrightarrow> collection_inv opts (setPage opts p c)"
  by (auto simp: collection_inv_def setPage_def Let_def replacePage_fields replacePage_idem clamp_bound)

lemma setItems_inv: "collection_inv opts c \<Longrightarrow> collection_inv opts (setItems opts xs b c)"
  by (auto simp: collection_inv_def setItems_def Let_def replacePage_fields replacePage_idem clamp_bound)

lemma collection_step_inv: "collection_inv opts c \<Longrightarrow> collection_step opts c e = Some d \<Longrightarrow> collection_inv opts d"
  by (cases e) (auto split: option.splits if_splits intro: setPage_inv setItems_inv)

interpretation paginated: machine_invariant "collection_step opts" "collection_inv opts" for opts
  by unfold_locales (rule collection_step_inv)

lemma created_inv: "collection_inv opts (createPaginatedCollection opts items)"
  by (auto simp: collection_inv_def createPaginatedCollection_def Let_def replacePage_fields replacePage_idem clamp_bound boundedPageSize_def)

section \<open>Refinement\<close>

text \<open>What the controller renders: the given rendering of exactly the items of its page, with their indices in the whole
  collection, or the empty state.\<close>

definition rendered :: "('a, 'n) collection_options \<Rightarrow> nat \<Rightarrow> 'a list \<Rightarrow> nat \<Rightarrow> 'n list" where
  "rendered opts n xs i =
     (let nodes = List.map_filter (\<lambda>(x, j). op_renderItem opts x (i * n + j)) (zip (page_blocks n xs ! i) [0..<length (page_blocks n xs ! i)])
      in if nodes = [] then (case op_renderEmpty opts of Some (Some e) \<Rightarrow> [e] | _ \<Rightarrow> nodes) else nodes)"

lemma replacePage_rendered:
  "cn_page c < page_count (length (cn_items c)) (cn_size c) \<Longrightarrow>
     cn_nodes (replacePage opts c) = rendered opts (cn_size c) (cn_items c) (cn_page c)"
  by (simp add: replacePage_def rendered_def Let_def page_block)

lemma inv_rendered: "collection_inv opts c \<Longrightarrow> cn_nodes c = rendered opts (cn_size c) (cn_items c) (cn_page c)"
  using replacePage_rendered [of c opts] by (simp add: collection_inv_def)

lemma inv_pager:
  "collection_inv opts c \<Longrightarrow> cn_pager c = createCollectionPager (op_summary opts) (cn_page c) (length (cn_items c)) (cn_size c)"
  by (metis (no_types, lifting) collection_inv_def collection.select_convs(5) collection.surjective collection.update_convs(4,5) replacePage_def)

lemma paginate_page:
  assumes "0 < n"
  shows "np_names (paginateRepositoryNames (Some xs) (Some (int p)) (Some (int n))) = page_blocks n xs ! min p (page_count (length xs) n - 1)"
    "np_pages (paginateRepositoryNames (Some xs) (Some (int p)) (Some (int n))) = page_count (length xs) n"
proof -
  have "max 1 (ceil_div (length xs) n) = page_count (length xs) n" using assms by (simp add: page_count_def max_def)
  moreover have "min p (page_count (length xs) n - 1) < page_count (length xs) n" by (simp add: page_count_def)
  ultimately show "np_names (paginateRepositoryNames (Some xs) (Some (int p)) (Some (int n))) = page_blocks n xs ! min p (page_count (length xs) n - 1)"
    "np_pages (paginateRepositoryNames (Some xs) (Some (int p)) (Some (int n))) = page_count (length xs) n"
    using assms by (simp_all add: paginateRepositoryNames_def Let_def page_block)
qed

lemma setPage_page: "cn_page (setPage opts p c) = clampCollectionPage p (length (cn_items c)) (cn_size c)"
  "cn_items (setPage opts p c) = cn_items c" "cn_size (setPage opts p c) = cn_size c"
  by (simp_all add: setPage_def Let_def replacePage_fields)

lemma pager_pages:
  assumes "collection_inv opts c"
  shows "cn_pager c = None \<longleftrightarrow> page_count (length (cn_items c)) (cn_size c) \<le> 1"
    "cn_pager c = Some p \<Longrightarrow> (pg_previous_disabled p \<longleftrightarrow> cn_page c = 0)
       \<and> (pg_next_disabled p \<longleftrightarrow> page_count (length (cn_items c)) (cn_size c) \<le> cn_page c + 1)"
proof -
  have "max 1 (ceil_div (length (cn_items c)) (cn_size c)) = page_count (length (cn_items c)) (cn_size c)"
    using assms by (simp add: page_count_def max_def collection_inv_def)
  then show "cn_pager c = None \<longleftrightarrow> page_count (length (cn_items c)) (cn_size c) \<le> 1"
    "cn_pager c = Some p \<Longrightarrow> (pg_previous_disabled p \<longleftrightarrow> cn_page c = 0)
       \<and> (pg_next_disabled p \<longleftrightarrow> page_count (length (cn_items c)) (cn_size c) \<le> cn_page c + 1)"
    by (auto simp: inv_pager [OF assms] createCollectionPager_def Let_def split: if_splits)
qed

text \<open>
  C25: the paginated collection implements the list of its pages. After any sequence of page and item changes, the pages
  concatenate to the current items and have at most the page size, the current page exists, and the rendered nodes are those of
  the current page; the pager is missing exactly if there is one page. The next button works exactly before the last page,
  moves one page on, and the previous button then returns to the same page and nodes. Setting any page number selects the nearest
  existing page. The repository list shows the same pages.
\<close>

theorem pagination_refines_pages:
  assumes "run_events (collection_step opts) (createPaginatedCollection opts items) es = Some c"
  shows "let bs = page_blocks (cn_size c) (cn_items c)
   in concat bs = cn_items c \<and> list_all (\<lambda>b. length b \<le> cn_size c) bs \<and> cn_page c < length bs
    \<and> cn_nodes c = rendered opts (cn_size c) (cn_items c) (cn_page c)
    \<and> (cn_pager c = None \<longleftrightarrow> length bs \<le> 1)
    \<and> (\<forall>q. cn_page (setPage opts (Some q) c) = nat (max 0 (min q (int (length bs) - 1))))
    \<and> (collection_step opts c NextClicked \<noteq> None \<longleftrightarrow> cn_page c + 1 < length bs)
    \<and> (\<forall>d. collection_step opts c NextClicked = Some d \<longrightarrow> cn_page d = cn_page c + 1
         \<and> (\<exists>b. collection_step opts d PreviousClicked = Some b \<and> cn_page b = cn_page c \<and> cn_nodes b = cn_nodes c))
    \<and> (\<forall>p. np_names (paginateRepositoryNames (Some (cn_items c)) (Some (int p)) (Some (int (cn_size c)))) = bs ! min p (length bs - 1))"
proof -
  let ?n = "page_count (length (cn_items c)) (cn_size c)"
  have inv: "collection_inv opts c" by (rule paginated.run_inv [OF assms created_inv])
  then have size: "0 < cn_size c" and page: "cn_page c < ?n" by (auto simp: collection_inv_def)
  have blocks: "list_all (\<lambda>b. length b \<le> cn_size c) (page_blocks (cn_size c) (cn_items c))"
    by (auto simp: page_blocks_def list_all_iff length_slice)
  have nxt: "collection_step opts c NextClicked \<noteq> None \<longleftrightarrow> cn_page c + 1 < ?n"
    using pager_pages [OF inv] page by (cases "cn_pager c") auto
  have return: "cn_page d = cn_page c + 1
         \<and> (\<exists>b. collection_step opts d PreviousClicked = Some b \<and> cn_page b = cn_page c \<and> cn_nodes b = cn_nodes c)"
    if d: "collection_step opts c NextClicked = Some d" for d
  proof -
    have more: "cn_page c + 1 < ?n" using nxt d by simp
    have d': "d = setPage opts (Some (int (cn_page c) + 1)) c" using d by (auto split: option.splits if_splits)
    have pd: "cn_page d = cn_page c + 1" using clamp_id [OF more] by (simp add: d' setPage_page add.commute)
    have inv_d: "collection_inv opts d" by (rule collection_step_inv [OF inv d])
    have same: "cn_items d = cn_items c" "cn_size d = cn_size c" by (simp_all add: d' setPage_page)
    obtain p where p: "cn_pager d = Some p" "\<not> pg_previous_disabled p"
      using pager_pages [OF inv_d] more pd same by (cases "cn_pager d") auto
    define b where "b = setPage opts (Some (int (cn_page d) - 1)) d"
    have "cn_page b = cn_page c" using clamp_id [OF page] by (simp add: b_def setPage_page same pd)
    moreover have "collection_inv opts b" unfolding b_def by (rule setPage_inv [OF inv_d])
    ultimately have "cn_nodes b = cn_nodes c" using inv_rendered [of opts b] inv_rendered [OF inv] by (simp add: b_def setPage_page same)
    with \<open>cn_page b = cn_page c\<close> p pd show ?thesis by (simp add: b_def)
  qed
  have pick: "\<forall>q. cn_page (setPage opts (Some q) c) = nat (max 0 (min q (int ?n - 1)))"
    by (simp add: setPage_page clampCollectionPage_def num_or_zero_def)
  have names: "\<forall>p. np_names (paginateRepositoryNames (Some (cn_items c)) (Some (int p)) (Some (int (cn_size c))))
      = page_blocks (cn_size c) (cn_items c) ! min p (?n - 1)"
    using paginate_page(1) [OF size] by blast
  show ?thesis
    unfolding Let_def page_blocks_length
    using page_blocks_concat [OF size] blocks page inv_rendered [OF inv] pager_pages(1) [OF inv] pick nxt return names by blast
qed

definition example_options :: "(nat, nat) collection_options" where
  "example_options = \<lparr>op_pageSize = Some 2, op_initialPage = None, op_renderItem = (\<lambda>x i. Some x), op_renderEmpty = None,
     op_summary = (\<lambda>p n tot. show_nat p)\<rparr>"

definition example_collection :: "(nat, nat) collection" where
  "example_collection = \<lparr>cn_items = [7, 8, 9], cn_size = 2, cn_page = 1, cn_nodes = [9],
     cn_pager = Some \<lparr>pg_previous_disabled = False, pg_next_disabled = True, pg_status = show_nat 2\<rparr>, cn_notified = [1, 0]\<rparr>"

lemma example_pages: "run_events (collection_step example_options) (createPaginatedCollection example_options (Some [7, 8, 9])) [NextClicked] = Some example_collection"
  by code_simp

theorem pagination_refines_pages_witness:
  "run_events (collection_step example_options) (createPaginatedCollection example_options (Some [7, 8, 9])) [NextClicked] = Some example_collection
    \<and> concat (page_blocks 2 [7, 8, 9]) = [7, 8, 9 :: nat] \<and> cn_nodes example_collection = rendered example_options 2 [7, 8, 9] 1"
  using pagination_refines_pages [OF example_pages] example_pages by (simp add: Let_def) (simp add: example_collection_def)

end
