(* ===== verification/Site_Router.thy ===== *)
theory Site_Router
  imports Event_Machine
begin

text \<open>
  The router of the public site (\<^verbatim>\<open>web/js/router.js\<close> with \<^verbatim>\<open>lib/doc-routes.js\<close> and the routes of \<^verbatim>\<open>main.js\<close>).

  A render waits at two points, the leave animation and the page handler; both are stages of one render, and a call during
  a render only marks another one as pending. What the page contains after its handler, and the cleanup it
  returns, are chosen by events; cleanups are numbered. \<^verbatim>\<open>view_of\<close> reads the view parameter of a query.
\<close>

section \<open>Routes\<close>

definition docURL :: "string \<Rightarrow> string" where
  "docURL slug = (if startsWith slug ''api/'' then ''/'' @ slug else ''/docs/'' @ slug)"

record location =
  lo_pathname :: string
  lo_search :: string
  lo_hash :: string

text \<open>\<^verbatim>\<open>canonicalPageURL\<close>, as the location it leads to.\<close>

definition canonicalPageURL :: "location \<Rightarrow> location" where
  "canonicalPageURL l =
     (let p = lo_pathname l
      in if p = ''/docs/api'' \<or> startsWith p ''/docs/api/'' then l\<lparr>lo_pathname := ''/api'' @ drop 9 p\<rparr> else l)"

datatype page_handler = RenderHome | RenderAPI | RenderDownload | RenderContributors | RenderDocs

definition routes :: "(string \<times> page_handler) list" where
  "routes = [(''/'', RenderHome), (''/api'', RenderAPI), (''/api/*'', RenderAPI), (''/download'', RenderDownload),
     (''/contributors'', RenderContributors), (''/docs'', RenderDocs), (''/docs/*'', RenderDocs)]"

definition normalize_path :: "string \<Rightarrow> string" where
  "normalize_path path =
     (let p = str_or path ''/''; q = (if startsWith p ''/'' then p else ''/'' @ p)
      in if 1 < length q \<and> endsWith q ''/'' then butlast q else q)"

text \<open>The params of a match: the splat, if the pattern has one.\<close>

fun find_route :: "string \<Rightarrow> (string \<times> page_handler) list \<Rightarrow> (page_handler \<times> string option) option" where
  "find_route p [] = None"
| "find_route p ((pattern, h) # rs) =
     (if pattern = p then Some (h, None)
      else if endsWith pattern ''/*'' then
        let pre = take (length pattern - 2) pattern
        in if p = pre then Some (h, Some [])
           else if startsWith p (pre @ ''/'') then Some (h, Some (drop (length pre + 1) p))
           else find_route p rs
      else find_route p rs)"

definition matchRoute :: "string \<Rightarrow> (page_handler \<times> string option) option" where
  "matchRoute path = find_route (normalize_path path) routes"

definition matched_route :: "string \<Rightarrow> (page_handler \<times> string option) option" where
  "matched_route path = (case matchRoute path of Some m \<Rightarrow> Some m | None \<Rightarrow> matchRoute ''/'')"

definition sectionKey :: "string \<Rightarrow> string" where
  "sectionKey path =
     (let p = normalize_path path
      in if p = ''/docs'' \<or> startsWith p ''/docs/'' then ''docs''
         else if p = ''/download'' then ''download''
         else if p = ''/api'' \<or> startsWith p ''/api/'' then ''api''
         else if p = ''/contributors'' then ''contributors''
         else if p = ''/'' then ''home''
         else p)"

section \<open>Rendering\<close>

record render_context =
  rx_location :: location
  rx_handler :: page_handler
  rx_splat :: "string option"
  rx_soft :: bool

datatype render_stage = Idle | Leaving render_context | Handling render_context

record router =
  ro_location :: location
  ro_stage :: render_stage
  ro_pending :: bool
  ro_first :: bool
  ro_previous :: "(string \<times> string option) option"
  ro_children :: bool
  ro_docs_layout :: bool
  ro_cleanup :: "nat option"
  ro_cleanups :: nat
  ro_cleaned :: "nat list"
  ro_handled :: "(page_handler \<times> string option \<times> bool) list"
  ro_rendered :: "location option"

definition rendering :: "router \<Rightarrow> bool" where
  "rendering r = (ro_stage r \<noteq> Idle)"

definition is_soft :: "(string \<Rightarrow> string option) \<Rightarrow> location \<Rightarrow> router \<Rightarrow> bool" where
  "is_soft view_of l r =
     (\<not> ro_first r \<and> (case ro_previous r of None \<Rightarrow> False
        | Some (path, view) \<Rightarrow> view = view_of (lo_search l) \<and> sectionKey path = sectionKey (lo_pathname l)
            \<and> sectionKey (lo_pathname l) \<in> {''docs'', ''api''} \<and> ro_docs_layout r))"

definition call_handler :: "render_context \<Rightarrow> router \<Rightarrow> router" where
  "call_handler x r = r\<lparr>ro_stage := Handling x, ro_handled := (rx_handler x, rx_splat x, rx_soft x) # ro_handled r\<rparr>"

text \<open>After the leave animation: the old page is cleaned up and emptied.\<close>

definition leave_page :: "render_context \<Rightarrow> router \<Rightarrow> router" where
  "leave_page x r =
     (let r1 = r\<lparr>ro_first := False\<rparr>;
          r2 = (case ro_cleanup r1 of None \<Rightarrow> r1 | Some c \<Rightarrow> r1\<lparr>ro_cleanup := None, ro_cleaned := c # ro_cleaned r1\<rparr>)
      in call_handler x (r2\<lparr>ro_children := False, ro_docs_layout := False\<rparr>))"

definition start_render :: "(string \<Rightarrow> string option) \<Rightarrow> router \<Rightarrow> router" where
  "start_render view_of r =
     (let l = canonicalPageURL (ro_location r);
          r1 = r\<lparr>ro_location := l\<rparr>;
          path = str_or (lo_pathname l) ''/''
      in case matched_route path of
           None \<Rightarrow> r1
         | Some (h, splat) \<Rightarrow>
             let soft = is_soft view_of l r1;
                 x = \<lparr>rx_location = l, rx_handler = h, rx_splat = splat, rx_soft = soft\<rparr>;
                 r2 = r1\<lparr>ro_previous := Some (path, view_of (lo_search l)), ro_rendered := Some l\<rparr>
             in if soft then call_handler x r2
                else if \<not> ro_first r2 \<and> ro_children r2 then r2\<lparr>ro_stage := Leaving x\<rparr>
                else leave_page x r2)"

definition renderRoute :: "(string \<Rightarrow> string option) \<Rightarrow> router \<Rightarrow> router" where
  "renderRoute view_of r = (if rendering r then r\<lparr>ro_pending := True\<rparr> else start_render view_of r)"

definition end_render :: "(string \<Rightarrow> string option) \<Rightarrow> router \<Rightarrow> router" where
  "end_render view_of r =
     (let r1 = r\<lparr>ro_stage := Idle\<rparr>
      in if ro_pending r1 then start_render view_of (r1\<lparr>ro_pending := False\<rparr>) else r1)"

record handler_outcome =
  ho_threw :: bool
  ho_cleanup :: bool
  ho_children :: bool
  ho_docs_layout :: bool

definition handler_done :: "(string \<Rightarrow> string option) \<Rightarrow> handler_outcome \<Rightarrow> router \<Rightarrow> router" where
  "handler_done view_of h r =
     (let r1 = r\<lparr>ro_children := ho_children h, ro_docs_layout := ho_docs_layout h\<rparr>;
          r2 = (if \<not> ho_threw h \<and> ho_cleanup h
                then r1\<lparr>ro_cleanup := Some (ro_cleanups r1), ro_cleanups := ro_cleanups r1 + 1\<rparr> else r1)
      in end_render view_of r2)"

text \<open>\<^verbatim>\<open>navigate\<close>; the location a path names is given by the browser.\<close>

definition navigate :: "(string \<Rightarrow> string option) \<Rightarrow> (string \<Rightarrow> location) \<Rightarrow> string \<Rightarrow> router \<Rightarrow> router" where
  "navigate view_of locate path r =
     renderRoute view_of (r\<lparr>ro_location := locate (if startsWith path ''/'' then path else ''/'' @ path)\<rparr>)"

definition location_text :: "location \<Rightarrow> string" where
  "location_text l = lo_pathname l @ lo_search l @ lo_hash l"

record link_click =
  lc_modified :: bool
  lc_href :: "string option"

definition link_ignored :: "link_click \<Rightarrow> bool" where
  "link_ignored c = (lc_modified c \<or> opt_or (lc_href c) [] = [] \<or> startsWith (opt_or (lc_href c) []) ''http''
     \<or> startsWith (opt_or (lc_href c) []) ''//'' \<or> startsWith (opt_or (lc_href c) []) ''#'')"

definition link_clicked :: "(string \<Rightarrow> string option) \<Rightarrow> (string \<Rightarrow> location) \<Rightarrow> link_click \<Rightarrow> router \<Rightarrow> router" where
  "link_clicked view_of locate c r =
     (if link_ignored c then r
      else if opt_or (lc_href c) [] \<noteq> location_text (ro_location r) then navigate view_of locate (opt_or (lc_href c) []) r
      else renderRoute view_of r)"

datatype router_event =
    LinkClicked link_click
  | Navigated string
  | PopState location
  | LanguageSwitched
  | LeaveDone
  | HandlerDone handler_outcome

fun router_step :: "(string \<Rightarrow> string option) \<Rightarrow> (string \<Rightarrow> location) \<Rightarrow> router \<Rightarrow> router_event \<Rightarrow> router option" where
  "router_step view_of locate r (LinkClicked c) = Some (link_clicked view_of locate c r)"
| "router_step view_of locate r (Navigated path) = Some (navigate view_of locate path r)"
| "router_step view_of locate r (PopState l) = Some (renderRoute view_of (r\<lparr>ro_location := l\<rparr>))"
| "router_step view_of locate r LanguageSwitched = Some (renderRoute view_of r)"
| "router_step view_of locate r LeaveDone = (case ro_stage r of Leaving x \<Rightarrow> Some (leave_page x r) | _ \<Rightarrow> None)"
| "router_step view_of locate r (HandlerDone h) = (case ro_stage r of Handling x \<Rightarrow> Some (handler_done view_of h r) | _ \<Rightarrow> None)"

definition fresh_router :: "location \<Rightarrow> router" where
  "fresh_router l = \<lparr>ro_location = l, ro_stage = Idle, ro_pending = False, ro_first = True, ro_previous = None, ro_children = False,
     ro_docs_layout = False, ro_cleanup = None, ro_cleanups = 0, ro_cleaned = [], ro_handled = [], ro_rendered = None\<rparr>"

text \<open>The page start calls \<^verbatim>\<open>renderRoute\<close> once.\<close>

definition start_router :: "(string \<Rightarrow> string option) \<Rightarrow> location \<Rightarrow> router" where
  "start_router view_of l = renderRoute view_of (fresh_router l)"

section \<open>Invariant\<close>

lemma matched_total: "\<exists>h splat. matched_route p = Some (h, splat)"
proof -
  have "matchRoute ''/'' = Some (RenderHome, None)"
    by (simp add: matchRoute_def normalize_path_def routes_def startsWith_def endsWith_def str_or_def)
  then show ?thesis by (cases "matchRoute p") (auto simp: matched_route_def)
qed

lemma canonical_idem: "canonicalPageURL (canonicalPageURL l) = canonicalPageURL l"
  by (auto simp: canonicalPageURL_def Let_def startsWith_def prefix_def)

text \<open>The page the handler was last called for.\<close>

definition handled_for :: "location \<Rightarrow> router \<Rightarrow> bool" where
  "handled_for l r = (case ro_handled r of [] \<Rightarrow> False | (h, splat, soft) # _ \<Rightarrow> matched_route (str_or (lo_pathname l) ''/'') = Some (h, splat))"

definition cleanups_ok :: "router \<Rightarrow> bool" where
  "cleanups_ok r \<longleftrightarrow> distinct (ro_cleaned r) \<and> (\<forall>c\<in>set (ro_cleaned r). c < ro_cleanups r)
     \<and> (\<forall>c. ro_cleanup r = Some c \<longrightarrow> c < ro_cleanups r \<and> c \<notin> set (ro_cleaned r))"

definition stage_ok :: "router \<Rightarrow> bool" where
  "stage_ok r = (case ro_stage r of
       Idle \<Rightarrow> \<not> ro_pending r \<and> handled_for (the (ro_rendered r)) r
     | Leaving x \<Rightarrow> ro_rendered r = Some (rx_location x) \<and> \<not> rx_soft x
         \<and> matched_route (str_or (lo_pathname (rx_location x)) ''/'') = Some (rx_handler x, rx_splat x)
     | Handling x \<Rightarrow> ro_rendered r = Some (rx_location x) \<and> handled_for (rx_location x) r \<and> (rx_soft x \<or> ro_cleanup r = None))"

definition router_inv :: "router \<Rightarrow> bool" where
  "router_inv r \<longleftrightarrow> cleanups_ok r \<and> stage_ok r \<and> (\<exists>l. ro_rendered r = Some l \<and> canonicalPageURL l = l)
     \<and> (\<not> ro_pending r \<longrightarrow> ro_rendered r = Some (ro_location r))"

text \<open>Starting a render from an idle router establishes the invariant again.\<close>

lemma leave_page_fields:
  "ro_location (leave_page x r) = ro_location r" "ro_pending (leave_page x r) = ro_pending r" "ro_rendered (leave_page x r) = ro_rendered r"
  "ro_stage (leave_page x r) = Handling x" "ro_cleanup (leave_page x r) = None" "ro_cleanups (leave_page x r) = ro_cleanups r"
  "ro_handled (leave_page x r) = (rx_handler x, rx_splat x, rx_soft x) # ro_handled r"
  by (simp_all add: leave_page_def call_handler_def Let_def split: option.splits)

lemma leave_page_cleanups: "cleanups_ok r \<Longrightarrow> cleanups_ok (leave_page x r)"
  by (auto simp: cleanups_ok_def leave_page_def call_handler_def Let_def split: option.splits)

lemma start_render_inv:
  assumes "cleanups_ok r" "\<not> ro_pending r"
  shows "router_inv (start_render view_of r) \<and> rendering (start_render view_of r)
    \<and> ro_location (start_render view_of r) = canonicalPageURL (ro_location r)"
proof -
  let ?l = "canonicalPageURL (ro_location r)"
  obtain h splat where m: "matched_route (str_or (lo_pathname ?l) ''/'') = Some (h, splat)" using matched_total by blast
  define x where "x = \<lparr>rx_location = ?l, rx_handler = h, rx_splat = splat, rx_soft = is_soft view_of ?l (r\<lparr>ro_location := ?l\<rparr>)\<rparr>"
  define r2 where "r2 = r\<lparr>ro_location := ?l, ro_previous := Some (str_or (lo_pathname ?l) ''/'', view_of (lo_search ?l)), ro_rendered := Some ?l\<rparr>"
  have r2: "cleanups_ok r2" "\<not> ro_pending r2" "ro_rendered r2 = Some ?l" "ro_location r2 = ?l" "ro_cleanup r2 = ro_cleanup r"
    using assms by (simp_all add: r2_def cleanups_ok_def)
  have start: "start_render view_of r = (if rx_soft x then call_handler x r2
      else if \<not> ro_first r2 \<and> ro_children r2 then r2\<lparr>ro_stage := Leaving x\<rparr> else leave_page x r2)"
    by (simp add: start_render_def m Let_def x_def r2_def)
  consider "rx_soft x" | "\<not> rx_soft x" "\<not> ro_first r2 \<and> ro_children r2" | "\<not> rx_soft x" "\<not> (\<not> ro_first r2 \<and> ro_children r2)" by blast
  then show ?thesis
  proof cases
    case 1
    then show ?thesis
      using r2 m by (auto simp: start router_inv_def cleanups_ok_def stage_ok_def handled_for_def call_handler_def rendering_def canonical_idem x_def)
  next
    case 2
    then show ?thesis
      using r2 m by (auto simp: start router_inv_def cleanups_ok_def stage_ok_def rendering_def canonical_idem x_def)
  next
    case 3
    then have "start_render view_of r = leave_page x r2" by (auto simp: start)
    then show ?thesis
      using r2 m leave_page_cleanups [OF r2(1), of x]
      by (simp add: router_inv_def stage_ok_def handled_for_def rendering_def canonical_idem leave_page_fields x_def)
  qed
qed

lemma renderRoute_inv: "router_inv r \<Longrightarrow> router_inv (renderRoute view_of (r\<lparr>ro_location := l\<rparr>))"
proof (cases "rendering r")
  case True
  assume "router_inv r"
  with True show ?thesis
    by (auto simp: renderRoute_def rendering_def router_inv_def cleanups_ok_def stage_ok_def handled_for_def split: render_stage.splits)
next
  case False
  assume inv: "router_inv r"
  then have "\<not> ro_pending r" using False by (auto simp: router_inv_def stage_ok_def rendering_def)
  with False inv start_render_inv [of "r\<lparr>ro_location := l\<rparr>" view_of] show ?thesis
    by (simp add: renderRoute_def rendering_def router_inv_def cleanups_ok_def)
qed

lemma renderRoute_same_inv: "router_inv r \<Longrightarrow> router_inv (renderRoute view_of r)"
  using renderRoute_inv [of r view_of "ro_location r"] by simp

lemma handler_done_split:
  assumes "cleanups_ok r"
  obtains q where "cleanups_ok q" "\<not> ro_pending q" "ro_stage q = Idle" "ro_location q = ro_location r" "ro_rendered q = ro_rendered r"
    "ro_handled q = ro_handled r" "handler_done view_of h r = (if ro_pending r then start_render view_of q else q)"
proof -
  define r2 where "r2 = (if \<not> ho_threw h \<and> ho_cleanup h
     then r\<lparr>ro_children := ho_children h, ro_docs_layout := ho_docs_layout h, ro_cleanup := Some (ro_cleanups r), ro_cleanups := ro_cleanups r + 1\<rparr>
     else r\<lparr>ro_children := ho_children h, ro_docs_layout := ho_docs_layout h\<rparr>)"
  define q where "q = (if ro_pending r then r2\<lparr>ro_stage := Idle, ro_pending := False\<rparr> else r2\<lparr>ro_stage := Idle\<rparr>)"
  have same: "ro_pending r2 = ro_pending r" "ro_rendered r2 = ro_rendered r" "ro_location r2 = ro_location r" "ro_handled r2 = ro_handled r"
    by (simp_all add: r2_def)
  have "cleanups_ok r2" using assms by (fastforce simp: r2_def cleanups_ok_def)
  then have "cleanups_ok q" by (simp add: q_def cleanups_ok_def)
  moreover have "handler_done view_of h r = end_render view_of r2" by (simp add: handler_done_def Let_def r2_def)
  then have "handler_done view_of h r = (if ro_pending r then start_render view_of q else q)"
    by (simp add: end_render_def Let_def q_def same)
  ultimately show thesis using that [of q] by (simp add: q_def same split: if_splits)
qed

lemma handler_done_inv:
  assumes inv: "router_inv r" and st: "ro_stage r = Handling x"
  shows "router_inv (handler_done view_of h r)"
proof -
  have "cleanups_ok r" using inv by (simp add: router_inv_def)
  then obtain q where q: "cleanups_ok q" "\<not> ro_pending q" "ro_stage q = Idle" "ro_location q = ro_location r" "ro_rendered q = ro_rendered r"
    "ro_handled q = ro_handled r" "handler_done view_of h r = (if ro_pending r then start_render view_of q else q)"
    by (rule handler_done_split)
  show ?thesis
  proof (cases "ro_pending r")
    case True
    then show ?thesis using q start_render_inv [OF q(1,2)] by simp
  next
    case False
    then have "ro_rendered r = Some (ro_location r)" "canonicalPageURL (ro_location r) = ro_location r" "handled_for (ro_location r) r"
      using inv st by (auto simp: router_inv_def stage_ok_def)
    then show ?thesis using False q by (simp add: router_inv_def stage_ok_def handled_for_def)
  qed
qed

lemma leave_done_inv: "router_inv r \<Longrightarrow> ro_stage r = Leaving x \<Longrightarrow> router_inv (leave_page x r)"
  using leave_page_cleanups [of r x]
  by (auto simp: router_inv_def stage_ok_def handled_for_def leave_page_fields)

lemma router_step_inv: "router_inv r \<Longrightarrow> router_step view_of locate r e = Some s \<Longrightarrow> router_inv s"
  by (cases e) (auto simp: link_clicked_def navigate_def split: render_stage.splits if_splits
      intro: renderRoute_inv renderRoute_same_inv handler_done_inv leave_done_inv)

lemma start_router_inv: "router_inv (start_router view_of l)"
  using start_render_inv [of "fresh_router l" view_of]
  by (simp add: start_router_def renderRoute_def rendering_def fresh_router_def cleanups_ok_def)

section \<open>Refinement\<close>

text \<open>The abstract router: the page to show, and the page that is shown once it is settled.\<close>

record goal =
  go_target :: location
  go_shown :: "location option"

datatype goal_event = Goto location | ShowTarget

fun goal_step :: "goal \<Rightarrow> goal_event \<Rightarrow> goal option" where
  "goal_step g (Goto l) = Some \<lparr>go_target = canonicalPageURL l, go_shown = None\<rparr>"
| "goal_step g ShowTarget = Some (g\<lparr>go_shown := Some (go_target g)\<rparr>)"

definition goal_of :: "router \<Rightarrow> goal" where
  "goal_of r = \<lparr>go_target = canonicalPageURL (ro_location r), go_shown = (if rendering r then None else ro_rendered r)\<rparr>"

lemma renderRoute_goal:
  assumes "router_inv r"
  shows "goal_step (goal_of r) (Goto l) = Some (goal_of (renderRoute view_of (r\<lparr>ro_location := l\<rparr>)))"
proof (cases "rendering r")
  case True
  then show ?thesis by (simp add: goal_of_def renderRoute_def rendering_def)
next
  case False
  then have "cleanups_ok (r\<lparr>ro_location := l\<rparr>) \<and> \<not> ro_pending (r\<lparr>ro_location := l\<rparr>)"
    using assms by (auto simp: router_inv_def stage_ok_def rendering_def cleanups_ok_def)
  with False start_render_inv [of "r\<lparr>ro_location := l\<rparr>" view_of] show ?thesis
    by (simp add: goal_of_def renderRoute_def rendering_def canonical_idem)
qed

lemma renderRoute_same_goal: "router_inv r \<Longrightarrow> goal_step (goal_of r) (Goto (ro_location r)) = Some (goal_of (renderRoute view_of r))"
  using renderRoute_goal [of r "ro_location r" view_of] by simp

lemma handler_done_goal:
  assumes inv: "router_inv r" and st: "ro_stage r = Handling x"
  shows "goal_of (handler_done view_of h r) = goal_of r \<or> goal_step (goal_of r) ShowTarget = Some (goal_of (handler_done view_of h r))"
proof -
  have "cleanups_ok r" using inv by (simp add: router_inv_def)
  then obtain q where q: "cleanups_ok q" "\<not> ro_pending q" "ro_stage q = Idle" "ro_location q = ro_location r" "ro_rendered q = ro_rendered r"
    "ro_handled q = ro_handled r" "handler_done view_of h r = (if ro_pending r then start_render view_of q else q)"
    by (rule handler_done_split)
  show ?thesis
  proof (cases "ro_pending r")
    case True
    then show ?thesis
      using q start_render_inv [OF q(1,2), of view_of] st by (simp add: goal_of_def rendering_def canonical_idem)
  next
    case False
    then have "ro_rendered r = Some (ro_location r)" "canonicalPageURL (ro_location r) = ro_location r"
      using inv by (auto simp: router_inv_def)
    then show ?thesis using False q st by (simp add: goal_of_def rendering_def)
  qed
qed

lemma router_simulates:
  assumes inv: "router_inv r" and step: "router_step view_of locate r e = Some s"
  shows "goal_of s = goal_of r \<or> (\<exists>f. goal_step (goal_of r) f = Some (goal_of s))"
proof -
  have moved: "\<exists>f. goal_step (goal_of r) f = Some (goal_of (renderRoute view_of (r\<lparr>ro_location := l\<rparr>)))" for l
    using renderRoute_goal [OF inv] by blast
  have again: "\<exists>f. goal_step (goal_of r) f = Some (goal_of (renderRoute view_of r))"
    using renderRoute_same_goal [OF inv] by blast
  show ?thesis
  proof (cases e)
    case LeaveDone
    then show ?thesis using step by (auto simp: goal_of_def rendering_def leave_page_fields split: render_stage.splits)
  next
    case (HandlerDone h)
    then obtain x where "ro_stage r = Handling x" "s = handler_done view_of h r" using step by (auto split: render_stage.splits)
    with handler_done_goal [OF inv] show ?thesis by metis
  next
    case (LinkClicked c)
    then have "s = r \<or> s = renderRoute view_of r \<or> (\<exists>l. s = renderRoute view_of (r\<lparr>ro_location := l\<rparr>))"
      using step by (auto simp: link_clicked_def navigate_def split: if_splits)
    with moved again show ?thesis by auto
  qed (use step moved again in \<open>auto simp: navigate_def\<close>)
qed

interpretation site_router: machine_refinement "router_step view_of locate" router_inv goal_step goal_of for view_of locate
  by unfold_locales (rule router_step_inv, assumption+, rule router_simulates)

section \<open>Property\<close>

text \<open>
  C26: the router implements the abstract one, which only ever shows its target. In every state that clicks, navigation,
  language changes and page handlers can lead to: when no render is running, the page that was rendered is that of the current,
  canonical location, and its handler was called last; a running render can always go on; no cleanup is run twice; and a page
  that is not a soft navigation is rendered only after the cleanup of its predecessor.
\<close>

theorem router_shows_latest:
  assumes "run_events (router_step view_of locate) (start_router view_of l) es = Some r"
  shows "reachable_from goal_step (goal_of (start_router view_of l)) (goal_of r)
    \<and> (\<not> rendering r \<longrightarrow> ro_rendered r = Some (ro_location r) \<and> canonicalPageURL (ro_location r) = ro_location r
         \<and> (\<exists>h splat soft rest. ro_handled r = (h, splat, soft) # rest
              \<and> matched_route (str_or (lo_pathname (ro_location r)) ''/'') = Some (h, splat)))
    \<and> (rendering r \<longrightarrow> router_step view_of locate r LeaveDone \<noteq> None \<or> (\<forall>h. router_step view_of locate r (HandlerDone h) \<noteq> None))
    \<and> distinct (ro_cleaned r) \<and> (\<forall>c. ro_cleanup r = Some c \<longrightarrow> c \<notin> set (ro_cleaned r))
    \<and> (\<forall>x. ro_stage r = Handling x \<and> \<not> rx_soft x \<longrightarrow> ro_cleanup r = None)"
proof -
  have inv: "router_inv r" by (rule site_router.run_inv [OF assms start_router_inv])
  have sim: "reachable_from goal_step (goal_of (start_router view_of l)) (goal_of r)"
    by (rule site_router.simulated [OF assms start_router_inv])
  have idle: "ro_rendered r = Some (ro_location r) \<and> canonicalPageURL (ro_location r) = ro_location r
         \<and> (\<exists>h splat soft rest. ro_handled r = (h, splat, soft) # rest
              \<and> matched_route (str_or (lo_pathname (ro_location r)) ''/'') = Some (h, splat))" if "\<not> rendering r"
    using inv that by (auto simp: router_inv_def stage_ok_def rendering_def handled_for_def split: list.splits prod.splits)
  have busy: "router_step view_of locate r LeaveDone \<noteq> None \<or> (\<forall>h. router_step view_of locate r (HandlerDone h) \<noteq> None)"
    if "rendering r" using that by (cases "ro_stage r") (auto simp: rendering_def)
  have clean: "distinct (ro_cleaned r) \<and> (\<forall>c. ro_cleanup r = Some c \<longrightarrow> c \<notin> set (ro_cleaned r))
    \<and> (\<forall>x. ro_stage r = Handling x \<and> \<not> rx_soft x \<longrightarrow> ro_cleanup r = None)"
    using inv by (auto simp: router_inv_def cleanups_ok_def stage_ok_def)
  show ?thesis using sim idle busy clean by blast
qed

definition plain_location :: "string \<Rightarrow> location" where
  "plain_location p = \<lparr>lo_pathname = p, lo_search = [], lo_hash = []\<rparr>"

definition loaded_page :: handler_outcome where
  "loaded_page = \<lparr>ho_threw = False, ho_cleanup = True, ho_children = True, ho_docs_layout = False\<rparr>"

definition visited :: router where
  "visited = \<lparr>ro_location = plain_location ''/download'', ro_stage = Idle, ro_pending = False, ro_first = False,
     ro_previous = Some (''/download'', None), ro_children = True, ro_docs_layout = False, ro_cleanup = Some 1, ro_cleanups = 2,
     ro_cleaned = [0], ro_handled = [(RenderDownload, None, False), (RenderHome, None, False)],
     ro_rendered = Some (plain_location ''/download'')\<rparr>"

lemma example_visit:
  "run_events (router_step (\<lambda>_. None) plain_location) (start_router (\<lambda>_. None) (plain_location ''/''))
     [HandlerDone loaded_page, Navigated ''/download'', LeaveDone, HandlerDone loaded_page] = Some visited"
  by code_simp

theorem router_shows_latest_witness:
  "run_events (router_step (\<lambda>_. None) plain_location) (start_router (\<lambda>_. None) (plain_location ''/''))
     [HandlerDone loaded_page, Navigated ''/download'', LeaveDone, HandlerDone loaded_page] = Some visited
    \<and> ro_rendered visited = Some (plain_location ''/download'') \<and> ro_rendered visited = Some (ro_location visited)
    \<and> distinct (ro_cleaned visited)"
proof -
  have "\<not> rendering visited" "ro_rendered visited = Some (plain_location ''/download'')" by (simp_all add: visited_def rendering_def)
  with router_shows_latest [OF example_visit] example_visit show ?thesis by blast
qed

end
