(* ===== verification/Login_Route.thy ===== *)
theory Login_Route
  imports Uri_Codec
begin

text \<open>
  Login navigation (\<^verbatim>\<open>js/login-route.js\<close>) and the exit from protected routes (\<^verbatim>\<open>js/protected-route.js\<close>).

  Strings are 16-bit code units. \<^verbatim>\<open>toLowerCase\<close> is written out for the letters up to U+00FF and the Kelvin sign; no other
  letter has a lower-case form that these routes could be confused with. The URL parser and the query serializer of the browser are
  parameters: \<^verbatim>\<open>parse_url\<close> gives the origin and pathname of a value resolved against the fixed base, or fails.
\<close>

section \<open>Routes\<close>

definition lower_unit :: "nat \<Rightarrow> nat" where
  "lower_unit u = (if (65 \<le> u \<and> u \<le> 90) \<or> (192 \<le> u \<and> u \<le> 222 \<and> u \<noteq> 215) then u + 32 else if u = 8490 then 107 else u)"

definition lower :: "ustring \<Rightarrow> ustring" where
  "lower s = map lower_unit s"

definition strip_trailing_slash :: "ustring \<Rightarrow> ustring" where
  "strip_trailing_slash s = (if endsWith s (ustr ''/'') then butlast s else s)"

definition accountPageFromPath :: "ustring \<Rightarrow> string" where
  "accountPageFromPath pathname =
     (let path = strip_trailing_slash (lower pathname)
      in if path = ustr ''/account/login'' then ''login''
         else if path = ustr ''/account/register'' then ''registration''
         else if path = ustr ''/account/recovery'' then ''recovery''
         else if path = ustr ''/account/forgot-password'' then ''password-recovery''
         else [])"

definition isLoginPath :: "ustring \<Rightarrow> bool" where
  "isLoginPath pathname = (accountPageFromPath pathname = ''login'')"

text \<open>\<^verbatim>\<open>/[\\\x00-\x20]/\<close>\<close>

definition unsafe_unit :: "nat \<Rightarrow> bool" where
  "unsafe_unit u = (u = 92 \<or> u \<le> 32)"

type_synonym url_parser = "ustring \<Rightarrow> (ustring \<times> ustring) option"

definition login_base :: ustring where
  "login_base = ustr ''https://renop.invalid''"

definition refused_target :: "ustring \<Rightarrow> ustring \<Rightarrow> ustring \<Rightarrow> bool" where
  "refused_target origin pathname decoded =
     (origin \<noteq> login_base \<or> startsWith decoded (ustr ''//'') \<or> list_ex unsafe_unit decoded \<or> accountPageFromPath decoded \<noteq> []
      \<or> decoded = ustr ''/api'' \<or> startsWith decoded (ustr ''/api/'') \<or> 1024 < length pathname)"

definition safeLoginReturnTo :: "url_parser \<Rightarrow> ustring option \<Rightarrow> ustring" where
  "safeLoginReturnTo parse_url v =
     (case v of
        None \<Rightarrow> ustr ''/''
      | Some s \<Rightarrow>
          if 1024 < length s \<or> \<not> startsWith s (ustr ''/'') \<or> startsWith s (ustr ''//'') \<or> list_ex unsafe_unit s then ustr ''/''
          else case parse_url s of
              None \<Rightarrow> ustr ''/''
            | Some (origin, pathname) \<Rightarrow>
                (case decodeURIComponent pathname of
                   None \<Rightarrow> ustr ''/''
                 | Some d \<Rightarrow> if refused_target origin pathname (lower d) then ustr ''/'' else pathname))"

section \<open>Navigation\<close>

text \<open>The session history: the pathname and query of each entry up to the current one, which is the first, and the number of
  \<^verbatim>\<open>popstate\<close> events dispatched.\<close>

type_synonym query = "(string \<times> ustring) list"

record history_state =
  hs_entries :: "(ustring \<times> ustring) list"
  hs_popstates :: nat

definition current_path :: "history_state \<Rightarrow> ustring" where
  "current_path h = (case hs_entries h of [] \<Rightarrow> [] | (p, q) # _ \<Rightarrow> p)"

definition pushState :: "ustring \<times> ustring \<Rightarrow> history_state \<Rightarrow> history_state" where
  "pushState l h = h\<lparr>hs_entries := l # hs_entries h\<rparr>"

definition replaceState :: "ustring \<times> ustring \<Rightarrow> history_state \<Rightarrow> history_state" where
  "replaceState l h = h\<lparr>hs_entries := l # tl (hs_entries h)\<rparr>"

definition popstate :: "history_state \<Rightarrow> history_state" where
  "popstate h = h\<lparr>hs_popstates := hs_popstates h + 1\<rparr>"

definition loginReturnTo :: "url_parser \<Rightarrow> (ustring \<Rightarrow> string \<Rightarrow> ustring option) \<Rightarrow> ustring \<Rightarrow> ustring" where
  "loginReturnTo parse_url read_query search = safeLoginReturnTo parse_url (read_query search ''return_to'')"

definition login_query :: "ustring \<Rightarrow> bool \<Rightarrow> query" where
  "login_query target reauth =
     (if target \<noteq> ustr ''/'' then [(''return_to'', target)] else []) @ (if reauth then [(''reauth'', ustr ''1'')] else [])"

definition navigateToLogin ::
  "url_parser \<Rightarrow> (query \<Rightarrow> ustring) \<Rightarrow> ustring option \<Rightarrow> bool \<Rightarrow> bool \<Rightarrow> history_state \<Rightarrow> history_state" where
  "navigateToLogin parse_url show_query returnTo replace reauth h =
     (if isLoginPath (current_path h) then h
      else let target = safeLoginReturnTo parse_url returnTo;
               q = login_query target reauth;
               route = (ustr ''/account/login'', if q \<noteq> [] then ustr ''?'' @ show_query q else [])
           in popstate (if replace then replaceState route h else pushState route h))"

definition leaveLoginPage :: "url_parser \<Rightarrow> (ustring \<Rightarrow> string \<Rightarrow> ustring option) \<Rightarrow> history_state \<Rightarrow> history_state" where
  "leaveLoginPage parse_url read_query h =
     (if \<not> isLoginPath (current_path h) then h
      else let search = (case hs_entries h of [] \<Rightarrow> [] | (p, q) # _ \<Rightarrow> q)
           in popstate (replaceState (loginReturnTo parse_url read_query search, []) h))"

section \<open>Protected routes\<close>

text \<open>The status of the exit event, if one is dispatched; a response that is missing or has no status counts as 0.\<close>

definition requestProtectedRouteExit :: "nat option \<Rightarrow> nat" where
  "requestProtectedRouteExit status = (case status of None \<Rightarrow> 0 | Some n \<Rightarrow> n)"

definition exitProtectedRouteOnDenial :: "nat option \<Rightarrow> nat option \<times> bool" where
  "exitProtectedRouteOnDenial status =
     (let s = (case status of None \<Rightarrow> 0 | Some n \<Rightarrow> n)
      in if s \<noteq> 401 \<and> s \<noteq> 403 then (None, False) else (Some (requestProtectedRouteExit (Some s)), True))"

section \<open>Properties\<close>

lemma lower_unit_slash: "lower_unit u = 47 \<longleftrightarrow> u = 47"
  by (auto simp: lower_unit_def)

lemma decode_slashes: "startsWith p (ustr ''//'') \<Longrightarrow> decodeURIComponent p = Some d \<Longrightarrow> startsWith (lower d) (ustr ''//'')"
  by (auto simp: startsWith_def ustr_def prefix_def decode_plain lower_def lower_unit_slash)

lemma root_safe: "startsWith (ustr ''/'') (ustr ''/'') \<and> \<not> startsWith (ustr ''/'') (ustr ''//'') \<and> accountPageFromPath (ustr ''/'') = []"
  by code_simp

text \<open>What a return path that was not replaced by the root satisfies.\<close>

lemma safe_target:
  assumes "safeLoginReturnTo parse_url v = r" "r \<noteq> ustr ''/''"
  obtains s d where "v = Some s" "parse_url s = Some (login_base, r)" "decodeURIComponent r = Some d" "length r \<le> 1024"
    "\<not> startsWith (lower d) (ustr ''//'')" "\<not> list_ex unsafe_unit (lower d)" "accountPageFromPath (lower d) = []"
    "lower d \<noteq> ustr ''/api''" "\<not> startsWith (lower d) (ustr ''/api/'')"
  using assms that
  by (auto simp: safeLoginReturnTo_def refused_target_def split: option.splits if_splits prod.splits)

lemma safe_local:
  assumes pathnames: "\<And>s orig p. parse_url s = Some (orig, p) \<Longrightarrow> startsWith p (ustr ''/'')"
  shows "startsWith (safeLoginReturnTo parse_url v) (ustr ''/'') \<and> \<not> startsWith (safeLoginReturnTo parse_url v) (ustr ''//'')"
proof (cases "safeLoginReturnTo parse_url v = ustr ''/''")
  case True
  then show ?thesis using root_safe by simp
next
  case False
  then obtain s d where "parse_url s = Some (login_base, safeLoginReturnTo parse_url v)" "decodeURIComponent (safeLoginReturnTo parse_url v) = Some d"
    "\<not> startsWith (lower d) (ustr ''//'')"
    by (rule safe_target [OF refl])
  with pathnames decode_slashes show ?thesis by blast
qed

lemma lower_idem: "lower (lower s) = lower s"
  by (auto simp: lower_def lower_unit_def)

lemma decode_percent_free: "37 \<notin> set s \<Longrightarrow> decodeURIComponent s = Some s"
  by (induction s) (auto simp: decodeURIComponent.simps(1) decode_plain)

lemma login_path_percent_free: "isLoginPath s \<Longrightarrow> 37 \<notin> set s"
proof
  assume "isLoginPath s" "37 \<in> set s"
  then have path: "strip_trailing_slash (lower s) = ustr ''/account/login''"
    by (auto simp: isLoginPath_def accountPageFromPath_def Let_def split: if_splits)
  have "37 \<in> set (lower s)" using \<open>37 \<in> set s\<close> by (force simp: lower_def lower_unit_def)
  then have "37 \<in> set (strip_trailing_slash (lower s))"
    by (cases "lower s" rule: rev_cases) (auto simp: strip_trailing_slash_def endsWith_def ustr_def)
  with path show False by (simp add: ustr_def)
qed

lemma safe_not_login: "\<not> isLoginPath (safeLoginReturnTo parse_url v)"
proof (cases "safeLoginReturnTo parse_url v = ustr ''/''")
  case True
  then show ?thesis using root_safe by (simp add: isLoginPath_def)
next
  case False
  then obtain d where d: "decodeURIComponent (safeLoginReturnTo parse_url v) = Some d" "accountPageFromPath (lower d) = []"
    by (rule safe_target [OF refl])
  show ?thesis
  proof
    assume login: "isLoginPath (safeLoginReturnTo parse_url v)"
    with d(1) have "d = safeLoginReturnTo parse_url v"
      using decode_percent_free [OF login_path_percent_free [OF login]] by simp
    with login d(2) show False by (simp add: isLoginPath_def accountPageFromPath_def lower_idem)
  qed
qed

text \<open>
  C27: the return path of a login is local and leads out of the login. For a URL parser whose pathnames start with a
  slash, whatever value is given, the path starts with exactly one slash and has at most 1024 code units; it is the root or
  decodes to a path without backslashes, blanks and control characters that is neither an account page nor below the API. Leaving
  the login page replaces its entry by such a path, which is not the login page again, and keeps the rest of the history.
\<close>

theorem login_return_safe:
  assumes "\<forall>s orig p. parse_url s = Some (orig, p) \<longrightarrow> startsWith p (ustr ''/'')"
  shows "(let r = safeLoginReturnTo parse_url v
     in startsWith r (ustr ''/'') \<and> \<not> startsWith r (ustr ''//'') \<and> length r \<le> 1024
      \<and> (r = ustr ''/'' \<or> (\<exists>d. decodeURIComponent r = Some d \<and> \<not> list_ex unsafe_unit (lower d) \<and> accountPageFromPath (lower d) = []
            \<and> lower d \<noteq> ustr ''/api'' \<and> \<not> startsWith (lower d) (ustr ''/api/''))))
    \<and> (isLoginPath (current_path h) \<longrightarrow>
       (\<exists>r q. hs_entries (leaveLoginPage parse_url read_query h) = (r, []) # tl (hs_entries h)
          \<and> r = safeLoginReturnTo parse_url q \<and> startsWith r (ustr ''/'') \<and> \<not> startsWith r (ustr ''//'') \<and> \<not> isLoginPath r))"
proof -
  have loc: "startsWith (safeLoginReturnTo parse_url w) (ustr ''/'') \<and> \<not> startsWith (safeLoginReturnTo parse_url w) (ustr ''//'')" for w
    using assms by (intro safe_local) blast
  have return: "let r = safeLoginReturnTo parse_url v
     in startsWith r (ustr ''/'') \<and> \<not> startsWith r (ustr ''//'') \<and> length r \<le> 1024
      \<and> (r = ustr ''/'' \<or> (\<exists>d. decodeURIComponent r = Some d \<and> \<not> list_ex unsafe_unit (lower d) \<and> accountPageFromPath (lower d) = []
            \<and> lower d \<noteq> ustr ''/api'' \<and> \<not> startsWith (lower d) (ustr ''/api/'')))"
  proof (cases "safeLoginReturnTo parse_url v = ustr ''/''")
    case True
    then show ?thesis using root_safe by (simp add: Let_def) (simp add: ustr_def)
  next
    case False
    then obtain d where "decodeURIComponent (safeLoginReturnTo parse_url v) = Some d" "length (safeLoginReturnTo parse_url v) \<le> 1024"
      "\<not> list_ex unsafe_unit (lower d)" "accountPageFromPath (lower d) = []" "lower d \<noteq> ustr ''/api''" "\<not> startsWith (lower d) (ustr ''/api/'')"
      by (rule safe_target [OF refl])
    with loc [of v] show ?thesis by (auto simp: Let_def)
  qed
  have leave: "isLoginPath (current_path h) \<longrightarrow>
       (\<exists>r q. hs_entries (leaveLoginPage parse_url read_query h) = (r, []) # tl (hs_entries h)
          \<and> r = safeLoginReturnTo parse_url q \<and> startsWith r (ustr ''/'') \<and> \<not> startsWith r (ustr ''//'') \<and> \<not> isLoginPath r)"
    using loc safe_not_login by (auto simp: leaveLoginPage_def loginReturnTo_def popstate_def replaceState_def Let_def)
  show ?thesis using return leave by blast
qed

text \<open>A parser of plain paths at the base.\<close>

definition plain_parser :: url_parser where
  "plain_parser s = (if startsWith s (ustr ''/'') then Some (login_base, s) else None)"

definition login_history :: history_state where
  "login_history = \<lparr>hs_entries = [(ustr ''/account/login'', ustr ''?'')], hs_popstates = 0\<rparr>"

theorem login_return_safe_witness:
  "\<not> startsWith (safeLoginReturnTo plain_parser (Some (ustr ''/a''))) (ustr ''//'') \<and> safeLoginReturnTo plain_parser (Some (ustr ''/a'')) = ustr ''/a''
    \<and> isLoginPath (current_path login_history)
    \<and> (\<exists>r. hs_entries (leaveLoginPage plain_parser (\<lambda>_ _. Some (ustr ''/a'')) login_history) = [(r, [])] \<and> \<not> isLoginPath r)"
proof -
  have parser: "\<forall>s orig p. plain_parser s = Some (orig, p) \<longrightarrow> startsWith p (ustr ''/'')" by (simp add: plain_parser_def)
  have here: "isLoginPath (current_path login_history)" "safeLoginReturnTo plain_parser (Some (ustr ''/a'')) = ustr ''/a''" by code_simp+
  have tl: "tl (hs_entries login_history) = []" by (simp add: login_history_def)
  note safe = login_return_safe [OF parser, of "Some (ustr ''/a'')" login_history "\<lambda>_ _. Some (ustr ''/a'')"]
  from safe here(1) obtain r where "hs_entries (leaveLoginPage plain_parser (\<lambda>_ _. Some (ustr ''/a'')) login_history) = [(r, [])]" "\<not> isLoginPath r"
    by (auto simp: tl)
  with safe here show ?thesis by (auto simp: Let_def)
qed

end
