(* ===== verification/Profile_Cache.thy ===== *)
theory Profile_Cache
  imports Login_Route Event_Machine "HOL-Library.AList"
begin

text \<open>
  Public user profiles (\<^verbatim>\<open>js/user-profiles.js\<close>): display names, avatar addresses, the shared cache with its batched and
  refreshed requests as an event machine, and the profile routes.

  A JavaScript \<^verbatim>\<open>Map\<close> keeps its insertion order: the cache is a list of entries, the batch queue an association list. Requests
  are numbered in the order they are issued; a call of \<^verbatim>\<open>getUserProfile\<close> that has to wait names its request. A microtask runs before
  the next task of the event loop, so no server answer arrives while a flush is scheduled. Names are 16-bit strings whose letters
  lie below U+0100. Rendering of the avatar element is left out.
\<close>

section \<open>Profiles\<close>

record profile =
  pf_username :: "ustring option"
  pf_nickname :: "ustring option"
  pf_avatar_url :: "ustring option"

definition normalize_username :: "ustring option \<Rightarrow> ustring" where
  "normalize_username u = lower (utrim (opt_or u []))"

definition profileDisplayName :: "(string \<Rightarrow> ustring) \<Rightarrow> profile option \<Rightarrow> ustring" where
  "profileDisplayName t p =
     str_or (utrim (opt_or (case p of None \<Rightarrow> None | Some q \<Rightarrow> pf_nickname q) [])) (t ''profile.unnamedUser'')"

text \<open>\<open>parse_url\<close> gives the origin, the pathname and the text of an address resolved against the page.\<close>

definition profileAvatarURL :: "(ustring \<Rightarrow> (ustring \<times> ustring \<times> ustring) option) \<Rightarrow> ustring \<Rightarrow> profile option \<Rightarrow> ustring" where
  "profileAvatarURL parse_url site_origin p =
     (let val = utrim (opt_or (case p of None \<Rightarrow> None | Some q \<Rightarrow> pf_avatar_url q) [])
      in if \<not> startsWith val (ustr ''/api/users/'') then []
         else case parse_url val of
             None \<Rightarrow> []
           | Some (url_origin, pathname, href) \<Rightarrow>
               if url_origin = site_origin \<and> startsWith pathname (ustr ''/api/users/'') then href else [])"

section \<open>Cache\<close>

definition PROFILE_CACHE_TTL_MS :: int where "PROFILE_CACHE_TTL_MS = 5 * 60 * 1000"
definition PROFILE_CACHE_MAX_ENTRIES :: nat where "PROFILE_CACHE_MAX_ENTRIES = 256"

text \<open>\<open>ce_source\<close> records which request stored the entry; \<^term>\<open>None\<close> for an entry published by \<^verbatim>\<open>syncUserProfile\<close>.\<close>

record cached_profile =
  ce_name :: ustring
  ce_profile :: profile
  ce_expires :: int
  ce_source :: "nat option"

definition cache_delete :: "ustring \<Rightarrow> cached_profile list \<Rightarrow> cached_profile list" where
  "cache_delete name c = filter (\<lambda>e. ce_name e \<noteq> name) c"

definition cacheUserProfile :: "int \<Rightarrow> ustring \<Rightarrow> profile \<Rightarrow> nat option \<Rightarrow> cached_profile list \<Rightarrow> cached_profile list" where
  "cacheUserProfile now name p source c =
     (let c1 = filter (\<lambda>e. \<not> ce_expires e \<le> now) (cache_delete name c);
          c2 = (if PROFILE_CACHE_MAX_ENTRIES \<le> length c1 then tl c1 else c1)
      in c2 @ [\<lparr>ce_name = name, ce_profile = p, ce_expires = now + PROFILE_CACHE_TTL_MS, ce_source = source\<rparr>])"

datatype profile_result = Resolved profile | Rejected

record profile_request =
  rq_name :: ustring
  rq_generation :: nat
  rq_refresh :: bool
  rq_result :: "profile_result option"

datatype profile_call = Waiting nat | CallReturned profile | CallFailed

text \<open>A running flush is the list of its batches that have not been answered; the first one has been sent.\<close>

record profile_store =
  ps_cache :: "cached_profile list"
  ps_requests :: "ustring \<rightharpoonup> nat"
  ps_queue :: "(ustring \<times> nat) list"
  ps_scheduled :: bool
  ps_generation :: nat
  ps_flushes :: "(ustring \<times> nat) list list list"
  ps_issued :: "profile_request list"
  ps_calls :: "profile_call list"

definition fresh_store :: profile_store where
  "fresh_store = \<lparr>ps_cache = [], ps_requests = Map.empty, ps_queue = [], ps_scheduled = False, ps_generation = 0,
     ps_flushes = [], ps_issued = [], ps_calls = []\<rparr>"

definition queueUserProfile :: "ustring \<Rightarrow> nat \<Rightarrow> profile_store \<Rightarrow> profile_store" where
  "queueUserProfile name r s = s\<lparr>ps_queue := AList.update name r (ps_queue s), ps_scheduled := True\<rparr>"

definition add_call :: "profile_call \<Rightarrow> profile_store \<Rightarrow> profile_store" where
  "add_call c s = s\<lparr>ps_calls := ps_calls s @ [c]\<rparr>"

definition issue_request :: "ustring \<Rightarrow> bool \<Rightarrow> profile_store \<Rightarrow> profile_store" where
  "issue_request name refresh s =
     (let r = length (ps_issued s);
          s1 = s\<lparr>ps_issued := ps_issued s @ [\<lparr>rq_name = name, rq_generation = ps_generation s, rq_refresh = refresh, rq_result = None\<rparr>]\<rparr>;
          s2 = (if refresh then s1 else queueUserProfile name r s1)
      in add_call (Waiting r) (s2\<lparr>ps_requests := (ps_requests s2)(name \<mapsto> r)\<rparr>))"

definition getUserProfile :: "ustring option \<Rightarrow> bool \<Rightarrow> int \<Rightarrow> profile_store \<Rightarrow> profile_store" where
  "getUserProfile username refresh now s =
     (let normalized = normalize_username username
      in if normalized = [] then add_call CallFailed s
         else case find (\<lambda>e. ce_name e = normalized) (ps_cache s) of
             Some e \<Rightarrow>
               if \<not> refresh \<and> now < ce_expires e then add_call (CallReturned (ce_profile e)) s
               else let s1 = s\<lparr>ps_cache := cache_delete normalized (ps_cache s)\<rparr>
                    in (case ps_requests s1 normalized of
                          Some r \<Rightarrow> if \<not> refresh then add_call (Waiting r) s1 else issue_request normalized refresh s1
                        | None \<Rightarrow> issue_request normalized refresh s1)
           | None \<Rightarrow>
               (case ps_requests s normalized of
                  Some r \<Rightarrow> if \<not> refresh then add_call (Waiting r) s else issue_request normalized refresh s
                | None \<Rightarrow> issue_request normalized refresh s))"

text \<open>Batches of at most 50 entries.\<close>

function batches :: "'a list \<Rightarrow> 'a list list" where
  "batches xs = (if xs = [] then [] else take 50 xs # batches (drop 50 xs))"
  by pat_completeness auto
termination
  by (relation "measure length") auto

declare batches.simps [simp del]

definition flushUserProfileBatch :: "profile_store \<Rightarrow> profile_store" where
  "flushUserProfileBatch s = s\<lparr>ps_scheduled := False, ps_queue := [], ps_flushes := ps_flushes s @ [batches (ps_queue s)]\<rparr>"

definition call_result :: "profile_result \<Rightarrow> profile_call" where
  "call_result x = (case x of Resolved p \<Rightarrow> CallReturned p | Rejected \<Rightarrow> CallFailed)"

text \<open>A settled request stores its profile when the cache was not cleared since, leaves the table of requests, and resumes its callers.\<close>

definition settle_request :: "int \<Rightarrow> nat \<Rightarrow> profile_result \<Rightarrow> profile_store \<Rightarrow> profile_store" where
  "settle_request now r x s =
     (let rq = ps_issued s ! r; name = rq_name rq
      in s\<lparr>ps_issued := (ps_issued s)[r := rq\<lparr>rq_result := Some x\<rparr>],
           ps_cache := (case x of
               Resolved p \<Rightarrow> if rq_generation rq = ps_generation s then cacheUserProfile now name p (Some r) (ps_cache s) else ps_cache s
             | Rejected \<Rightarrow> ps_cache s),
           ps_requests := (if ps_requests s name = Some r then (ps_requests s)(name := None) else ps_requests s),
           ps_calls := map (\<lambda>c. if c = Waiting r then call_result x else c) (ps_calls s)\<rparr>)"

text \<open>The answer to a batch: the list of profiles, or \<^term>\<open>None\<close> when the request failed.\<close>

definition batch_result :: "profile list option \<Rightarrow> ustring \<Rightarrow> profile_result" where
  "batch_result payload name =
     (case payload of
        None \<Rightarrow> Rejected
      | Some ps \<Rightarrow> (case map_of (rev (map (\<lambda>p. (pf_username p, p)) ps)) (Some name) of None \<Rightarrow> Rejected | Some p \<Rightarrow> Resolved p))"

definition settle_batch :: "int \<Rightarrow> profile list option \<Rightarrow> (ustring \<times> nat) list \<Rightarrow> profile_store \<Rightarrow> profile_store" where
  "settle_batch now payload batch s = fold (\<lambda>(name, r). settle_request now r (batch_result payload name)) batch s"

definition clearUserProfileCache :: "profile_store \<Rightarrow> profile_store" where
  "clearUserProfileCache s = s\<lparr>ps_generation := ps_generation s + 1, ps_cache := [], ps_requests := Map.empty\<rparr>"

text \<open>The names that are announced as invalidated, and the remaining cache.\<close>

definition invalidated_names :: "ustring option list \<Rightarrow> ustring list" where
  "invalidated_names usernames = filter (\<lambda>n. n \<noteq> []) (map normalize_username usernames)"

definition invalidateUserProfiles :: "ustring option list \<Rightarrow> profile_store \<Rightarrow> profile_store" where
  "invalidateUserProfiles usernames s = s\<lparr>ps_cache := fold cache_delete (invalidated_names usernames) (ps_cache s)\<rparr>"

definition syncUserProfile :: "profile option \<Rightarrow> ustring option \<Rightarrow> int \<Rightarrow> profile_store \<Rightarrow> profile_store" where
  "syncUserProfile p oldUsername now s =
     (case p of
        None \<Rightarrow> s
      | Some q \<Rightarrow>
          let username = normalize_username (pf_username q); previous = normalize_username oldUsername
          in if username = [] then s
             else let c = (if previous \<noteq> [] \<and> previous \<noteq> username then cache_delete previous (ps_cache s) else ps_cache s)
                  in s\<lparr>ps_cache := cacheUserProfile now username q None c\<rparr>)"

datatype profile_event =
    GetProfile "ustring option" bool int
  | RunFlush
  | BatchAnswer nat "profile list option" int
  | RefreshAnswer nat profile_result int
  | ClearCache
  | Invalidate "ustring option list"
  | SyncProfile "profile option" "ustring option" int

fun profile_step :: "profile_store \<Rightarrow> profile_event \<Rightarrow> profile_store option" where
  "profile_step s (GetProfile u refresh now) = Some (getUserProfile u refresh now s)"
| "profile_step s RunFlush = (if ps_scheduled s then Some (flushUserProfileBatch s) else None)"
| "profile_step s (BatchAnswer i payload now) =
     (if ps_scheduled s \<or> length (ps_flushes s) \<le> i then None
      else case ps_flushes s ! i of
          [] \<Rightarrow> None
        | b # bs \<Rightarrow> Some (settle_batch now payload b (s\<lparr>ps_flushes := (ps_flushes s)[i := bs]\<rparr>)))"
| "profile_step s (RefreshAnswer r x now) =
     (if ps_scheduled s \<or> length (ps_issued s) \<le> r then None
      else if rq_refresh (ps_issued s ! r) \<and> rq_result (ps_issued s ! r) = None then Some (settle_request now r x s) else None)"
| "profile_step s ClearCache = Some (clearUserProfileCache s)"
| "profile_step s (Invalidate us) = Some (invalidateUserProfiles us s)"
| "profile_step s (SyncProfile p old now) = Some (syncUserProfile p old now s)"

section \<open>Routes\<close>

definition profile_sections :: "ustring list" where
  "profile_sections = [ustr ''edit'', ustr ''maven'', ustr ''cargo'', ustr ''docker'', ustr ''npm'']"

text \<open>\<^verbatim>\<open>^/user/([^/]+)(?:/(edit|maven|cargo|docker|npm))?/?$\<close>: the first group and the second, empty when absent.\<close>

definition match_profile_route :: "ustring \<Rightarrow> (ustring \<times> ustring) option" where
  "match_profile_route path =
     (if \<not> startsWith path (ustr ''/user/'') then None
      else case js_split 47 (drop 6 path) of
          [u] \<Rightarrow> if u \<noteq> [] then Some (u, []) else None
        | [u, sec] \<Rightarrow> if u \<noteq> [] \<and> (sec = [] \<or> sec \<in> set profile_sections) then Some (u, sec) else None
        | [u, sec, e] \<Rightarrow> if u \<noteq> [] \<and> sec \<in> set profile_sections \<and> e = [] then Some (u, sec) else None
        | _ \<Rightarrow> None)"

definition profileRouteFromPath :: "ustring \<Rightarrow> (ustring \<times> ustring) option" where
  "profileRouteFromPath path =
     (case match_profile_route path of
        None \<Rightarrow> None
      | Some (u, sec) \<Rightarrow>
          (case decodeURIComponent u of
             None \<Rightarrow> None
           | Some d \<Rightarrow> (let username = lower (utrim d) in if username \<noteq> [] then Some (username, sec) else None)))"

text \<open>The session history from the current entry on: pathname, and the return path and back flag of the entry's state.\<close>

type_synonym profile_history = "(ustring \<times> (ustring option \<times> bool)) list"

definition profile_path :: "ustring \<Rightarrow> ustring \<Rightarrow> ustring option" where
  "profile_path normalized sec =
     map_option (\<lambda>e. ustr ''/user/'' @ e @ (if sec \<noteq> [] then ustr ''/'' @ sec else [])) (encodeURIComponent normalized)"

text \<open>The new history and whether a \<^verbatim>\<open>popstate\<close> event is dispatched; \<^term>\<open>None\<close> for the \<^verbatim>\<open>URIError\<close> of a lone surrogate.\<close>

definition navigateToUserProfile :: "ustring option \<Rightarrow> ustring \<Rightarrow> bool \<Rightarrow> profile_history \<Rightarrow> (profile_history \<times> bool) option" where
  "navigateToUserProfile username sec replace h =
     (let normalized = normalize_username username; normalizedSection = (if sec \<in> set profile_sections then sec else [])
      in if normalized = [] then Some (h, False)
         else map_option
           (\<lambda>path.
              let here = (case h of [] \<Rightarrow> [] | (p, _) # _ \<Rightarrow> p); here_state = (case h of [] \<Rightarrow> (None, False) | (_, st) # _ \<Rightarrow> st)
              in if \<not> replace \<and> strip_trailing_slash here = path then (h, False)
                 else let returnPath = opt_or (fst here_state) (if profileRouteFromPath here \<noteq> None then ustr ''/'' else here);
                          st = (Some returnPath, if replace then snd here_state else True)
                      in ((path, st) # (if replace then tl h else h), True))
           (profile_path normalized normalizedSection))"

definition navigateToUsernameProfile :: "ustring option \<Rightarrow> bool \<Rightarrow> profile_history \<Rightarrow> (profile_history \<times> bool) option" where
  "navigateToUsernameProfile username replace h = navigateToUserProfile username [] replace h"


section \<open>Invariant of the cache\<close>

definition pending :: "profile_store \<Rightarrow> (ustring \<times> nat) list" where
  "pending s = ps_queue s @ concat (concat (ps_flushes s))"

definition request_open :: "profile_store \<Rightarrow> nat \<Rightarrow> bool" where
  "request_open s r \<longleftrightarrow> r < length (ps_issued s) \<and> rq_result (ps_issued s ! r) = None"

definition current_request :: "profile_store \<Rightarrow> nat \<Rightarrow> bool" where
  "current_request s r \<longleftrightarrow> rq_generation (ps_issued s ! r) = ps_generation s"

definition entry_ok :: "profile_store \<Rightarrow> cached_profile \<Rightarrow> bool" where
  "entry_ok s e \<longleftrightarrow> ce_name e \<noteq> [] \<and> lower (utrim (ce_name e)) = ce_name e
     \<and> (\<forall>r. ce_source e = Some r \<longrightarrow> r < length (ps_issued s) \<and> current_request s r \<and> rq_name (ps_issued s ! r) = ce_name e
            \<and> rq_result (ps_issued s ! r) = Some (Resolved (ce_profile e)))"

definition cache_ok :: "profile_store \<Rightarrow> bool" where
  "cache_ok s \<longleftrightarrow> distinct (map ce_name (ps_cache s)) \<and> length (ps_cache s) \<le> PROFILE_CACHE_MAX_ENTRIES
     \<and> (\<forall>e\<in>set (ps_cache s). entry_ok s e)"

definition issued_ok :: "profile_store \<Rightarrow> bool" where
  "issued_ok s \<longleftrightarrow> (\<forall>r<length (ps_issued s). rq_generation (ps_issued s ! r) \<le> ps_generation s
     \<and> rq_name (ps_issued s ! r) \<noteq> [] \<and> lower (utrim (rq_name (ps_issued s ! r))) = rq_name (ps_issued s ! r))"

text \<open>\<open>b\<close> is a batch whose answer is being handed out: it has left its flush, its requests are still open.\<close>

definition pending_ok :: "(ustring \<times> nat) list \<Rightarrow> profile_store \<Rightarrow> bool" where
  "pending_ok b s \<longleftrightarrow> distinct (map snd (b @ pending s)) \<and> (ps_scheduled s \<longleftrightarrow> ps_queue s \<noteq> []) \<and> distinct (map fst (ps_queue s))
     \<and> (\<forall>(n, r)\<in>set (b @ pending s). request_open s r \<and> rq_name (ps_issued s ! r) = n \<and> \<not> rq_refresh (ps_issued s ! r))"

definition requests_ok :: "profile_store \<Rightarrow> bool" where
  "requests_ok s \<longleftrightarrow> (\<forall>n r. ps_requests s n = Some r \<longrightarrow> request_open s r \<and> current_request s r \<and> rq_name (ps_issued s ! r) = n)
     \<and> (\<forall>(n, r)\<in>set (ps_queue s). current_request s r \<longrightarrow> ps_requests s n \<noteq> None)"

definition live_ok :: "(ustring \<times> nat) list \<Rightarrow> profile_store \<Rightarrow> bool" where
  "live_ok b s \<longleftrightarrow> (\<forall>r. request_open s r \<and> current_request s r \<and> \<not> rq_refresh (ps_issued s ! r)
       \<longrightarrow> (rq_name (ps_issued s ! r), r) \<in> set (b @ pending s))
     \<and> (\<forall>r. Waiting r \<in> set (ps_calls s) \<longrightarrow> request_open s r)"

definition store_with :: "(ustring \<times> nat) list \<Rightarrow> profile_store \<Rightarrow> bool" where
  "store_with b s \<longleftrightarrow> cache_ok s \<and> issued_ok s \<and> pending_ok b s \<and> requests_ok s \<and> live_ok b s"

abbreviation store_inv :: "profile_store \<Rightarrow> bool" where
  "store_inv s \<equiv> store_with [] s"

lemmas store_invs = store_with_def cache_ok_def issued_ok_def pending_ok_def requests_ok_def live_ok_def

lemma fresh_store_inv: "store_inv fresh_store"
  by (simp add: store_invs fresh_store_def pending_def request_open_def)

lemma lower_space: "unit_space (lower_unit u) = unit_space u"
  by (auto simp: unit_space_def lower_unit_def)

lemma utrim_ends: "utrim s = [] \<or> (\<not> unit_space (hd (utrim s)) \<and> \<not> unit_space (last (utrim s)))"
proof (cases "utrim s")
  case (Cons a as)
  let ?d = "dropWhile unit_space s"
  have ne: "rev (dropWhile unit_space (rev ?d)) \<noteq> []" using Cons by (simp add: utrim_def trim_by_def)
  then have last: "\<not> unit_space (last (utrim s))"
    using hd_dropWhile [of unit_space "rev ?d"] by (simp add: utrim_def trim_by_def last_rev)
  have "prefix (utrim s) ?d"
    unfolding utrim_def trim_by_def by (metis rev_rev_ident suffix_dropWhile suffix_to_prefix)
  then obtain zs where "?d = (a # as) @ zs" using Cons by (auto simp: prefix_def)
  then have "hd (utrim s) = hd ?d" "?d \<noteq> []" using Cons by (metis append_Cons list.sel(1)) (metis \<open>?d = (a # as) @ zs\<close> append_Cons list.distinct(1))
  with last show ?thesis using hd_dropWhile [of unit_space s] by simp
qed simp

lemma normalize_idem: "lower (utrim (normalize_username u)) = normalize_username u"
proof -
  let ?x = "utrim (opt_or u [])"
  have "lower ?x = [] \<or> (\<not> unit_space (hd (lower ?x)) \<and> \<not> unit_space (last (lower ?x)))"
    using utrim_ends [of "opt_or u []"] by (cases "?x = []") (auto simp: lower_def hd_map last_map lower_space)
  then have "utrim (lower ?x) = lower ?x" unfolding utrim_def by (rule trim_by_id)
  then show ?thesis by (simp add: normalize_username_def lower_idem)
qed

lemma batches_concat [simp]: "concat (batches xs) = xs"
  by (induction xs rule: batches.induct) (subst batches.simps, auto)

lemma batches_bound: "b \<in> set (batches xs) \<Longrightarrow> b \<noteq> [] \<and> length b \<le> 50"
proof (induction xs rule: batches.induct)
  case (1 xs)
  then show ?case by (auto simp: batches.simps [of xs] split: if_splits)
qed

text \<open>Storing a profile keeps the cache bounded and free of duplicates.\<close>

lemma cache_put:
  assumes "distinct (map ce_name c)" "length c \<le> PROFILE_CACHE_MAX_ENTRIES"
  shows "distinct (map ce_name (cacheUserProfile now n p src c)) \<and> length (cacheUserProfile now n p src c) \<le> PROFILE_CACHE_MAX_ENTRIES
    \<and> (\<forall>e\<in>set (cacheUserProfile now n p src c). e \<in> set c \<or> (ce_name e = n \<and> ce_profile e = p \<and> ce_source e = src))"
proof -
  define c1 where "c1 = filter (\<lambda>e. \<not> ce_expires e \<le> now) (cache_delete n c)"
  define c2 where "c2 = (if PROFILE_CACHE_MAX_ENTRIES \<le> length c1 then tl c1 else c1)"
  have c1: "distinct (map ce_name c1)" "set c1 \<subseteq> set c" "n \<notin> ce_name ` set c1" "length c1 \<le> PROFILE_CACHE_MAX_ENTRIES"
    using assms order_trans [OF length_filter_le order_trans [OF length_filter_le assms(2)]]
    by (auto simp: c1_def cache_delete_def distinct_map inj_on_def)
  have sub: "set c2 \<subseteq> set c1" unfolding c2_def by (cases c1) auto
  have "distinct (map ce_name c2)" using c1(1) by (cases c1) (auto simp: c2_def)
  moreover have "length c2 < PROFILE_CACHE_MAX_ENTRIES" using c1(4) by (auto simp: c2_def PROFILE_CACHE_MAX_ENTRIES_def)
  moreover have "n \<notin> ce_name ` set c2" using sub c1(3) by blast
  ultimately show ?thesis using sub c1(2) by (auto simp: cacheUserProfile_def Let_def c1_def [symmetric] c2_def [symmetric])
qed

lemma cache_drop:
  assumes "cache_ok s" "set c \<subseteq> set (ps_cache s)" "distinct (map ce_name c)" "length c \<le> length (ps_cache s)"
  shows "cache_ok (s\<lparr>ps_cache := c\<rparr>)"
  using assms by (auto simp: cache_ok_def entry_ok_def current_request_def)

lemma cache_delete_ok: "cache_ok s \<Longrightarrow> cache_ok (s\<lparr>ps_cache := cache_delete n (ps_cache s)\<rparr>)"
  by (rule cache_drop) (auto simp: cache_delete_def cache_ok_def distinct_map inj_on_def length_filter_le)

lemma cache_deletes_ok: "cache_ok s \<Longrightarrow> cache_ok (s\<lparr>ps_cache := fold cache_delete ns (ps_cache s)\<rparr>)"
proof (induction ns arbitrary: s)
  case (Cons n ns)
  from Cons.IH [OF cache_delete_ok [OF Cons.prems]] show ?case by simp
qed simp

text \<open>Everything but the cache is left alone by the operations on the cache.\<close>

lemma cache_only: "store_inv s \<Longrightarrow> cache_ok (s\<lparr>ps_cache := c\<rparr>) \<Longrightarrow> store_inv (s\<lparr>ps_cache := c\<rparr>)"
  by (auto simp: store_with_def issued_ok_def pending_ok_def requests_ok_def live_ok_def pending_def request_open_def current_request_def)

lemma cache_put_ok:
  assumes "cache_ok s" "\<And>e. ce_name e = n \<Longrightarrow> ce_profile e = p \<Longrightarrow> ce_source e = src \<Longrightarrow> entry_ok s e"
  shows "cache_ok (s\<lparr>ps_cache := cacheUserProfile now n p src (ps_cache s)\<rparr>)"
  using cache_put [of "ps_cache s" now n p src] assms
  by (auto simp: cache_ok_def entry_ok_def current_request_def)

lemma sync_inv: "store_inv s \<Longrightarrow> store_inv (syncUserProfile p old now s)"
proof -
  assume inv: "store_inv s"
  show ?thesis
  proof (cases "p = None \<or> normalize_username (pf_username (the p)) = []")
    case True
    with inv show ?thesis by (cases p) (auto simp: syncUserProfile_def Let_def)
  next
    case False
    then obtain q where q: "p = Some q" "normalize_username (pf_username q) \<noteq> []" by auto
    let ?u = "normalize_username (pf_username q)" and ?o = "normalize_username old"
    define c where "c = (if ?o \<noteq> [] \<and> ?o \<noteq> ?u then cache_delete ?o (ps_cache s) else ps_cache s)"
    have "cache_ok s" using inv by (simp add: store_with_def)
    then have "cache_ok (s\<lparr>ps_cache := c\<rparr>)" using cache_delete_ok [of s ?o] by (auto simp: c_def)
    then have "cache_ok (s\<lparr>ps_cache := cacheUserProfile now ?u q None c\<rparr>)"
      using cache_put_ok [of "s\<lparr>ps_cache := c\<rparr>" ?u q None now] q(2) by (auto simp: entry_ok_def normalize_idem)
    then show ?thesis using cache_only [OF inv] q by (simp add: syncUserProfile_def Let_def c_def)
  qed
qed

lemma pending_open:
  "store_with b s \<Longrightarrow> (n, r) \<in> set (b @ pending s) \<Longrightarrow> request_open s r \<and> rq_name (ps_issued s ! r) = n \<and> \<not> rq_refresh (ps_issued s ! r)"
  unfolding store_with_def pending_ok_def by blast

lemma queue_pending: "x \<in> set (ps_queue s) \<Longrightarrow> x \<in> set (pending s)"
  by (simp add: pending_def)

lemma clear_inv:
  assumes "store_inv s"
  shows "store_inv (clearUserProfileCache s)"
proof -
  have none: "\<not> current_request (clearUserProfileCache s) r" if "r < length (ps_issued s)" for r
    using assms that by (auto simp: store_with_def issued_ok_def current_request_def clearUserProfileCache_def)
  have same: "pending (clearUserProfileCache s) = pending s" "request_open (clearUserProfileCache s) = request_open s"
    "ps_issued (clearUserProfileCache s) = ps_issued s" "ps_queue (clearUserProfileCache s) = ps_queue s"
    "ps_requests (clearUserProfileCache s) = Map.empty" "ps_calls (clearUserProfileCache s) = ps_calls s"
    "ps_scheduled (clearUserProfileCache s) = ps_scheduled s" "ps_cache (clearUserProfileCache s) = []"
    by (auto simp: clearUserProfileCache_def pending_def request_open_def)
  have opens: "r < length (ps_issued s)" if "request_open s r" for r using that by (simp add: request_open_def)
  have queued: "r < length (ps_issued s)" if "(n, r) \<in> set (ps_queue s)" for n r
    using pending_open [OF assms, of n r] queue_pending [OF that] opens by simp
  have "issued_ok (clearUserProfileCache s)"
    using assms by (auto simp: store_with_def issued_ok_def clearUserProfileCache_def)
  moreover have "requests_ok (clearUserProfileCache s)" using none queued by (auto simp: requests_ok_def same)
  moreover have "live_ok [] (clearUserProfileCache s)" using assms none opens by (auto simp: store_with_def live_ok_def same)
  moreover have "pending_ok [] (clearUserProfileCache s)" using assms by (auto simp: store_with_def pending_ok_def same)
  ultimately show ?thesis by (simp add: store_with_def cache_ok_def same PROFILE_CACHE_MAX_ENTRIES_def)
qed

lemma flush_inv:
  assumes "store_inv s" "ps_scheduled s"
  shows "store_inv (flushUserProfileBatch s)"
proof -
  have set: "set (pending (flushUserProfileBatch s)) = set (pending s)" by (auto simp: pending_def flushUserProfileBatch_def)
  have "distinct (map snd (pending (flushUserProfileBatch s)))"
    using assms by (auto simp: store_with_def pending_ok_def pending_def flushUserProfileBatch_def)
  moreover have "request_open (flushUserProfileBatch s) = request_open s" "current_request (flushUserProfileBatch s) = current_request s"
    "entry_ok (flushUserProfileBatch s) = entry_ok s" "ps_issued (flushUserProfileBatch s) = ps_issued s"
    "ps_requests (flushUserProfileBatch s) = ps_requests s" "ps_calls (flushUserProfileBatch s) = ps_calls s"
    "ps_cache (flushUserProfileBatch s) = ps_cache s" "ps_generation (flushUserProfileBatch s) = ps_generation s"
    "ps_queue (flushUserProfileBatch s) = []" "\<not> ps_scheduled (flushUserProfileBatch s)"
    by (auto simp: flushUserProfileBatch_def request_open_def current_request_def entry_ok_def fun_eq_iff)
  ultimately show ?thesis using assms by (simp add: store_invs set)
qed

text \<open>A settled request is no longer pending; all others are as before.\<close>

lemma settle_fields:
  assumes "request_open s r"
  shows "request_open (settle_request now r x s) q \<longleftrightarrow> request_open s q \<and> q \<noteq> r"
    and "current_request (settle_request now r x s) q \<longleftrightarrow> current_request s q"
    and "rq_name (ps_issued (settle_request now r x s) ! q) = rq_name (ps_issued s ! q)"
    and "rq_generation (ps_issued (settle_request now r x s) ! q) = rq_generation (ps_issued s ! q)"
    and "rq_refresh (ps_issued (settle_request now r x s) ! q) = rq_refresh (ps_issued s ! q)"
    and "rq_result (ps_issued (settle_request now r x s) ! q) = (if q = r then Some x else rq_result (ps_issued s ! q))"
    and "length (ps_issued (settle_request now r x s)) = length (ps_issued s)"
    and "pending (settle_request now r x s) = pending s" "ps_queue (settle_request now r x s) = ps_queue s" "ps_flushes (settle_request now r x s) = ps_flushes s"
    and "ps_scheduled (settle_request now r x s) = ps_scheduled s" "ps_generation (settle_request now r x s) = ps_generation s"
  using assms by (cases "q = r"; auto simp: settle_request_def Let_def request_open_def current_request_def pending_def nth_list_update)+

lemma settle_cache:
  assumes "cache_ok s" "issued_ok s" "request_open s r"
  shows "cache_ok (settle_request now r x s)"
proof -
  let ?t = "settle_request now r x s"
  have keep: "entry_ok ?t e" if "e \<in> set (ps_cache s)" for e
    using assms(1,3) that settle_fields [OF assms(3), of now x] by (auto simp: cache_ok_def entry_ok_def request_open_def)
  have old: "cache_ok (?t\<lparr>ps_cache := ps_cache s\<rparr>)"
    using assms(1) keep by (auto simp: cache_ok_def entry_ok_def current_request_def)
  show ?thesis
  proof (cases "\<exists>p. x = Resolved p \<and> current_request s r")
    case True
    then obtain p where p: "x = Resolved p" "current_request s r" by blast
    let ?n = "rq_name (ps_issued s ! r)"
    have new: "entry_ok (?t\<lparr>ps_cache := ps_cache s\<rparr>) e" if "ce_name e = ?n" "ce_profile e = p" "ce_source e = Some r" for e
      using that assms(2,3) p settle_fields [OF assms(3), of now x]
      by (auto simp: entry_ok_def issued_ok_def request_open_def current_request_def)
    have "ps_cache ?t = cacheUserProfile now ?n p (Some r) (ps_cache s)"
      using p by (simp add: settle_request_def Let_def current_request_def)
    with cache_put_ok [OF old, of ?n p "Some r" now] new show ?thesis by simp (metis profile_store.surjective profile_store.update_convs(1))
  next
    case False
    then have "ps_cache ?t = ps_cache s" by (cases x) (auto simp: settle_request_def Let_def current_request_def)
    with old show ?thesis by (metis profile_store.surjective profile_store.update_convs(1))
  qed
qed

lemma settle_requests:
  assumes "requests_ok s" "request_open s r" "ps_queue s = []"
  shows "requests_ok (settle_request now r x s)"
proof -
  have other: "ps_requests s n = Some k \<and> k \<noteq> r" if "ps_requests (settle_request now r x s) n = Some k" for n k
  proof -
    have name: "ps_requests s m = Some l \<Longrightarrow> rq_name (ps_issued s ! l) = m" for m l using assms(1) unfolding requests_ok_def by blast
    have "ps_requests (settle_request now r x s) = (let m = rq_name (ps_issued s ! r) in
        if ps_requests s m = Some r then (ps_requests s)(m := None) else ps_requests s)"
      by (simp add: settle_request_def Let_def)
    with that name [of n k] show ?thesis by (cases "k = r") (auto simp: Let_def split: if_splits)
  qed
  have "request_open (settle_request now r x s) k \<and> current_request (settle_request now r x s) k \<and> rq_name (ps_issued (settle_request now r x s) ! k) = n"
    if "ps_requests (settle_request now r x s) n = Some k" for n k
    using assms(1) other [OF that] unfolding requests_ok_def settle_fields [OF assms(2)] by blast
  then show ?thesis unfolding requests_ok_def using assms(3) by (simp add: settle_fields(9) [OF assms(2)])
qed

lemma settle_calls:
  "Waiting q \<in> set (ps_calls (settle_request now r x s)) \<longleftrightarrow> Waiting q \<in> set (ps_calls s) \<and> q \<noteq> r"
  by (auto simp: settle_request_def Let_def call_result_def split: profile_result.splits)

lemma settle_issued: "issued_ok s \<Longrightarrow> request_open s r \<Longrightarrow> issued_ok (settle_request now r x s)"
  by (simp add: issued_ok_def settle_fields)

text \<open>Settling an open request that is pending nowhere else; \<open>b\<close> and \<open>b'\<close> are the batches in hand before and after.\<close>

lemma settle_pending:
  assumes "pending_ok b' s" "pending_ok b s" "request_open s r" "set b \<subseteq> set b'" "\<And>n k. (n, k) \<in> set (b @ pending s) \<Longrightarrow> k \<noteq> r"
  shows "pending_ok b (settle_request now r x s)"
proof -
  have "request_open (settle_request now r x s) k \<and> rq_name (ps_issued (settle_request now r x s) ! k) = n \<and> \<not> rq_refresh (ps_issued (settle_request now r x s) ! k)"
    if "(n, k) \<in> set (b @ pending s)" for n k
    using assms(2) assms(5) [OF that] that unfolding pending_ok_def settle_fields [OF assms(3)] by blast
  with assms(2) show ?thesis unfolding pending_ok_def settle_fields(8,9,11) [OF assms(3)] by blast
qed

lemma settle_live:
  assumes "live_ok b' s" "request_open s r" "\<And>y. y \<in> set (b' @ pending s) \<Longrightarrow> snd y \<noteq> r \<Longrightarrow> y \<in> set (b @ pending s)"
  shows "live_ok b (settle_request now r x s)"
  unfolding live_ok_def settle_fields [OF assms(2)] settle_calls
proof (intro conjI allI impI)
  fix k
  assume k: "(request_open s k \<and> k \<noteq> r) \<and> current_request s k \<and> \<not> rq_refresh (ps_issued s ! k)"
  then have "(rq_name (ps_issued s ! k), k) \<in> set (b' @ pending s)" using assms(1) unfolding live_ok_def by blast
  with k assms(3) show "(rq_name (ps_issued s ! k), k) \<in> set (b @ pending s)" by (metis snd_conv)
next
  fix k
  assume k: "Waiting k \<in> set (ps_calls s) \<and> k \<noteq> r"
  then show "request_open s k" "k \<noteq> r" using assms(1) unfolding live_ok_def by blast+
qed

lemma settle_rest:
  assumes "store_with b' s" "ps_queue s = []" "request_open s r"
  shows "cache_ok (settle_request now r x s) \<and> issued_ok (settle_request now r x s) \<and> requests_ok (settle_request now r x s)"
  using assms settle_cache [OF _ _ assms(3)] settle_issued [OF _ assms(3)] settle_requests [OF _ assms(3)] by (simp add: store_with_def)

lemma settle_head:
  assumes "store_with ((n, r) # b) s" "ps_queue s = []"
  shows "store_with b (settle_request now r x s)"
proof -
  have r: "request_open s r" using pending_open [OF assms(1), of n r] by simp
  have ok: "pending_ok ((n, r) # b) s" "live_ok ((n, r) # b) s" using assms(1) by (simp_all add: store_with_def)
  have fresh: "k \<noteq> r" if "(m, k) \<in> set (b @ pending s)" for m k
    using ok(1) that unfolding pending_ok_def by (force simp: image_iff)
  have "pending_ok b s" using ok(1) unfolding pending_ok_def by (simp add: pending_def)
  then have "pending_ok b (settle_request now r x s)" using settle_pending [OF ok(1) _ r] fresh by auto
  moreover have "live_ok b (settle_request now r x s)" by (rule settle_live [OF ok(2) r]) auto
  ultimately show ?thesis using settle_rest [OF assms r] by (simp add: store_with_def)
qed

lemma settle_refresh:
  assumes "store_inv s" "ps_queue s = []" "request_open s r" "rq_refresh (ps_issued s ! r)"
  shows "store_inv (settle_request now r x s)"
proof -
  have ok: "pending_ok [] s" "live_ok [] s" using assms(1) by (simp_all add: store_with_def)
  have fresh: "k \<noteq> r" if "(m, k) \<in> set ([] @ pending s)" for m k
    using pending_open [OF assms(1), of m k] that assms(4) by auto
  have "pending_ok [] (settle_request now r x s)" using settle_pending [OF ok(1) ok(1) assms(3)] fresh by auto
  moreover have "live_ok [] (settle_request now r x s)" by (rule settle_live [OF ok(2) assms(3)]) auto
  ultimately show ?thesis using settle_rest [OF assms(1-3)] by (simp add: store_with_def)
qed

lemma settle_mono: "\<not> request_open s k \<Longrightarrow> \<not> request_open (settle_request now r x s) k"
  by (cases "k = r") (auto simp: settle_request_def Let_def request_open_def)

lemma settle_batch_mono: "\<not> request_open s k \<Longrightarrow> \<not> request_open (settle_batch now payload b s) k"
proof (induction b arbitrary: s)
  case (Cons a b)
  from Cons.IH [OF settle_mono [OF Cons.prems]] show ?case by (cases a) (simp add: settle_batch_def)
qed (simp add: settle_batch_def)

lemma settle_batch_inv:
  "store_with b s \<Longrightarrow> ps_queue s = [] \<Longrightarrow> store_inv (settle_batch now payload b s)
     \<and> (\<forall>n r. (n, r) \<in> set b \<longrightarrow> \<not> request_open (settle_batch now payload b s) r)"
proof (induction b arbitrary: s)
  case Nil
  then show ?case by (simp add: settle_batch_def)
next
  case (Cons a b)
  obtain n r where a: "a = (n, r)" by (cases a)
  let ?s = "settle_request now r (batch_result payload n) s"
  have r: "request_open s r" using pending_open [OF Cons.prems(1), of n r] a by simp
  have IH: "store_inv (settle_batch now payload b ?s)" "\<forall>m k. (m, k) \<in> set b \<longrightarrow> \<not> request_open (settle_batch now payload b ?s) k"
    using Cons.IH [OF settle_head [OF Cons.prems(1) [unfolded a] Cons.prems(2)]] Cons.prems(2) settle_fields(9) [OF r] by auto
  have "\<not> request_open ?s r" using settle_fields(1) [OF r] by simp
  then have "\<not> request_open (settle_batch now payload b ?s) r" by (rule settle_batch_mono)
  moreover have "settle_batch now payload (a # b) s = settle_batch now payload b ?s" by (simp add: settle_batch_def a)
  ultimately show ?case using IH a by auto
qed

lemma distinct_front: "distinct (map f (A @ b @ C)) \<Longrightarrow> distinct (map f (b @ A @ C))"
  by auto

lemma distinct_swap:
  assumes "distinct (map f (Q @ F))" "distinct (map f P)" "f ` set P \<subseteq> insert r (f ` set Q)" "r \<notin> f ` set (Q @ F)"
  shows "distinct (map f (P @ F))"
proof -
  have "f ` set P \<inter> f ` set F = {}" using assms(1,3,4) unfolding map_append distinct_append set_map set_append image_Un by blast
  with assms(1,2) show ?thesis by simp
qed

lemma batch_answer_inv:
  assumes "store_inv s" "\<not> ps_scheduled s" "i < length (ps_flushes s)" "ps_flushes s ! i = b # bs"
  shows "store_with b (s\<lparr>ps_flushes := (ps_flushes s)[i := bs]\<rparr>)"
proof -
  let ?t = "s\<lparr>ps_flushes := (ps_flushes s)[i := bs]\<rparr>"
  obtain xs ys where split: "ps_flushes s = xs @ (b # bs) # ys" "length xs = i"
    using assms(3,4) by (metis id_take_nth_drop length_take min.absorb4)
  have q: "ps_queue s = []" using assms(1,2) by (simp add: store_with_def pending_ok_def)
  have upd: "(ps_flushes s)[i := bs] = xs @ bs # ys" by (metis split list_update_length)
  have set: "set (b @ pending ?t) = set (pending s)" using split q by (auto simp: pending_def upd)
  have dist: "distinct (map snd (b @ pending ?t))"
  proof -
    let ?A = "concat (concat xs)" and ?C = "concat bs @ concat (concat ys)"
    have "pending s = ?A @ b @ ?C" using split(1) q by (simp add: pending_def)
    moreover have "pending ?t = ?A @ ?C" using q upd by (simp add: pending_def)
    moreover have "distinct (map snd (pending s))" using assms(1) by (simp add: store_with_def pending_ok_def)
    ultimately show ?thesis using distinct_front [of snd ?A b ?C] by simp
  qed
  have same: "request_open ?t = request_open s" "current_request ?t = current_request s" "entry_ok ?t = entry_ok s"
    by (auto simp: request_open_def current_request_def entry_ok_def fun_eq_iff)
  show ?thesis using assms(1) dist unfolding store_with_def pending_ok_def live_ok_def cache_ok_def issued_ok_def requests_ok_def same set by simp
qed

lemma add_call_inv:
  assumes "store_inv s" "\<And>r. c = Waiting r \<Longrightarrow> request_open s r"
  shows "store_inv (add_call c s)"
proof -
  have same: "request_open (add_call c s) = request_open s" "current_request (add_call c s) = current_request s" "entry_ok (add_call c s) = entry_ok s"
    "pending (add_call c s) = pending s"
    by (auto simp: add_call_def request_open_def current_request_def entry_ok_def pending_def fun_eq_iff)
  have "live_ok [] (add_call c s)"
    using assms unfolding store_with_def live_ok_def same by (auto simp: add_call_def)
  then show ?thesis
    using assms(1) unfolding store_with_def pending_ok_def cache_ok_def issued_ok_def requests_ok_def same by (simp add: add_call_def)
qed

text \<open>Queueing a name replaces a request of that name that is still queued.\<close>

lemma set_update: "distinct (map fst q) \<Longrightarrow> set (AList.update n r q) = insert (n, r) {y \<in> set q. fst y \<noteq> n}"
  by (induction q) (auto simp: rev_image_eqI)

lemma distinct_snd_update: "distinct (map snd q) \<Longrightarrow> r \<notin> snd ` set q \<Longrightarrow> distinct (map snd (AList.update n r q))"
proof (induction q)
  case (Cons a q)
  have "snd ` set (AList.update n r q) \<subseteq> insert r (snd ` set q)" by (induction q) auto
  with Cons show ?case by (cases a) auto
qed simp

lemma update_nonempty [simp]: "AList.update n r q \<noteq> []"
  by (cases q) auto

definition issued_store :: "ustring \<Rightarrow> bool \<Rightarrow> profile_store \<Rightarrow> profile_store" where
  "issued_store name refresh s =
     (let r = length (ps_issued s)
      in s\<lparr>ps_issued := ps_issued s @ [\<lparr>rq_name = name, rq_generation = ps_generation s, rq_refresh = refresh, rq_result = None\<rparr>],
           ps_queue := (if refresh then ps_queue s else AList.update name r (ps_queue s)),
           ps_scheduled := (ps_scheduled s \<or> \<not> refresh),
           ps_requests := (ps_requests s)(name \<mapsto> r)\<rparr>)"

lemma issue_request_split: "issue_request name refresh s = add_call (Waiting (length (ps_issued s))) (issued_store name refresh s)"
  by (simp add: issue_request_def issued_store_def queueUserProfile_def Let_def)

lemma issued_fields:
  assumes "r < length (ps_issued s)"
  shows "ps_issued (issued_store n f s) ! r = ps_issued s ! r"
    and "request_open (issued_store n f s) r \<longleftrightarrow> request_open s r"
    and "current_request (issued_store n f s) r \<longleftrightarrow> current_request s r"
  using assms by (auto simp: issued_store_def Let_def request_open_def current_request_def nth_append)

lemma issued_new:
  "ps_issued (issued_store n f s) ! length (ps_issued s) = \<lparr>rq_name = n, rq_generation = ps_generation s, rq_refresh = f, rq_result = None\<rparr>"
  "request_open (issued_store n f s) (length (ps_issued s))" "current_request (issued_store n f s) (length (ps_issued s))"
  by (simp_all add: issued_store_def Let_def request_open_def current_request_def)

lemma issued_open: "request_open (issued_store n f s) r \<longleftrightarrow> request_open s r \<or> r = length (ps_issued s)"
  by (auto simp: issued_store_def Let_def request_open_def nth_append)

lemma issued_cache: "cache_ok s \<Longrightarrow> cache_ok (issued_store n f s)"
  by (fastforce simp: cache_ok_def entry_ok_def issued_store_def Let_def current_request_def nth_append)

lemma issued_issued: "issued_ok s \<Longrightarrow> n \<noteq> [] \<Longrightarrow> lower (utrim n) = n \<Longrightarrow> issued_ok (issued_store n f s)"
  by (auto simp: issued_ok_def issued_store_def Let_def nth_append less_Suc_eq)

lemma issued_pending_set:
  assumes "pending_ok [] s"
  shows "set (pending (issued_store n f s)) =
    (if f then set (pending s) else insert (n, length (ps_issued s)) ({y \<in> set (ps_queue s). fst y \<noteq> n} \<union> set (concat (concat (ps_flushes s)))))"
  using assms set_update [of "ps_queue s" n "length (ps_issued s)"]
  by (auto simp: pending_ok_def pending_def issued_store_def Let_def)

lemma issued_pending:
  assumes "store_inv s"
  shows "pending_ok [] (issued_store n f s)"
proof -
  let ?t = "issued_store n f s" and ?r = "length (ps_issued s)" and ?F = "concat (concat (ps_flushes s))"
  have ok: "pending_ok [] s" using assms by (simp add: store_with_def)
  have old: "k < ?r" if "(m, k) \<in> set (pending s)" for m k
    using pending_open [OF assms, of m k] that by (simp add: request_open_def)
  then have new: "?r \<notin> snd ` set (pending s)" by fastforce
  have "distinct (map snd (pending ?t))"
  proof (cases f)
    case True
    with ok show ?thesis by (simp add: pending_ok_def pending_def issued_store_def Let_def)
  next
    case False
    have upd: "distinct (map snd (AList.update n ?r (ps_queue s)))"
      using ok new by (intro distinct_snd_update) (auto simp: pending_ok_def pending_def)
    have sub: "snd ` set (AList.update n ?r (ps_queue s)) \<subseteq> insert ?r (snd ` set (ps_queue s))"
      using ok set_update [of "ps_queue s" n ?r] by (auto simp: pending_ok_def)
    have "distinct (map snd (ps_queue s @ ?F))" "?r \<notin> snd ` set (ps_queue s @ ?F)"
      using ok new unfolding pending_ok_def pending_def append_Nil by blast+
    then have "distinct (map snd (AList.update n ?r (ps_queue s) @ ?F))" by (rule distinct_swap [OF _ upd sub])
    then show ?thesis using False by (simp add: pending_def issued_store_def Let_def)
  qed
  moreover have "request_open ?t k \<and> rq_name (ps_issued ?t ! k) = m \<and> \<not> rq_refresh (ps_issued ?t ! k)" if "(m, k) \<in> set (pending ?t)" for m k
  proof (cases "k = ?r")
    case True
    then have "m = n" "\<not> f" using that old [of m k] unfolding issued_pending_set [OF ok] by (auto simp: pending_def split: if_splits)
    with True issued_new show ?thesis by simp
  next
    case False
    then have "(m, k) \<in> set (pending s)" using that unfolding issued_pending_set [OF ok] by (auto simp: pending_def split: if_splits)
    with pending_open [OF assms, of m k] old [of m k] show ?thesis by (simp add: issued_fields)
  qed
  moreover have "(ps_scheduled ?t \<longleftrightarrow> ps_queue ?t \<noteq> []) \<and> distinct (map fst (ps_queue ?t))"
    using ok by (auto simp: pending_ok_def issued_store_def Let_def distinct_update)
  ultimately show ?thesis unfolding pending_ok_def by auto
qed

lemma issued_requests:
  assumes "store_inv s"
  shows "requests_ok (issued_store n f s)"
proof -
  let ?t = "issued_store n f s" and ?r = "length (ps_issued s)"
  have ok: "requests_ok s" "pending_ok [] s" using assms by (simp_all add: store_with_def)
  have maps: "ps_requests ?t = (ps_requests s)(n \<mapsto> ?r)" by (simp add: issued_store_def Let_def)
  have "request_open ?t k \<and> current_request ?t k \<and> rq_name (ps_issued ?t ! k) = m" if "ps_requests ?t m = Some k" for m k
  proof (cases "m = n")
    case True
    with that maps have "k = ?r" by simp
    with True issued_new [of n f s] show ?thesis by simp
  next
    case False
    with that maps have "ps_requests s m = Some k" by simp
    then have "request_open s k \<and> current_request s k \<and> rq_name (ps_issued s ! k) = m" using ok(1) unfolding requests_ok_def by blast
    then show ?thesis by (metis issued_fields request_open_def)
  qed
  moreover have "ps_requests ?t m \<noteq> None" if "(m, k) \<in> set (ps_queue ?t)" "current_request ?t k" for m k
  proof (cases "m = n")
    case False
    have q: "set (ps_queue ?t) \<subseteq> insert (n, ?r) (set (ps_queue s))"
      using ok(2) set_update [of "ps_queue s" n ?r] by (auto simp: issued_store_def Let_def pending_ok_def)
    with that False have mk: "(m, k) \<in> set (ps_queue s)" by auto
    then have "k < ?r" using pending_open [OF assms, of m k] queue_pending by (simp add: request_open_def pending_def)
    then have "current_request s k" using that(2) by (simp add: issued_fields)
    with mk ok(1) False maps show ?thesis unfolding requests_ok_def by auto
  qed (simp add: maps)
  ultimately show ?thesis unfolding requests_ok_def by blast
qed

lemma issued_live:
  assumes "store_inv s" "f \<or> ps_requests s n = None"
  shows "live_ok [] (issued_store n f s)"
proof -
  let ?t = "issued_store n f s" and ?r = "length (ps_issued s)"
  have ok: "requests_ok s" "pending_ok [] s" "live_ok [] s" using assms by (simp_all add: store_with_def)
  have "(rq_name (ps_issued ?t ! k), k) \<in> set (pending ?t)"
    if "request_open ?t k" "current_request ?t k" "\<not> rq_refresh (ps_issued ?t ! k)" for k
  proof (cases "k = ?r")
    case True
    with that(3) issued_new [of n f s] show ?thesis unfolding issued_pending_set [OF ok(2)] by simp
  next
    case False
    with that(1) have k: "request_open s k" "k < ?r" by (metis issued_open, metis issued_open request_open_def)
    with that have old: "(rq_name (ps_issued s ! k), k) \<in> set (pending s)" "current_request s k"
      using ok(3) by (auto simp: live_ok_def issued_fields)
    have "rq_name (ps_issued s ! k) \<noteq> n \<or> f" if "(rq_name (ps_issued s ! k), k) \<in> set (ps_queue s)"
      using that ok(1) old(2) assms(2) unfolding requests_ok_def by fastforce
    with old(1) k show ?thesis unfolding issued_pending_set [OF ok(2)] by (auto simp: pending_def issued_fields)
  qed
  moreover have "request_open ?t k" if "Waiting k \<in> set (ps_calls ?t)" for k
  proof -
    have "ps_calls ?t = ps_calls s" by (simp add: issued_store_def Let_def)
    with that ok(3) show ?thesis unfolding live_ok_def issued_open by simp
  qed
  ultimately show ?thesis unfolding live_ok_def by simp
qed

lemma issue_request_inv:
  assumes "store_inv s" "f \<or> ps_requests s n = None" "n \<noteq> []" "lower (utrim n) = n"
  shows "store_inv (issue_request n f s)"
proof -
  have "store_inv (issued_store n f s)"
    using assms issued_cache issued_issued issued_pending [OF assms(1)] issued_requests [OF assms(1)] issued_live [OF assms(1,2)]
    by (simp add: store_with_def)
  then show ?thesis unfolding issue_request_split by (rule add_call_inv) (simp add: issued_new)
qed

text \<open>What follows a cache miss in \<^verbatim>\<open>getUserProfile\<close>.\<close>

lemma get_missed:
  assumes "store_inv s" "n \<noteq> []" "lower (utrim n) = n"
  shows "store_inv (case ps_requests s n of Some r \<Rightarrow> if \<not> f then add_call (Waiting r) s else issue_request n f s | None \<Rightarrow> issue_request n f s)"
proof (cases "ps_requests s n")
  case (Some r)
  then have "request_open s r" using assms(1) unfolding store_with_def requests_ok_def by blast
  with Some assms show ?thesis by (auto intro: add_call_inv issue_request_inv)
qed (use assms in \<open>auto intro: issue_request_inv\<close>)

lemma get_inv: "store_inv s \<Longrightarrow> store_inv (getUserProfile u f now s)"
proof -
  assume inv: "store_inv s"
  let ?n = "normalize_username u"
  have deleted: "store_inv (s\<lparr>ps_cache := cache_delete ?n (ps_cache s)\<rparr>)"
    using inv cache_only [OF inv cache_delete_ok] by (simp add: store_with_def)
  show ?thesis
  proof (cases "?n = []")
    case True
    then show ?thesis using add_call_inv [OF inv, of CallFailed] by (simp add: getUserProfile_def)
  next
    case False
    note missed = get_missed [OF _ False normalize_idem]
    show ?thesis
    proof (cases "find (\<lambda>e. ce_name e = ?n) (ps_cache s)")
      case None
      with False missed [OF inv] show ?thesis by (simp add: getUserProfile_def Let_def)
    next
      case (Some e)
      with False missed [OF deleted] add_call_inv [OF inv, of "CallReturned (ce_profile e)"] show ?thesis by (simp add: getUserProfile_def Let_def)
    qed
  qed
qed

lemma invalidate_inv: "store_inv s \<Longrightarrow> store_inv (invalidateUserProfiles us s)"
  unfolding invalidateUserProfiles_def by (rule cache_only) (auto intro: cache_deletes_ok simp: store_with_def)

lemma profile_step_inv:
  assumes "store_inv s" "profile_step s e = Some t"
  shows "store_inv t"
proof (cases e)
  case (BatchAnswer i payload now)
  with assms(2) obtain b bs where b: "\<not> ps_scheduled s" "i < length (ps_flushes s)" "ps_flushes s ! i = b # bs"
    "t = settle_batch now payload b (s\<lparr>ps_flushes := (ps_flushes s)[i := bs]\<rparr>)"
    by (auto split: if_splits list.splits)
  have "ps_queue s = []" using assms(1) b(1) by (simp add: store_with_def pending_ok_def)
  with settle_batch_inv [OF batch_answer_inv [OF assms(1) b(1-3)]] b(4) show ?thesis by simp
next
  case (RefreshAnswer r x now)
  with assms(2) have r: "\<not> ps_scheduled s" "request_open s r" "rq_refresh (ps_issued s ! r)" "t = settle_request now r x s"
    by (auto simp: request_open_def split: if_splits)
  have "ps_queue s = []" using assms(1) r(1) by (simp add: store_with_def pending_ok_def)
  with settle_refresh [OF assms(1) _ r(2,3)] r(4) show ?thesis by simp
qed (use assms in \<open>auto simp: get_inv flush_inv clear_inv invalidate_inv sync_inv split: if_splits\<close>)

interpretation profiles: machine_invariant profile_step "store_with []"
  by unfold_locales (rule profile_step_inv)

lemma store_reachable: "run_events profile_step fresh_store es = Some s \<Longrightarrow> store_inv s"
  by (rule profiles.run_inv [OF _ fresh_store_inv])

section \<open>Every waiting call can be answered\<close>

definition held :: "nat \<Rightarrow> nat \<Rightarrow> profile_store \<Rightarrow> bool" where
  "held c r s \<longleftrightarrow> c < length (ps_calls s) \<and> (\<forall>q. ps_calls s ! c = Waiting q \<longrightarrow> q = r)"

lemma held_settle: "held c r s \<Longrightarrow> held c r (settle_request now k x s)"
  by (auto simp: held_def settle_request_def Let_def call_result_def split: profile_result.splits if_splits)

lemma held_batch: "held c r s \<Longrightarrow> held c r (settle_batch now payload b s)"
proof (induction b arbitrary: s)
  case (Cons a b)
  from Cons.IH [OF held_settle [OF Cons.prems]] show ?case by (cases a) (simp add: settle_batch_def)
qed (simp add: settle_batch_def)

lemma held_flushes: "held c r (s\<lparr>ps_flushes := f\<rparr>) = held c r s"
  by (simp add: held_def)

lemma held_answered:
  assumes "store_inv s" "held c r s" "\<not> request_open s r"
  shows "ps_calls s ! c \<noteq> Waiting q"
proof
  assume w: "ps_calls s ! c = Waiting q"
  with assms(2) have "q = r" "Waiting q \<in> set (ps_calls s)" by (auto simp: held_def in_set_conv_nth)
  with assms(1,3) show False unfolding store_with_def live_ok_def by blast
qed

lemma settle_batch_frame: "ps_scheduled (settle_batch now p b s) = ps_scheduled s \<and> ps_flushes (settle_batch now p b s) = ps_flushes s"
proof (induction b arbitrary: s)
  case (Cons a b)
  obtain n r where a: "a = (n, r)" by (cases a)
  show ?case using Cons.IH [of "settle_request now r (batch_result p n) s"] by (simp add: settle_batch_def a settle_request_def Let_def)
qed (simp add: settle_batch_def)

text \<open>A request in the batches of a running flush is settled once those batches are answered.\<close>

lemma flush_answers:
  "store_inv s \<Longrightarrow> \<not> ps_scheduled s \<Longrightarrow> i < length (ps_flushes s) \<Longrightarrow> (n, r) \<in> set (concat (ps_flushes s ! i)) \<Longrightarrow> held c r s
     \<Longrightarrow> \<exists>fs t. run_events profile_step s fs = Some t \<and> store_inv t \<and> held c r t \<and> \<not> request_open t r"
proof (induction "length (ps_flushes s ! i)" arbitrary: s)
  case 0
  then show ?case by simp
next
  case (Suc k)
  then obtain b bs where b: "ps_flushes s ! i = b # bs" "k = length bs" by (cases "ps_flushes s ! i") auto
  define u where "u = settle_batch 0 None b (s\<lparr>ps_flushes := (ps_flushes s)[i := bs]\<rparr>)"
  have step: "profile_step s (BatchAnswer i None 0) = Some u" using Suc.prems b by (simp add: u_def)
  have u: "store_inv u" "held c r u"
    using profile_step_inv [OF Suc.prems(1) step] held_batch Suc.prems(5) unfolding u_def by (simp_all add: held_flushes)
  have frame: "\<not> ps_scheduled u" "ps_flushes u = (ps_flushes s)[i := bs]" using settle_batch_frame [of 0 None b] Suc.prems(2) by (auto simp: u_def)
  have q: "ps_queue s = []" using Suc.prems(1,2) by (simp add: store_with_def pending_ok_def)
  show ?case
  proof (cases "(n, r) \<in> set b")
    case True
    then have "\<not> request_open u r"
      using settle_batch_inv [OF batch_answer_inv [OF Suc.prems(1-3) b(1)], of 0 None] q by (auto simp: u_def)
    moreover have "run_events profile_step s [BatchAnswer i None 0] = Some u" using step by simp
    ultimately show ?thesis using u by blast
  next
    case False
    then have "(n, r) \<in> set (concat (ps_flushes u ! i))" "k = length (ps_flushes u ! i)" "i < length (ps_flushes u)"
      using Suc.prems(3,4) b frame(2) by auto
    from Suc.hyps(1) [OF this(2) u(1) frame(1) this(3) this(1) u(2)] obtain fs t where
      t: "run_events profile_step u fs = Some t" "store_inv t \<and> held c r t \<and> \<not> request_open t r" by blast
    then have "run_events profile_step s (BatchAnswer i None 0 # fs) = Some t" using step by simp
    with t(2) show ?thesis by blast
  qed
qed

lemma pending_answered:
  assumes "store_inv s" "\<not> ps_scheduled s" "(n, r) \<in> set (pending s)" "held c r s"
  shows "\<exists>fs t. run_events profile_step s fs = Some t \<and> store_inv t \<and> held c r t \<and> \<not> request_open t r"
proof -
  have "ps_queue s = []" using assms(1,2) by (simp add: store_with_def pending_ok_def)
  with assms(3) obtain f where "f \<in> set (ps_flushes s)" "(n, r) \<in> set (concat f)" by (auto simp: pending_def)
  then obtain i where "i < length (ps_flushes s)" "(n, r) \<in> set (concat (ps_flushes s ! i))" by (metis in_set_conv_nth)
  from flush_answers [OF assms(1,2) this assms(4)] show ?thesis .
qed

lemma refresh_answered:
  assumes "store_inv s" "\<not> ps_scheduled s" "request_open s r" "rq_refresh (ps_issued s ! r)" "held c r s"
  shows "\<exists>fs t. run_events profile_step s fs = Some t \<and> store_inv t \<and> held c r t \<and> \<not> request_open t r"
proof -
  let ?t = "settle_request 0 r Rejected s"
  have step: "profile_step s (RefreshAnswer r Rejected 0) = Some ?t" using assms(2-4) by (simp add: request_open_def)
  then have "run_events profile_step s [RefreshAnswer r Rejected 0] = Some ?t" by simp
  moreover have "store_inv ?t" by (rule profile_step_inv [OF assms(1) step])
  moreover have "held c r ?t" by (rule held_settle [OF assms(5)])
  ultimately show ?thesis using settle_fields(1) [OF assms(3), of 0 Rejected r] by blast
qed

lemma open_answered:
  assumes "store_inv s" "\<not> ps_scheduled s" "request_open s r" "current_request s r" "held c r s"
  shows "\<exists>fs t. run_events profile_step s fs = Some t \<and> store_inv t \<and> held c r t \<and> \<not> request_open t r"
proof (cases "rq_refresh (ps_issued s ! r)")
  case True
  with refresh_answered [OF assms(1-3)] assms(5) show ?thesis by blast
next
  case False
  with assms have "(rq_name (ps_issued s ! r), r) \<in> set (pending s)" by (simp add: store_with_def live_ok_def)
  with pending_answered [OF assms(1,2)] assms(5) show ?thesis by blast
qed

section \<open>Properties\<close>

text \<open>
  C28: For every sequence of lookups, flushes, answers, invalidations and published updates the profile cache holds at most 256
  entries, one per normalised, non-empty username; and an entry that a request stored is the profile that this request returned,
  for that username, and the request was issued after the last time the cache was cleared, so no answer to a former session enters
  the cache of the next one.
\<close>

theorem profile_cache_sound:
  assumes "run_events profile_step fresh_store es = Some s"
  shows "length (ps_cache s) \<le> 256 \<and> distinct (map ce_name (ps_cache s))
    \<and> (\<forall>e\<in>set (ps_cache s). ce_name e \<noteq> [] \<and> lower (utrim (ce_name e)) = ce_name e)
    \<and> (\<forall>e\<in>set (ps_cache s). \<forall>r. ce_source e = Some r \<longrightarrow> r < length (ps_issued s) \<and> rq_name (ps_issued s ! r) = ce_name e
         \<and> rq_generation (ps_issued s ! r) = ps_generation s \<and> rq_result (ps_issued s ! r) = Some (Resolved (ce_profile e)))"
  using store_reachable [OF assms]
  by (auto simp: store_with_def cache_ok_def entry_ok_def current_request_def PROFILE_CACHE_MAX_ENTRIES_def)

text \<open>A profile of the former session arrives after the cache was cleared; one requested afterwards is stored.\<close>

abbreviation sample_profile :: "ustring \<Rightarrow> profile" where
  "sample_profile n \<equiv> \<lparr>pf_username = Some n, pf_nickname = None, pf_avatar_url = None\<rparr>"

abbreviation sample_lookups :: "profile_event list" where
  "sample_lookups \<equiv> [GetProfile (Some [65]) False 0, RunFlush, ClearCache, BatchAnswer 0 (Some [sample_profile [97]]) 1,
     GetProfile (Some [32, 66]) False 2, RunFlush, BatchAnswer 1 (Some [sample_profile [98]]) 3]"

definition sample_store :: profile_store where
  "sample_store = (case run_events profile_step fresh_store sample_lookups of Some s \<Rightarrow> s | None \<Rightarrow> fresh_store)"

lemma batches_one: "batches [x] = [[x]]"
  by (simp add: batches.simps [of "[x]"] batches.simps [of "[]"])

lemmas profile_eval = getUserProfile_def normalize_username_def lower_def lower_unit_def utrim_def trim_by_def unit_space_def
  opt_or_def str_or_def issue_request_def queueUserProfile_def add_call_def flushUserProfileBatch_def batches_one Let_def
  clearUserProfileCache_def settle_batch_def settle_request_def batch_result_def cacheUserProfile_def cache_delete_def
  PROFILE_CACHE_MAX_ENTRIES_def PROFILE_CACHE_TTL_MS_def call_result_def fresh_store_def

lemma sample_run: "run_events profile_step fresh_store sample_lookups = Some sample_store"
  by (simp add: sample_store_def profile_eval)

theorem profile_cache_sound_witness:
  "map ce_name (ps_cache sample_store) = [[98]] \<and> length (ps_cache sample_store) \<le> 256 \<and> distinct (map ce_name (ps_cache sample_store))"
proof -
  have "map ce_name (ps_cache sample_store) = [[98]]" by (simp add: sample_store_def profile_eval)
  with profile_cache_sound [OF sample_run] show ?thesis by blast
qed

text \<open>
  A call that waits for a profile is never stranded while its session lasts: in every reachable state, if the request it waits
  for was issued after the last clearing of the cache, the scheduled flush and further answers lead to a state in which the call has
  returned or failed.
\<close>

lemma profile_calls_answered:
  assumes "run_events profile_step fresh_store es = Some s" "c < length (ps_calls s)" "ps_calls s ! c = Waiting r"
    "rq_generation (ps_issued s ! r) = ps_generation s"
  shows "\<exists>fs t. run_events profile_step s fs = Some t \<and> c < length (ps_calls t) \<and> (\<forall>q. ps_calls t ! c \<noteq> Waiting q)"
proof -
  have inv: "store_inv s" by (rule store_reachable [OF assms(1)])
  have h: "held c r s" using assms(2,3) by (simp add: held_def)
  have r: "request_open s r" "current_request s r"
    using inv assms(2-4) unfolding store_with_def live_ok_def by (metis nth_mem, simp add: current_request_def)
  obtain u gs where u: "run_events profile_step s gs = Some u" "store_inv u" "\<not> ps_scheduled u" "request_open u r" "current_request u r" "held c r u"
  proof (cases "ps_scheduled s")
    case True
    with flush_inv [OF inv] r h show thesis
      by (intro that [of "[RunFlush]" "flushUserProfileBatch s"])
        (simp_all add: flushUserProfileBatch_def request_open_def current_request_def held_def)
  next
    case False
    with inv r h show thesis by (intro that [of "[]" s]) simp_all
  qed
  from open_answered [OF u(2-6)] obtain fs t where
    t: "run_events profile_step u fs = Some t" "store_inv t" "held c r t" "\<not> request_open t r" by blast
  have "run_events profile_step s (gs @ fs) = Some t" using u(1) t(1) by (simp add: run_events_append)
  with held_answered [OF t(2-4)] t(3) show ?thesis unfolding held_def by blast
qed

text \<open>The address of a profile names that profile and section again.\<close>

lemma profile_path_parses:
  assumes "units_ok n" "n \<noteq> []" "lower (utrim n) = n" "sec = [] \<or> sec \<in> set profile_sections" "profile_path n sec = Some path"
  shows "profileRouteFromPath path = Some (n, sec)"
proof -
  obtain e where e: "encodeURIComponent n = Some e" "path = ustr ''/user/'' @ e @ (if sec \<noteq> [] then ustr ''/'' @ sec else [])"
    using assms(5) by (auto simp: profile_path_def)
  have dec: "decodeURIComponent e = Some n" "e \<noteq> []" using uri.dec_enc [OF assms(1) e(1)] uri.enc_nonempty [OF assms(1) e(1) assms(2)] by auto
  have "47 \<notin> set e" using uri.enc_safe [OF assms(1) e(1)] slash_unsafe by blast
  moreover have "47 \<notin> set sec" using assms(4) by (auto simp: profile_sections_def ustr_def)
  ultimately have "js_split 47 (e @ (if sec \<noteq> [] then ustr ''/'' @ sec else [])) = (if sec = [] then [e] else [e, sec])"
    by (simp add: ustr_def js_split_single js_split_append_sep)
  then have "match_profile_route path = Some (e, sec)"
    using assms(4) dec(2) by (auto simp: match_profile_route_def e(2) startsWith_def ustr_def)
  then show ?thesis using dec(1) assms(2,3) by (simp add: profileRouteFromPath_def)
qed

lemma profile_navigation_lands:
  assumes "navigateToUserProfile (Some u) sec True h = Some (h', True)" "units_ok (normalize_username (Some u))"
  shows "profileRouteFromPath (fst (hd h')) = Some (normalize_username (Some u), if sec \<in> set profile_sections then sec else [])"
  using assms profile_path_parses [OF assms(2) _ normalize_idem, of "if sec \<in> set profile_sections then sec else []"]
  by (auto simp: navigateToUserProfile_def Let_def split: if_splits)

text \<open>
  Clearing the cache between two lookups of one name in the same task drops the first request: its queue entry is replaced, and no
  answer settles it.
\<close>

abbreviation lost_lookups :: "profile_event list" where
  "lost_lookups \<equiv> [GetProfile (Some [97]) False 0, ClearCache, GetProfile (Some [97]) False 0, RunFlush,
     BatchAnswer 0 (Some [sample_profile [97]]) 1]"

lemma lost_request:
  "map_option (\<lambda>s. (ps_calls s, pending s, request_open s 0)) (run_events profile_step fresh_store lost_lookups) =
     Some ([Waiting 0, CallReturned (sample_profile [97])], [], True)"
  by (simp add: profile_eval pending_def request_open_def)

end
