(* ===== verification/Auth_Session.thy ===== *)
theory Auth_Session
  imports Profile_Cache Passkey
begin

text \<open>
  The browser session (\<^verbatim>\<open>js/auth.js\<close>): the session caches and the permissions read from them, the controls of the page, the
  restored session, password and passkey logins, the logout and the navigation profile, as one event machine.

  The local storage is a map. An unfinished call is a slot of a task list. Calls into other modules are entries of \<open>au_log\<close>,
  newest first: alerts, the tab switch that \<^verbatim>\<open>main.js\<close> registers a handler for, the dispatched \<^verbatim>\<open>authChanged\<close>, the exit from protected
  routes, the end of the dashboard refresh, the cleared profile cache and the issued requests. \<open>t\<close> translates a message key. Legal
  consent, the profile lookup and the passkey prompt answer by events. Permissions and routes of a session are arrays or absent. The
  width animation of the profile control, its avatar, the form reset and the tab indicator are left out.
\<close>

section \<open>Permissions\<close>

datatype permission = PermString ustring | PermObject "ustring option" | PermNull

text \<open>\<^verbatim>\<open>typeof p === 'string' ? p : p && p.identifier\<close>; a falsy value is the empty string.\<close>

fun permission_id :: "permission \<Rightarrow> ustring" where
  "permission_id (PermString s) = s"
| "permission_id (PermObject i) = opt_or i []"
| "permission_id PermNull = []"

record session_route =
  sr_path :: "ustring option"
  sr_permission :: "ustring option"

definition MANAGER_PERMISSION_IDS :: "ustring list" where
  "MANAGER_PERMISSION_IDS = [ustr ''manager'', ustr ''m'', ustr ''access-token:manager'', ustr ''admin'']"

definition MANAGER_TAB_IDS :: "ustring list" where
  "MANAGER_TAB_IDS = [ustr ''dashboard'', ustr ''users'', ustr ''repositories'', ustr ''settings'']"

definition isManagerTab :: "ustring \<Rightarrow> bool" where
  "isManagerTab tabId = (tabId \<in> set MANAGER_TAB_IDS)"

definition isManagerFromSession :: "permission list \<Rightarrow> bool" where
  "isManagerFromSession permissions = list_ex (\<lambda>p. permission_id p \<noteq> [] \<and> permission_id p \<in> set MANAGER_PERMISSION_IDS) permissions"

definition repoNameFromPath :: "ustring \<Rightarrow> ustring" where
  "repoNameFromPath path =
     (case filter (\<lambda>p. 0 < length p) (js_split 47 path) of
        [] \<Rightarrow> []
      | p # _ \<Rightarrow> (case decodeURIComponent p of None \<Rightarrow> p | Some d \<Rightarrow> d))"

section \<open>State\<close>

record auth_control =
  ac_manager_only :: bool
  ac_user_only :: bool
  ac_auth_display :: "string option"
  ac_display :: string

datatype auth_effect =
    SwitchTab ustring
  | AuthChanged bool bool ustring
  | Alerted string string
  | ProtectedExit int
  | LogoutRequest
  | CookieCleared
  | ProfilesCleared
  | DashboardStopped
  | MfaShown
  | LoginRequested ustring
  | LoginCompleted ustring

record session_details =
  sd_name :: "ustring option"
  sd_permissions :: "permission list option"
  sd_routes :: "session_route option list option"

datatype auth_task = MeFetch bool | LoginConsent ustring | LoginPost ustring | NavLoad nat

datatype fido_stage = FidoConsent | FidoBegin | FidoBeginError | FidoBeginJson | FidoAssertion | FidoFinish | FidoFinishJson
  | FidoFinishError | FidoMfa

record fido_task =
  fk_controller :: nat
  fk_name :: ustring
  fk_stage :: fido_stage

record auth =
  au_logged_in :: bool
  au_manager :: bool
  au_permissions :: "permission list"
  au_routes :: "session_route option list"
  au_storage :: "string \<rightharpoonup> ustring"
  au_controls :: "auth_control list"
  au_login_display :: string
  au_user_display :: string
  au_nav_sequence :: nat
  au_nav_profile :: "profile option"
  au_nav_name :: ustring
  au_login_error :: "string option"
  au_handler :: bool
  au_logout :: "(string option \<times> bool) option"
  au_tasks :: "auth_task option list"
  au_fido_abort :: "nat option"
  au_controllers :: nat
  au_aborted :: "nat list"
  au_fidos :: "fido_task option list"
  au_history :: history_state
  au_log :: "auth_effect list"

definition noted :: "auth_effect \<Rightarrow> auth \<Rightarrow> auth" where
  "noted x s = s\<lparr>au_log := x # au_log s\<rparr>"

definition storage_item :: "string \<Rightarrow> auth \<Rightarrow> ustring" where
  "storage_item k s = opt_or (au_storage s k) []"

definition removeItem :: "string \<Rightarrow> auth \<Rightarrow> auth" where
  "removeItem k s = s\<lparr>au_storage := (au_storage s)(k := None)\<rparr>"

definition setItem :: "string \<Rightarrow> ustring \<Rightarrow> auth \<Rightarrow> auth" where
  "setItem k v s = s\<lparr>au_storage := (au_storage s)(k \<mapsto> v)\<rparr>"

definition add_task :: "auth_task \<Rightarrow> auth \<Rightarrow> auth" where
  "add_task k s = s\<lparr>au_tasks := au_tasks s @ [Some k]\<rparr>"

definition end_task :: "nat \<Rightarrow> auth \<Rightarrow> auth" where
  "end_task i s = s\<lparr>au_tasks := (au_tasks s)[i := None]\<rparr>"

section \<open>Session caches and page\<close>

definition write_route :: "ustring \<Rightarrow> session_route option \<Rightarrow> bool" where
  "write_route name r =
     (case r of
        None \<Rightarrow> False
      | Some q \<Rightarrow> sr_permission q \<in> {Some (ustr ''route:write''), Some (ustr ''w'')} \<and> sr_path q \<in> {Some (ustr ''*''), Some name})"

definition canUpdateRepo :: "ustring \<Rightarrow> auth \<Rightarrow> bool" where
  "canUpdateRepo repoName s =
     (if \<not> au_logged_in s then False
      else if au_manager s then True
      else if repoName = [] then False
      else let name = (case decodeURIComponent repoName of None \<Rightarrow> repoName | Some d \<Rightarrow> d)
           in list_ex (\<lambda>p. permission_id p \<noteq> [] \<and>
                  (permission_id p = ustr ''canupdate:*'' \<or> permission_id p = ustr ''canupdate:'' @ name)) (au_permissions s)
              \<or> list_ex (write_route name) (au_routes s))"

definition applySessionCaches :: "bool \<Rightarrow> permission list \<Rightarrow> session_route option list \<Rightarrow> auth \<Rightarrow> auth" where
  "applySessionCaches isLoggedIn permissions routes s =
     s\<lparr>au_logged_in := isLoggedIn, au_permissions := (if isLoggedIn then permissions else []),
       au_routes := (if isLoggedIn then routes else []),
       au_manager := (isLoggedIn \<and> isManagerFromSession (if isLoggedIn then permissions else []))\<rparr>"

definition requestSwitchTab :: "ustring \<Rightarrow> auth \<Rightarrow> auth" where
  "requestSwitchTab tabId s = (if au_handler s then noted (SwitchTab tabId) s else setItem ''selectedTab'' tabId s)"

definition setAuthControlledDisplay :: "bool \<Rightarrow> auth_control \<Rightarrow> auth_control" where
  "setAuthControlledDisplay visible c =
     c\<lparr>ac_display := (if visible then opt_or (ac_auth_display c) ''inline-block'' else ''none'')\<rparr>"

definition gate_control :: "bool \<Rightarrow> bool \<Rightarrow> auth_control \<Rightarrow> auth_control" where
  "gate_control isManager isLoggedIn c =
     (let c1 = (if ac_manager_only c then setAuthControlledDisplay isManager c else c)
      in if ac_user_only c1 then setAuthControlledDisplay isLoggedIn c1 else c1)"

definition applyNavProfile :: "(string \<Rightarrow> string) \<Rightarrow> profile option \<Rightarrow> auth \<Rightarrow> auth" where
  "applyNavProfile t p s = s\<lparr>au_nav_profile := p, au_nav_name := profileDisplayName (\<lambda>k. ustr (t k)) p\<rparr>"

text \<open>\<^verbatim>\<open>refreshNavProfile\<close> up to the lookup, and its continuation.\<close>

definition refreshNavProfile :: "auth \<Rightarrow> auth" where
  "refreshNavProfile s = add_task (NavLoad (au_nav_sequence s + 1)) (s\<lparr>au_nav_sequence := au_nav_sequence s + 1\<rparr>)"

definition nav_loaded :: "(string \<Rightarrow> string) \<Rightarrow> nat \<Rightarrow> profile option \<Rightarrow> auth \<Rightarrow> auth" where
  "nav_loaded t seq result s =
     (case result of
        Some p \<Rightarrow> if seq = au_nav_sequence s then applyNavProfile t (Some p) s else s
      | None \<Rightarrow> if seq = au_nav_sequence s \<and> au_nav_profile s = None then applyNavProfile t None s else s)"

definition show_account :: "bool \<Rightarrow> auth \<Rightarrow> auth" where
  "show_account isLoggedIn s =
     (if isLoggedIn then refreshNavProfile (s\<lparr>au_login_display := ''none'', au_user_display := ''flex''\<rparr>)
      else s\<lparr>au_login_display := ''inline-flex'', au_user_display := ''none'', au_nav_name := [], au_nav_profile := None\<rparr>)"

definition leave_manager_tab :: "bool \<Rightarrow> bool \<Rightarrow> auth \<Rightarrow> auth" where
  "leave_manager_tab isLoggedIn isManager s =
     (if \<not> isLoggedIn \<or> (isManagerTab (str_or (storage_item ''selectedTab'' s) (ustr ''overview'')) \<and> \<not> isManager)
      then requestSwitchTab (ustr ''overview'') (setItem ''selectedTab'' (ustr ''overview'') s) else s)"

definition updateAuthUI :: "bool \<Rightarrow> ustring \<Rightarrow> bool \<Rightarrow> permission list \<Rightarrow> session_route option list \<Rightarrow> auth \<Rightarrow> auth" where
  "updateAuthUI isLoggedIn name legacy permissions routes s =
     (let s1 = applySessionCaches isLoggedIn permissions routes s;
          s2 = (if isLoggedIn \<and> permissions = [] \<and> legacy then s1\<lparr>au_manager := True\<rparr> else s1);
          isManager = au_manager s2;
          s3 = show_account isLoggedIn s2;
          s4 = s3\<lparr>au_controls := map (gate_control isManager isLoggedIn) (au_controls s3)\<rparr>
      in noted (AuthChanged isLoggedIn isManager name) (leave_manager_tab isLoggedIn isManager s4))"

section \<open>Logout\<close>

text \<open>\<^verbatim>\<open>performLogout\<close> up to the request to the server, and from its answer or failure on.\<close>

definition logout :: "string option \<Rightarrow> auth \<Rightarrow> auth" where
  "logout reason s =
     (let s1 = noted (ProtectedExit (if reason \<in> {Some ''expired'', Some ''kicked''} then 401 else 0)) s
      in if au_logout s1 \<noteq> None then s1
         else noted LogoutRequest (s1\<lparr>au_logout := Some (reason, storage_item ''username'' s1 \<noteq> [])\<rparr>))"

definition clear_credentials :: "auth \<Rightarrow> auth" where
  "clear_credentials s =
     noted CookieCleared (removeItem ''token-secret'' (removeItem ''token-name'' (removeItem ''username'' (removeItem ''session-token'' s))))"

definition logout_alert :: "string option \<Rightarrow> bool \<Rightarrow> auth \<Rightarrow> auth" where
  "logout_alert reason wasLoggedIn s =
     (if wasLoggedIn \<and> reason \<in> {Some ''expired'', Some ''kicked''} then noted (Alerted ''login.sessionExpired'' ''error'') s
      else if wasLoggedIn \<and> reason \<noteq> Some ''silent'' \<and> reason \<noteq> Some ''account_deleted'' then noted (Alerted ''login.signedOut'' ''info'') s
      else s)"

definition performLogout :: "string option \<Rightarrow> bool \<Rightarrow> auth \<Rightarrow> auth" where
  "performLogout reason wasLoggedIn s =
     (let s1 = clear_credentials s;
          s2 = noted ProfilesCleared (s1\<lparr>au_nav_sequence := au_nav_sequence s1 + 1\<rparr>);
          s3 = logout_alert reason wasLoggedIn (updateAuthUI False [] False [] [] s2);
          s4 = setItem ''selectedTab'' (ustr ''overview'') (noted DashboardStopped s3)
      in (requestSwitchTab (ustr ''overview'') s4)\<lparr>au_logout := None\<rparr>)"

section \<open>Restored session\<close>

definition initializeSession :: "auth \<Rightarrow> auth" where
  "initializeSession s = (let s1 = removeItem ''session-token'' s in add_task (MeFetch (storage_item ''username'' s1 \<noteq> [])) s1)"

datatype me_answer = MeSession "session_details option" | MeStatus int | MeFailed

definition entries :: "'a list option \<Rightarrow> 'a list" where
  "entries x = (case x of None \<Rightarrow> [] | Some xs \<Rightarrow> xs)"

definition session_permissions :: "session_details option \<Rightarrow> permission list" where
  "session_permissions d = (case d of None \<Rightarrow> [] | Some x \<Rightarrow> entries (sd_permissions x))"

definition session_routes :: "session_details option \<Rightarrow> session_route option list" where
  "session_routes d = (case d of None \<Rightarrow> [] | Some x \<Rightarrow> entries (sd_routes x))"

definition session_name :: "session_details option \<Rightarrow> ustring \<Rightarrow> ustring" where
  "session_name d fallback = (case d of None \<Rightarrow> fallback | Some x \<Rightarrow> opt_or (sd_name x) fallback)"

definition me_answered :: "bool \<Rightarrow> me_answer \<Rightarrow> auth \<Rightarrow> auth" where
  "me_answered wasLoggedIn a s =
     (case a of
        MeSession d \<Rightarrow>
          let serverName = session_name d (storage_item ''username'' s);
              s1 = (if serverName \<noteq> [] then setItem ''username'' serverName s else s)
          in updateAuthUI True serverName (isManagerFromSession (session_permissions d)) (session_permissions d) (session_routes d) s1
      | MeStatus n \<Rightarrow>
          if n = 401 then (if wasLoggedIn then logout (Some ''expired'') s else updateAuthUI False [] False [] [] s)
          else let username = storage_item ''username'' s in updateAuthUI (username \<noteq> []) username False [] [] s
      | MeFailed \<Rightarrow> updateAuthUI False [] False [] [] s)"

section \<open>Login\<close>

type_synonym auth_env = "(string \<Rightarrow> string) \<times> url_parser \<times> (ustring \<Rightarrow> string \<Rightarrow> ustring option)"

definition cancelFidoLogin :: "auth \<Rightarrow> auth" where
  "cancelFidoLogin s = (case au_fido_abort s of None \<Rightarrow> s | Some c \<Rightarrow> s\<lparr>au_aborted := c # au_aborted s\<rparr>)"

text \<open>Leaving the login page dispatches \<^verbatim>\<open>popstate\<close>, which cancels a pending passkey login.\<close>

definition leave_login :: "auth_env \<Rightarrow> auth \<Rightarrow> auth" where
  "leave_login env s =
     (let h = leaveLoginPage (fst (snd env)) (snd (snd env)) (au_history s); s1 = s\<lparr>au_history := h\<rparr>
      in if hs_popstates h \<noteq> hs_popstates (au_history s) then cancelFidoLogin s1 else s1)"

definition completeLogin :: "auth_env \<Rightarrow> session_details option \<Rightarrow> ustring \<Rightarrow> auth \<Rightarrow> auth" where
  "completeLogin env d fallback s =
     (let name = session_name d fallback;
          s1 = setItem ''username'' name (removeItem ''session-token'' (removeItem ''token-secret'' (removeItem ''token-name'' s)));
          s2 = updateAuthUI True name (isManagerFromSession (session_permissions d)) (session_permissions d) (session_routes d) s1
      in leave_login env (noted (LoginCompleted name) (noted (Alerted ''login.welcomeBack'' ''success'') s2)))"

definition show_login_error :: "string \<Rightarrow> auth \<Rightarrow> auth" where
  "show_login_error message s = s\<lparr>au_login_error := Some message\<rparr>"

definition login :: "ustring \<Rightarrow> auth \<Rightarrow> auth" where
  "login name s = add_task (LoginConsent name) s"

definition login_consent :: "nat \<Rightarrow> ustring \<Rightarrow> bool \<Rightarrow> auth \<Rightarrow> auth" where
  "login_consent i name allowed s =
     (if \<not> allowed then end_task i s
      else noted (LoginRequested name) (s\<lparr>au_login_error := None, au_tasks := (au_tasks s)[i := Some (LoginPost name)]\<rparr>))"

text \<open>The answer to a login: a session, the demand for a second factor, a refusal with its message, or a failed request.\<close>

datatype login_answer = LoginSession "session_details option" | MfaRequired | LoginRefused string | LoginFailed

definition login_answered :: "auth_env \<Rightarrow> ustring \<Rightarrow> login_answer \<Rightarrow> auth \<Rightarrow> auth" where
  "login_answered env name a s =
     (case a of
        LoginSession d \<Rightarrow> completeLogin env d name s
      | MfaRequired \<Rightarrow> noted MfaShown s
      | LoginRefused message \<Rightarrow> show_login_error message s
      | LoginFailed \<Rightarrow> show_login_error (fst env ''login.loginError'') s)"

section \<open>Passkey login\<close>

definition fido_aborted :: "fido_task \<Rightarrow> auth \<Rightarrow> bool" where
  "fido_aborted k s = (fk_controller k \<in> set (au_aborted s))"

text \<open>The \<^verbatim>\<open>finally\<close> block.\<close>

definition end_fido :: "nat \<Rightarrow> fido_task \<Rightarrow> auth \<Rightarrow> auth" where
  "end_fido i k s =
     s\<lparr>au_fidos := (au_fidos s)[i := None],
       au_fido_abort := (if au_fido_abort s = Some (fk_controller k) then None else au_fido_abort s)\<rparr>"

definition stage_fido :: "nat \<Rightarrow> fido_task \<Rightarrow> fido_stage \<Rightarrow> auth \<Rightarrow> auth" where
  "stage_fido i k st s = s\<lparr>au_fidos := (au_fidos s)[i := Some (k\<lparr>fk_stage := st\<rparr>)]\<rparr>"

definition fidoLogin :: "auth_env \<Rightarrow> bool \<Rightarrow> ustring \<Rightarrow> auth \<Rightarrow> auth" where
  "fidoLogin env supported username s =
     (let s1 = (cancelFidoLogin s)\<lparr>au_login_error := None\<rparr>; c = au_controllers s1
      in if \<not> supported then show_login_error (fst env ''login.fidoUnsupported'') s1
         else s1\<lparr>au_controllers := c + 1, au_fido_abort := Some c,
                au_fidos := au_fidos s1 @ [Some \<lparr>fk_controller = c, fk_name = utrim username, fk_stage = FidoConsent\<rparr>]\<rparr>)"

text \<open>The \<^verbatim>\<open>catch\<close> block, with the name of the error.\<close>

definition fido_failed :: "auth_env \<Rightarrow> nat \<Rightarrow> fido_task \<Rightarrow> string option \<Rightarrow> auth \<Rightarrow> auth" where
  "fido_failed env i k error_name s =
     end_fido i k (if fido_aborted k s then s else show_login_error (passkeyErrorMessage (fst env) error_name) s)"

text \<open>\<^verbatim>\<open>throwIfAborted\<close> after an await: an aborted login ends in the \<^verbatim>\<open>catch\<close> block without a message.\<close>

definition unless_aborted :: "nat \<Rightarrow> fido_task \<Rightarrow> (auth \<Rightarrow> auth) \<Rightarrow> auth \<Rightarrow> auth" where
  "unless_aborted i k body s = (if fido_aborted k s then end_fido i k s else body s)"

definition fido_message :: "nat \<Rightarrow> fido_task \<Rightarrow> string \<Rightarrow> auth \<Rightarrow> auth" where
  "fido_message i k message s = end_fido i k (show_login_error message s)"

datatype finish_answer = FinishOk | FinishMfa | FinishRefused

definition fido_consent :: "nat \<Rightarrow> fido_task \<Rightarrow> bool \<Rightarrow> auth \<Rightarrow> auth" where
  "fido_consent i k allowed s = (if \<not> allowed \<or> fido_aborted k s then end_fido i k s else stage_fido i k FidoBegin s)"

definition fido_options :: "auth_env \<Rightarrow> nat \<Rightarrow> fido_task \<Rightarrow> bool \<Rightarrow> auth \<Rightarrow> auth" where
  "fido_options env i k usable =
     unless_aborted i k (if usable then stage_fido i k FidoAssertion else fido_message i k (fst env ''login.fidoFailed''))"

definition fido_finished :: "nat \<Rightarrow> fido_task \<Rightarrow> finish_answer \<Rightarrow> auth \<Rightarrow> auth" where
  "fido_finished i k a =
     unless_aborted i k
       (case a of
          FinishOk \<Rightarrow> stage_fido i k FidoFinishJson
        | FinishMfa \<Rightarrow> (\<lambda>s. noted MfaShown (stage_fido i k FidoMfa s))
        | FinishRefused \<Rightarrow> stage_fido i k FidoFinishError)"

definition fido_session :: "auth_env \<Rightarrow> nat \<Rightarrow> fido_task \<Rightarrow> session_details option \<Rightarrow> auth \<Rightarrow> auth" where
  "fido_session env i k d s = (if fido_aborted k s then end_fido i k s else end_fido i k (completeLogin env d (fk_name k) s))"

section \<open>Events\<close>

definition current_username :: "auth \<Rightarrow> ustring" where
  "current_username s = lower (storage_item ''username'' s)"

definition userProfileChanged :: "(string \<Rightarrow> string) \<Rightarrow> profile \<Rightarrow> auth \<Rightarrow> auth" where
  "userProfileChanged t p s =
     (if normalize_username (pf_username p) \<noteq> current_username s then s
      else applyNavProfile t (Some p) (s\<lparr>au_nav_sequence := au_nav_sequence s + 1\<rparr>))"

definition userProfilesInvalidated :: "ustring list \<Rightarrow> auth \<Rightarrow> auth" where
  "userProfilesInvalidated usernames s = (if current_username s \<in> set usernames then refreshNavProfile s else s)"

definition languageChanged_nav :: "(string \<Rightarrow> string) \<Rightarrow> auth \<Rightarrow> auth" where
  "languageChanged_nav t s = (if au_logged_in s \<and> au_nav_profile s \<noteq> None then applyNavProfile t (au_nav_profile s) s else s)"

text \<open>
  Calls and answers. \<open>ProfileChanged\<close> and \<open>ProfilesInvalidated\<close> are what \<^verbatim>\<open>syncUserProfile\<close> and \<^verbatim>\<open>invalidateUserProfiles\<close> dispatch,
  which they do for non-empty names only. \<open>TabSelected\<close> is \<^verbatim>\<open>main.js\<close> storing the chosen tab.
\<close>

datatype auth_event =
    Initialize
  | MeAnswer nat me_answer
  | LoginSubmitted ustring
  | ConsentAnswer nat bool
  | LoginAnswer nat login_answer
  | MfaCompleted "session_details option"
  | LogoutCalled "string option"
  | LogoutDone
  | NavAnswer nat "profile option"
  | ProfileChanged profile
  | ProfilesInvalidated "ustring option list"
  | LanguageSwitch
  | HandlerSet
  | TabSelected ustring
  | FidoClicked bool ustring
  | FidoConsentAnswer nat bool
  | FidoBegan nat bool
  | FidoBeginMessage nat string
  | FidoOptions nat bool
  | FidoAsserted nat
  | FidoFinished nat finish_answer
  | FidoFinishMessage nat string
  | FidoSession nat "session_details option"
  | FidoFailed nat "string option"
  | FidoMfaEnded nat
  | LeftPage

definition on_task :: "nat \<Rightarrow> auth \<Rightarrow> (auth_task \<Rightarrow> auth option) \<Rightarrow> auth option" where
  "on_task i s f = (if i < length (au_tasks s) then (case au_tasks s ! i of None \<Rightarrow> None | Some k \<Rightarrow> f k) else None)"

definition on_fido :: "nat \<Rightarrow> auth \<Rightarrow> (fido_stage \<Rightarrow> bool) \<Rightarrow> (fido_task \<Rightarrow> auth \<Rightarrow> auth) \<Rightarrow> auth option" where
  "on_fido i s at f =
     (if i < length (au_fidos s)
      then (case au_fidos s ! i of None \<Rightarrow> None | Some k \<Rightarrow> if at (fk_stage k) then Some (f k s) else None) else None)"

fun auth_step :: "auth_env \<Rightarrow> auth \<Rightarrow> auth_event \<Rightarrow> auth option" where
  "auth_step env s Initialize = Some (initializeSession s)"
| "auth_step env s (MeAnswer i a) = on_task i s (\<lambda>k. case k of MeFetch w \<Rightarrow> Some (me_answered w a (end_task i s)) | _ \<Rightarrow> None)"
| "auth_step env s (LoginSubmitted name) = Some (login name s)"
| "auth_step env s (ConsentAnswer i allowed) =
     on_task i s (\<lambda>k. case k of LoginConsent name \<Rightarrow> Some (login_consent i name allowed s) | _ \<Rightarrow> None)"
| "auth_step env s (LoginAnswer i a) =
     on_task i s (\<lambda>k. case k of LoginPost name \<Rightarrow> Some (login_answered env name a (end_task i s)) | _ \<Rightarrow> None)"
| "auth_step env s (MfaCompleted d) = Some (completeLogin env d [] s)"
| "auth_step env s (LogoutCalled reason) = Some (logout reason s)"
| "auth_step env s LogoutDone = (case au_logout s of None \<Rightarrow> None | Some (reason, was) \<Rightarrow> Some (performLogout reason was s))"
| "auth_step env s (NavAnswer i result) =
     on_task i s (\<lambda>k. case k of NavLoad q \<Rightarrow> Some (nav_loaded (fst env) q result (end_task i s)) | _ \<Rightarrow> None)"
| "auth_step env s (ProfileChanged p) = (if normalize_username (pf_username p) = [] then None else Some (userProfileChanged (fst env) p s))"
| "auth_step env s (ProfilesInvalidated us) =
     (if invalidated_names us = [] then None else Some (userProfilesInvalidated (invalidated_names us) s))"
| "auth_step env s LanguageSwitch = Some (languageChanged_nav (fst env) s)"
| "auth_step env s HandlerSet = Some (s\<lparr>au_handler := True\<rparr>)"
| "auth_step env s (TabSelected tab) = Some (setItem ''selectedTab'' tab s)"
| "auth_step env s (FidoClicked supported username) = Some (fidoLogin env supported username s)"
| "auth_step env s (FidoConsentAnswer i allowed) = on_fido i s ((=) FidoConsent) (\<lambda>k. fido_consent i k allowed)"
| "auth_step env s (FidoBegan i resp_ok) =
     on_fido i s ((=) FidoBegin) (\<lambda>k. unless_aborted i k (stage_fido i k (if resp_ok then FidoBeginJson else FidoBeginError)))"
| "auth_step env s (FidoBeginMessage i message) = on_fido i s ((=) FidoBeginError) (\<lambda>k. fido_message i k message)"
| "auth_step env s (FidoOptions i usable) = on_fido i s ((=) FidoBeginJson) (\<lambda>k. fido_options env i k usable)"
| "auth_step env s (FidoAsserted i) = on_fido i s ((=) FidoAssertion) (\<lambda>k. unless_aborted i k (stage_fido i k FidoFinish))"
| "auth_step env s (FidoFinished i a) = on_fido i s ((=) FidoFinish) (\<lambda>k. fido_finished i k a)"
| "auth_step env s (FidoFinishMessage i message) = on_fido i s ((=) FidoFinishError) (\<lambda>k. fido_message i k message)"
| "auth_step env s (FidoSession i d) = on_fido i s ((=) FidoFinishJson) (\<lambda>k. fido_session env i k d)"
| "auth_step env s (FidoFailed i error_name) = on_fido i s (\<lambda>st. True) (\<lambda>k. fido_failed env i k error_name)"
| "auth_step env s (FidoMfaEnded i) = on_fido i s ((=) FidoMfa) (\<lambda>k. end_fido i k)"
| "auth_step env s LeftPage = Some (cancelFidoLogin s)"

text \<open>The page as loaded: the stored items, the auth-controlled elements and the session history are arbitrary.\<close>

definition fresh_auth :: "(string \<rightharpoonup> ustring) \<Rightarrow> auth_control list \<Rightarrow> history_state \<Rightarrow> auth" where
  "fresh_auth storage controls h = \<lparr>au_logged_in = False, au_manager = False, au_permissions = [], au_routes = [],
     au_storage = storage, au_controls = controls, au_login_display = [], au_user_display = ''none'', au_nav_sequence = 0,
     au_nav_profile = None, au_nav_name = [], au_login_error = None, au_handler = False, au_logout = None, au_tasks = [],
     au_fido_abort = None, au_controllers = 0, au_aborted = [], au_fidos = [], au_history = h, au_log = []\<rparr>"

section \<open>What the operations leave alone\<close>

text \<open>Three views of the state: the session as cached and shown, the logout, and the passkey logins.\<close>

definition announced :: "auth \<Rightarrow> bool" where
  "announced s = list_ex (\<lambda>x. case x of AuthChanged _ _ _ \<Rightarrow> True | _ \<Rightarrow> False) (au_log s)"

definition session_of where
  "session_of s = (announced s, au_logged_in s, au_manager s, au_permissions s, au_routes s, au_controls s, au_login_display s, au_user_display s)"

definition logout_of where
  "logout_of s = (count_list (au_log s) LogoutRequest, count_list (au_log s) CookieCleared, au_logout s \<noteq> None)"

definition fido_of where
  "fido_of s = (au_fidos s, au_fido_abort s, au_aborted s, au_controllers s)"

named_theorems auth_frame "what an operation of the session leaves alone"

lemma noted_frame [auth_frame]:
  "(case x of AuthChanged _ _ _ \<Rightarrow> False | _ \<Rightarrow> True) \<Longrightarrow> session_of (noted x s) = session_of s"
  "x \<noteq> LogoutRequest \<Longrightarrow> x \<noteq> CookieCleared \<Longrightarrow> logout_of (noted x s) = logout_of s"
  "fido_of (noted x s) = fido_of s"
  by (auto simp: noted_def session_of_def logout_of_def fido_of_def announced_def split: auth_effect.splits)

lemma item_frame [auth_frame]:
  "session_of (setItem k v s) = session_of s" "session_of (removeItem k s) = session_of s"
  "logout_of (setItem k v s) = logout_of s" "logout_of (removeItem k s) = logout_of s"
  "fido_of (setItem k v s) = fido_of s" "fido_of (removeItem k s) = fido_of s"
  by (simp_all add: setItem_def removeItem_def session_of_def logout_of_def fido_of_def announced_def)

lemma task_frame [auth_frame]:
  "session_of (add_task k s) = session_of s" "session_of (end_task i s) = session_of s"
  "logout_of (add_task k s) = logout_of s" "logout_of (end_task i s) = logout_of s"
  "fido_of (add_task k s) = fido_of s" "fido_of (end_task i s) = fido_of s"
  by (simp_all add: add_task_def end_task_def session_of_def logout_of_def fido_of_def announced_def)

lemma nav_frame [auth_frame]:
  "session_of (applyNavProfile t p s) = session_of s" "logout_of (applyNavProfile t p s) = logout_of s"
  "fido_of (applyNavProfile t p s) = fido_of s"
  "session_of (s\<lparr>au_nav_sequence := n\<rparr>) = session_of s" "logout_of (s\<lparr>au_nav_sequence := n\<rparr>) = logout_of s"
  "fido_of (s\<lparr>au_nav_sequence := n\<rparr>) = fido_of s"
  by (simp_all add: applyNavProfile_def session_of_def logout_of_def fido_of_def announced_def)

lemma refresh_frame [auth_frame]:
  "session_of (refreshNavProfile s) = session_of s" "logout_of (refreshNavProfile s) = logout_of s" "fido_of (refreshNavProfile s) = fido_of s"
  by (simp_all add: refreshNavProfile_def auth_frame)

lemma nav_loaded_frame [auth_frame]:
  "session_of (nav_loaded t q r s) = session_of s" "logout_of (nav_loaded t q r s) = logout_of s" "fido_of (nav_loaded t q r s) = fido_of s"
  by (simp_all add: nav_loaded_def auth_frame split: option.splits)

lemma nav_events_frame [auth_frame]:
  "session_of (userProfileChanged t p s) = session_of s" "session_of (userProfilesInvalidated ns s) = session_of s"
  "session_of (languageChanged_nav t s) = session_of s" "logout_of (userProfileChanged t p s) = logout_of s"
  "logout_of (userProfilesInvalidated ns s) = logout_of s" "logout_of (languageChanged_nav t s) = logout_of s"
  "fido_of (userProfileChanged t p s) = fido_of s" "fido_of (userProfilesInvalidated ns s) = fido_of s"
  "fido_of (languageChanged_nav t s) = fido_of s"
  by (simp_all add: userProfileChanged_def userProfilesInvalidated_def languageChanged_nav_def auth_frame)

lemma tab_frame [auth_frame]:
  "session_of (requestSwitchTab k s) = session_of s" "logout_of (requestSwitchTab k s) = logout_of s" "fido_of (requestSwitchTab k s) = fido_of s"
  "session_of (leave_manager_tab b c s) = session_of s" "logout_of (leave_manager_tab b c s) = logout_of s"
  "fido_of (leave_manager_tab b c s) = fido_of s"
  by (simp_all add: requestSwitchTab_def leave_manager_tab_def auth_frame)

lemma error_frame [auth_frame]:
  "session_of (show_login_error m s) = session_of s" "logout_of (show_login_error m s) = logout_of s" "fido_of (show_login_error m s) = fido_of s"
  "session_of (s\<lparr>au_login_error := e, au_tasks := ts\<rparr>) = session_of s" "logout_of (s\<lparr>au_login_error := e, au_tasks := ts\<rparr>) = logout_of s"
  "fido_of (s\<lparr>au_login_error := e, au_tasks := ts\<rparr>) = fido_of s" "session_of (s\<lparr>au_handler := b\<rparr>) = session_of s"
  "logout_of (s\<lparr>au_handler := b\<rparr>) = logout_of s" "fido_of (s\<lparr>au_handler := b\<rparr>) = fido_of s"
  "session_of (s\<lparr>au_login_error := e\<rparr>) = session_of s" "logout_of (s\<lparr>au_login_error := e\<rparr>) = logout_of s"
  "fido_of (s\<lparr>au_login_error := e\<rparr>) = fido_of s"
  by (simp_all add: show_login_error_def session_of_def logout_of_def fido_of_def announced_def)

lemma fido_frame [auth_frame]:
  "session_of (cancelFidoLogin s) = session_of s" "logout_of (cancelFidoLogin s) = logout_of s"
  "session_of (end_fido i k s) = session_of s" "logout_of (end_fido i k s) = logout_of s"
  "session_of (stage_fido i k st s) = session_of s" "logout_of (stage_fido i k st s) = logout_of s"
  by (simp_all add: cancelFidoLogin_def end_fido_def stage_fido_def session_of_def logout_of_def announced_def split: option.splits)

lemma history_frame [auth_frame]:
  "session_of (s\<lparr>au_history := h\<rparr>) = session_of s" "logout_of (s\<lparr>au_history := h\<rparr>) = logout_of s" "fido_of (s\<lparr>au_history := h\<rparr>) = fido_of s"
  by (simp_all add: session_of_def logout_of_def fido_of_def announced_def)

lemma leave_login_frame [auth_frame]:
  "session_of (leave_login env s) = session_of s" "logout_of (leave_login env s) = logout_of s"
  by (simp_all add: leave_login_def Let_def auth_frame)

lemma fido_steps_frame [auth_frame]:
  "session_of (fidoLogin env b u s) = session_of s" "session_of (fido_failed env i k e s) = session_of s"
  "session_of (fido_message i k m s) = session_of s" "session_of (fido_consent i k a s) = session_of s"
  "session_of (fido_options env i k b s) = session_of s" "session_of (fido_finished i k f s) = session_of s"
  "session_of (unless_aborted i k (stage_fido i k st) s) = session_of s"
  "logout_of (fidoLogin env b u s) = logout_of s" "logout_of (fido_failed env i k e s) = logout_of s"
  "logout_of (fido_message i k m s) = logout_of s" "logout_of (fido_consent i k a s) = logout_of s"
  "logout_of (fido_options env i k b s) = logout_of s" "logout_of (fido_finished i k f s) = logout_of s"
  "logout_of (unless_aborted i k (stage_fido i k st) s) = logout_of s"
  by (auto simp: fidoLogin_def fido_failed_def fido_message_def fido_consent_def fido_options_def fido_finished_def unless_aborted_def Let_def
        auth_frame split: finish_answer.splits) (simp_all add: session_of_def logout_of_def announced_def cancelFidoLogin_def show_login_error_def
        split: option.splits)

section \<open>Session, logout and passkey invariants\<close>

definition caches_ok :: "auth \<Rightarrow> bool" where
  "caches_ok s \<longleftrightarrow> (\<not> au_logged_in s \<longrightarrow> au_permissions s = [] \<and> au_routes s = [])
     \<and> (au_manager s \<longleftrightarrow> au_logged_in s \<and> isManagerFromSession (au_permissions s))"

definition view_ok :: "auth \<Rightarrow> bool" where
  "view_ok s \<longleftrightarrow> au_login_display s = (if au_logged_in s then ''none'' else ''inline-flex'')
     \<and> au_user_display s = (if au_logged_in s then ''flex'' else ''none'')
     \<and> (\<forall>c\<in>set (au_controls s). gate_control (au_manager s) (au_logged_in s) c = c)"

definition session_inv :: "auth \<Rightarrow> bool" where
  "session_inv s \<longleftrightarrow> caches_ok s \<and> (announced s \<longrightarrow> view_ok s)"

text \<open>One logout request is answered before the next is sent.\<close>

definition logout_inv :: "auth \<Rightarrow> bool" where
  "logout_inv s \<longleftrightarrow> count_list (au_log s) LogoutRequest = count_list (au_log s) CookieCleared + (if au_logout s \<noteq> None then 1 else 0)"

text \<open>Every unfinished passkey login but the current one has been aborted.\<close>

definition fido_inv :: "auth \<Rightarrow> bool" where
  "fido_inv s \<longleftrightarrow> unique_tasks fk_controller (au_fidos s)
     \<and> (\<forall>k. Some k \<in> set (au_fidos s) \<longrightarrow> fk_controller k < au_controllers s \<and> (fido_aborted k s \<or> au_fido_abort s = Some (fk_controller k)))"

lemma shown_cong:
  "session_of t = session_of s \<Longrightarrow> caches_ok t = caches_ok s \<and> view_ok t = view_ok s \<and> announced t = announced s \<and> au_logged_in t = au_logged_in s"
  by (auto simp: session_of_def caches_ok_def view_ok_def)

lemma session_inv_cong: "session_of t = session_of s \<Longrightarrow> session_inv t = session_inv s"
  by (simp add: session_inv_def shown_cong [of t s])

lemma logout_inv_cong: "logout_of t = logout_of s \<Longrightarrow> logout_inv t = logout_inv s"
  by (auto simp: logout_of_def logout_inv_def)

lemma fido_inv_cong: "fido_of t = fido_of s \<Longrightarrow> fido_inv t = fido_inv s"
  by (auto simp: fido_of_def fido_inv_def fido_aborted_def)

lemma gate_idem: "gate_control m l (gate_control m l c) = gate_control m l c"
  by (auto simp: gate_control_def setAuthControlledDisplay_def Let_def)

lemma show_account_frame:
  "au_logged_in (show_account b s) = au_logged_in s" "au_manager (show_account b s) = au_manager s"
  "au_permissions (show_account b s) = au_permissions s" "au_routes (show_account b s) = au_routes s"
  "au_controls (show_account b s) = au_controls s" "au_log (show_account b s) = au_log s" "au_logout (show_account b s) = au_logout s"
  "au_login_display (show_account b s) = (if b then ''none'' else ''inline-flex'')"
  "au_user_display (show_account b s) = (if b then ''flex'' else ''none'')" "fido_of (show_account b s) = fido_of s"
  by (simp_all add: show_account_def refreshNavProfile_def add_task_def fido_of_def)

text \<open>The refreshed page shows the session it was given.\<close>

lemma updateAuthUI_session:
  assumes "legacy \<longrightarrow> isManagerFromSession permissions"
  shows "session_inv (updateAuthUI b name legacy permissions routes s)"
    and "au_logged_in (updateAuthUI b name legacy permissions routes s) = b"
proof -
  define s2 where "s2 = (if b \<and> permissions = [] \<and> legacy then (applySessionCaches b permissions routes s)\<lparr>au_manager := True\<rparr>
    else applySessionCaches b permissions routes s)"
  define s4 where "s4 = (show_account b s2)\<lparr>au_controls := map (gate_control (au_manager s2) b) (au_controls (show_account b s2))\<rparr>"
  have "\<not> (permissions = [] \<and> legacy)" using assms by (auto simp: isManagerFromSession_def)
  then have s2: "s2 = applySessionCaches b permissions routes s" by (auto simp: s2_def)
  have upd: "updateAuthUI b name legacy permissions routes s = noted (AuthChanged b (au_manager s2) name) (leave_manager_tab b (au_manager s2) s4)"
    by (simp add: updateAuthUI_def Let_def s2_def s4_def)
  have "caches_ok s4" "view_ok s4" "au_logged_in s4 = b"
    by (auto simp: s4_def s2 caches_ok_def view_ok_def show_account_frame applySessionCaches_def gate_idem)
  moreover have "session_of (leave_manager_tab b (au_manager s2) s4) = session_of s4" by (simp add: auth_frame)
  ultimately have "caches_ok (leave_manager_tab b (au_manager s2) s4)" "view_ok (leave_manager_tab b (au_manager s2) s4)"
    "au_logged_in (leave_manager_tab b (au_manager s2) s4) = b"
    using shown_cong by blast+
  then show "session_inv (updateAuthUI b name legacy permissions routes s)" "au_logged_in (updateAuthUI b name legacy permissions routes s) = b"
    by (simp_all add: upd session_inv_def caches_ok_def view_ok_def noted_def)
qed

lemma updateAuthUI_frame [auth_frame]:
  "logout_of (updateAuthUI b name legacy permissions routes s) = logout_of s"
  "fido_of (updateAuthUI b name legacy permissions routes s) = fido_of s"
proof -
  define s2 where "s2 = (if b \<and> permissions = [] \<and> legacy then (applySessionCaches b permissions routes s)\<lparr>au_manager := True\<rparr>
    else applySessionCaches b permissions routes s)"
  define s4 where "s4 = (show_account b s2)\<lparr>au_controls := map (gate_control (au_manager s2) b) (au_controls (show_account b s2))\<rparr>"
  have upd: "updateAuthUI b name legacy permissions routes s = noted (AuthChanged b (au_manager s2) name) (leave_manager_tab b (au_manager s2) s4)"
    by (simp add: updateAuthUI_def Let_def s2_def s4_def)
  have "logout_of s4 = logout_of s" by (simp add: s4_def s2_def logout_of_def show_account_frame applySessionCaches_def)
  moreover have "fido_of s4 = fido_of s" using show_account_frame(10) [of b s2]
    by (simp add: s4_def s2_def fido_of_def applySessionCaches_def split: if_splits)
  ultimately show "logout_of (updateAuthUI b name legacy permissions routes s) = logout_of s"
    "fido_of (updateAuthUI b name legacy permissions routes s) = fido_of s"
    by (simp_all add: upd auth_frame)
qed

lemma completeLogin_session: "session_inv (completeLogin env d fallback s)"
proof -
  let ?n = "session_name d fallback" and ?p = "session_permissions d"
  let ?u = "updateAuthUI True ?n (isManagerFromSession ?p) ?p (session_routes d)
    (setItem ''username'' ?n (removeItem ''session-token'' (removeItem ''token-secret'' (removeItem ''token-name'' s))))"
  have "session_of (completeLogin env d fallback s) = session_of ?u" by (simp add: completeLogin_def Let_def auth_frame)
  with updateAuthUI_session(1) [of "isManagerFromSession ?p" ?p] show ?thesis using session_inv_cong by blast
qed

lemma completeLogin_frame [auth_frame]: "logout_of (completeLogin env d fallback s) = logout_of s"
  by (simp add: completeLogin_def Let_def auth_frame)

lemma login_steps_frame [auth_frame]:
  "session_of (login name s) = session_of s" "logout_of (login name s) = logout_of s"
  "session_of (login_consent i name a s) = session_of s" "logout_of (login_consent i name a s) = logout_of s"
  "session_of (initializeSession s) = session_of s" "logout_of (initializeSession s) = logout_of s"
  "fido_of (login name s) = fido_of s" "fido_of (login_consent i name a s) = fido_of s" "fido_of (initializeSession s) = fido_of s"
  "logout_of (login_answered env name la s) = logout_of s" "fido_of (logout reason s) = fido_of s" "session_of (logout reason s) = session_of s"
  by (simp_all add: login_def login_consent_def initializeSession_def login_answered_def logout_def Let_def auth_frame
      split: login_answer.splits)
    (simp_all add: session_of_def fido_of_def announced_def noted_def)

lemma login_answered_session: "session_inv s \<Longrightarrow> session_inv (login_answered env name a s)"
proof (cases a)
  case (LoginSession d)
  then show ?thesis by (simp add: login_answered_def completeLogin_session)
qed (auto simp: login_answered_def auth_frame intro: session_inv_cong [THEN iffD2])

lemma me_answered_session: "session_inv s \<Longrightarrow> session_inv (me_answered was a s)"
  using session_inv_cong [of "logout (Some ''expired'') s" s]
  by (cases a) (simp_all add: me_answered_def Let_def updateAuthUI_session(1) auth_frame)

lemma performLogout_session: "session_inv (performLogout reason was s)"
proof -
  define s2 where "s2 = (let s1 = clear_credentials s in noted ProfilesCleared (s1\<lparr>au_nav_sequence := au_nav_sequence s1 + 1\<rparr>))"
  have "session_of (logout_alert reason was u) = session_of u" for u by (simp add: logout_alert_def auth_frame)
  moreover have "session_of (u\<lparr>au_logout := None\<rparr>) = session_of u" for u by (simp add: session_of_def announced_def)
  ultimately have "session_of (performLogout reason was s) = session_of (updateAuthUI False [] False [] [] s2)"
    by (simp add: performLogout_def Let_def auth_frame s2_def)
  with updateAuthUI_session(1) [of False "[]"] show ?thesis using session_inv_cong by blast
qed

text \<open>The fields a passkey or nav event acts on.\<close>

lemma on_task_SomeD: "on_task i s f = Some t \<Longrightarrow> \<exists>k. i < length (au_tasks s) \<and> au_tasks s ! i = Some k \<and> f k = Some t"
  by (auto simp: on_task_def split: if_splits option.splits)

lemma on_fido_SomeD:
  "on_fido i s at f = Some t \<Longrightarrow> \<exists>k. i < length (au_fidos s) \<and> au_fidos s ! i = Some k \<and> at (fk_stage k) \<and> t = f k s"
  by (auto simp: on_fido_def split: if_splits option.splits)

lemma fido_session_inv: "session_inv s \<Longrightarrow> session_inv (fido_session env i k d s)"
  using session_inv_cong [of "end_fido i k s" s] session_inv_cong [of "end_fido i k (completeLogin env d (fk_name k) s)"] completeLogin_session
  by (auto simp: fido_session_def auth_frame)

fun session_event :: "auth_event \<Rightarrow> bool" where
  "session_event (MeAnswer i a) = True"
| "session_event (LoginAnswer i a) = True"
| "session_event (MfaCompleted d) = True"
| "session_event LogoutDone = True"
| "session_event (FidoSession i d) = True"
| "session_event e = False"

lemma other_event_session: "\<not> session_event e \<Longrightarrow> auth_step env s e = Some t \<Longrightarrow> session_of t = session_of s"
  by (cases e) (auto dest!: on_task_SomeD on_fido_SomeD simp: auth_frame split: auth_task.splits if_splits)

lemma auth_step_session:
  assumes "session_inv s" "auth_step env s e = Some t"
  shows "session_inv t"
proof (cases "session_event e")
  case False
  then show ?thesis using session_inv_cong [OF other_event_session [OF False assms(2)]] assms(1) by simp
next
  case True
  have ended: "session_inv (end_task i s)" for i using assms(1) session_inv_cong [of "end_task i s" s] by (simp add: auth_frame)
  from True assms show ?thesis
    by (cases e)
      (auto dest!: on_task_SomeD on_fido_SomeD simp: me_answered_session [OF ended] login_answered_session [OF ended] performLogout_session
        completeLogin_session fido_session_inv split: auth_task.splits option.splits)
qed

lemma fresh_session: "session_inv (fresh_auth storage controls h)"
  by (simp add: session_inv_def caches_ok_def fresh_auth_def announced_def)

interpretation auth_session: machine_invariant "auth_step env" session_inv
  by unfold_locales (rule auth_step_session)

subsection \<open>Logout\<close>

lemma logout_logout: "logout_inv s \<Longrightarrow> logout_inv (logout reason s)"
  by (auto simp: logout_inv_def logout_def noted_def Let_def)

lemma performLogout_logout:
  assumes "logout_inv s" "au_logout s \<noteq> None"
  shows "logout_inv (performLogout reason was s)"
proof -
  define s2 where "s2 = (let s1 = clear_credentials s in noted ProfilesCleared (s1\<lparr>au_nav_sequence := au_nav_sequence s1 + 1\<rparr>))"
  define u where "u = requestSwitchTab (ustr ''overview'') (setItem ''selectedTab'' (ustr ''overview'')
    (noted DashboardStopped (logout_alert reason was (updateAuthUI False [] False [] [] s2))))"
  have p: "performLogout reason was s = u\<lparr>au_logout := None\<rparr>" by (simp add: performLogout_def u_def s2_def Let_def)
  have "logout_of (logout_alert reason was v) = logout_of v" for v by (simp add: logout_alert_def auth_frame)
  then have "logout_of u = logout_of s2" by (simp add: u_def auth_frame)
  moreover have "logout_of s2 = (count_list (au_log s) LogoutRequest, count_list (au_log s) CookieCleared + 1, au_logout s \<noteq> None)"
    by (simp add: s2_def clear_credentials_def Let_def logout_of_def noted_def removeItem_def)
  ultimately show ?thesis using assms by (simp add: p logout_inv_def logout_of_def)
qed

lemma fido_session_logout [auth_frame]: "logout_of (fido_session env i k d s) = logout_of s"
  by (simp add: fido_session_def auth_frame)

lemma me_answered_logout: "logout_inv s \<Longrightarrow> logout_inv (me_answered was a s)"
  by (cases a) (auto simp: me_answered_def Let_def logout_logout auth_frame intro: logout_inv_cong [THEN iffD2])

fun logout_event :: "auth_event \<Rightarrow> bool" where
  "logout_event (MeAnswer i a) = True"
| "logout_event (LogoutCalled r) = True"
| "logout_event LogoutDone = True"
| "logout_event e = False"

lemma other_event_logout: "\<not> logout_event e \<Longrightarrow> auth_step env s e = Some t \<Longrightarrow> logout_of t = logout_of s"
  by (cases e) (auto dest!: on_task_SomeD on_fido_SomeD simp: auth_frame split: auth_task.splits if_splits)

lemma auth_step_logout:
  assumes "logout_inv s" "auth_step env s e = Some t"
  shows "logout_inv t"
proof (cases "logout_event e")
  case False
  then show ?thesis using logout_inv_cong [OF other_event_logout [OF False assms(2)]] assms(1) by simp
next
  case True
  have ended: "logout_inv (end_task i s)" for i using assms(1) logout_inv_cong [of "end_task i s" s] by (simp add: auth_frame)
  from True assms show ?thesis
    by (cases e)
      (auto dest!: on_task_SomeD simp: me_answered_logout [OF ended] logout_logout performLogout_logout split: auth_task.splits option.splits)
qed

subsection \<open>Passkey logins\<close>

lemma cancel_fields:
  "au_fidos (cancelFidoLogin s) = au_fidos s" "au_fido_abort (cancelFidoLogin s) = au_fido_abort s" "au_controllers (cancelFidoLogin s) = au_controllers s"
  "set (au_aborted (cancelFidoLogin s)) = set (au_aborted s) \<union> set_option (au_fido_abort s)"
  by (simp_all add: cancelFidoLogin_def split: option.splits)

lemma cancel_fido: "fido_inv s \<Longrightarrow> fido_inv (cancelFidoLogin s)"
  by (auto simp: fido_inv_def fido_aborted_def cancel_fields)

lemma cancel_aborts: "fido_inv s \<Longrightarrow> Some k \<in> set (au_fidos s) \<Longrightarrow> fido_aborted k (cancelFidoLogin s)"
  by (auto simp: fido_inv_def fido_aborted_def cancel_fields)

lemma end_fido_inv:
  assumes "fido_inv s" "i < length (au_fidos s)" "au_fidos s ! i = Some k"
  shows "fido_inv (end_fido i k s)"
proof -
  have u: "unique_tasks fk_controller (au_fidos s)" using assms(1) by (simp add: fido_inv_def)
  have "fk_controller a < au_controllers s \<and> (fido_aborted a s \<or> au_fido_abort s = Some (fk_controller a)) \<and> fk_controller a \<noteq> fk_controller k"
    if "Some a \<in> set ((au_fidos s)[i := None])" for a
    using that assms(1) unfolding ended_task [OF u assms(2,3)] fido_inv_def by blast
  then show ?thesis using unique_tasks_end [OF u] unfolding fido_inv_def end_fido_def fido_aborted_def by (simp, metis option.inject)
qed

lemma stage_fido_inv:
  assumes "fido_inv s" "i < length (au_fidos s)" "au_fidos s ! i = Some k"
  shows "fido_inv (stage_fido i k st s)"
proof -
  have u: "unique_tasks fk_controller (au_fidos s)" using assms(1) by (simp add: fido_inv_def)
  have "fk_controller a < au_controllers s \<and> (fido_aborted a s \<or> au_fido_abort s = Some (fk_controller a))"
    if "Some a \<in> set ((au_fidos s)[i := Some (k\<lparr>fk_stage := st\<rparr>)])" for a
  proof -
    have "Some a \<in> set (au_fidos s) \<or> fk_controller a = fk_controller k"
      using that set_update_subset_insert [of "au_fidos s" i "Some (k\<lparr>fk_stage := st\<rparr>)"] by auto
    moreover have "Some k \<in> set (au_fidos s)" using assms(2,3) by (metis nth_mem)
    ultimately show ?thesis using assms(1) unfolding fido_inv_def fido_aborted_def by metis
  qed
  then show ?thesis using unique_tasks_move [OF u assms(2,3), of "k\<lparr>fk_stage := st\<rparr>"]
    by (simp add: fido_inv_def stage_fido_def fido_aborted_def)
qed

lemma fidoLogin_inv: "fido_inv s \<Longrightarrow> fido_inv (fidoLogin env supported u s)"
proof -
  assume inv: "fido_inv s"
  let ?s = "(cancelFidoLogin s)\<lparr>au_login_error := None\<rparr>"
  have inv': "fido_inv ?s" using cancel_fido [OF inv] fido_inv_cong [of ?s "cancelFidoLogin s"] by (simp add: auth_frame)
  have old: "fk_controller k < au_controllers s" "fido_aborted k (cancelFidoLogin s)" if "Some k \<in> set (au_fidos s)" for k
    using inv that cancel_aborts by (auto simp: fido_inv_def)
  have "unique_tasks fk_controller (au_fidos s @ [Some \<lparr>fk_controller = au_controllers s, fk_name = utrim u, fk_stage = FidoConsent\<rparr>])"
    using inv old(1) by (intro unique_tasks_start) (fastforce simp: fido_inv_def)+
  with old show ?thesis
    using inv' fido_inv_cong [of "show_login_error (fst env ''login.fidoUnsupported'') ?s" ?s]
    by (auto simp: fidoLogin_def Let_def fido_inv_def cancel_fields fido_aborted_def show_login_error_def less_Suc_eq)
qed

lemma leave_login_inv: "fido_inv s \<Longrightarrow> fido_inv (leave_login env s)"
  using fido_inv_cong [of "s\<lparr>au_history := leaveLoginPage (fst (snd env)) (snd (snd env)) (au_history s)\<rparr>" s]
  by (auto simp: leave_login_def Let_def auth_frame cancel_fido)

lemma leave_login_fidos: "au_fidos (leave_login env s) = au_fidos s"
  by (simp add: leave_login_def Let_def cancel_fields)

lemma completeLogin_fido:
  assumes "fido_inv s"
  shows "fido_inv (completeLogin env d fallback s) \<and> au_fidos (completeLogin env d fallback s) = au_fidos s"
proof -
  define u where "u = noted (LoginCompleted (session_name d fallback)) (noted (Alerted ''login.welcomeBack'' ''success'')
    (updateAuthUI True (session_name d fallback) (isManagerFromSession (session_permissions d)) (session_permissions d) (session_routes d)
      (setItem ''username'' (session_name d fallback) (removeItem ''session-token'' (removeItem ''token-secret'' (removeItem ''token-name'' s))))))"
  have same: "fido_of u = fido_of s" by (simp add: u_def auth_frame)
  then have "fido_inv u" "au_fidos u = au_fidos s" using fido_inv_cong [OF same] assms by (simp_all add: fido_of_def)
  moreover have "completeLogin env d fallback s = leave_login env u" by (simp add: completeLogin_def u_def Let_def)
  ultimately show ?thesis using leave_login_inv leave_login_fidos by simp
qed

lemma answers_fido [auth_frame]: "fido_of (me_answered was a s) = fido_of s" "fido_of (performLogout reason was s) = fido_of s"
proof -
  have "fido_of (logout_alert reason was u) = fido_of u" "fido_of (u\<lparr>au_logout := None\<rparr>) = fido_of u" for u
    by (simp_all add: logout_alert_def auth_frame) (simp add: fido_of_def)
  then show "fido_of (performLogout reason was s) = fido_of s"
    by (simp add: performLogout_def clear_credentials_def Let_def auth_frame)
  show "fido_of (me_answered was a s) = fido_of s"
    by (cases a) (simp_all add: me_answered_def Let_def auth_frame)
qed

lemma login_answered_fido: "fido_inv s \<Longrightarrow> fido_inv (login_answered env name a s)"
proof (cases a)
  case (LoginSession d)
  assume "fido_inv s"
  with LoginSession completeLogin_fido show ?thesis by (simp add: login_answered_def)
qed (auto simp: login_answered_def auth_frame intro: fido_inv_cong [THEN iffD2])

text \<open>A passkey login that goes on or ends, with nothing but its own slot changed before.\<close>

lemma slot_ends:
  assumes "fido_inv s" "i < length (au_fidos s)" "au_fidos s ! i = Some k" "fido_of u = fido_of s"
  shows "fido_inv (end_fido i k u)" "fido_inv (stage_fido i k st u)" "fido_inv (noted x (stage_fido i k st u))"
proof -
  have u: "fido_inv u" "i < length (au_fidos u)" "au_fidos u ! i = Some k"
    using assms fido_inv_cong [OF assms(4)] by (simp_all add: fido_of_def)
  show "fido_inv (end_fido i k u)" "fido_inv (stage_fido i k st u)" by (rule end_fido_inv [OF u] stage_fido_inv [OF u])+
  then show "fido_inv (noted x (stage_fido i k st u))" using fido_inv_cong [of "noted x (stage_fido i k st u)"] by (simp add: auth_frame)
qed

lemma fido_slot_inv:
  assumes "fido_inv s" "i < length (au_fidos s)" "au_fidos s ! i = Some k"
  shows "fido_inv (fido_consent i k a s)" "fido_inv (unless_aborted i k (stage_fido i k st) s)" "fido_inv (fido_message i k m s)"
    "fido_inv (fido_options env i k b s)" "fido_inv (fido_finished i k f s)" "fido_inv (fido_failed env i k n s)" "fido_inv (end_fido i k s)"
  using slot_ends [OF assms]
  by (auto simp: fido_consent_def unless_aborted_def fido_message_def fido_options_def fido_finished_def fido_failed_def auth_frame
      split: finish_answer.splits)

lemma fido_session_fido:
  assumes "fido_inv s" "i < length (au_fidos s)" "au_fidos s ! i = Some k"
  shows "fido_inv (fido_session env i k d s)"
  using end_fido_inv [OF assms] completeLogin_fido [OF assms(1), of env d "fk_name k"] assms(2,3)
  by (simp add: fido_session_def end_fido_inv)

fun page_event :: "auth_event \<Rightarrow> bool" where
  "page_event (LoginAnswer i a) = False"
| "page_event (MfaCompleted d) = False"
| "page_event Initialize = True"
| "page_event (MeAnswer i a) = True"
| "page_event (LoginSubmitted n) = True"
| "page_event (ConsentAnswer i b) = True"
| "page_event (LogoutCalled r) = True"
| "page_event LogoutDone = True"
| "page_event (NavAnswer i r) = True"
| "page_event (ProfileChanged p) = True"
| "page_event (ProfilesInvalidated us) = True"
| "page_event LanguageSwitch = True"
| "page_event HandlerSet = True"
| "page_event (TabSelected tab) = True"
| "page_event e = False"

lemma page_event_fido: "page_event e \<Longrightarrow> auth_step env s e = Some t \<Longrightarrow> fido_of t = fido_of s"
  by (cases e) (auto dest!: on_task_SomeD simp: auth_frame split: auth_task.splits if_splits option.splits)

lemma auth_step_fido:
  assumes "fido_inv s" "auth_step env s e = Some t"
  shows "fido_inv t"
proof (cases "page_event e")
  case True
  then show ?thesis using fido_inv_cong [OF page_event_fido [OF True assms(2)]] assms(1) by simp
next
  case False
  have ended: "fido_inv (end_task i s)" for i using fido_inv_cong [of "end_task i s" s] assms(1) by (simp add: auth_frame)
  from False assms show ?thesis
    by (cases e)
      (auto dest!: on_task_SomeD on_fido_SomeD simp: fido_slot_inv fido_session_fido fidoLogin_inv cancel_fido completeLogin_fido
        login_answered_fido [OF ended] split: auth_task.splits)
qed

lemma fresh_auth_inv: "logout_inv (fresh_auth storage controls h)" "fido_inv (fresh_auth storage controls h)"
  by (simp_all add: logout_inv_def fido_inv_def fresh_auth_def unique_tasks_def)

interpretation auth_logout: machine_invariant "auth_step env" logout_inv
  by unfold_locales (rule auth_step_logout)

interpretation auth_fido: machine_invariant "auth_step env" fido_inv
  by unfold_locales (rule auth_step_fido)

subsection \<open>The signed-out page\<close>

definition nav_of where
  "nav_of s = (au_storage s ''username'', au_nav_name s, au_nav_profile s, au_nav_sequence s)"

definition nav_loads :: "auth \<Rightarrow> nat set" where
  "nav_loads s = {k. Some (NavLoad k) \<in> set (au_tasks s)}"

definition nav_inv :: "auth \<Rightarrow> bool" where
  "nav_inv s \<longleftrightarrow> (\<forall>k\<in>nav_loads s. k \<le> au_nav_sequence s)"

text \<open>No account is stored or shown, and the profile lookups that are still running are outdated.\<close>

definition signed_out :: "auth \<Rightarrow> bool" where
  "signed_out s \<longleftrightarrow> \<not> au_logged_in s \<and> nav_of s = (None, [], None, au_nav_sequence s) \<and> (\<forall>k\<in>nav_loads s. k < au_nav_sequence s)"

named_theorems nav_same "operations that leave the navigation profile and the stored account alone"

lemma noted_nav [nav_same]: "nav_of (noted x s) = nav_of s" "nav_loads (noted x s) = nav_loads s"
  by (simp_all add: noted_def nav_of_def nav_loads_def)

lemma item_nav [nav_same]:
  "k \<noteq> ''username'' \<Longrightarrow> nav_of (setItem k v s) = nav_of s" "k \<noteq> ''username'' \<Longrightarrow> nav_of (removeItem k s) = nav_of s"
  "nav_loads (setItem k v s) = nav_loads s" "nav_loads (removeItem k s) = nav_loads s"
  by (simp_all add: setItem_def removeItem_def nav_of_def nav_loads_def)

lemma task_nav [nav_same]:
  "nav_of (add_task k s) = nav_of s" "nav_of (end_task i s) = nav_of s"
  "nav_loads (add_task k s) = (case k of NavLoad q \<Rightarrow> insert q (nav_loads s) | _ \<Rightarrow> nav_loads s)"
  by (auto simp: add_task_def end_task_def nav_of_def nav_loads_def split: auth_task.splits)

lemma end_task_loads: "nav_loads (end_task i s) \<subseteq> nav_loads s"
  unfolding nav_loads_def end_task_def using set_update_subset_insert [of "au_tasks s" i None] by auto

lemma tab_nav [nav_same]:
  "nav_of (requestSwitchTab k s) = nav_of s" "nav_loads (requestSwitchTab k s) = nav_loads s"
  "nav_of (leave_manager_tab b c s) = nav_of s" "nav_loads (leave_manager_tab b c s) = nav_loads s"
  by (simp_all add: requestSwitchTab_def leave_manager_tab_def nav_same)

lemma other_nav [nav_same]:
  "nav_of (show_login_error m s) = nav_of s" "nav_loads (show_login_error m s) = nav_loads s"
  "nav_of (cancelFidoLogin s) = nav_of s" "nav_loads (cancelFidoLogin s) = nav_loads s"
  "nav_of (end_fido i k s) = nav_of s" "nav_loads (end_fido i k s) = nav_loads s"
  "nav_of (stage_fido i k st s) = nav_of s" "nav_loads (stage_fido i k st s) = nav_loads s"
  "nav_of (s\<lparr>au_logout := l\<rparr>) = nav_of s" "nav_loads (s\<lparr>au_logout := l\<rparr>) = nav_loads s"
  "nav_of (s\<lparr>au_handler := b\<rparr>) = nav_of s" "nav_loads (s\<lparr>au_handler := b\<rparr>) = nav_loads s"
  "nav_of (s\<lparr>au_history := h\<rparr>) = nav_of s" "nav_loads (s\<lparr>au_history := h\<rparr>) = nav_loads s"
  "nav_of (applySessionCaches b p r s) = nav_of s" "nav_loads (applySessionCaches b p r s) = nav_loads s"
  "nav_of (s\<lparr>au_manager := b\<rparr>) = nav_of s" "nav_loads (s\<lparr>au_manager := b\<rparr>) = nav_loads s"
  "nav_of (s\<lparr>au_controls := c\<rparr>) = nav_of s" "nav_loads (s\<lparr>au_controls := c\<rparr>) = nav_loads s"
  by (simp_all add: show_login_error_def cancelFidoLogin_def end_fido_def stage_fido_def applySessionCaches_def nav_of_def nav_loads_def
      split: option.splits)

lemma calls_nav [nav_same]:
  "nav_of (logout reason s) = nav_of s" "nav_loads (logout reason s) = nav_loads s"
  "nav_of (initializeSession s) = nav_of s" "nav_loads (initializeSession s) = nav_loads s"
  "nav_of (login name s) = nav_of s" "nav_loads (login name s) = nav_loads s"
  "nav_of (leave_login env s) = nav_of s" "nav_loads (leave_login env s) = nav_loads s"
  "nav_of (logout_alert reason was s) = nav_of s" "nav_loads (logout_alert reason was s) = nav_loads s"
  by (simp_all add: logout_def initializeSession_def login_def leave_login_def logout_alert_def Let_def nav_same)

lemma login_consent_nav: "nav_of (login_consent i name a s) = nav_of s" "nav_loads (login_consent i name a s) \<subseteq> nav_loads s"
  using end_task_loads [of i s] set_update_subset_insert [of "au_tasks s" i "Some (LoginPost name)"]
  by (auto simp: login_consent_def end_task_def nav_of_def nav_loads_def noted_def)

lemma fido_nav [nav_same]:
  "nav_of (fidoLogin env b u s) = nav_of s" "nav_loads (fidoLogin env b u s) = nav_loads s"
  "nav_of (fido_failed env i k e s) = nav_of s" "nav_loads (fido_failed env i k e s) = nav_loads s"
  "nav_of (fido_message i k m s) = nav_of s" "nav_loads (fido_message i k m s) = nav_loads s"
  "nav_of (fido_consent i k a s) = nav_of s" "nav_loads (fido_consent i k a s) = nav_loads s"
  "nav_of (fido_options env i k b s) = nav_of s" "nav_loads (fido_options env i k b s) = nav_loads s"
  "nav_of (fido_finished i k f s) = nav_of s" "nav_loads (fido_finished i k f s) = nav_loads s"
  "nav_of (unless_aborted i k (stage_fido i k st) s) = nav_of s" "nav_loads (unless_aborted i k (stage_fido i k st) s) = nav_loads s"
  by (simp_all add: fidoLogin_def fido_failed_def fido_message_def fido_consent_def fido_options_def fido_finished_def unless_aborted_def
      Let_def nav_same split: finish_answer.splits)
    (simp_all add: nav_of_def nav_loads_def cancelFidoLogin_def show_login_error_def split: option.splits)

lemma nav_inv_cong: "nav_of t = nav_of s \<Longrightarrow> nav_loads t \<subseteq> nav_loads s \<Longrightarrow> nav_inv s \<Longrightarrow> nav_inv t"
  by (auto simp: nav_inv_def nav_of_def)

lemma nav_inv_item: "nav_inv (setItem k v s) = nav_inv s" "nav_inv (removeItem k s) = nav_inv s"
  by (simp_all add: nav_inv_def setItem_def removeItem_def nav_loads_def)

lemma refresh_nav: "nav_inv s \<Longrightarrow> nav_inv (refreshNavProfile s)"
  by (auto simp: nav_inv_def refreshNavProfile_def add_task_def nav_loads_def)

lemma show_account_nav: "nav_inv s \<Longrightarrow> nav_inv (show_account b s)"
  using refresh_nav [of "s\<lparr>au_login_display := ''none'', au_user_display := ''flex''\<rparr>"]
  by (auto simp: show_account_def nav_inv_def nav_loads_def)

lemma updateAuthUI_nav:
  "nav_inv s \<Longrightarrow> nav_inv (updateAuthUI b name legacy permissions routes s)"
  "nav_of (updateAuthUI False name legacy permissions routes s) = (au_storage s ''username'', [], None, au_nav_sequence s)"
  "nav_loads (updateAuthUI False name legacy permissions routes s) = nav_loads s"
proof -
  define s2 where "s2 = (if b \<and> permissions = [] \<and> legacy then (applySessionCaches b permissions routes s)\<lparr>au_manager := True\<rparr>
    else applySessionCaches b permissions routes s)"
  define c where "c = map (gate_control (au_manager s2) b) (au_controls (show_account b s2))"
  have upd: "updateAuthUI b name legacy permissions routes s =
      noted (AuthChanged b (au_manager s2) name) (leave_manager_tab b (au_manager s2) ((show_account b s2)\<lparr>au_controls := c\<rparr>))"
    by (simp add: updateAuthUI_def Let_def s2_def c_def)
  assume "nav_inv s"
  moreover have "nav_of s2 = nav_of s" "nav_loads s2 = nav_loads s" by (simp_all add: s2_def nav_same)
  ultimately have "nav_inv (show_account b s2)" using nav_inv_cong [of s2 s] show_account_nav by blast
  then show "nav_inv (updateAuthUI b name legacy permissions routes s)"
    using nav_inv_cong [of "updateAuthUI b name legacy permissions routes s" "show_account b s2"] by (simp add: upd nav_same)
next
  have account: "nav_of (show_account False u) = (au_storage u ''username'', [], None, au_nav_sequence u)" "nav_loads (show_account False u) = nav_loads u" for u
    by (simp_all add: show_account_def nav_of_def nav_loads_def)
  show "nav_of (updateAuthUI False name legacy permissions routes s) = (au_storage s ''username'', [], None, au_nav_sequence s)"
    "nav_loads (updateAuthUI False name legacy permissions routes s) = nav_loads s"
    by (simp_all add: updateAuthUI_def Let_def nav_same account) (simp add: applySessionCaches_def)
qed

lemma completeLogin_nav:
  assumes "nav_inv s"
  shows "nav_inv (completeLogin env d fallback s)"
proof -
  let ?n = "session_name d fallback"
  let ?u = "updateAuthUI True ?n (isManagerFromSession (session_permissions d)) (session_permissions d) (session_routes d)
      (setItem ''username'' ?n (removeItem ''session-token'' (removeItem ''token-secret'' (removeItem ''token-name'' s))))"
  have "nav_of (completeLogin env d fallback s) = nav_of ?u" "nav_loads (completeLogin env d fallback s) = nav_loads ?u"
    by (simp_all add: completeLogin_def Let_def nav_same)
  moreover have "nav_inv ?u" using assms by (simp add: updateAuthUI_nav(1) nav_inv_item)
  ultimately show ?thesis using nav_inv_cong [of "completeLogin env d fallback s" ?u] by simp
qed

lemma performLogout_nav:
  "nav_of (performLogout reason was s) = (None, [], None, au_nav_sequence s + 1)" "nav_loads (performLogout reason was s) = nav_loads s"
proof -
  define s2 where "s2 = (let s1 = clear_credentials s in noted ProfilesCleared (s1\<lparr>au_nav_sequence := au_nav_sequence s1 + 1\<rparr>))"
  have p: "nav_of (performLogout reason was s) = nav_of (updateAuthUI False [] False [] [] s2)"
    "nav_loads (performLogout reason was s) = nav_loads (updateAuthUI False [] False [] [] s2)"
    by (simp_all add: performLogout_def s2_def Let_def nav_same)
  have "nav_of s2 = (None, au_nav_name s, au_nav_profile s, au_nav_sequence s + 1)" "nav_loads s2 = nav_loads s"
    by (simp_all add: s2_def clear_credentials_def Let_def noted_def removeItem_def nav_of_def nav_loads_def)
  then show "nav_of (performLogout reason was s) = (None, [], None, au_nav_sequence s + 1)" "nav_loads (performLogout reason was s) = nav_loads s"
    by (simp_all add: p updateAuthUI_nav) (simp add: nav_of_def)
qed

lemma nav_loaded_inv: "nav_inv s \<Longrightarrow> nav_inv (nav_loaded t q r s)"
  by (auto simp: nav_loaded_def applyNavProfile_def nav_inv_def nav_loads_def split: option.splits)

lemma nav_events_inv:
  "nav_inv s \<Longrightarrow> nav_inv (userProfileChanged t p s)" "nav_inv s \<Longrightarrow> nav_inv (userProfilesInvalidated ns s)"
  "nav_inv s \<Longrightarrow> nav_inv (languageChanged_nav t s)"
  by (auto simp: userProfileChanged_def userProfilesInvalidated_def languageChanged_nav_def applyNavProfile_def refresh_nav)
    (auto simp: nav_inv_def nav_loads_def)

lemma me_answered_nav: "nav_inv s \<Longrightarrow> nav_inv (me_answered was a s)"
  by (cases a) (auto simp: me_answered_def Let_def updateAuthUI_nav(1) nav_inv_item nav_same intro: nav_inv_cong)

lemma login_answered_nav: "nav_inv s \<Longrightarrow> nav_inv (login_answered env name a s)"
  by (cases a) (auto simp: login_answered_def completeLogin_nav nav_same intro: nav_inv_cong)

lemma fido_session_nav: "nav_inv s \<Longrightarrow> nav_inv (fido_session env i k d s)"
  using completeLogin_nav [of s env d "fk_name k"] by (auto simp: fido_session_def nav_same intro: nav_inv_cong)

lemma auth_step_nav:
  assumes "nav_inv s" "auth_step env s e = Some t"
  shows "nav_inv t"
proof -
  have ended: "nav_inv (end_task i s)" for i using nav_inv_cong [OF task_nav(2) end_task_loads assms(1)] .
  have left: "nav_inv (performLogout r w s)" for r w using assms(1) performLogout_nav [of r w s] by (auto simp: nav_inv_def nav_of_def)
  have same: "nav_of u = nav_of s \<Longrightarrow> nav_loads u \<subseteq> nav_loads s \<Longrightarrow> nav_inv u" for u using assms(1) nav_inv_cong by blast
  have consent: "nav_inv (login_consent i n a s)" for i n a by (rule same [OF login_consent_nav])
  show ?thesis
  proof (cases "nav_of t = nav_of s \<and> nav_loads t \<subseteq> nav_loads s")
    case True
    then show ?thesis using same by blast
  next
    case False
    with assms show ?thesis
      by (cases e)
        (auto dest!: on_task_SomeD on_fido_SomeD simp: nav_same consent ended me_answered_nav login_answered_nav fido_session_nav
          completeLogin_nav nav_loaded_inv nav_events_inv nav_inv_item left split: auth_task.splits if_splits option.splits)
  qed
qed

lemma fresh_nav: "nav_inv (fresh_auth storage controls h)"
  by (simp add: nav_inv_def nav_loads_def fresh_auth_def)

interpretation auth_nav: machine_invariant "auth_step env" nav_inv
  by unfold_locales (rule auth_step_nav)

fun starts_session :: "auth_event \<Rightarrow> bool" where
  "starts_session (MeAnswer i (MeSession d)) = True"
| "starts_session (LoginAnswer i (LoginSession d)) = True"
| "starts_session (MfaCompleted d) = True"
| "starts_session (FidoSession i d) = True"
| "starts_session e = False"

lemma signed_out_cong:
  "nav_of t = nav_of s \<Longrightarrow> nav_loads t \<subseteq> nav_loads s \<Longrightarrow> au_logged_in t = au_logged_in s \<Longrightarrow> signed_out s \<Longrightarrow> signed_out t"
  by (auto simp: signed_out_def nav_of_def)

lemma signed_out_ended: "signed_out s \<Longrightarrow> signed_out (end_task i s)"
  by (rule signed_out_cong [OF task_nav(2) end_task_loads]) (simp_all add: end_task_def)

lemma signed_out_message: "signed_out (noted x s) = signed_out s" "signed_out (show_login_error m s) = signed_out s"
  by (simp_all add: signed_out_def noted_def show_login_error_def nav_of_def nav_loads_def)

lemma signed_out_username: "signed_out s \<Longrightarrow> storage_item ''username'' s = [] \<and> current_username s = []"
  by (simp add: signed_out_def nav_of_def storage_item_def current_username_def lower_def opt_or_def)

lemma updateAuthUI_signed_out: "signed_out s \<Longrightarrow> signed_out (updateAuthUI False name False [] [] s)"
  using updateAuthUI_session(2) [of False "[]" False name "[]" s] updateAuthUI_nav(2,3) [of name False "[]" "[]" s]
  by (auto simp: signed_out_def nav_of_def)

lemma logout_logged: "au_logged_in (logout reason s) = au_logged_in s"
  by (simp add: logout_def noted_def Let_def)

lemma me_answered_signed_out: "signed_out s \<Longrightarrow> \<not> starts_session (MeAnswer i a) \<Longrightarrow> signed_out (me_answered was a s)"
  using signed_out_cong [of "logout (Some ''expired'') s" s] signed_out_username [of s]
  by (cases a) (simp_all add: me_answered_def Let_def updateAuthUI_signed_out nav_same logout_logged)

lemma performLogout_signed_out:
  assumes "nav_inv s"
  shows "signed_out (performLogout reason was s)"
proof -
  define s2 where "s2 = (let s1 = clear_credentials s in noted ProfilesCleared (s1\<lparr>au_nav_sequence := au_nav_sequence s1 + 1\<rparr>))"
  have "au_logged_in (performLogout reason was s) = au_logged_in (updateAuthUI False [] False [] [] s2)"
    by (simp add: performLogout_def s2_def Let_def requestSwitchTab_def setItem_def logout_alert_def noted_def)
  then have "\<not> au_logged_in (performLogout reason was s)" by (simp add: updateAuthUI_session(2))
  with performLogout_nav [of reason was s] assms show ?thesis by (auto simp: signed_out_def nav_inv_def nav_of_def)
qed

lemma nav_events_signed_out:
  assumes "signed_out s"
  shows "q \<in> nav_loads s \<Longrightarrow> nav_loaded t q r (end_task i s) = end_task i s"
    and "normalize_username (pf_username p) \<noteq> [] \<Longrightarrow> userProfileChanged t p s = s"
    and "userProfilesInvalidated (invalidated_names us) s = s" "languageChanged_nav t s = s"
proof -
  show "nav_loaded t q r (end_task i s) = end_task i s" if "q \<in> nav_loads s"
    using that assms by (auto simp: nav_loaded_def signed_out_def end_task_def split: option.splits)
qed (use assms signed_out_username [OF assms] in
    \<open>auto simp: userProfileChanged_def userProfilesInvalidated_def languageChanged_nav_def invalidated_names_def signed_out_def\<close>)

lemma signed_out_step:
  assumes "signed_out s" "nav_inv s" "auth_step env s e = Some t" "\<not> starts_session e"
  shows "signed_out t"
proof (cases "session_event e")
  case True
  with assms show ?thesis
  proof (cases e)
    case (LoginAnswer i a)
    with assms have "\<exists>name. t = login_answered env name a (end_task i s)" "\<forall>d. a \<noteq> LoginSession d"
      by (auto dest!: on_task_SomeD split: auth_task.splits)
    then show ?thesis
      using signed_out_ended [OF assms(1), of i] by (cases a) (auto simp: login_answered_def signed_out_message)
  qed (auto dest!: on_task_SomeD simp: me_answered_signed_out [OF signed_out_ended [OF assms(1)]] performLogout_signed_out
      split: auth_task.splits option.splits)
next
  case False
  have logged: "au_logged_in t = au_logged_in s" using other_event_session [OF False assms(3)] by (simp add: session_of_def)
  have "nav_of t = nav_of s \<and> nav_loads t \<subseteq> nav_loads s"
  proof (cases e)
    case (NavAnswer i r)
    with assms(3) obtain q where "i < length (au_tasks s)" "au_tasks s ! i = Some (NavLoad q)" "t = nav_loaded (fst env) q r (end_task i s)"
      by (auto dest!: on_task_SomeD split: auth_task.splits)
    moreover from this have "q \<in> nav_loads s" by (auto simp: nav_loads_def in_set_conv_nth)
    ultimately show ?thesis using nav_events_signed_out(1) [OF assms(1)] end_task_loads by (simp add: nav_same)
  next
    case (ConsentAnswer i a)
    with assms(3) obtain name where "t = login_consent i name a s" by (auto dest!: on_task_SomeD split: auth_task.splits)
    then show ?thesis by (simp add: login_consent_nav)
  qed (use False assms nav_events_signed_out(2-4) [OF assms(1)] in
      \<open>auto dest!: on_task_SomeD on_fido_SomeD simp: nav_same split: auth_task.splits if_splits\<close>)
  then show ?thesis using signed_out_cong logged assms(1) by blast
qed

lemma signed_out_run:
  "signed_out s \<Longrightarrow> nav_inv s \<Longrightarrow> run_events (auth_step env) s fs = Some u \<Longrightarrow> list_all (\<lambda>e. \<not> starts_session e) fs \<Longrightarrow> signed_out u"
proof (induction fs arbitrary: s)
  case (Cons e fs)
  then obtain t where t: "auth_step env s e = Some t" "run_events (auth_step env) t fs = Some u" by (auto split: option.splits)
  from Cons.prems(4) have "\<not> starts_session e" "list_all (\<lambda>e. \<not> starts_session e) fs" by simp_all
  with Cons.IH [OF signed_out_step [OF Cons.prems(1,2) t(1)] auth_step_nav [OF Cons.prems(2) t(1)] t(2)] show ?case by simp
qed simp

section \<open>Properties\<close>


text \<open>A page with one control for managers, and an administrator's session.\<close>

definition sample_env :: auth_env where
  "sample_env = ((\<lambda>k. k), (\<lambda>_. None), (\<lambda>_ _. None))"

definition sample_page :: auth where
  "sample_page = fresh_auth Map.empty [\<lparr>ac_manager_only = True, ac_user_only = False, ac_auth_display = Some ''flex'', ac_display = ''none''\<rparr>]
     \<lparr>hs_entries = [], hs_popstates = 0\<rparr>"

definition sample_session :: "session_details option" where
  "sample_session = Some \<lparr>sd_name = Some (ustr ''ann''), sd_permissions = Some [PermObject (Some (ustr ''admin''))], sd_routes = None\<rparr>"




text \<open>
  A passkey login signs in only while it is the current attempt on the page: its session is applied only when its own controller is
  the newest one and has not been aborted, and leaving the page aborts every attempt that is still running, whatever stage it is in.
\<close>

lemma passkey_login_current:
  assumes "run_events (auth_step env) (fresh_auth storage controls h) es = Some s"
  shows "(\<forall>i d t. auth_step env s (FidoSession i d) = Some t \<and> au_log t \<noteq> au_log s
       \<longrightarrow> (\<exists>k. au_fidos s ! i = Some k \<and> fk_stage k = FidoFinishJson \<and> au_fido_abort s = Some (fk_controller k)
              \<and> fk_controller k \<notin> set (au_aborted s)))
    \<and> (\<forall>t i d u. auth_step env s LeftPage = Some t \<and> auth_step env t (FidoSession i d) = Some u
       \<longrightarrow> au_log u = au_log s \<and> au_logged_in u = au_logged_in s \<and> au_storage u = au_storage s)"
proof -
  have inv: "fido_inv s" by (rule auth_fido.run_inv [OF assms fresh_auth_inv(2)])
  have "\<exists>k. au_fidos s ! i = Some k \<and> fk_stage k = FidoFinishJson \<and> au_fido_abort s = Some (fk_controller k) \<and> fk_controller k \<notin> set (au_aborted s)"
    if step: "auth_step env s (FidoSession i d) = Some t" and log: "au_log t \<noteq> au_log s" for i d t
  proof -
    from step obtain k where k: "i < length (au_fidos s)" "au_fidos s ! i = Some k" "fk_stage k = FidoFinishJson" "t = fido_session env i k d s"
      by (auto dest!: on_fido_SomeD)
    with log have "\<not> fido_aborted k s" by (auto simp: fido_session_def end_fido_def)
    moreover have "Some k \<in> set (au_fidos s)" using k(1,2) by (metis nth_mem)
    ultimately show ?thesis using inv k by (auto simp: fido_inv_def fido_aborted_def)
  qed
  moreover have "au_log u = au_log s \<and> au_logged_in u = au_logged_in s \<and> au_storage u = au_storage s"
    if step: "auth_step env s LeftPage = Some t" "auth_step env t (FidoSession i d) = Some u" for t i d u
  proof -
    from step obtain k where k: "i < length (au_fidos s)" "au_fidos s ! i = Some k" "u = fido_session env i k d (cancelFidoLogin s)"
      by (auto dest!: on_fido_SomeD simp: cancel_fields)
    then have "fido_aborted k (cancelFidoLogin s)" using cancel_aborts [OF inv] by (metis nth_mem)
    then show ?thesis using k(3) by (simp add: fido_session_def end_fido_def cancelFidoLogin_def split: option.splits)
  qed
  ultimately show ?thesis by blast
qed

text \<open>
  The answer to the initial session request is applied whenever it arrives: a login completed meanwhile is undone on the page by the
  refusal that was issued before it.
\<close>

lemma stale_restore_signs_out:
  "map_option (\<lambda>s. (au_logged_in s, au_storage s ''username'', LoginCompleted (ustr ''ann'') \<in> set (au_log s)))
     (run_events (auth_step sample_env) sample_page
       [Initialize, LoginSubmitted (ustr ''ann''), ConsentAnswer 1 True, LoginAnswer 1 (LoginSession sample_session), MeAnswer 0 (MeStatus 401)]) =
   Some (False, Some (ustr ''ann''), True)"
  by code_simp

end
