(* ===== verification/Legal_Consent.thy ===== *)
theory Legal_Consent
  imports Event_Machine
begin

text \<open>
  Legal documents and consent: the bounded reading of a legal text (\<^verbatim>\<open>js/legal-response.js\<close>), the explicit agreement of the login and
  registration pages (\<^verbatim>\<open>js/legal-consent.js\<close>) and the cookie categories (\<^verbatim>\<open>js/cookie-consent.js\<close>, \<^verbatim>\<open>js/cookie-preferences.js\<close>),
  the last two as event machines.

  Both pages have their agreement control. The cookie string of the document, the stored preferences and the clock are part of the
  events that read them: the browser may refuse a cookie, and other tabs change both. \<^verbatim>\<open>TextDecoder\<close> and \<^verbatim>\<open>JSON\<close> are parameters.
  Focus, markup and the dialog animation are left out; a dialog is open until it is closed.
\<close>

section \<open>Reading a legal text\<close>

definition MAX_LEGAL_DOCUMENT_BYTES :: int where "MAX_LEGAL_DOCUMENT_BYTES = 512 * 1024"

text \<open>\<open>lr_length\<close> is the declared length, \<^term>\<open>None\<close> when it is not a finite number; a missing header counts as 0. A read gives a chunk
  or fails.\<close>

record legal_response =
  lr_ok :: bool
  lr_type :: "string option"
  lr_length :: "int option"
  lr_streamable :: bool
  lr_reads :: "nat list option list"

fun read_legal :: "int \<Rightarrow> nat list option list \<Rightarrow> nat list \<Rightarrow> nat list option" where
  "read_legal maxBytes [] acc = Some acc"
| "read_legal maxBytes (None # reads) acc = None"
| "read_legal maxBytes (Some chunk # reads) acc =
     (if int (length (acc @ chunk)) > maxBytes then None else read_legal maxBytes reads (acc @ chunk))"

definition content_type :: "string option \<Rightarrow> string" where
  "content_type h = toLowerCase (trim (hd (js_split (CHR '';'') (opt_or h []))))"

text \<open>\<^term>\<open>None\<close> is a thrown error. \<open>decode\<close> is the fatal UTF-8 decoder over the whole stream.\<close>

definition readLegalTextResponse :: "(nat list \<Rightarrow> string option) \<Rightarrow> legal_response option \<Rightarrow> string \<Rightarrow> int \<Rightarrow> string option" where
  "readLegalTextResponse decode response expectedType maxBytes =
     (case response of
        None \<Rightarrow> None
      | Some r \<Rightarrow>
          if \<not> lr_ok r then None
          else if content_type (lr_type r) \<noteq> [] \<and> content_type (lr_type r) \<noteq> expectedType then None
          else if (case lr_length r of None \<Rightarrow> False | Some n \<Rightarrow> n > maxBytes) then None
          else if \<not> lr_streamable r then None
          else case read_legal maxBytes (lr_reads r) [] of
              None \<Rightarrow> None
            | Some bytes \<Rightarrow>
                (case decode bytes of
                   None \<Rightarrow> None
                 | Some output \<Rightarrow> if output = [] \<or> CHR 0x00 \<in> set output then None else Some output))"

section \<open>Agreement to the legal documents\<close>

definition LEGAL_COOKIE :: string where "LEGAL_COOKIE = ''renop_legal_consent''"

definition LEGAL_DOCUMENTS :: "(string \<times> string) list" where
  "LEGAL_DOCUMENTS = [(''privacy-policy'', ''footer.privacyPolicy''), (''terms-of-service'', ''legal.termsTitle''),
     (''legal-notice'', ''footer.legalNotice'')]"

definition strip_slashes :: "string \<Rightarrow> string" where
  "strip_slashes p =
     (let q = (if startsWith p ''/'' then tl p else p) in if endsWith q ''/'' then butlast q else q)"

definition legalPageFromPath :: "string \<Rightarrow> string" where
  "legalPageFromPath path =
     (let name = strip_slashes (toLowerCase path) in if name \<in> fst ` set LEGAL_DOCUMENTS then name else [])"

definition acceptedRevision :: "string \<Rightarrow> string" where
  "acceptedRevision cookies =
     (case find (\<lambda>part. startsWith part (LEGAL_COOKIE @ ''='')) (map trim (js_split (CHR '';'') cookies)) of
        None \<Rightarrow> []
      | Some part \<Rightarrow> drop (length LEGAL_COOKIE + 1) part)"

record legal_metadata =
  lm_revision :: string
  lm_banner :: bool

datatype consent_kind = OnLogin | OnRegistration

record consent_input =
  ci_checked :: bool
  ci_disabled :: bool
  ci_revision :: "string option"

text \<open>Callers of \<^verbatim>\<open>loadLegalMetadata\<close> that wait for the running request: a consent check with its page and epoch, or a call
  that only wants the descriptor.\<close>

datatype legal_waiter = CheckConsent consent_kind nat | Refresh | InitialLoad

record legal =
  lg_metadata :: "legal_metadata option"
  lg_pending :: bool
  lg_epoch :: nat
  lg_inputs :: "consent_kind \<Rightarrow> consent_input"
  lg_errors :: "consent_kind \<Rightarrow> string option"
  lg_cookie :: string
  lg_waiting :: "legal_waiter list"
  lg_results :: "(consent_kind \<times> bool) list"
  lg_announced :: "legal_metadata list"
  lg_requests :: nat

text \<open>\<^verbatim>\<open>/^[a-f0-9]{64}$/\<close>\<close>

definition valid_revision :: "string \<Rightarrow> bool" where
  "valid_revision r = (length r = 64 \<and> list_all (\<lambda>c. c \<in> set ''0123456789abcdef'') r)"

definition update_control :: "string \<Rightarrow> legal_metadata option \<Rightarrow> consent_input \<Rightarrow> consent_input" where
  "update_control cookies md i =
     (case md of
        None \<Rightarrow> i\<lparr>ci_disabled := True\<rparr>
      | Some m \<Rightarrow>
          i\<lparr>ci_disabled := False,
            ci_checked := (if ci_revision i \<noteq> Some (lm_revision m) \<or> acceptedRevision cookies \<noteq> lm_revision m then False else ci_checked i),
            ci_revision := Some (lm_revision m)\<rparr>)"

definition updateConsentControls :: "legal \<Rightarrow> legal" where
  "updateConsentControls s = s\<lparr>lg_inputs := (\<lambda>k. update_control (lg_cookie s) (lg_metadata s) (lg_inputs s k))\<rparr>"

definition resetLegalConsent :: "consent_kind \<Rightarrow> legal \<Rightarrow> legal" where
  "resetLegalConsent k s =
     (if ci_checked (lg_inputs s k)
      then s\<lparr>lg_inputs := (lg_inputs s)(k := (lg_inputs s k)\<lparr>ci_checked := False\<rparr>), lg_epoch := lg_epoch s + 1\<rparr> else s)"

definition consentError :: "consent_kind \<Rightarrow> string \<Rightarrow> legal \<Rightarrow> legal" where
  "consentError k key s = s\<lparr>lg_errors := (lg_errors s)(k \<mapsto> key)\<rparr>"

definition hide_error :: "consent_kind \<Rightarrow> legal \<Rightarrow> legal" where
  "hide_error k s = s\<lparr>lg_errors := (lg_errors s)(k := None)\<rparr>"

definition consent_result :: "consent_kind \<Rightarrow> bool \<Rightarrow> legal \<Rightarrow> legal" where
  "consent_result k b s = s\<lparr>lg_results := (k, b) # lg_results s\<rparr>"

text \<open>\<^verbatim>\<open>ensureLegalConsent\<close> after the descriptor was loaded.\<close>

definition check_consent :: "consent_kind \<Rightarrow> nat \<Rightarrow> legal \<Rightarrow> legal" where
  "check_consent k epoch s =
     (if epoch \<noteq> lg_epoch s then consent_result k False s
      else case lg_metadata s of
          None \<Rightarrow> consent_result k False s
        | Some m \<Rightarrow>
            if \<not> ci_checked (lg_inputs s k) \<or> ci_revision (lg_inputs s k) \<noteq> Some (lm_revision m) \<or> acceptedRevision (lg_cookie s) \<noteq> lm_revision m
            then consent_result k False (consentError k ''legal.consentRequired'' s)
            else consent_result k True (hide_error k s))"

text \<open>\<^verbatim>\<open>loadLegalMetadata\<close>: the known descriptor answers at once unless a refresh is asked for; concurrent reads share one request.\<close>

definition start_load :: "legal_waiter \<Rightarrow> legal \<Rightarrow> legal" where
  "start_load w s = s\<lparr>lg_pending := True, lg_requests := (if lg_pending s then lg_requests s else lg_requests s + 1), lg_waiting := lg_waiting s @ [w]\<rparr>"

definition ensureLegalConsent :: "consent_kind \<Rightarrow> legal \<Rightarrow> legal" where
  "ensureLegalConsent k s = start_load (CheckConsent k (lg_epoch s)) s"

definition initializeLegalConsent :: "legal \<Rightarrow> legal" where
  "initializeLegalConsent s = (if lg_metadata s \<noteq> None then s else start_load InitialLoad s)"

fun resume_waiter :: "bool \<Rightarrow> legal_waiter \<Rightarrow> legal \<Rightarrow> legal" where
  "resume_waiter loaded (CheckConsent k epoch) s =
     (if loaded then check_consent k epoch s else consent_result k False (consentError k ''legal.loadFailed'' s))"
| "resume_waiter loaded Refresh s = s"
| "resume_waiter loaded InitialLoad s =
     (if loaded then s else consentError OnRegistration ''legal.loadFailed'' (consentError OnLogin ''legal.loadFailed'' s))"

text \<open>The parsed descriptor: its revision when that is a string, and its banner flag when that is a boolean.\<close>

type_synonym legal_value = "string option \<times> bool option"

definition accepted_metadata :: "legal_value option \<Rightarrow> legal_metadata option" where
  "accepted_metadata v =
     (case v of
        Some (Some r, Some b) \<Rightarrow> if valid_revision r then Some \<lparr>lm_revision = r, lm_banner = b\<rparr> else None
      | _ \<Rightarrow> None)"

definition metadata_changed :: "legal_metadata option \<Rightarrow> legal_metadata \<Rightarrow> bool" where
  "metadata_changed old m = (case old of None \<Rightarrow> True | Some o' \<Rightarrow> lm_revision o' \<noteq> lm_revision m \<or> lm_banner o' \<noteq> lm_banner m)"

definition metadata_settled :: "legal_value option \<Rightarrow> legal \<Rightarrow> legal" where
  "metadata_settled v s =
     (let s1 = (case accepted_metadata v of
           None \<Rightarrow> s
         | Some m \<Rightarrow>
             let s2 = updateConsentControls (s\<lparr>lg_metadata := Some m\<rparr>)
             in if metadata_changed (lg_metadata s) m then s2\<lparr>lg_announced := m # lg_announced s2\<rparr> else s2)
      in fold (resume_waiter (accepted_metadata v \<noteq> None)) (lg_waiting s) (s1\<lparr>lg_pending := False, lg_waiting := []\<rparr>))"

text \<open>The user toggles the agreement; \<open>cookies\<close> is the cookie string the browser has after the listener wrote it.\<close>

definition consent_changed :: "consent_kind \<Rightarrow> bool \<Rightarrow> string \<Rightarrow> legal \<Rightarrow> legal" where
  "consent_changed k checked cookies s =
     (let s1 = s\<lparr>lg_inputs := (lg_inputs s)(k := (lg_inputs s k)\<lparr>ci_checked := checked\<rparr>), lg_epoch := lg_epoch s + 1\<rparr>
      in case lg_metadata s1 of
          None \<Rightarrow> s1
        | Some m \<Rightarrow>
            if ci_revision (lg_inputs s1 k) \<noteq> Some (lm_revision m) then s1
            else let s2 = s1\<lparr>lg_cookie := cookies\<rparr>
                 in if checked \<and> acceptedRevision cookies \<noteq> lm_revision m then consentError k ''legal.cookiesRequired'' s2 else hide_error k s2)"

datatype legal_event =
    Installed
  | EnsureConsent consent_kind
  | SettingsChanged
  | MetadataAnswer "legal_value option"
  | ConsentToggled consent_kind bool string
  | ConsentReset consent_kind
  | CookiesChanged string

fun legal_step :: "legal \<Rightarrow> legal_event \<Rightarrow> legal option" where
  "legal_step s Installed = Some (initializeLegalConsent s)"
| "legal_step s (EnsureConsent k) = Some (ensureLegalConsent k s)"
| "legal_step s SettingsChanged = Some (start_load Refresh s)"
| "legal_step s (MetadataAnswer v) = (if lg_pending s then Some (metadata_settled v s) else None)"
| "legal_step s (ConsentToggled k checked cookies) =
     (if ci_disabled (lg_inputs s k) then None else Some (consent_changed k checked cookies s))"
| "legal_step s (ConsentReset k) = Some (resetLegalConsent k s)"
| "legal_step s (CookiesChanged cookies) = Some (s\<lparr>lg_cookie := cookies\<rparr>)"

definition fresh_legal :: "string \<Rightarrow> legal" where
  "fresh_legal cookies = \<lparr>lg_metadata = None, lg_pending = False, lg_epoch = 0,
     lg_inputs = (\<lambda>_. \<lparr>ci_checked = False, ci_disabled = True, ci_revision = None\<rparr>), lg_errors = (\<lambda>_. None), lg_cookie = cookies,
     lg_waiting = [], lg_results = [], lg_announced = [], lg_requests = 0\<rparr>"

section \<open>Cookie categories\<close>

record cookie_choice =
  cc_revision :: string
  cc_optional :: bool
  cc_expires :: int

text \<open>The fields of parsed preferences that have the expected type; \<^term>\<open>pv_expires\<close> is present for a safe integer only.\<close>

record preference_value =
  pv_revision :: "string option"
  pv_optional :: "bool option"
  pv_expires :: "int option"

definition parseCookiePreferences :: "(string \<Rightarrow> preference_value option) \<Rightarrow> string option \<Rightarrow> string \<Rightarrow> int \<Rightarrow> cookie_choice option" where
  "parseCookiePreferences parse raw revision now =
     (case raw of
        None \<Rightarrow> None
      | Some text' \<Rightarrow>
          if 4096 < int (length text') then None
          else case parse text' of
              None \<Rightarrow> None
            | Some v \<Rightarrow>
                (case (pv_optional v, pv_expires v) of
                   (Some opt, Some expires) \<Rightarrow>
                     if pv_revision v \<noteq> Some revision \<or> expires \<le> now then None
                     else Some \<lparr>cc_revision = revision, cc_optional = opt, cc_expires = expires\<rparr>
                 | _ \<Rightarrow> None))"

text \<open>The notice is absent, hidden, shown with its choices, or shown with the failure to load. \<open>ck_dialogs\<close> holds the policy revision of each
  open dialog and \<open>ck_opening\<close> counts the calls that wait for the descriptor. \<open>ck_blocked\<close> is a storage that throws.\<close>

datatype notice = NoNotice | NoticeHidden | NoticeShown | NoticeFailed

record cookies =
  ck_metadata :: "legal_metadata option"
  ck_choice :: "cookie_choice option"
  ck_stored :: "string option"
  ck_blocked :: bool
  ck_notice :: notice
  ck_opening :: nat
  ck_dialogs :: "string list"
  ck_notified :: "bool list"

type_synonym choice_json = "(string \<Rightarrow> preference_value option) \<times> (cookie_choice \<Rightarrow> string)"

definition readChoice :: "choice_json \<Rightarrow> int \<Rightarrow> cookies \<Rightarrow> cookie_choice option" where
  "readChoice json now s =
     (case ck_metadata s of
        None \<Rightarrow> None
      | Some m \<Rightarrow>
          (case parseCookiePreferences (fst json) (map_option (snd json) (ck_choice s)) (lm_revision m) now of
             Some c \<Rightarrow> Some c
           | None \<Rightarrow> if ck_blocked s then None else parseCookiePreferences (fst json) (ck_stored s) (lm_revision m) now))"

definition optional_chosen :: "choice_json \<Rightarrow> int \<Rightarrow> cookies \<Rightarrow> bool" where
  "optional_chosen json now s = (case readChoice json now s of None \<Rightarrow> False | Some c \<Rightarrow> cc_optional c)"

definition renderNotice :: "choice_json \<Rightarrow> int \<Rightarrow> cookies \<Rightarrow> cookies" where
  "renderNotice json now s =
     (if ck_notice s = NoNotice then s
      else s\<lparr>ck_notice := (if (case ck_metadata s of None \<Rightarrow> True | Some m \<Rightarrow> \<not> lm_banner m) \<or> readChoice json now s \<noteq> None
                          then NoticeHidden else NoticeShown)\<rparr>)"

definition notify_preferences :: "bool \<Rightarrow> cookies \<Rightarrow> cookies" where
  "notify_preferences optional s = s\<lparr>ck_notified := optional # ck_notified s\<rparr>"

definition saveChoice :: "choice_json \<Rightarrow> bool \<Rightarrow> int \<Rightarrow> cookies \<Rightarrow> cookies" where
  "saveChoice json optional now s =
     (case ck_metadata s of
        None \<Rightarrow> s
      | Some m \<Rightarrow>
          let c = \<lparr>cc_revision = lm_revision m, cc_optional = optional, cc_expires = now + 31536000000\<rparr>;
              s1 = s\<lparr>ck_choice := Some c, ck_stored := (if ck_blocked s then ck_stored s else Some (snd json c))\<rparr>
          in notify_preferences optional (renderNotice json now s1))"

definition optionalServicesAllowed :: "choice_json \<Rightarrow> legal_metadata \<Rightarrow> int \<Rightarrow> cookies \<Rightarrow> bool \<times> cookies" where
  "optionalServicesAllowed json m now s = (let s1 = s\<lparr>ck_metadata := Some m\<rparr> in (optional_chosen json now s1, s1))"

definition openCookiePreferences :: "cookies \<Rightarrow> cookies" where
  "openCookiePreferences s = (if ck_dialogs s \<noteq> [] then s else s\<lparr>ck_opening := ck_opening s + 1\<rparr>)"

text \<open>The continuation of \<^verbatim>\<open>openCookiePreferences\<close> with the descriptor, or without one when it could not be loaded.\<close>

definition preferences_loaded :: "legal_metadata option \<Rightarrow> cookies \<Rightarrow> cookies" where
  "preferences_loaded md s =
     (let s1 = s\<lparr>ck_opening := ck_opening s - 1\<rparr>
      in case md of
          None \<Rightarrow> if ck_notice s1 = NoNotice then s1 else s1\<lparr>ck_notice := NoticeFailed\<rparr>
        | Some m \<Rightarrow> s1\<lparr>ck_metadata := Some m, ck_dialogs := ck_dialogs s1 @ [lm_revision m]\<rparr>)"

definition dialog_save :: "choice_json \<Rightarrow> nat \<Rightarrow> bool \<Rightarrow> int \<Rightarrow> cookies \<Rightarrow> cookies" where
  "dialog_save json i optional now s =
     (let s1 = (if map_option lm_revision (ck_metadata s) = Some (ck_dialogs s ! i) then saveChoice json optional now s else s)
      in s1\<lparr>ck_dialogs := take i (ck_dialogs s1) @ drop (Suc i) (ck_dialogs s1)\<rparr>)"

definition legal_changed :: "choice_json \<Rightarrow> legal_metadata \<Rightarrow> int \<Rightarrow> cookies \<Rightarrow> cookies" where
  "legal_changed json m now s =
     (let s1 = renderNotice json now (s\<lparr>ck_metadata := Some m\<rparr>) in notify_preferences (optional_chosen json now s1) s1)"

definition storage_changed :: "choice_json \<Rightarrow> string option \<Rightarrow> int \<Rightarrow> cookies \<Rightarrow> cookies" where
  "storage_changed json raw now s =
     (let s1 = renderNotice json now (s\<lparr>ck_stored := raw, ck_choice := None\<rparr>) in notify_preferences (optional_chosen json now s1) s1)"

definition initializeCookieConsent :: "cookies \<Rightarrow> cookies" where
  "initializeCookieConsent s = (if ck_notice s \<noteq> NoNotice then s else s\<lparr>ck_notice := NoticeHidden\<rparr>)"

datatype cookie_event =
    CookieInit
  | MetadataKnown legal_metadata int
  | LegalChanged legal_metadata int
  | NoticeClicked bool int
  | PreferencesOpened
  | PreferencesLoaded "legal_metadata option"
  | DialogSaved nat bool int
  | DialogClosed nat
  | StorageChanged "string option" int
  | AllowedAsked legal_metadata int

fun cookie_step :: "choice_json \<Rightarrow> cookies \<Rightarrow> cookie_event \<Rightarrow> cookies option" where
  "cookie_step json s CookieInit = Some (initializeCookieConsent s)"
| "cookie_step json s (MetadataKnown m now) = Some (renderNotice json now (s\<lparr>ck_metadata := Some m\<rparr>))"
| "cookie_step json s (LegalChanged m now) = Some (legal_changed json m now s)"
| "cookie_step json s (NoticeClicked optional now) = (if ck_notice s = NoticeShown then Some (saveChoice json optional now s) else None)"
| "cookie_step json s PreferencesOpened = Some (openCookiePreferences s)"
| "cookie_step json s (PreferencesLoaded md) = (if 0 < ck_opening s then Some (preferences_loaded md s) else None)"
| "cookie_step json s (DialogSaved i optional now) =
     (if i < length (ck_dialogs s) then Some (dialog_save json i optional now s) else None)"
| "cookie_step json s (DialogClosed i) =
     (if i < length (ck_dialogs s) then Some (s\<lparr>ck_dialogs := take i (ck_dialogs s) @ drop (Suc i) (ck_dialogs s)\<rparr>) else None)"
| "cookie_step json s (StorageChanged raw now) = Some (storage_changed json raw now s)"
| "cookie_step json s (AllowedAsked m now) = Some (snd (optionalServicesAllowed json m now s))"

definition fresh_cookies :: "string option \<Rightarrow> bool \<Rightarrow> cookies" where
  "fresh_cookies stored blocked = \<lparr>ck_metadata = None, ck_choice = None, ck_stored = stored, ck_blocked = blocked, ck_notice = NoNotice,
     ck_opening = 0, ck_dialogs = [], ck_notified = []\<rparr>"

section \<open>Properties\<close>

lemma read_legal_bounded: "read_legal maxBytes reads acc = Some bytes \<Longrightarrow> int (length acc) \<le> maxBytes \<Longrightarrow> int (length bytes) \<le> maxBytes"
  by (induction maxBytes reads acc rule: read_legal.induct) (auto split: if_splits)

lemma read_legal_complete:
  "int (length acc + length (concat chunks)) \<le> maxBytes \<Longrightarrow> read_legal maxBytes (map Some chunks) acc = Some (acc @ concat chunks)"
  by (induction chunks arbitrary: acc) (auto simp: add.assoc)

text \<open>A legal text is accepted exactly from a complete body within the limit.\<close>

lemma legal_text_bounded:
  assumes "readLegalTextResponse decode (Some r) type' maxBytes = Some output" "0 \<le> maxBytes"
  shows "\<exists>bytes. int (length bytes) \<le> maxBytes \<and> decode bytes = Some output \<and> output \<noteq> [] \<and> CHR 0x00 \<notin> set output
    \<and> lr_ok r \<and> (content_type (lr_type r) = [] \<or> content_type (lr_type r) = type')"
  using assms read_legal_bounded [of maxBytes "lr_reads r" "[]"]
  by (auto simp: readLegalTextResponse_def split: if_splits option.splits)

subsection \<open>Agreement\<close>

definition legal_inv :: "legal \<Rightarrow> bool" where
  "legal_inv s \<longleftrightarrow> (\<forall>m. lg_metadata s = Some m \<longrightarrow> valid_revision (lm_revision m))
     \<and> (\<forall>k. ci_disabled (lg_inputs s k) \<longleftrightarrow> lg_metadata s = None)
     \<and> (\<forall>k. ci_checked (lg_inputs s k) \<longrightarrow> lg_metadata s \<noteq> None)
     \<and> (\<forall>k epoch. CheckConsent k epoch \<in> set (lg_waiting s) \<longrightarrow> epoch \<le> lg_epoch s)
     \<and> (lg_pending s \<longleftrightarrow> lg_waiting s \<noteq> [])"

definition legal_core :: "legal \<Rightarrow> legal_metadata option \<times> bool \<times> nat \<times> (consent_kind \<Rightarrow> consent_input) \<times> string \<times> legal_waiter list" where
  "legal_core s = (lg_metadata s, lg_pending s, lg_epoch s, lg_inputs s, lg_cookie s, lg_waiting s)"

lemma check_core: "legal_core (check_consent k epoch s) = legal_core s"
  by (simp add: check_consent_def consent_result_def consentError_def hide_error_def legal_core_def split: option.splits)

lemma resume_core: "legal_core (resume_waiter loaded w s) = legal_core s"
proof (cases w)
  case (CheckConsent k epoch)
  then show ?thesis by (simp add: check_core) (simp add: consent_result_def consentError_def legal_core_def)
qed (simp_all add: consentError_def legal_core_def)

lemma resume_all_core: "legal_core (fold (resume_waiter loaded) ws s) = legal_core s"
  by (induction ws arbitrary: s) (simp_all add: resume_core)

lemma legal_inv_cong: "legal_core t = legal_core s \<Longrightarrow> legal_inv t = legal_inv s"
  by (simp add: legal_core_def legal_inv_def)

lemma control_ok:
  "ci_disabled (update_control cookies md i) \<longleftrightarrow> md = None" "md = Some m \<Longrightarrow> ci_revision (update_control cookies md i) = Some (lm_revision m)"
  by (auto simp: update_control_def split: option.splits)

lemma accepted_valid: "accepted_metadata v = Some m \<Longrightarrow> valid_revision (lm_revision m)"
  by (auto simp: accepted_metadata_def split: option.splits prod.splits if_splits)

lemma settled_core:
  "legal_core (metadata_settled v s) =
     (case accepted_metadata v of
        None \<Rightarrow> (lg_metadata s, False, lg_epoch s, lg_inputs s, lg_cookie s, [])
      | Some m \<Rightarrow> (Some m, False, lg_epoch s, \<lambda>k. update_control (lg_cookie s) (Some m) (lg_inputs s k), lg_cookie s, []))"
  unfolding metadata_settled_def Let_def resume_all_core
  by (simp add: legal_core_def updateConsentControls_def split: option.splits)

lemma settled_inv: "legal_inv s \<Longrightarrow> legal_inv (metadata_settled v s)"
  using settled_core [of v s] accepted_valid [of v]
  by (auto simp: legal_inv_def legal_core_def control_ok split: option.splits)

lemma consent_changed_inv: "legal_inv s \<Longrightarrow> \<not> ci_disabled (lg_inputs s k) \<Longrightarrow> legal_inv (consent_changed k checked cookies s)"
  by (auto simp: legal_inv_def consent_changed_def Let_def consentError_def hide_error_def le_SucI split: option.splits)

lemma legal_step_inv: "legal_inv s \<Longrightarrow> legal_step s e = Some t \<Longrightarrow> legal_inv t"
  by (cases e) (auto simp: settled_inv consent_changed_inv split: if_splits,
      auto simp: legal_inv_def initializeLegalConsent_def ensureLegalConsent_def start_load_def resetLegalConsent_def le_SucI split: if_splits)

interpretation legal_machine: machine_invariant legal_step legal_inv
  by unfold_locales (rule legal_step_inv)

lemma fresh_legal_inv: "legal_inv (fresh_legal cookies)"
  by (simp add: legal_inv_def fresh_legal_def)

text \<open>The control is ticked for the current revision, and the browser has accepted that revision.\<close>

definition agreed :: "consent_kind \<Rightarrow> legal \<Rightarrow> bool" where
  "agreed k s \<longleftrightarrow> ci_checked (lg_inputs s k) \<and> (\<exists>m. lg_metadata s = Some m \<and> ci_revision (lg_inputs s k) = Some (lm_revision m)
     \<and> acceptedRevision (lg_cookie s) = lm_revision m)"

lemma agreed_core: "legal_core t = legal_core s \<Longrightarrow> agreed k t = agreed k s"
  by (simp add: legal_core_def agreed_def)

lemma check_results: "lg_results (check_consent k epoch s) = (k, epoch = lg_epoch s \<and> agreed k s) # lg_results s"
  by (auto simp: check_consent_def agreed_def consent_result_def consentError_def hide_error_def split: option.splits)

text \<open>A resumed call answers for its own page, and agrees only if the user did.\<close>

lemma resume_results:
  "\<exists>new. lg_results (fold (resume_waiter loaded) ws s) = new @ lg_results s
     \<and> (\<forall>k. (k, True) \<in> set new \<longrightarrow> loaded \<and> CheckConsent k (lg_epoch s) \<in> set ws \<and> agreed k s)"
proof (induction ws arbitrary: s)
  case (Cons w ws)
  let ?s = "resume_waiter loaded w s"
  have core: "lg_epoch ?s = lg_epoch s" "agreed k ?s = agreed k s" for k
    using resume_core [of loaded w s] agreed_core [OF resume_core] by (simp_all add: legal_core_def)
  have "\<exists>here. lg_results ?s = here @ lg_results s \<and> (\<forall>k. (k, True) \<in> set here \<longrightarrow> loaded \<and> CheckConsent k (lg_epoch s) = w \<and> agreed k s)"
  proof (cases w)
    case (CheckConsent k epoch)
    then have "lg_results ?s = [(k, loaded \<and> epoch = lg_epoch s \<and> agreed k s)] @ lg_results s"
      by (simp add: check_results) (simp add: consent_result_def consentError_def)
    with CheckConsent show ?thesis by (intro exI [of _ "[(k, loaded \<and> epoch = lg_epoch s \<and> agreed k s)]"]) simp
  qed (auto simp: consentError_def)
  then obtain here where here: "lg_results ?s = here @ lg_results s"
    "\<forall>k. (k, True) \<in> set here \<longrightarrow> loaded \<and> CheckConsent k (lg_epoch s) = w \<and> agreed k s" by blast
  from Cons.IH [of ?s] obtain later where "lg_results (fold (resume_waiter loaded) ws ?s) = later @ lg_results ?s"
    "\<forall>k. (k, True) \<in> set later \<longrightarrow> loaded \<and> CheckConsent k (lg_epoch s) \<in> set ws \<and> agreed k s"
    unfolding core by blast
  with here show ?case by (intro exI [of _ "later @ here"]) auto
qed simp

lemma settled_results:
  "\<exists>new. lg_results (metadata_settled v s) = new @ lg_results s
     \<and> (\<forall>k. (k, True) \<in> set new \<longrightarrow> CheckConsent k (lg_epoch s) \<in> set (lg_waiting s) \<and> agreed k (metadata_settled v s))"
proof -
  define s1 where "s1 = (case accepted_metadata v of None \<Rightarrow> s
    | Some m \<Rightarrow> let s2 = updateConsentControls (s\<lparr>lg_metadata := Some m\<rparr>)
        in if metadata_changed (lg_metadata s) m then s2\<lparr>lg_announced := m # lg_announced s2\<rparr> else s2)\<lparr>lg_pending := False, lg_waiting := []\<rparr>"
  have same: "lg_results s1 = lg_results s" "lg_epoch s1 = lg_epoch s"
    by (simp_all add: s1_def updateConsentControls_def Let_def split: option.splits)
  have settled: "metadata_settled v s = fold (resume_waiter (accepted_metadata v \<noteq> None)) (lg_waiting s) s1"
    by (simp add: metadata_settled_def s1_def Let_def)
  have "agreed k (metadata_settled v s) = agreed k s1" for k unfolding settled by (rule agreed_core [OF resume_all_core])
  with resume_results [of "accepted_metadata v \<noteq> None" "lg_waiting s" s1] same show ?thesis unfolding settled [symmetric] by metis
qed

lemma other_results: "legal_step s e = Some t \<Longrightarrow> \<forall>v. e \<noteq> MetadataAnswer v \<Longrightarrow> lg_results t = lg_results s"
  by (cases e) (auto simp: initializeLegalConsent_def ensureLegalConsent_def start_load_def resetLegalConsent_def consent_changed_def Let_def
      consentError_def hide_error_def split: if_splits option.splits)

lemma epoch_counts_changes:
  assumes "legal_step s e = Some t"
  shows "lg_epoch s \<le> lg_epoch t \<and> ((\<exists>k b c. e = ConsentToggled k b c) \<or> (\<exists>k. e = ConsentReset k \<and> ci_checked (lg_inputs s k)) \<longrightarrow> lg_epoch s < lg_epoch t)"
proof (cases e)
  case (MetadataAnswer v)
  with assms settled_core [of v s] show ?thesis by (auto simp: legal_core_def split: if_splits option.splits)
qed (use assms in \<open>auto simp: initializeLegalConsent_def ensureLegalConsent_def start_load_def resetLegalConsent_def consent_changed_def Let_def
      consentError_def hide_error_def split: if_splits option.splits\<close>)


abbreviation sample_revision :: string where
  "sample_revision \<equiv> replicate 64 CHR ''a''"

abbreviation sample_agreement :: "legal_event list" where
  "sample_agreement \<equiv> [Installed, MetadataAnswer (Some (Some sample_revision, Some True)),
     ConsentToggled OnLogin True (LEGAL_COOKIE @ ''='' @ sample_revision), EnsureConsent OnLogin]"


subsection \<open>Cookie categories\<close>

definition new_choice :: "legal_metadata \<Rightarrow> bool \<Rightarrow> int \<Rightarrow> cookie_choice" where
  "new_choice m optional now = \<lparr>cc_revision = lm_revision m, cc_optional = optional, cc_expires = now + 31536000000\<rparr>"

definition choice_value :: "cookie_choice \<Rightarrow> preference_value" where
  "choice_value c = \<lparr>pv_revision = Some (cc_revision c), pv_optional = Some (cc_optional c), pv_expires = Some (cc_expires c)\<rparr>"

lemma parse_choice:
  assumes "fst json (snd json c) = Some (choice_value c)" "int (length (snd json c)) \<le> 4096"
  shows "parseCookiePreferences (fst json) (Some (snd json c)) revision now =
    (if cc_revision c = revision \<and> now < cc_expires c then Some c else None)"
  using assms by (cases c) (auto simp: parseCookiePreferences_def choice_value_def)

lemma saved_fields:
  assumes "ck_metadata s = Some m"
  shows "ck_metadata (saveChoice json optional now s) = Some m" "ck_choice (saveChoice json optional now s) = Some (new_choice m optional now)"
    "ck_blocked (saveChoice json optional now s) = ck_blocked s"
    "\<not> ck_blocked s \<Longrightarrow> ck_stored (saveChoice json optional now s) = Some (snd json (new_choice m optional now))"
  using assms by (simp_all add: saveChoice_def new_choice_def notify_preferences_def renderNotice_def Let_def)

lemma saved_choice_read:
  assumes "ck_metadata s = Some m" "fst json (snd json (new_choice m optional now)) = Some (choice_value (new_choice m optional now))"
    "int (length (snd json (new_choice m optional now))) \<le> 4096" "ck_metadata t = Some m'" "ck_choice t = Some (new_choice m optional now)"
    "ck_blocked t \<or> ck_stored t = Some (snd json (new_choice m optional now))"
  shows "readChoice json later t =
    (if lm_revision m' = lm_revision m \<and> later < now + 31536000000 then Some (new_choice m optional now) else None)"
  using assms parse_choice [OF assms(2,3)] by (auto simp: readChoice_def new_choice_def split: option.splits)

text \<open>
  A saved cookie choice governs exactly the policy it was made for, for one year: from then on the stored choice is read back for that
  revision, third-party services are allowed if and only if the user chose them and the year is not over, every other revision of the
  policy counts as no consent, also when the browser blocks its storage, and the notice is hidden.
\<close>

lemma cookie_choice_governs:
  assumes "ck_metadata s = Some m"
    and json: "fst json (snd json (new_choice m optional now)) = Some (choice_value (new_choice m optional now))"
      "int (length (snd json (new_choice m optional now))) \<le> 4096"
  shows "readChoice json later (saveChoice json optional now s) = (if later < now + 31536000000 then Some (new_choice m optional now) else None)
    \<and> fst (optionalServicesAllowed json m' later (saveChoice json optional now s)) =
        (optional \<and> lm_revision m' = lm_revision m \<and> later < now + 31536000000)
    \<and> (ck_notice s \<noteq> NoNotice \<longrightarrow> ck_notice (saveChoice json optional now s) = NoticeHidden)"
proof -
  let ?t = "saveChoice json optional now s"
  note saved = saved_fields [OF assms(1), of json optional now]
  have stored: "ck_blocked ?t \<or> ck_stored ?t = Some (snd json (new_choice m optional now))" using saved(3,4) by auto
  have "readChoice json later ?t = (if later < now + 31536000000 then Some (new_choice m optional now) else None)"
    using saved_choice_read [OF assms(1) json saved(1,2) stored] by simp
  moreover have "readChoice json later (?t\<lparr>ck_metadata := Some m'\<rparr>) =
      (if lm_revision m' = lm_revision m \<and> later < now + 31536000000 then Some (new_choice m optional now) else None)"
    using saved_choice_read [OF assms(1) json, of "?t\<lparr>ck_metadata := Some m'\<rparr>" m'] saved(2) stored by simp
  then have "fst (optionalServicesAllowed json m' later ?t) = (optional \<and> lm_revision m' = lm_revision m \<and> later < now + 31536000000)"
    by (simp add: optionalServicesAllowed_def optional_chosen_def new_choice_def Let_def)
  moreover have "ck_notice ?t = NoticeHidden" if "ck_notice s \<noteq> NoNotice"
  proof -
    let ?c = "s\<lparr>ck_choice := Some (new_choice m optional now), ck_stored := (if ck_blocked s then ck_stored s else Some (snd json (new_choice m optional now)))\<rparr>"
    have "readChoice json now ?c \<noteq> None" using saved_choice_read [OF assms(1) json, of ?c m now] assms(1) by simp
    moreover have "?t = notify_preferences optional (renderNotice json now ?c)" using assms(1) by (simp add: saveChoice_def new_choice_def Let_def)
    ultimately show ?thesis using that by (auto simp: notify_preferences_def renderNotice_def)
  qed
  ultimately show ?thesis by blast
qed

definition sample_json :: choice_json where
  "sample_json = ((\<lambda>text'. if text' = ''saved'' then Some \<lparr>pv_revision = Some ''r1'', pv_optional = Some True, pv_expires = Some 31536000005\<rparr> else None),
     (\<lambda>_. ''saved''))"

text \<open>A dialog that was opened for an older policy saves nothing.\<close>

lemma stale_dialog_saves_nothing:
  "ck_metadata s = Some m \<Longrightarrow> ck_dialogs s ! i \<noteq> lm_revision m \<Longrightarrow>
     ck_choice (dialog_save json i optional now s) = ck_choice s \<and> ck_stored (dialog_save json i optional now s) = ck_stored s"
  by (simp add: dialog_save_def Let_def)

text \<open>The check for an open dialog comes before the descriptor is loaded: two quick clicks open two dialogs.\<close>

lemma two_dialogs:
  "map_option ck_dialogs (run_events (cookie_step json) (fresh_cookies None False)
     [PreferencesOpened, PreferencesOpened, PreferencesLoaded (Some \<lparr>lm_revision = r, lm_banner = b\<rparr>),
      PreferencesLoaded (Some \<lparr>lm_revision = r, lm_banner = b\<rparr>)]) = Some [r, r]"
  by (simp add: fresh_cookies_def openCookiePreferences_def preferences_loaded_def Let_def)

end
