(* ===== verification/Live_Search.thy ===== *)
theory Live_Search
  imports Event_Machine Uri_Codec Repository_Formats
begin

text \<open>
  The two search fields that answer while the user types: the repository search (\<^verbatim>\<open>js/browser/search.js\<close>) and the user name
  suggestions of repository teams (\<^verbatim>\<open>js/browser/user-suggestions.js\<close>), each as an event machine over its panel, its debounce
  timer and the requests in flight. A panel has the classes and the timer the code gives it; \<open>frames\<close> counts the animation frames
  that were asked for and not yet run.

  A request that was aborted may still be answered when its body had arrived before. The search field and its form are in the static page.
  The position of the panels, the height animation and the captions are left out. Rows hidden by a closing panel cannot be clicked
  (\<^verbatim>\<open>pointer-events: none\<close> on \<^verbatim>\<open>is-leaving\<close>). The fields \<open>ls_answers\<close>, \<open>su_answers\<close> and \<open>su_typed\<close> record what happened and are never
  read by an operation.
\<close>

section \<open>The panel\<close>

record panel =
  pn_hidden :: bool
  pn_visible :: bool
  pn_leaving :: bool
  pn_closing :: bool
  pn_frames :: nat

definition fresh_panel :: panel where
  "fresh_panel = \<lparr>pn_hidden = True, pn_visible = False, pn_leaving = False, pn_closing = False, pn_frames = 0\<rparr>"

definition panel_shown :: "panel \<Rightarrow> bool" where
  "panel_shown p \<longleftrightarrow> \<not> pn_hidden p \<and> \<not> pn_leaving p"

definition openResultsPanel :: "panel \<Rightarrow> panel" where
  "openResultsPanel p = p\<lparr>pn_closing := False, pn_hidden := False, pn_leaving := False, pn_frames := pn_frames p + 1\<rparr>"

definition closeResultsPanel :: "bool \<Rightarrow> panel \<Rightarrow> panel" where
  "closeResultsPanel immediate p =
     (if immediate \<or> pn_hidden p
      then p\<lparr>pn_visible := False, pn_leaving := False, pn_hidden := True, pn_closing := False\<rparr>
      else p\<lparr>pn_visible := False, pn_leaving := True, pn_closing := True\<rparr>)"

definition panel_frame :: "panel \<Rightarrow> panel" where
  "panel_frame p = p\<lparr>pn_visible := True, pn_frames := pn_frames p - 1\<rparr>"

definition panel_elapsed :: "panel \<Rightarrow> panel" where
  "panel_elapsed p = p\<lparr>pn_hidden := True, pn_leaving := False, pn_closing := False\<rparr>"

section \<open>Repository search\<close>

definition resultPath :: "ustring \<Rightarrow> ustring \<Rightarrow> ustring option" where
  "resultPath repository relativePath =
     (case (encodeURIComponent repository, those (map encodeURIComponent (path_parts relativePath))) of
        (Some r, Some segments) \<Rightarrow> Some (47 # r @ 47 # js_join [47] segments)
      | _ \<Rightarrow> None)"

text \<open>\<^verbatim>\<open>toUpperCase\<close>, exact on code units up to U+00FF.\<close>

definition upper_unit :: "nat \<Rightarrow> ustring" where
  "upper_unit u =
     (if 97 \<le> u \<and> u \<le> 122 \<or> 224 \<le> u \<and> u \<le> 254 \<and> u \<noteq> 247 then [u - 32]
      else if u = 181 then [924] else if u = 223 then [83, 83] else if u = 255 then [376] else [u])"

definition to_upper :: "ustring \<Rightarrow> ustring" where
  "to_upper s = concat (map upper_unit s)"

record search_result =
  sr_name :: ustring
  sr_path :: ustring
  sr_type :: ustring
  sr_description :: ustring
  sr_latest_version :: ustring

record search_payload =
  sp_results :: "search_result list"
  sp_total :: int
  sp_has_more :: bool

record search_row =
  row_path :: ustring
  row_type :: ustring
  row_icon :: "string option"
  row_name :: ustring
  row_copy :: ustring
  row_label :: string
  row_version :: "ustring option"

definition searchResultTypeLabel :: "ustring \<Rightarrow> string" where
  "searchResultTypeLabel type' =
     (let normalized = to_upper type'
      in if normalized = ustr ''DIRECTORY'' then ''search.directory''
         else if normalized = ustr ''DOMAIN'' then ''search.domain''
         else if normalized = ustr ''PACKAGE'' then ''search.package''
         else if normalized = ustr ''IMAGE'' then ''search.image''
         else ''search.file'')"

definition dockerRepositoryIcon :: string where
  "dockerRepositoryIcon = rf_icon docker_format"

definition result_icon :: "string option \<Rightarrow> ustring \<Rightarrow> string option" where
  "result_icon active type' =
     (if type' = ustr ''DIRECTORY'' then Some ''folder''
      else if type' = ustr ''DOMAIN'' then Some ''network''
      else if type' = ustr ''IMAGE'' then Some dockerRepositoryIcon
      else if type' = ustr ''PACKAGE'' then active
      else Some ''file'')"

definition buildSearchResult :: "string option \<Rightarrow> search_result \<Rightarrow> search_row" where
  "buildSearchResult active r =
     (let type' = to_upper (sr_type r)
      in \<lparr>row_path = sr_path r, row_type = type', row_icon = result_icon active type', row_name = sr_name r,
          row_copy = str_or (sr_description r) (sr_path r), row_label = searchResultTypeLabel type',
          row_version = (if sr_latest_version r = [] then None else Some (sr_latest_version r))\<rparr>)"

datatype search_content =
    NoContent
  | StatusText string bool
  | NoResults
  | ResultList int "search_row list" bool

definition results_content :: "string option \<Rightarrow> search_payload \<Rightarrow> search_content" where
  "results_content active p =
     (if sp_results p = [] then NoResults
      else ResultList (if sp_total p = 0 then int (length (sp_results p)) else sp_total p)
             (map (buildSearchResult active) (sp_results p)) (sp_has_more p))"

record search_request =
  rq_repository :: ustring
  rq_query :: ustring
  rq_version :: nat
  rq_url :: ustring
  rq_aborted :: bool

datatype opened = Download ustring | Navigate ustring

text \<open>Slot \<open>i\<close> of \<open>ls_requests\<close> is the request of the \<open>i\<close>-th controller, \<^term>\<open>None\<close> once it has settled; the last slot is that of
  \<^verbatim>\<open>requestController\<close>.\<close>

record live_search =
  ls_repository :: ustring
  ls_format :: string
  ls_icon :: "string option"
  ls_navigable :: bool
  ls_form_hidden :: bool
  ls_input :: ustring
  ls_clear_hidden :: bool
  ls_version :: nat
  ls_timer :: "(ustring \<times> nat) option"
  ls_requests :: "search_request option list"
  ls_panel :: panel
  ls_content :: search_content
  ls_opened :: "opened list"
  ls_answers :: "(ustring \<times> ustring \<times> search_payload) list"

definition replaceResultsContent :: "search_content \<Rightarrow> live_search \<Rightarrow> live_search" where
  "replaceResultsContent c s =
     (if pn_hidden (ls_panel s) \<or> \<not> pn_visible (ls_panel s)
      then s\<lparr>ls_content := c, ls_panel := openResultsPanel (ls_panel s)\<rparr>
      else s\<lparr>ls_content := c\<rparr>)"

definition renderSearchStatus :: "string \<Rightarrow> bool \<Rightarrow> live_search \<Rightarrow> live_search" where
  "renderSearchStatus message isError s = replaceResultsContent (StatusText message isError) s"

definition renderSearchResults :: "search_payload \<Rightarrow> live_search \<Rightarrow> live_search" where
  "renderSearchResults payload s = replaceResultsContent (results_content (ls_icon s) payload) s"

definition abort_request :: "live_search \<Rightarrow> live_search" where
  "abort_request s =
     (if ls_requests s = [] then s
      else s\<lparr>ls_requests := butlast (ls_requests s) @ [map_option (\<lambda>r. r\<lparr>rq_aborted := True\<rparr>) (last (ls_requests s))]\<rparr>)"

definition search_failed :: "nat \<Rightarrow> live_search \<Rightarrow> live_search" where
  "search_failed version s = (if version \<noteq> ls_version s then s else renderSearchStatus ''search.failed'' True s)"

definition search_url :: "ustring \<Rightarrow> ustring \<Rightarrow> ustring" where
  "search_url repository query = ustr ''/api/repositories/search/'' @ repository @ ustr ''?q='' @ query @ ustr ''&limit=20''"

text \<open>The part of \<^verbatim>\<open>fetchRepositorySearch\<close> before its \<^verbatim>\<open>await\<close>; \<^verbatim>\<open>encodeURIComponent\<close> may throw.\<close>

definition fetchRepositorySearch :: "ustring \<Rightarrow> nat \<Rightarrow> live_search \<Rightarrow> live_search" where
  "fetchRepositorySearch query version s =
     (if ls_repository s = [] then s
      else let s1 = abort_request s
           in case (encodeURIComponent (ls_repository s), encodeURIComponent query) of
                (Some r, Some q) \<Rightarrow>
                  s1\<lparr>ls_requests := ls_requests s1 @ [Some \<lparr>rq_repository = ls_repository s, rq_query = query,
                       rq_version = version, rq_url = search_url r q, rq_aborted = False\<rparr>]\<rparr>
              | _ \<Rightarrow> search_failed version (s1\<lparr>ls_requests := ls_requests s1 @ [None]\<rparr>))"

datatype search_outcome = Answered bool "search_payload option" | AbortError | FetchError

text \<open>The rest of \<^verbatim>\<open>fetchRepositorySearch\<close>.\<close>

fun search_settled :: "search_request \<Rightarrow> search_outcome \<Rightarrow> live_search \<Rightarrow> live_search" where
  "search_settled r (Answered ok payload) s =
     (let s1 = (case payload of
           Some p \<Rightarrow> s\<lparr>ls_answers := (rq_repository r, rq_query r, p) # ls_answers s\<rparr>
         | None \<Rightarrow> s)
      in if rq_version r \<noteq> ls_version s then s1
         else if \<not> ok then search_failed (rq_version r) s1
         else case payload of None \<Rightarrow> search_failed (rq_version r) s1 | Some p \<Rightarrow> renderSearchResults p s1)"
| "search_settled r AbortError s = s"
| "search_settled r FetchError s = search_failed (rq_version r) s"

definition close_panel :: "live_search \<Rightarrow> live_search" where
  "close_panel s = s\<lparr>ls_panel := closeResultsPanel False (ls_panel s)\<rparr>"

definition handleSearchInput :: "ustring \<Rightarrow> live_search \<Rightarrow> live_search" where
  "handleSearchInput value s =
     (let query = utrim value;
          s1 = s\<lparr>ls_input := value, ls_timer := None, ls_clear_hidden := (query = []), ls_version := ls_version s + 1\<rparr>
      in if query = [] then close_panel (abort_request s1)
         else (renderSearchStatus ''search.searching'' False s1)\<lparr>ls_timer := Some (query, ls_version s1)\<rparr>)"

definition clearRepositorySearch :: "live_search \<Rightarrow> live_search" where
  "clearRepositorySearch s =
     close_panel (abort_request (s\<lparr>ls_input := [], ls_clear_hidden := True, ls_version := ls_version s + 1\<rparr>))"

definition handleResultClick :: "search_row \<Rightarrow> live_search \<Rightarrow> live_search" where
  "handleResultClick row s =
     (case resultPath (ls_repository s) (row_path row) of
        None \<Rightarrow> s
      | Some path \<Rightarrow>
          let s1 = close_panel s
          in if row_type row = ustr ''FILE'' then s1\<lparr>ls_opened := Download path # ls_opened s1\<rparr>
             else if ls_navigable s then s1\<lparr>ls_opened := Navigate path # ls_opened s1\<rparr> else s1)"

definition format_icon :: "string \<Rightarrow> string option" where
  "format_icon format = (case getRepositoryFormat (Some format) of Inl m \<Rightarrow> None | Inr f \<Rightarrow> Some (rf_icon f))"

definition updateRepositorySearch :: "ustring \<Rightarrow> string option \<Rightarrow> live_search \<Rightarrow> live_search" where
  "updateRepositorySearch repository format s =
     (let changed = (repository \<noteq> ls_repository s \<or> format \<noteq> Some (ls_format s));
          s1 = s\<lparr>ls_repository := repository, ls_format := opt_or format ''maven'',
                 ls_icon := format_icon (opt_or format ''maven''), ls_navigable := True, ls_form_hidden := (repository = [])\<rparr>
      in if changed \<or> repository = [] then clearRepositorySearch s1 else s1)"

datatype search_event =
    SearchTyped ustring
  | SearchDelayed
  | SearchSettled nat search_outcome
  | SearchCleared
  | ResultClicked nat
  | SearchEscape
  | SearchOutside
  | SearchCloseElapsed
  | SearchFrame
  | RepositoryShown ustring "string option"

fun search_step :: "live_search \<Rightarrow> search_event \<Rightarrow> live_search option" where
  "search_step s (SearchTyped value) = Some (handleSearchInput value s)"
| "search_step s SearchDelayed =
     (case ls_timer s of
        None \<Rightarrow> None
      | Some (query, version) \<Rightarrow> Some (fetchRepositorySearch query version (s\<lparr>ls_timer := None\<rparr>)))"
| "search_step s (SearchSettled i outcome) =
     (if i < length (ls_requests s)
      then case ls_requests s ! i of
          None \<Rightarrow> None
        | Some r \<Rightarrow> if outcome = AbortError \<and> \<not> rq_aborted r then None
                    else Some (search_settled r outcome (s\<lparr>ls_requests := (ls_requests s)[i := None]\<rparr>))
      else None)"
| "search_step s SearchCleared = Some (clearRepositorySearch s)"
| "search_step s (ResultClicked i) =
     (case ls_content s of
        ResultList n rows has_more \<Rightarrow>
          if panel_shown (ls_panel s) \<and> i < length rows then Some (handleResultClick (rows ! i) s) else None
      | _ \<Rightarrow> None)"
| "search_step s SearchEscape = Some (close_panel s)"
| "search_step s SearchOutside = Some (close_panel s)"
| "search_step s SearchCloseElapsed = (if pn_closing (ls_panel s) then Some (s\<lparr>ls_panel := panel_elapsed (ls_panel s)\<rparr>) else None)"
| "search_step s SearchFrame = (if 0 < pn_frames (ls_panel s) then Some (s\<lparr>ls_panel := panel_frame (ls_panel s)\<rparr>) else None)"
| "search_step s (RepositoryShown repository format) = Some (updateRepositorySearch repository format s)"

definition fresh_search :: live_search where
  "fresh_search = \<lparr>ls_repository = [], ls_format = ''maven'', ls_icon = format_icon ''maven'', ls_navigable = False, ls_form_hidden = True,
     ls_input = [], ls_clear_hidden = True, ls_version = 0, ls_timer = None, ls_requests = [], ls_panel = fresh_panel,
     ls_content = NoContent, ls_opened = [], ls_answers = []\<rparr>"

section \<open>User name suggestions\<close>

text \<open>\<open>su_input\<close> is the value of the attached field, \<^term>\<open>None\<close> without one; \<open>su_options\<close> are the options of the list box with
  \<^verbatim>\<open>aria-selected\<close>, \<open>su_descendant\<close> is \<^verbatim>\<open>aria-activedescendant\<close>. Slot \<open>i\<close> of \<open>su_loads\<close> is the \<open>i\<close>-th search, \<^term>\<open>None\<close> once it
  has settled.\<close>

record suggestions =
  su_max :: nat
  su_input :: "ustring option"
  su_panel :: "panel option"
  su_options :: "(ustring \<times> bool) list"
  su_suggestions :: "ustring list"
  su_active :: int
  su_expanded :: bool
  su_descendant :: "nat option"
  su_version :: nat
  su_timer :: "(ustring \<times> nat) option"
  su_loads :: "(ustring \<times> nat) option list"
  su_errors :: nat
  su_typed :: ustring
  su_answers :: "(ustring \<times> ustring list) list"

definition suggestions_close :: "bool \<Rightarrow> suggestions \<Rightarrow> suggestions" where
  "suggestions_close immediate s =
     s\<lparr>su_suggestions := [], su_active := - 1, su_expanded := False, su_descendant := None,
       su_panel := map_option (closeResultsPanel immediate) (su_panel s)\<rparr>"

definition ensurePanel :: "panel option \<Rightarrow> panel" where
  "ensurePanel p = (case p of None \<Rightarrow> fresh_panel | Some q \<Rightarrow> q)"

definition suggestions_render :: "ustring list \<Rightarrow> suggestions \<Rightarrow> suggestions" where
  "suggestions_render users s =
     (let shown = take (su_max s) users;
          s1 = s\<lparr>su_panel := Some (ensurePanel (su_panel s)), su_suggestions := shown, su_active := - 1,
                 su_options := map (\<lambda>u. (u, False)) shown\<rparr>
      in if shown = [] then suggestions_close False s1
         else s1\<lparr>su_panel := map_option openResultsPanel (su_panel s1), su_expanded := (if su_input s = None then su_expanded s else True)\<rparr>)"

definition suggestions_detach :: "suggestions \<Rightarrow> suggestions" where
  "suggestions_detach s =
     (suggestions_close True (s\<lparr>su_version := su_version s + 1, su_timer := None\<rparr>))\<lparr>su_input := None\<rparr>"

definition suggestions_attach :: "ustring option \<Rightarrow> suggestions \<Rightarrow> suggestions" where
  "suggestions_attach input s =
     (let s1 = suggestions_detach s
      in case input of None \<Rightarrow> s1 | Some value \<Rightarrow> s1\<lparr>su_input := Some value, su_expanded := False\<rparr>)"

definition suggestions_input :: "ustring \<Rightarrow> suggestions \<Rightarrow> suggestions" where
  "suggestions_input value s =
     (let query = utrim value;
          s1 = s\<lparr>su_input := Some value, su_typed := query, su_timer := None, su_version := su_version s + 1\<rparr>
      in if query = [] then suggestions_close True (suggestions_render [] s1)
         else s1\<lparr>su_timer := Some (query, su_version s1)\<rparr>)"

datatype users_outcome = Users "ustring list" | NotAnArray | SearchError

definition input_query :: "suggestions \<Rightarrow> ustring" where
  "input_query s = utrim (opt_or (su_input s) [])"

text \<open>The rest of \<^verbatim>\<open>load\<close> after its \<^verbatim>\<open>await\<close>.\<close>

fun suggestions_loaded :: "ustring \<Rightarrow> nat \<Rightarrow> users_outcome \<Rightarrow> suggestions \<Rightarrow> suggestions" where
  "suggestions_loaded query version (Users users) s =
     (let s1 = s\<lparr>su_answers := (query, users) # su_answers s\<rparr>
      in if version \<noteq> su_version s \<or> input_query s \<noteq> query then s1 else suggestions_render users s1)"
| "suggestions_loaded query version NotAnArray s =
     (if version \<noteq> su_version s \<or> input_query s \<noteq> query then s else suggestions_render [] s)"
| "suggestions_loaded query version SearchError s =
     (let s1 = s\<lparr>su_errors := su_errors s + 1\<rparr> in if version = su_version s then suggestions_render [] s1 else s1)"

definition suggestions_apply :: "ustring \<Rightarrow> suggestions \<Rightarrow> suggestions" where
  "suggestions_apply username s = suggestions_close False (s\<lparr>su_input := map_option (\<lambda>_. username) (su_input s)\<rparr>)"

datatype suggestion_key = KeyEscape | KeyDown | KeyUp | KeyEnter | KeyOther

definition mark_active :: "int \<Rightarrow> suggestions \<Rightarrow> suggestions" where
  "mark_active active s =
     s\<lparr>su_active := active,
       su_options := map (\<lambda>(i, u). (fst u, int i = active)) (enumerate 0 (su_options s)),
       su_descendant := (if 0 \<le> active \<and> active < int (length (su_options s)) then Some (nat active) else su_descendant s)\<rparr>"

fun suggestions_key :: "suggestion_key \<Rightarrow> suggestions \<Rightarrow> suggestions" where
  "suggestions_key KeyEscape s = suggestions_close False s"
| "suggestions_key KeyDown s =
     (if su_suggestions s = [] then s else mark_active ((su_active s + 1) mod int (length (su_suggestions s))) s)"
| "suggestions_key KeyUp s =
     (if su_suggestions s = [] then s
      else mark_active ((su_active s - 1 + int (length (su_suggestions s))) mod int (length (su_suggestions s))) s)"
| "suggestions_key KeyEnter s =
     (if su_suggestions s = [] \<or> su_active s < 0 then s else suggestions_apply (su_suggestions s ! nat (su_active s)) s)"
| "suggestions_key KeyOther s = s"

definition suggestions_clear :: "suggestions \<Rightarrow> suggestions" where
  "suggestions_clear s = suggestions_close False (s\<lparr>su_input := map_option (\<lambda>_. []) (su_input s)\<rparr>)"

definition suggestions_destroy :: "suggestions \<Rightarrow> suggestions" where
  "suggestions_destroy s = (suggestions_detach s)\<lparr>su_panel := None, su_options := []\<rparr>"

datatype suggestion_event =
    Attached "ustring option"
  | Detached
  | UserTyped ustring
  | UserDelayed
  | UsersLoaded nat users_outcome
  | OptionClicked nat
  | UserKey suggestion_key
  | UserOutside
  | UserFrame
  | UserCloseElapsed
  | UserCleared
  | Destroyed

definition on_panel :: "(panel \<Rightarrow> bool) \<Rightarrow> (panel \<Rightarrow> suggestions) \<Rightarrow> suggestions \<Rightarrow> suggestions option" where
  "on_panel enabled f s = (case su_panel s of None \<Rightarrow> None | Some p \<Rightarrow> if enabled p then Some (f p) else None)"

fun suggestion_step :: "suggestions \<Rightarrow> suggestion_event \<Rightarrow> suggestions option" where
  "suggestion_step s (Attached input) = Some (suggestions_attach input s)"
| "suggestion_step s Detached = Some (suggestions_detach s)"
| "suggestion_step s (UserTyped value) = (if su_input s = None then None else Some (suggestions_input value s))"
| "suggestion_step s UserDelayed =
     (case su_timer s of None \<Rightarrow> None | Some load \<Rightarrow> Some (s\<lparr>su_timer := None, su_loads := su_loads s @ [Some load]\<rparr>))"
| "suggestion_step s (UsersLoaded i outcome) =
     (if i < length (su_loads s)
      then case su_loads s ! i of
          None \<Rightarrow> None
        | Some (query, version) \<Rightarrow> Some (suggestions_loaded query version outcome (s\<lparr>su_loads := (su_loads s)[i := None]\<rparr>))
      else None)"
| "suggestion_step s (OptionClicked i) =
     on_panel (\<lambda>p. \<not> pn_hidden p \<and> pn_visible p \<and> i < length (su_options s)) (\<lambda>p. suggestions_apply (fst (su_options s ! i)) s) s"
| "suggestion_step s (UserKey key) = (if su_input s = None then None else Some (suggestions_key key s))"
| "suggestion_step s UserOutside = (if su_input s = None then None else Some (suggestions_close False s))"
| "suggestion_step s UserFrame = on_panel (\<lambda>p. 0 < pn_frames p) (\<lambda>p. s\<lparr>su_panel := Some (panel_frame p)\<rparr>) s"
| "suggestion_step s UserCloseElapsed = on_panel pn_closing (\<lambda>p. s\<lparr>su_panel := Some (panel_elapsed p)\<rparr>) s"
| "suggestion_step s UserCleared = Some (suggestions_clear s)"
| "suggestion_step s Destroyed = Some (suggestions_destroy s)"

definition fresh_suggestions :: "nat \<Rightarrow> suggestions" where
  "fresh_suggestions n = \<lparr>su_max = n, su_input = None, su_panel = None, su_options = [], su_suggestions = [], su_active = - 1,
     su_expanded = False, su_descendant = None, su_version = 0, su_timer = None, su_loads = [], su_errors = 0, su_typed = [],
     su_answers = []\<rparr>"

section \<open>The repository search answers what is typed\<close>

text \<open>Content fit to be shown for a query in a repository: a status, or the rendering of an answer to that query.\<close>

definition fits :: "ustring \<Rightarrow> string option \<Rightarrow> ustring \<Rightarrow> (ustring \<times> ustring \<times> search_payload) list \<Rightarrow> search_content \<Rightarrow> bool" where
  "fits repository icon query answers c \<longleftrightarrow> query \<noteq> [] \<and>
     ((\<exists>message isError. c = StatusText message isError) \<or> (\<exists>p. (repository, query, p) \<in> set answers \<and> c = results_content icon p))"

definition current_query :: "nat \<Rightarrow> ustring \<Rightarrow> ustring \<Rightarrow> nat \<Rightarrow> bool" where
  "current_query version query q v \<longleftrightarrow> v \<le> version \<and> (v = version \<longrightarrow> q = query \<and> q \<noteq> [])"

definition requests_ok :: "ustring \<Rightarrow> ustring \<Rightarrow> nat \<Rightarrow> search_request option list \<Rightarrow> bool" where
  "requests_ok repository query version rs \<longleftrightarrow>
     (\<forall>r. Some r \<in> set rs \<longrightarrow> current_query version query (rq_query r) (rq_version r)
        \<and> (rq_version r = version \<longrightarrow> rq_repository r = repository))"

definition timer_ok :: "ustring \<Rightarrow> nat \<Rightarrow> (ustring \<times> nat) option \<Rightarrow> bool" where
  "timer_ok query version timer \<longleftrightarrow> (\<forall>q v. timer = Some (q, v) \<longrightarrow> current_query version query q v)"

definition search_inv :: "live_search \<Rightarrow> bool" where
  "search_inv s \<longleftrightarrow>
     (panel_shown (ls_panel s) \<longrightarrow> fits (ls_repository s) (ls_icon s) (utrim (ls_input s)) (ls_answers s) (ls_content s))
     \<and> ls_format s \<noteq> [] \<and> format_icon (ls_format s) = ls_icon s
     \<and> timer_ok (utrim (ls_input s)) (ls_version s) (ls_timer s)
     \<and> requests_ok (ls_repository s) (utrim (ls_input s)) (ls_version s) (ls_requests s)"

lemma closed_not_shown [simp]: "\<not> panel_shown (closeResultsPanel b p)"
  by (simp add: closeResultsPanel_def panel_shown_def)

lemma elapsed_not_shown [simp]: "\<not> panel_shown (panel_elapsed p)"
  by (simp add: panel_elapsed_def panel_shown_def)

lemma frame_shown [simp]: "panel_shown (panel_frame p) = panel_shown p"
  by (simp add: panel_frame_def panel_shown_def)

lemma opened_shown [simp]: "panel_shown (openResultsPanel p)"
  by (simp add: openResultsPanel_def panel_shown_def)

lemma fits_status [simp]: "fits repository icon query answers (StatusText message isError) \<longleftrightarrow> query \<noteq> []"
  by (auto simp: fits_def)

lemma current_query_older [simp]: "current_query version query q v \<Longrightarrow> current_query (Suc version) query' q v"
  by (simp add: current_query_def)

lemma requests_ok_older [simp]: "requests_ok repository query version rs \<Longrightarrow> requests_ok repository' query' (Suc version) rs"
  by (fastforce simp: requests_ok_def current_query_def)

lemma timer_ok_older [simp]: "timer_ok query version timer \<Longrightarrow> timer_ok query' (Suc version) timer"
  by (auto simp: timer_ok_def)

lemma timer_ok_simps [simp]:
  "timer_ok query version None" "timer_ok query version (Some (q, v)) \<longleftrightarrow> current_query version query q v"
  by (simp_all add: timer_ok_def)

lemma requests_ok_settled [simp]: "requests_ok repository query version rs \<Longrightarrow> requests_ok repository query version (rs[i := None])"
  by (auto simp: requests_ok_def dest: set_update_subset_insert [THEN subsetD])

lemma requests_ok_append [simp]:
  "requests_ok repository query version (rs @ [x]) \<longleftrightarrow> requests_ok repository query version rs \<and> requests_ok repository query version [x]"
  by (auto simp: requests_ok_def)

lemma requests_ok_none [simp]: "requests_ok repository query version [None]" "requests_ok repository query version []"
  by (simp_all add: requests_ok_def)

lemma requests_ok_abort [simp]:
  "requests_ok repository query version (ls_requests s) \<Longrightarrow> requests_ok repository query version (ls_requests (abort_request s))"
proof (cases "ls_requests s" rule: rev_cases)
  case (snoc rs x)
  assume "requests_ok repository query version (ls_requests s)"
  with snoc show ?thesis by (cases x) (auto simp: abort_request_def, simp add: requests_ok_def)
qed (simp add: abort_request_def)

lemma abort_keeps [simp]:
  "ls_panel (abort_request s) = ls_panel s" "ls_version (abort_request s) = ls_version s" "ls_timer (abort_request s) = ls_timer s"
  "ls_repository (abort_request s) = ls_repository s" "ls_input (abort_request s) = ls_input s" "ls_icon (abort_request s) = ls_icon s"
  "ls_format (abort_request s) = ls_format s" "ls_answers (abort_request s) = ls_answers s" "ls_content (abort_request s) = ls_content s"
  by (simp_all add: abort_request_def)

lemma search_abort_inv: "search_inv s \<Longrightarrow> search_inv (abort_request s)"
  by (simp add: search_inv_def)

lemma close_inv: "search_inv s \<Longrightarrow> search_inv (close_panel s)"
  by (simp add: search_inv_def close_panel_def)

text \<open>New content keeps the invariant when it is fit to be shown, whatever the panel does.\<close>

lemma replace_inv:
  "search_inv s \<Longrightarrow> fits (ls_repository s) (ls_icon s) (utrim (ls_input s)) (ls_answers s) c \<Longrightarrow> search_inv (replaceResultsContent c s)"
  by (simp add: replaceResultsContent_def search_inv_def)

lemma search_failed_inv: "search_inv s \<Longrightarrow> (version = ls_version s \<Longrightarrow> utrim (ls_input s) \<noteq> []) \<Longrightarrow> search_inv (search_failed version s)"
  by (cases "version = ls_version s") (auto simp: search_failed_def renderSearchStatus_def intro: replace_inv)

lemma search_clear_inv:
  assumes "requests_ok r q (ls_version s) (ls_requests s)" "ls_format s \<noteq> []" "format_icon (ls_format s) = ls_icon s"
    "timer_ok q' (ls_version s) (ls_timer s)"
  shows "search_inv (clearRepositorySearch s)"
  using assms by (simp add: clearRepositorySearch_def search_inv_def close_panel_def)

lemma input_inv: "search_inv s \<Longrightarrow> search_inv (handleSearchInput value s)"
  unfolding search_inv_def by (elim conjE)
    (simp add: handleSearchInput_def Let_def renderSearchStatus_def replaceResultsContent_def close_panel_def current_query_def)

lemma fetch_inv:
  assumes "search_inv s" "current_query (ls_version s) (utrim (ls_input s)) query version"
  shows "search_inv (fetchRepositorySearch query version s)"
proof -
  have a: "search_inv (abort_request s)" using assms(1) by (rule search_abort_inv)
  have none: "search_inv ((abort_request s)\<lparr>ls_requests := ls_requests (abort_request s) @ [None]\<rparr>)"
    using a by (simp add: search_inv_def)
  have failed: "search_inv (search_failed version ((abort_request s)\<lparr>ls_requests := ls_requests (abort_request s) @ [None]\<rparr>))"
    using search_failed_inv [OF none, of version] assms(2) by (auto simp: current_query_def)
  have some: "search_inv ((abort_request s)\<lparr>ls_requests := ls_requests (abort_request s) @ [Some r]\<rparr>)"
    if "rq_version r = version" "rq_repository r = ls_repository s" "rq_query r = query" for r
    using a assms(2) that by (simp add: search_inv_def) (simp add: requests_ok_def)
  show ?thesis using assms(1) some failed by (simp add: fetchRepositorySearch_def Let_def split: option.splits)
qed

lemma fits_logged [simp]: "fits repository icon query answers c \<Longrightarrow> fits repository icon query (x # answers) c"
  by (auto simp: fits_def)

lemma search_settled_inv:
  assumes "search_inv s" "requests_ok (ls_repository s) (utrim (ls_input s)) (ls_version s) [Some r]"
  shows "search_inv (search_settled r outcome s)"
proof -
  have typed: "rq_version r = ls_version s \<Longrightarrow> utrim (ls_input s) \<noteq> []"
    using assms(2) by (auto simp: requests_ok_def current_query_def)
  have failed: "search_inv (search_failed (rq_version r) s)" by (rule search_failed_inv [OF assms(1) typed])
  show ?thesis
  proof (cases outcome)
    case (Answered ok payload)
    have logged: "search_inv (s\<lparr>ls_answers := x # ls_answers s\<rparr>)" for x
      using assms(1) by (simp add: search_inv_def)
    show ?thesis
    proof (cases payload)
      case None
      with assms(1) failed Answered show ?thesis by (cases "rq_version r = ls_version s") simp_all
    next
      case (Some p)
      define s1 where "s1 = s\<lparr>ls_answers := (rq_repository r, rq_query r, p) # ls_answers s\<rparr>"
      have inv: "search_inv s1" unfolding s1_def by (rule logged)
      have f1: "search_inv (search_failed (rq_version r) s1)" by (rule search_failed_inv [OF inv]) (use typed in \<open>simp add: s1_def\<close>)
      have "rq_version r = ls_version s \<Longrightarrow> search_inv (renderSearchResults p s1)"
        unfolding renderSearchResults_def
        by (rule replace_inv [OF inv]) (use assms(2) typed in \<open>auto simp: s1_def fits_def requests_ok_def current_query_def\<close>)
      with inv f1 Some Answered show ?thesis
        by (cases "rq_version r = ls_version s") (simp_all add: s1_def [symmetric])
    qed
  qed (use assms failed in simp_all)
qed

lemma opt_or_nonempty [simp]: "d \<noteq> [] \<Longrightarrow> opt_or f d \<noteq> []"
  by (simp add: opt_or_def str_or_def split: option.splits)

lemma opt_or_Some [simp]: "v \<noteq> [] \<Longrightarrow> opt_or (Some v) d = v"
  by (simp add: opt_or_def str_or_def)

lemma search_update_inv: "search_inv s \<Longrightarrow> search_inv (updateRepositorySearch repository format s)"
  unfolding updateRepositorySearch_def Let_def
  by (simp, intro conjI impI, rule search_clear_inv [of "ls_repository s" "utrim (ls_input s)" _ "utrim (ls_input s)"])
    (auto simp: search_inv_def)

lemma click_inv: "search_inv s \<Longrightarrow> search_inv (handleResultClick row s)"
  by (auto simp: handleResultClick_def Let_def search_inv_def close_panel_def split: option.splits)

interpretation search_machine: machine_invariant search_step search_inv
proof
  fix s e t assume inv: "search_inv s" and step: "search_step s e = Some t"
  show "search_inv t"
  proof (cases e)
    case SearchDelayed
    with step obtain q v where t: "ls_timer s = Some (q, v)" "t = fetchRepositorySearch q v (s\<lparr>ls_timer := None\<rparr>)"
      by (auto split: option.splits)
    with inv show ?thesis unfolding t(2) by (intro fetch_inv) (simp_all add: search_inv_def)
  next
    case (SearchSettled i outcome)
    with step obtain r where r: "i < length (ls_requests s)" "ls_requests s ! i = Some r"
      "t = search_settled r outcome (s\<lparr>ls_requests := (ls_requests s)[i := None]\<rparr>)"
      by (auto split: if_splits option.splits)
    then have "Some r \<in> set (ls_requests s)" by (metis nth_mem)
    with inv show ?thesis unfolding r(3)
      by (intro search_settled_inv) (simp_all add: search_inv_def, simp add: requests_ok_def)
  next
    case SearchCleared
    with step inv show ?thesis using search_clear_inv [of "ls_repository s" "utrim (ls_input s)" s "utrim (ls_input s)"]
      by (simp add: search_inv_def)
  qed (use step inv in \<open>auto simp: input_inv search_update_inv click_inv close_inv split: search_content.splits if_splits\<close>,
       simp_all add: search_inv_def)
qed

lemma fresh_search_inv: "search_inv fresh_search"
  by (simp add: search_inv_def fresh_search_def fresh_panel_def panel_shown_def)

lemma click_opens:
  "ls_opened (handleResultClick (buildSearchResult icon r) s) =
     (case resultPath (ls_repository s) (sr_path r) of
        None \<Rightarrow> ls_opened s
      | Some path \<Rightarrow> if to_upper (sr_type r) = ustr ''FILE'' then Download path # ls_opened s
                     else if ls_navigable s then Navigate path # ls_opened s else ls_opened s)"
  by (simp add: handleResultClick_def close_panel_def buildSearchResult_def Let_def split: option.splits)

text \<open>The path of a result names the repository and the segments of the result and nothing else, whatever characters they have.\<close>

lemma result_path_segments:
  assumes "resultPath repository path = Some p" "units_ok repository" "repository \<noteq> []" "units_ok path"
  shows "map decodePathSegment (path_parts p) = repository # path_parts path"
proof -
  from assms(1) obtain r es where r: "encodeURIComponent repository = Some r"
    and es: "those (map encodeURIComponent (path_parts path)) = Some es" and p: "p = 47 # r @ 47 # js_join [47] es"
    by (auto simp: resultPath_def split: option.splits)
  have all: "those (map encodeURIComponent (repository # path_parts path)) = Some (r # es)" using r es by simp
  have units: "\<forall>x \<in> set (repository # path_parts path). units_ok x \<and> x \<noteq> []"
    using assms path_parts_units by auto
  have dec: "those (map decodeURIComponent (r # es)) = Some (repository # path_parts path)"
    and safe: "\<forall>e \<in> set (r # es). e \<noteq> [] \<and> 47 \<notin> set e"
    using uri.those_dec [OF _ all] units slash_unsafe by blast+
  have "path_parts p = path_parts (js_join [47] (r # es))"
    using p safe js_split_join [of "[r, []]" 47] js_split_join [of "[r]" 47] by (cases es) (auto simp: path_parts_def)
  also have "\<dots> = r # es" using safe by (rule path_parts_join)
  finally show ?thesis using map_decodePathSegment [OF dec] by simp
qed

text \<open>C32: in every reachable state a shown result panel answers what the field holds now: the trimmed query is not empty, and the
  panel has a status line or the rendering of a server answer to exactly this query in exactly the repository on the page; no
  interleaving of typing, clearing, closing, late answers and page changes shows the results of another query or repository. A
  click on row \<open>i\<close> opens the path of result \<open>i\<close> of that answer below this repository, and downloads it only when it is a file.\<close>

theorem search_panel_current:
  assumes "run_events search_step fresh_search es = Some s" "panel_shown (ls_panel s)"
  shows "utrim (ls_input s) \<noteq> []
    \<and> ((\<exists>message isError. ls_content s = StatusText message isError)
       \<or> (\<exists>p. (ls_repository s, utrim (ls_input s), p) \<in> set (ls_answers s) \<and> ls_content s = results_content (ls_icon s) p))
    \<and> (\<forall>i t. search_step s (ResultClicked i) = Some t \<longrightarrow>
         (\<exists>p. (ls_repository s, utrim (ls_input s), p) \<in> set (ls_answers s) \<and> i < length (sp_results p) \<and>
            ls_opened t = (case resultPath (ls_repository s) (sr_path (sp_results p ! i)) of
                None \<Rightarrow> ls_opened s
              | Some path \<Rightarrow>
                  if to_upper (sr_type (sp_results p ! i)) = ustr ''FILE'' then Download path # ls_opened s
                  else if ls_navigable s then Navigate path # ls_opened s else ls_opened s)))"
proof -
  have "search_inv s" using assms(1) fresh_search_inv by (rule search_machine.run_inv)
  with assms(2) have fit: "fits (ls_repository s) (ls_icon s) (utrim (ls_input s)) (ls_answers s) (ls_content s)"
    by (simp add: search_inv_def)
  have "\<exists>p. (ls_repository s, utrim (ls_input s), p) \<in> set (ls_answers s) \<and> i < length (sp_results p) \<and>
      t = handleResultClick (buildSearchResult (ls_icon s) (sp_results p ! i)) s"
    if "search_step s (ResultClicked i) = Some t" for i t
    using that fit by (fastforce simp: fits_def results_content_def split: search_content.splits if_splits)
  then have "\<forall>i t. search_step s (ResultClicked i) = Some t \<longrightarrow>
      (\<exists>p. (ls_repository s, utrim (ls_input s), p) \<in> set (ls_answers s) \<and> i < length (sp_results p) \<and>
        ls_opened t = ls_opened (handleResultClick (buildSearchResult (ls_icon s) (sp_results p ! i)) s))"
    by blast
  with fit show ?thesis unfolding click_opens fits_def by blast
qed

lemmas search_eval = handleSearchInput_def renderSearchStatus_def replaceResultsContent_def fetchRepositorySearch_def abort_request_def
  renderSearchResults_def updateRepositorySearch_def clearRepositorySearch_def close_panel_def closeResultsPanel_def openResultsPanel_def
  panel_frame_def panel_elapsed_def fresh_panel_def fresh_search_def opt_or_def str_or_def utrim_def trim_by_def unit_space_def
  search_url_def panel_shown_def Let_def codec_eval

theorem search_panel_current_witness:
  "\<exists>s. run_events search_step fresh_search
      [RepositoryShown (ustr ''m'') (Some ''npm''), SearchTyped (ustr '' a ''), SearchFrame, SearchDelayed,
       SearchSettled 0 (Answered True (Some \<lparr>sp_results = [\<lparr>sr_name = ustr ''b'', sr_path = ustr ''c/d'', sr_type = ustr ''file'',
         sr_description = [], sr_latest_version = []\<rparr>], sp_total = 0, sp_has_more = False\<rparr>))] = Some s
     \<and> panel_shown (ls_panel s) \<and> utrim (ls_input s) = ustr ''a''
     \<and> map_option ls_opened (search_step s (ResultClicked 0)) = Some [Download (ustr ''/m/c/d'')]"
proof -
  define p where "p = \<lparr>sp_results = [\<lparr>sr_name = ustr ''b'', sr_path = ustr ''c/d'', sr_type = ustr ''file'',
         sr_description = [], sr_latest_version = []\<rparr>], sp_total = 0, sp_has_more = False\<rparr>"
  define s where "s = the (run_events search_step fresh_search [RepositoryShown (ustr ''m'') (Some ''npm''), SearchTyped (ustr '' a ''),
    SearchFrame, SearchDelayed, SearchSettled 0 (Answered True (Some p))])"
  have run: "run_events search_step fresh_search [RepositoryShown (ustr ''m'') (Some ''npm''), SearchTyped (ustr '' a ''),
    SearchFrame, SearchDelayed, SearchSettled 0 (Answered True (Some p))] = Some s"
    unfolding s_def by (simp add: search_eval)
  have shown: "panel_shown (ls_panel s)" "utrim (ls_input s) = ustr ''a''" "ls_repository s = ustr ''m''" "ls_opened s = []"
    "ls_answers s = [(ustr ''m'', ustr ''a'', p)]"
    "ls_content s = results_content (ls_icon s) p"
    unfolding s_def by (simp_all add: search_eval)
  have click: "search_step s (ResultClicked 0) \<noteq> None"
    by (simp add: shown results_content_def p_def)
  have path: "resultPath (ustr ''m'') (sr_path (sp_results p ! 0)) = Some (ustr ''/m/c/d'')"
    "to_upper (sr_type (sp_results p ! 0)) = ustr ''FILE''"
    by (simp_all add: p_def resultPath_def to_upper_def upper_unit_def codec_eval)
  from search_panel_current [OF run shown(1)] click path
  have "map_option ls_opened (search_step s (ResultClicked 0)) = Some [Download (ustr ''/m/c/d'')]"
    by (auto simp: shown)
  with run shown(1,2) show ?thesis unfolding p_def by blast
qed

text \<open>Escape and outside clicks close the panel without ending the search: its answer opens the panel again.\<close>

lemma escape_reopens:
  "map_option (\<lambda>s. panel_shown (ls_panel s)) (run_events search_step fresh_search
     [RepositoryShown (ustr ''m'') (Some ''npm''), SearchTyped (ustr ''a''), SearchFrame, SearchDelayed, SearchEscape, SearchCloseElapsed,
      SearchSettled 0 (Answered True (Some \<lparr>sp_results = [], sp_total = 0, sp_has_more = False\<rparr>))]) = Some True"
  by (simp add: search_eval)

text \<open>Leaving a repository does not stop the debounce timer: what was typed there is sent to the search of the next repository.\<close>

lemma stale_query_sent:
  "map_option (\<lambda>s. map (map_option (\<lambda>r. (rq_repository r, rq_query r))) (ls_requests s)) (run_events search_step fresh_search
     [RepositoryShown (ustr ''m'') (Some ''npm''), SearchTyped (ustr ''a''), RepositoryShown (ustr ''n'') (Some ''npm''), SearchDelayed])
   = Some [Some (ustr ''n'', ustr ''a'')]"
  by (simp add: search_eval)

text \<open>\<^verbatim>\<open>encodeURIComponent\<close> keeps dots: a result below \<^verbatim>\<open>..\<close> leaves the repository once the URL is resolved.\<close>

lemma result_path_dots: "resultPath (ustr ''m'') (ustr ''../n'') = Some (ustr ''/m/../n'')"
  by (simp add: resultPath_def codec_eval)

section \<open>The suggestions are bounded and answer the field\<close>

definition loading :: "suggestions \<Rightarrow> bool" where
  "loading s \<longleftrightarrow> (\<exists>q. su_timer s = Some (q, su_version s) \<or> Some (q, su_version s) \<in> set (su_loads s))"

definition pending_ok :: "ustring \<Rightarrow> nat \<Rightarrow> (ustring \<times> nat) option set \<Rightarrow> bool" where
  "pending_ok typed version ps \<longleftrightarrow> (\<forall>q v. Some (q, v) \<in> ps \<longrightarrow> v \<le> version \<and> (v = version \<longrightarrow> q = typed \<and> q \<noteq> []))"

definition listed :: "suggestions \<Rightarrow> bool" where
  "listed s \<longleftrightarrow> map fst (su_options s) = su_suggestions s
     \<and> (\<forall>i < length (su_options s). snd (su_options s ! i) \<longleftrightarrow> int i = su_active s)
     \<and> (\<exists>p. su_panel s = Some p \<and> panel_shown p \<and> \<not> pn_closing p) \<and> su_expanded s \<and> input_query s = su_typed s \<and> su_typed s \<noteq> []
     \<and> (loading s \<or> (\<exists>users. (su_typed s, users) \<in> set (su_answers s) \<and> su_suggestions s = take (su_max s) users))"

definition suggestions_inv :: "suggestions \<Rightarrow> bool" where
  "suggestions_inv s \<longleftrightarrow> length (su_suggestions s) \<le> su_max s
     \<and> - 1 \<le> su_active s \<and> su_active s < max 0 (int (length (su_suggestions s)))
     \<and> (su_suggestions s = [] \<longrightarrow> su_active s = - 1 \<and> \<not> su_expanded s \<and> su_descendant s = None)
     \<and> (su_suggestions s \<noteq> [] \<longrightarrow> listed s)
     \<and> pending_ok (su_typed s) (su_version s) (insert (su_timer s) (set (su_loads s)))"

lemma opt_or_empty [simp]: "opt_or (Some v) [] = v"
  by (simp add: opt_or_def str_or_def)

lemma pending_ok_older: "pending_ok typed version ps \<Longrightarrow> pending_ok typed' (Suc version) ps"
  by (fastforce simp: pending_ok_def)

lemma pending_ok_subset: "pending_ok typed version ps \<Longrightarrow> qs \<subseteq> insert None ps \<Longrightarrow> pending_ok typed version qs"
  by (auto simp: pending_ok_def)

lemma ended_load:
  assumes "i < length ls" "ls ! i = Some (q, v)" "v \<noteq> version"
  shows "Some (q', version) \<in> set (ls[i := None]) \<longleftrightarrow> Some (q', version) \<in> set ls"
  using assms by (auto simp: in_set_conv_nth kept_task) (metis kept_task option.inject prod.inject)

text \<open>Operations that close the list only have to keep the pending searches.\<close>

lemma closed_inv:
  assumes "su_suggestions s = []" "su_active s = - 1" "\<not> su_expanded s" "su_descendant s = None"
    "pending_ok (su_typed s) (su_version s) (insert (su_timer s) (set (su_loads s)))"
  shows "suggestions_inv s"
  using assms by (simp add: suggestions_inv_def)

lemma close_fields [simp]:
  "su_suggestions (suggestions_close b s) = []" "su_active (suggestions_close b s) = - 1" "\<not> su_expanded (suggestions_close b s)"
  "su_descendant (suggestions_close b s) = None" "su_typed (suggestions_close b s) = su_typed s"
  "su_version (suggestions_close b s) = su_version s" "su_timer (suggestions_close b s) = su_timer s"
  "su_loads (suggestions_close b s) = su_loads s"
  by (simp_all add: suggestions_close_def)

lemma inv_pending: "suggestions_inv s \<Longrightarrow> pending_ok (su_typed s) (su_version s) (insert (su_timer s) (set (su_loads s)))"
  by (simp add: suggestions_inv_def)

lemma inv_older:
  "suggestions_inv s \<Longrightarrow> pending_ok typed (Suc (su_version s)) (insert None (set (su_loads s)))"
  by (rule pending_ok_subset [OF pending_ok_older [OF inv_pending]]) auto

lemma suggestions_close_inv: "suggestions_inv s \<Longrightarrow> suggestions_inv (suggestions_close b s)"
  by (intro closed_inv) (simp_all add: inv_pending)

lemma suggestions_apply_inv: "suggestions_inv s \<Longrightarrow> suggestions_inv (suggestions_apply u s)"
  by (intro closed_inv) (simp_all add: suggestions_apply_def inv_pending)

lemma suggestions_detach_inv: "suggestions_inv s \<Longrightarrow> suggestions_inv (suggestions_detach s)"
  by (intro closed_inv) (simp_all add: suggestions_detach_def inv_older)

lemma suggestions_attach_inv: "suggestions_inv s \<Longrightarrow> suggestions_inv (suggestions_attach input s)"
  by (cases input; intro closed_inv) (simp_all add: suggestions_attach_def suggestions_detach_def inv_older)

lemma render_empty_inv:
  "pending_ok (su_typed s) (su_version s) (insert (su_timer s) (set (su_loads s))) \<Longrightarrow> suggestions_inv (suggestions_render [] s)"
  by (intro closed_inv) (simp_all add: suggestions_render_def)

lemma render_inv:
  assumes "pending_ok (su_typed s) (su_version s) (insert (su_timer s) (set (su_loads s)))" "su_input s \<noteq> None"
    "input_query s = su_typed s" "su_typed s \<noteq> []" "(su_typed s, users) \<in> set (su_answers s)"
  shows "suggestions_inv (suggestions_render users s)"
proof (cases "take (su_max s) users = []")
  case True
  with assms(1) show ?thesis by (intro closed_inv) (simp_all add: suggestions_render_def Let_def)
next
  case False
  let ?t = "suggestions_render users s"
  from False have t: "su_suggestions ?t = take (su_max s) users" "su_active ?t = - 1"
      "su_options ?t = map (\<lambda>u. (u, False)) (take (su_max s) users)" "su_expanded ?t" "\<exists>p. su_panel ?t = Some p \<and> panel_shown p \<and> \<not> pn_closing p"
      "input_query ?t = input_query s" "su_typed ?t = su_typed s" "su_answers ?t = su_answers s" "su_max ?t = su_max s"
      "su_version ?t = su_version s" "su_timer ?t = su_timer s" "su_loads ?t = su_loads s"
    using assms(2) by (auto simp: suggestions_render_def Let_def input_query_def openResultsPanel_def panel_shown_def)
  have "listed ?t" unfolding listed_def using t assms by (auto simp: comp_def)
  with t(1,2,7-12) assms(1) False show ?thesis by (simp add: suggestions_inv_def)
qed

lemma suggestions_input_inv:
  assumes "suggestions_inv s" "su_input s \<noteq> None"
  shows "suggestions_inv (suggestions_input value s)"
proof (cases "utrim value = []")
  case True
  then show ?thesis unfolding suggestions_input_def Let_def
    by (simp, intro suggestions_close_inv render_empty_inv) (simp add: inv_older [OF assms(1)])
next
  case False
  have p: "pending_ok (utrim value) (Suc (su_version s)) (insert (Some (utrim value, Suc (su_version s))) (set (su_loads s)))"
    using inv_older [OF assms(1)] False by (auto simp: pending_ok_def)
  show ?thesis using assms False p
    by (auto simp: suggestions_input_def Let_def suggestions_inv_def listed_def loading_def input_query_def)
qed

lemma mark_active_inv:
  assumes "suggestions_inv s" "su_suggestions s \<noteq> []" "0 \<le> active" "active < int (length (su_suggestions s))"
  shows "suggestions_inv (mark_active active s)"
proof -
  have "map fst (su_options (mark_active active s)) = map fst (su_options s)"
    by (rule nth_equalityI) (simp_all add: mark_active_def nth_enumerate_eq)
  then have "listed (mark_active active s)"
    using assms by (simp add: suggestions_inv_def listed_def loading_def input_query_def)
      (simp add: mark_active_def nth_enumerate_eq)
  with assms show ?thesis by (simp add: suggestions_inv_def) (simp add: mark_active_def)
qed

lemma suggestions_key_inv: "suggestions_inv s \<Longrightarrow> suggestions_inv (suggestions_key key s)"
  by (cases key) (simp_all add: suggestions_close_inv suggestions_apply_inv mark_active_inv)

lemma ended_pending: "suggestions_inv s \<Longrightarrow> pending_ok (su_typed s) (su_version s) (insert (su_timer s) (set ((su_loads s)[i := None])))"
  by (rule pending_ok_subset [OF inv_pending]) (auto dest: set_update_subset_insert [THEN subsetD])

lemma dropped_inv:
  assumes "suggestions_inv s" "i < length (su_loads s)" "su_loads s ! i = Some (q, v)" "v \<noteq> su_version s \<or> su_suggestions s = []"
    "set (su_answers s) \<subseteq> set answers"
  shows "suggestions_inv (s\<lparr>su_loads := (su_loads s)[i := None], su_answers := answers, su_errors := n\<rparr>)"
proof (cases "su_suggestions s = []")
  case True
  with assms(1) ended_pending [OF assms(1)] show ?thesis by (simp add: suggestions_inv_def)
next
  case False
  with assms(1,4) have l: "listed s" "v \<noteq> su_version s" by (simp_all add: suggestions_inv_def)
  have "listed (s\<lparr>su_loads := (su_loads s)[i := None], su_answers := answers, su_errors := n\<rparr>)"
    using l(1) ended_load [OF assms(2,3) l(2)] assms(5) by (auto simp: listed_def loading_def input_query_def)
  with assms(1) False ended_pending [OF assms(1)] show ?thesis by (simp add: suggestions_inv_def)
qed

lemma suggestions_loaded_inv:
  assumes inv: "suggestions_inv s" and i: "i < length (su_loads s)" "su_loads s ! i = Some (q, v)"
  shows "suggestions_inv (suggestions_loaded q v outcome (s\<lparr>su_loads := (su_loads s)[i := None]\<rparr>))"
proof -
  have "Some (q, v) \<in> set (su_loads s)" using i by (metis nth_mem)
  with inv_pending [OF inv] have qv: "q = su_typed s \<and> q \<noteq> []" if "v = su_version s" using that by (auto simp: pending_ok_def)
  have stale: "v \<noteq> su_version s \<or> su_suggestions s = []" if "v \<noteq> su_version s \<or> input_query s \<noteq> q"
    using that qv inv by (auto simp: suggestions_inv_def listed_def)
  have attached: "su_input s \<noteq> None" if "input_query s \<noteq> []"
    using that by (cases "su_input s") (simp_all add: input_query_def opt_or_def utrim_def trim_by_def)
  have query: "input_query (s\<lparr>su_loads := l, su_answers := a, su_errors := n\<rparr>) = input_query s" for l a n
    by (simp add: input_query_def)
  note drop = dropped_inv [OF inv i stale]
  show ?thesis
  proof (cases outcome)
    case (Users users)
    show ?thesis
    proof (cases "v \<noteq> su_version s \<or> input_query s \<noteq> q")
      case True
      with drop [OF True, of "(q, users) # su_answers s" "su_errors s"] Users show ?thesis
        by (auto simp: input_query_def)
    next
      case False
      with qv have *: "v = su_version s" "input_query s = su_typed s" "q = su_typed s" "su_typed s \<noteq> []" by auto
      with ended_pending [OF inv] attached
      have "suggestions_inv (suggestions_render users (s\<lparr>su_loads := (su_loads s)[i := None], su_answers := (q, users) # su_answers s\<rparr>))"
        by (intro render_inv) (simp_all add: input_query_def)
      with False Users show ?thesis by (simp add: input_query_def)
    qed
  next
    case NotAnArray
    with drop [of "su_answers s" "su_errors s"] ended_pending [OF inv] show ?thesis
      by (auto simp: input_query_def intro: render_empty_inv)
  next
    case SearchError
    with dropped_inv [OF inv i, of "su_answers s" "su_errors s + 1"] ended_pending [OF inv] show ?thesis
      by (cases "v = su_version s") (auto simp: Let_def intro: render_empty_inv)
  qed
qed

lemma on_panel_Some: "on_panel enabled f s = Some t \<longleftrightarrow> (\<exists>p. su_panel s = Some p \<and> enabled p \<and> t = f p)"
  by (auto simp: on_panel_def split: option.splits)

lemma panel_frame_inv: "suggestions_inv s \<Longrightarrow> su_panel s = Some p \<Longrightarrow> suggestions_inv (s\<lparr>su_panel := Some (panel_frame p)\<rparr>)"
  by (simp add: suggestions_inv_def listed_def loading_def input_query_def) (simp add: panel_frame_def)

lemma panel_elapsed_inv:
  "suggestions_inv s \<Longrightarrow> su_panel s = Some p \<Longrightarrow> pn_closing p \<Longrightarrow> suggestions_inv (s\<lparr>su_panel := Some q\<rparr>)"
  by (auto simp: suggestions_inv_def listed_def)

lemma delayed_inv: "suggestions_inv s \<Longrightarrow> su_timer s = Some l \<Longrightarrow> suggestions_inv (s\<lparr>su_timer := None, su_loads := su_loads s @ [Some l]\<rparr>)"
  by (cases l) (auto simp: suggestions_inv_def listed_def loading_def input_query_def pending_ok_def)

lemma suggestions_clear_inv: "suggestions_inv s \<Longrightarrow> suggestions_inv (suggestions_clear s)"
  by (intro closed_inv) (simp_all add: suggestions_clear_def inv_pending)

lemma suggestions_destroy_inv: "suggestions_inv s \<Longrightarrow> suggestions_inv (suggestions_destroy s)"
  by (intro closed_inv) (simp_all add: suggestions_destroy_def suggestions_detach_def inv_older)

interpretation suggestion_machine: machine_invariant suggestion_step suggestions_inv
proof
  fix s e t assume inv: "suggestions_inv s" and step: "suggestion_step s e = Some t"
  show "suggestions_inv t"
  proof (cases e)
    case (UsersLoaded i outcome)
    with step inv show ?thesis
      by (auto split: if_splits option.splits simp del: suggestions_loaded.simps intro: suggestions_loaded_inv)
  qed (use step inv in \<open>auto simp: on_panel_Some suggestions_attach_inv suggestions_detach_inv suggestions_input_inv suggestions_apply_inv
         suggestions_key_inv suggestions_close_inv panel_frame_inv panel_elapsed_inv delayed_inv suggestions_clear_inv suggestions_destroy_inv
         simp del: suggestions_key.simps split: if_splits option.splits\<close>)
qed

lemma fresh_suggestions_inv: "suggestions_inv (fresh_suggestions n)"
  by (simp add: suggestions_inv_def fresh_suggestions_def pending_ok_def)

lemma max_kept [simp]:
  "su_max (suggestions_close b s) = su_max s" "su_max (suggestions_render users s) = su_max s" "su_max (suggestions_detach s) = su_max s"
  "su_max (suggestions_attach input s) = su_max s" "su_max (suggestions_input value s) = su_max s" "su_max (suggestions_apply u s) = su_max s"
  "su_max (suggestions_clear s) = su_max s" "su_max (suggestions_destroy s) = su_max s" "su_max (mark_active k s) = su_max s"
  by (simp_all add: suggestions_close_def suggestions_render_def suggestions_detach_def suggestions_attach_def suggestions_input_def
      suggestions_apply_def suggestions_clear_def suggestions_destroy_def mark_active_def Let_def split: option.split)

lemma max_loaded [simp]: "su_max (suggestions_loaded q v outcome s) = su_max s"
  by (cases outcome) (simp_all add: Let_def)

lemma max_key [simp]: "su_max (suggestions_key key s) = su_max s"
  by (cases key) simp_all

interpretation suggestion_bound: machine_invariant suggestion_step "\<lambda>s. su_max s = n"
proof
  fix s e t assume "su_max s = n" "suggestion_step s e = Some t"
  then show "su_max t = n" by (cases e) (auto simp: on_panel_Some split: if_splits option.splits)
qed


lemmas suggestion_eval = suggestions_close_def suggestions_render_def suggestions_detach_def suggestions_attach_def suggestions_input_def
  suggestions_apply_def ensurePanel_def mark_active_def input_query_def fresh_suggestions_def on_panel_def fresh_panel_def
  openResultsPanel_def closeResultsPanel_def panel_frame_def opt_or_def str_or_def utrim_def trim_by_def unit_space_def Let_def ustr_def


text \<open>A new list does not withdraw \<^verbatim>\<open>aria-activedescendant\<close>: it can name an option that does not exist any more.\<close>

lemma stale_descendant:
  "map_option (\<lambda>s. (su_descendant s, length (su_options s), su_active s)) (run_events suggestion_step (fresh_suggestions 8)
     [Attached (Some []), UserTyped (ustr ''a''), UserDelayed, UsersLoaded 0 (Users [ustr ''ab'', ustr ''ac'']), UserKey KeyDown, UserKey KeyDown,
      UserTyped (ustr ''ab''), UserDelayed, UsersLoaded 1 (Users [ustr ''ab''])]) = Some (Some 1, 1, - 1)"
  by (simp add: suggestion_eval)

text \<open>Arrow up without an active option passes over the last one.\<close>

lemma arrow_up_skips_last:
  "su_active s = - 1 \<Longrightarrow> 2 \<le> length (su_suggestions s) \<Longrightarrow> su_active (suggestions_key KeyUp s) = int (length (su_suggestions s)) - 2"
  using mod_pos_pos_trivial [of "int (length (su_suggestions s)) - 2" "int (length (su_suggestions s))"]
  by (auto simp: mark_active_def)

end
