(* ===== verification/Upload_Batch.thy ===== *)
theory Upload_Batch
  imports Event_Machine Upload_Pool Repository_Formats Auth_Session "HOL-Library.Multiset"
begin

text \<open>
  The upload window of a repository directory (\<^verbatim>\<open>js/browser/upload.js\<close>): the selected files, the signing policy of the repository, the
  space check and the batch that sends the files one after another, as an event machine. A single transfer is the subject of
  \<^verbatim>\<open>Upload_Pool\<close> and \<^verbatim>\<open>Upload_Session\<close>; here it is a request and its outcome.

  A selected file has an identity (\<^verbatim>\<open>_id\<close>), a name and a size. Every call that waits is a slot of a list: the directory changes, the clicks
  that wait for the space check, and the batches. Captions, file cards and the animation of the window are left out; what is removed when
  an animation ends is an event. Percentages are exact.
\<close>

section \<open>Names and signatures\<close>

record pending_file =
  pf_id :: nat
  pf_name :: ustring
  pf_size :: nat

definition fileExt :: "ustring \<Rightarrow> ustring" where
  "fileExt name = (case lastIndexOf name 46 of None \<Rightarrow> [] | Some idx \<Rightarrow> if 0 < idx then lower (drop (Suc idx) name) else [])"

definition isGPGProtectedFile :: "ustring \<Rightarrow> bool" where
  "isGPGProtectedFile name =
     (let l = lower name in endsWith l (ustr ''.jar'') \<or> endsWith l (ustr ''.pom'') \<or> endsWith l (ustr ''.module''))"

definition isGPGDetachedSignature :: "ustring \<Rightarrow> bool" where
  "isGPGDetachedSignature name = (endsWith name (ustr ''.asc'') \<and> isGPGProtectedFile (take (length name - 4) name))"

definition signedArtifactNames :: "pending_file list \<Rightarrow> ustring list" where
  "signedArtifactNames fs =
     map (\<lambda>f. take (length (pf_name f) - 4) (pf_name f)) (filter (\<lambda>f. isGPGDetachedSignature (pf_name f)) fs)"

definition missingSignatures :: "pending_file list \<Rightarrow> pending_file list" where
  "missingSignatures fs =
     filter (\<lambda>f. isGPGProtectedFile (pf_name f) \<and> pf_name f \<notin> set (signedArtifactNames fs)) fs"

definition signature_order :: "pending_file \<Rightarrow> pending_file \<Rightarrow> int" where
  "signature_order l r = of_bool (isGPGDetachedSignature (pf_name l)) - of_bool (isGPGDetachedSignature (pf_name r))"

definition uploadQueue :: "pending_file list \<Rightarrow> pending_file list" where
  "uploadQueue fs = js_sort signature_order fs"

definition calculatePendingRequiredSpace :: "pending_file list \<Rightarrow> int" where
  "calculatePendingRequiredSpace fs =
     sum_list (map (\<lambda>f. int (pf_size f) * (if endsWith (lower (pf_name f)) (ustr ''-javadoc.jar'') then 4 else 2) + 1024 * 1024) fs)"

section \<open>Addresses\<close>

definition cleanDest :: "ustring \<Rightarrow> ustring" where
  "cleanDest dest =
     (let d = (if startsWith dest (ustr ''/'') then tl dest else dest) in if endsWith d (ustr ''/'') then d else d @ ustr ''/'')"

definition relativeDest :: "ustring \<Rightarrow> ustring \<Rightarrow> ustring" where
  "relativeDest dest name = cleanDest dest @ name"

definition targetPath :: "ustring \<Rightarrow> ustring \<Rightarrow> ustring option" where
  "targetPath dest name = map_option ((#) 47) (encodeRelativePath (relativeDest dest name))"

text \<open>\<^verbatim>\<open>replace(/\/+/g, '/')\<close>\<close>

fun collapse_slashes :: "ustring \<Rightarrow> ustring" where
  "collapse_slashes (c # d # r) = (if c = 47 \<and> d = 47 then collapse_slashes (d # r) else c # collapse_slashes (d # r))"
| "collapse_slashes r = r"

definition chunk_path :: "ustring \<Rightarrow> ustring \<Rightarrow> ustring" where
  "chunk_path dest name =
     (let p = collapse_slashes (relativeDest dest name) in if startsWith p (ustr ''/'') then tl p else p)"

datatype transfer = ChunkedTransfer ustring bool bool headers | SinglePut ustring headers

definition file_headers :: "headers \<Rightarrow> bool \<Rightarrow> headers" where
  "file_headers base expected = (if expected then spread base [(''X-RenoP-GPG-Signature-Expected'', ''true'')] else base)"

section \<open>The window\<close>

record upload_batch =
  ba_files :: "pending_file list"
  ba_signed :: "ustring list"
  ba_dest :: ustring
  ba_path :: ustring
  ba_repo :: ustring
  ba_headers :: headers
  ba_queue :: "pending_file list"
  ba_sent :: "transfer option"
  ba_results :: "(pending_file \<times> transfer option \<times> bool) list"
  ba_completed :: nat
  ba_bytes :: nat
  ba_percent :: nat
  ba_pom :: bool
  ba_alerts :: "(string \<times> ustring) list"

record zone_details =
  zd_format :: "string option"
  zd_gpg :: bool

text \<open>\<open>up_removals\<close> are the positions whose entries are leaving, \<open>up_clearing\<close> and \<open>up_checks\<close> count the running clear animations and the space checks
  of the file list, \<open>up_refresh\<close> are the scheduled refreshes. \<open>up_zone\<close> and \<open>up_ended\<close> record the directory asked for last and the finished batches.\<close>

record upload_page =
  up_pending :: "pending_file list"
  up_uploading :: bool
  up_disabled :: bool
  up_warning :: bool
  up_requires_gpg :: bool
  up_checksum :: bool
  up_checksum_hidden :: bool
  up_pom :: bool
  up_pom_hidden :: bool
  up_pom_open :: bool
  up_pom_fields :: "ustring \<times> ustring \<times> ustring"
  up_dest :: ustring
  up_path :: ustring
  up_panel :: bool
  up_policy :: nat
  up_zones :: "(ustring list \<times> nat) option list"
  up_removals :: "nat list"
  up_clearing :: nat
  up_checks :: nat
  up_clicks :: "ustring list option list"
  up_batches :: "upload_batch option list"
  up_alerts :: "(string \<times> ustring) list"
  up_refresh :: "(ustring \<times> nat) list"
  up_loads :: "ustring list"
  up_zone :: "ustring list"
  up_ended :: "upload_batch list"

definition page_alert :: "string \<Rightarrow> upload_page \<Rightarrow> upload_page" where
  "page_alert key s = s\<lparr>up_alerts := (key, []) # up_alerts s\<rparr>"

definition splice_at :: "nat \<Rightarrow> 'a list \<Rightarrow> 'a list" where
  "splice_at i xs = take i xs @ drop (Suc i) xs"

definition applyRepositoryGPGPolicy :: "bool \<Rightarrow> bool \<Rightarrow> upload_page \<Rightarrow> upload_page" where
  "applyRepositoryGPGPolicy required supportsHelpers s =
     s\<lparr>up_requires_gpg := required, up_checksum_hidden := \<not> supportsHelpers, up_pom_hidden := (\<not> supportsHelpers \<or> required),
       up_checksum := (up_checksum s \<and> supportsHelpers),
       up_pom := (up_pom s \<and> \<not> (\<not> supportsHelpers \<or> required)),
       up_pom_open := (up_pom_open s \<and> \<not> (\<not> supportsHelpers \<or> required))\<rparr>"

definition setUploadPanelOpen :: "bool \<Rightarrow> upload_page \<Rightarrow> upload_page" where
  "setUploadPanelOpen open' s = (if open' then s\<lparr>up_panel := True\<rparr> else s\<lparr>up_panel := False, up_pending := []\<rparr>)"

text \<open>\<^verbatim>\<open>updateUploadZone\<close> before its first \<^verbatim>\<open>await\<close>, and from the moment it has the details or knows that there are none.\<close>

definition updateUploadZone :: "ustring \<Rightarrow> upload_page \<Rightarrow> upload_page" where
  "updateUploadZone path s =
     (let parts = map decodePathSegment (path_parts path)
      in s\<lparr>up_policy := up_policy s + 1, up_zones := up_zones s @ [Some (parts, up_policy s + 1)], up_zone := parts\<rparr>)"

definition zone_format :: "zone_details \<Rightarrow> repository_format option" where
  "zone_format d = (case getRepositoryFormat (zd_format d) of Inl m \<Rightarrow> None | Inr f \<Rightarrow> Some f)"

definition zone_settled :: "ustring list \<Rightarrow> nat \<Rightarrow> zone_details option \<Rightarrow> auth \<Rightarrow> upload_page \<Rightarrow> upload_page" where
  "zone_settled parts seq details session s =
     (if seq \<noteq> up_policy s then s
      else case details of
          None \<Rightarrow> setUploadPanelOpen False (applyRepositoryGPGPolicy False True s)
        | Some d \<Rightarrow>
            (case zone_format d of
               None \<Rightarrow> setUploadPanelOpen False (applyRepositoryGPGPolicy False True s)
             | Some f \<Rightarrow>
                 if parts \<noteq> [] \<and> rf_supportsBrowserUpload f \<and> canUpdateRepo (hd parts) session
                 then setUploadPanelOpen True
                        ((applyRepositoryGPGPolicy (zd_gpg d) (rf_supportsUploadHelpers f \<noteq> Some False) s)\<lparr>up_dest := js_join [47] parts\<rparr>)
                 else setUploadPanelOpen False (applyRepositoryGPGPolicy False True s)))"

definition renderPendingFiles :: "upload_page \<Rightarrow> upload_page" where
  "renderPendingFiles s = (if up_pending s = [] then s else s\<lparr>up_checks := up_checks s + 1\<rparr>)"

definition addPendingFiles :: "pending_file list \<Rightarrow> upload_page \<Rightarrow> upload_page" where
  "addPendingFiles fs s = renderPendingFiles (s\<lparr>up_pending := up_pending s @ fs\<rparr>)"

definition onRemoveHandler :: "nat \<Rightarrow> upload_page \<Rightarrow> upload_page" where
  "onRemoveHandler i s =
     (if up_uploading s then s
      else case indexOf (map pf_id (up_pending s)) i of
          None \<Rightarrow> s
        | Some currIdx \<Rightarrow> s\<lparr>up_removals := up_removals s @ [currIdx]\<rparr>)"

definition removal_cleanup :: "nat \<Rightarrow> upload_page \<Rightarrow> upload_page" where
  "removal_cleanup k s =
     renderPendingFiles (s\<lparr>up_removals := splice_at k (up_removals s), up_pending := splice_at (up_removals s ! k) (up_pending s)\<rparr>)"

definition clear_clicked :: "upload_page \<Rightarrow> upload_page" where
  "clear_clicked s =
     (if up_uploading s then s
      else if up_pending s \<noteq> [] then s\<lparr>up_clearing := up_clearing s + 1\<rparr>
      else renderPendingFiles (s\<lparr>up_pending := []\<rparr>))"

definition setUploadBusy :: "bool \<Rightarrow> upload_page \<Rightarrow> upload_page" where
  "setUploadBusy busy s = s\<lparr>up_disabled := busy\<rparr>"

text \<open>The rest of \<^verbatim>\<open>updateUploadSpaceCheck\<close> with the used and total bytes, \<^term>\<open>None\<close> when the server did not tell them; the first component is its result.\<close>

definition updateUploadSpaceCheck :: "(int \<times> int) option \<Rightarrow> upload_page \<Rightarrow> bool \<times> upload_page" where
  "updateUploadSpaceCheck disk s =
     (case disk of
        None \<Rightarrow> (False, s)
      | Some (used, total') \<Rightarrow>
          let free = max 0 (total' - used)
          in if free < calculatePendingRequiredSpace (up_pending s) \<or> free \<le> 0
             then (True, s\<lparr>up_warning := True, up_disabled := True\<rparr>)
             else (False, s\<lparr>up_warning := False, up_disabled := (if up_uploading s then up_disabled s else False)\<rparr>))"

definition upload_clicked :: "upload_page \<Rightarrow> upload_page" where
  "upload_clicked s =
     (if up_pending s = [] \<or> up_uploading s then s
      else if up_requires_gpg s \<and> missingSignatures (up_pending s) \<noteq> [] then page_alert ''browser.gpgSignatureRequired'' s
      else s\<lparr>up_clicks := up_clicks s @ [Some (signedArtifactNames (up_pending s))]\<rparr>)"

subsection \<open>A batch\<close>

definition signature_expected :: "upload_batch \<Rightarrow> pending_file \<Rightarrow> bool" where
  "signature_expected b f = (isGPGProtectedFile (pf_name f) \<and> pf_name f \<in> set (ba_signed b))"

text \<open>The request of one file; \<^term>\<open>None\<close> when its path cannot be encoded.\<close>

definition file_transfer :: "bool \<Rightarrow> upload_batch \<Rightarrow> pending_file \<Rightarrow> transfer option" where
  "file_transfer checksums b f =
     (case targetPath (ba_dest b) (pf_name f) of
        None \<Rightarrow> None
      | Some path \<Rightarrow>
          let h = file_headers (ba_headers b) (signature_expected b f)
          in Some (if shouldUseChunkedUpload (Some (int (pf_size f)))
                   then ChunkedTransfer (chunk_path (ba_dest b) (pf_name f)) checksums (signature_expected b f) h
                   else SinglePut path h))"

definition file_done :: "pending_file \<Rightarrow> bool \<Rightarrow> bool \<Rightarrow> upload_batch \<Rightarrow> upload_batch" where
  "file_done f ok review b =
     b\<lparr>ba_results := ba_results b @ [(f, ba_sent b, ok)], ba_sent := None, ba_queue := tl (ba_queue b), ba_completed := ba_completed b + 1, ba_bytes := ba_bytes b + pf_size f,
       ba_alerts := (if ok then if review then ''browser.uploadQueuedReview'' else ''browser.uploadedSuccess''
                     else ''browser.failedUpload'', pf_name f) # ba_alerts b\<rparr>"

text \<open>The loop of the batch runs on to the next file whose request can be sent.\<close>

primrec next_files :: "bool \<Rightarrow> pending_file list \<Rightarrow> upload_batch \<Rightarrow> upload_batch" where
  "next_files checksums [] b = b"
| "next_files checksums (f # fs) b =
     (case file_transfer checksums b f of
        Some tf \<Rightarrow> b\<lparr>ba_sent := Some tf\<rparr>
      | None \<Rightarrow> next_files checksums fs (file_done f False False b))"

definition pom_url :: "upload_batch \<Rightarrow> ustring option" where
  "pom_url b =
     (case (encodePathSegment (ba_repo b), encodeRelativePath (drop (length (ba_repo b) + 1) (ba_dest b))) of
        (Some r, Some p) \<Rightarrow> Some (ustr ''/api/maven/generate/pom/'' @ r @ ustr ''/'' @ p)
      | _ \<Rightarrow> None)"

definition finish_batch :: "nat \<Rightarrow> upload_batch \<Rightarrow> upload_page \<Rightarrow> upload_page" where
  "finish_batch k b s =
     (let s1 = renderPendingFiles (setUploadBusy False (s\<lparr>up_pending := [], up_uploading := False\<rparr>))
      in s1\<lparr>up_batches := (up_batches s1)[k := None], up_ended := b # up_ended s1, up_loads := ba_path b # up_loads s1,
            up_refresh := (if ba_signed b \<noteq> [] then up_refresh s1 @ [(ba_path b, 0)] else up_refresh s1)\<rparr>)"

definition all_filled :: "ustring \<times> ustring \<times> ustring \<Rightarrow> bool" where
  "all_filled gav = (case gav of (groupId, artifactId, version) \<Rightarrow> groupId \<noteq> [] \<and> artifactId \<noteq> [] \<and> version \<noteq> [])"

text \<open>What follows a settled file: the next file, the POM, or the end.\<close>

definition continue_batch :: "nat \<Rightarrow> upload_batch \<Rightarrow> upload_page \<Rightarrow> upload_page" where
  "continue_batch k b s =
     (if ba_sent b \<noteq> None then s\<lparr>up_batches := (up_batches s)[k := Some b]\<rparr>
      else if \<not> up_pom s then finish_batch k b s
      else if \<not> all_filled (up_pom_fields s) then finish_batch k (b\<lparr>ba_alerts := (''browser.fillPomFields'', []) # ba_alerts b\<rparr>) s
      else if pom_url b = None then finish_batch k b s
      else s\<lparr>up_batches := (up_batches s)[k := Some (b\<lparr>ba_pom := True\<rparr>)]\<rparr>)"

definition new_batch :: "ustring list \<Rightarrow> headers \<Rightarrow> ustring \<Rightarrow> upload_page \<Rightarrow> upload_batch" where
  "new_batch signed base segment s =
     \<lparr>ba_files = up_pending s, ba_signed = signed, ba_dest = up_dest s, ba_path = up_path s, ba_repo = decodePathSegment segment,
      ba_headers = (if up_checksum s then spread base [(''X-Generate-Checksums'', ''true'')] else base),
      ba_queue = uploadQueue (up_pending s), ba_sent = None, ba_results = [], ba_completed = 0, ba_bytes = 0, ba_percent = 0,
      ba_pom = False, ba_alerts = []\<rparr>"

definition start_batch :: "ustring list \<Rightarrow> headers \<Rightarrow> upload_page \<Rightarrow> upload_page" where
  "start_batch signed base s =
     (case path_parts (up_path s) of
        [] \<Rightarrow> s
      | segment # rest \<Rightarrow>
          let b = new_batch signed base segment s;
              s1 = setUploadBusy True (s\<lparr>up_uploading := True, up_batches := up_batches s @ [Some b]\<rparr>)
          in continue_batch (length (up_batches s)) (next_files (up_checksum s) (ba_queue b) b) s1)"

text \<open>The click handler after the space check.\<close>

definition click_checked :: "nat \<Rightarrow> (int \<times> int) option \<Rightarrow> headers \<Rightarrow> ustring list \<Rightarrow> upload_page \<Rightarrow> upload_page" where
  "click_checked k disk base signed s =
     (let (insufficient, s1) = updateUploadSpaceCheck disk (s\<lparr>up_clicks := (up_clicks s)[k := None]\<rparr>)
      in if insufficient then page_alert ''browser.insufficientDiskSpace'' s1 else start_batch signed base s1)"

text \<open>A transfer answers, with a review number when it is queued, or throws.\<close>

datatype transfer_outcome = TransferAnswer bool bool | TransferError

fun outcome_ok :: "transfer_outcome \<Rightarrow> bool" where
  "outcome_ok (TransferAnswer ok review) = ok"
| "outcome_ok TransferError = False"

fun outcome_review :: "transfer_outcome \<Rightarrow> bool" where
  "outcome_review (TransferAnswer ok review) = review"
| "outcome_review TransferError = False"

definition file_settled :: "nat \<Rightarrow> upload_batch \<Rightarrow> transfer_outcome \<Rightarrow> upload_page \<Rightarrow> upload_page" where
  "file_settled k b outcome s =
     (let b1 = file_done (hd (ba_queue b)) (outcome_ok outcome) (outcome_review outcome) b
      in continue_batch k (next_files (up_checksum s) (ba_queue b1) b1) s)"

definition percent_of :: "nat \<Rightarrow> nat \<Rightarrow> nat" where
  "percent_of loaded total' = (200 * loaded + total') div (2 * total')"

definition applyProgress :: "nat \<Rightarrow> nat \<Rightarrow> upload_batch \<Rightarrow> upload_batch" where
  "applyProgress loaded total' b =
     (let all = sum_list (map pf_size (ba_files b))
      in if 0 < total' \<and> 1 < length (ba_files b) \<and> 0 < all
         then b\<lparr>ba_percent := min 100 (percent_of (ba_bytes b + loaded) all)\<rparr> else b)"

definition scheduleGPGDirectoryRefresh :: "ustring \<Rightarrow> nat \<Rightarrow> upload_page \<Rightarrow> upload_page" where
  "scheduleGPGDirectoryRefresh path attempt s =
     (if 3 \<le> attempt then s else s\<lparr>up_refresh := up_refresh s @ [(path, attempt)]\<rparr>)"

definition refresh_elapsed :: "nat \<Rightarrow> upload_page \<Rightarrow> upload_page" where
  "refresh_elapsed k s =
     (let (path, attempt) = up_refresh s ! k; s1 = s\<lparr>up_refresh := splice_at k (up_refresh s)\<rparr>
      in if up_path s \<noteq> path \<or> up_uploading s then s1
         else scheduleGPGDirectoryRefresh path (attempt + 1) (s1\<lparr>up_loads := path # up_loads s1\<rparr>))"

datatype upload_event =
    FilesAdded "pending_file list"
  | RemoveClicked nat
  | RemovalEnded nat
  | ClearClicked
  | ClearElapsed
  | UploadClicked
  | ClickChecked nat "(int \<times> int) option" headers
  | ListChecked "(int \<times> int) option"
  | TransferProgress nat nat nat
  | TransferSettled nat transfer_outcome
  | PomSettled nat "bool option"
  | ZoneAsked ustring
  | ZoneSettled nat "zone_details option" auth
  | ChecksumToggled bool
  | PomToggled bool
  | PomEdited "ustring \<times> ustring \<times> ustring"
  | DestinationEdited ustring
  | Navigated ustring
  | RefreshElapsed nat
  | LanguageChanged

fun upload_step :: "upload_page \<Rightarrow> upload_event \<Rightarrow> upload_page option" where
  "upload_step s (FilesAdded fs) = (if fs = [] then None else Some (addPendingFiles fs s))"
| "upload_step s (RemoveClicked i) = Some (onRemoveHandler i s)"
| "upload_step s (RemovalEnded k) = (if k < length (up_removals s) then Some (removal_cleanup k s) else None)"
| "upload_step s ClearClicked = Some (clear_clicked s)"
| "upload_step s ClearElapsed =
     (if 0 < up_clearing s then Some (renderPendingFiles (s\<lparr>up_clearing := up_clearing s - 1, up_pending := []\<rparr>)) else None)"
| "upload_step s UploadClicked = (if up_disabled s then None else Some (upload_clicked s))"
| "upload_step s (ClickChecked k disk base) =
     (if k < length (up_clicks s)
      then case up_clicks s ! k of None \<Rightarrow> None | Some signed \<Rightarrow> Some (click_checked k disk base signed s) else None)"
| "upload_step s (ListChecked disk) =
     (if 0 < up_checks s then Some (snd (updateUploadSpaceCheck disk (s\<lparr>up_checks := up_checks s - 1\<rparr>))) else None)"
| "upload_step s (TransferProgress k loaded total') =
     (if k < length (up_batches s)
      then case up_batches s ! k of
          None \<Rightarrow> None
        | Some b \<Rightarrow> if ba_sent b = None then None else Some (s\<lparr>up_batches := (up_batches s)[k := Some (applyProgress loaded total' b)]\<rparr>)
      else None)"
| "upload_step s (TransferSettled k outcome) =
     (if k < length (up_batches s)
      then case up_batches s ! k of None \<Rightarrow> None | Some b \<Rightarrow> if ba_sent b = None then None else Some (file_settled k b outcome s)
      else None)"
| "upload_step s (PomSettled k answer) =
     (if k < length (up_batches s)
      then case up_batches s ! k of
          None \<Rightarrow> None
        | Some b \<Rightarrow>
            if \<not> ba_pom b then None
            else Some (finish_batch k (if answer = Some False then b\<lparr>ba_alerts := (''browser.failedGenPom'', []) # ba_alerts b\<rparr> else b) s)
      else None)"
| "upload_step s (ZoneAsked path) = Some (updateUploadZone path s)"
| "upload_step s (ZoneSettled i details session) =
     (if i < length (up_zones s)
      then case up_zones s ! i of
          None \<Rightarrow> None
        | Some (parts, seq) \<Rightarrow> Some (zone_settled parts seq details session (s\<lparr>up_zones := (up_zones s)[i := None]\<rparr>))
      else None)"
| "upload_step s (ChecksumToggled b) = (if up_checksum_hidden s then None else Some (s\<lparr>up_checksum := b\<rparr>))"
| "upload_step s (PomToggled b) = (if up_pom_hidden s then None else Some (s\<lparr>up_pom := b, up_pom_open := b\<rparr>))"
| "upload_step s (PomEdited gav) = Some (s\<lparr>up_pom_fields := gav\<rparr>)"
| "upload_step s (DestinationEdited dest) = Some (s\<lparr>up_dest := dest\<rparr>)"
| "upload_step s (Navigated path) = Some (s\<lparr>up_path := path\<rparr>)"
| "upload_step s (RefreshElapsed k) = (if k < length (up_refresh s) then Some (refresh_elapsed k s) else None)"
| "upload_step s LanguageChanged = Some (if up_pending s = [] then s else renderPendingFiles s)"

definition fresh_upload :: "ustring \<Rightarrow> upload_page" where
  "fresh_upload path = \<lparr>up_pending = [], up_uploading = False, up_disabled = False, up_warning = False, up_requires_gpg = False,
     up_checksum = False, up_checksum_hidden = False, up_pom = False, up_pom_hidden = False, up_pom_open = False, up_pom_fields = ([], [], []),
     up_dest = [], up_path = path, up_panel = False, up_policy = 0, up_zones = [], up_removals = [], up_clearing = 0, up_checks = 0,
     up_clicks = [], up_batches = [], up_alerts = [], up_refresh = [], up_loads = [], up_zone = [], up_ended = []\<rparr>"

section \<open>A batch sends every file once, signatures last\<close>

lemma insert_by_multiset [simp]: "mset (insert_by cmp x ys) = add_mset x (mset ys)"
  by (induction ys) auto

lemma queue_multiset: "mset (uploadQueue fs) = mset fs"
  by (induction fs) (simp_all add: uploadQueue_def js_sort_def)

lemma queue_signatures_last: "sorted_wrt (\<lambda>f g. isGPGDetachedSignature (pf_name f) \<longrightarrow> isGPGDetachedSignature (pf_name g)) (uploadQueue fs)"
proof -
  have "sorted_wrt (\<lambda>f g. signature_order f g \<le> 0) (uploadQueue fs)"
    unfolding uploadQueue_def by (rule js_sort_sorted) (auto simp: signature_order_def of_bool_def)
  then show ?thesis by (rule sorted_wrt_mono_rel [rotated]) (auto simp: signature_order_def of_bool_def split: if_splits)
qed

text \<open>\<open>batch_ok\<close> is what the loop keeps; \<open>batch_waits\<close> says that a batch between events waits for a transfer or has none left.\<close>

definition result_ok :: "upload_batch \<Rightarrow> pending_file \<times> transfer option \<times> bool \<Rightarrow> bool" where
  "result_ok b r \<longleftrightarrow> (\<exists>checksums. fst (snd r) = file_transfer checksums b (fst r)) \<and> (snd (snd r) \<longrightarrow> fst (snd r) \<noteq> None)"

definition batch_ok :: "upload_batch \<Rightarrow> bool" where
  "batch_ok b \<longleftrightarrow> map fst (ba_results b) @ ba_queue b = uploadQueue (ba_files b)
     \<and> ba_completed b = length (ba_results b) \<and> ba_bytes b = sum_list (map (pf_size \<circ> fst) (ba_results b)) \<and> ba_percent b \<le> 100
     \<and> (ba_pom b \<longrightarrow> ba_queue b = []) \<and> (\<forall>r \<in> set (ba_results b). result_ok b r)"

definition batch_waits :: "upload_batch \<Rightarrow> bool" where
  "batch_waits b \<longleftrightarrow>
     (case ba_sent b of None \<Rightarrow> ba_queue b = [] | Some tf \<Rightarrow> \<exists>f fs checksums. ba_queue b = f # fs \<and> file_transfer checksums b f = Some tf)"

definition upload_inv :: "upload_page \<Rightarrow> bool" where
  "upload_inv s \<longleftrightarrow> (\<forall>b. Some b \<in> set (up_batches s) \<longrightarrow> batch_ok b \<and> batch_waits b)
     \<and> (\<forall>b \<in> set (up_ended s). batch_ok b \<and> ba_queue b = [])"

lemma file_transfer_updates [simp]:
  "file_transfer ck (b\<lparr>ba_sent := x\<rparr>) f = file_transfer ck b f" "file_transfer ck (b\<lparr>ba_alerts := y\<rparr>) f = file_transfer ck b f"
  "file_transfer ck (b\<lparr>ba_pom := p\<rparr>) f = file_transfer ck b f" "file_transfer ck (b\<lparr>ba_percent := n\<rparr>) f = file_transfer ck b f"
  "file_transfer ck (file_done g ok review b) f = file_transfer ck b f"
  by (simp_all add: file_transfer_def signature_expected_def file_done_def Let_def split: option.split)

lemma batch_ok_updates [simp]:
  "batch_ok (b\<lparr>ba_sent := x\<rparr>) = batch_ok b" "batch_ok (b\<lparr>ba_alerts := y\<rparr>) = batch_ok b"
  "ba_queue b = [] \<Longrightarrow> batch_ok (b\<lparr>ba_pom := p\<rparr>) = batch_ok b"
  by (simp_all add: batch_ok_def result_ok_def)

lemma progress_ok: "batch_ok b \<Longrightarrow> batch_ok (applyProgress loaded total' b)"
  by (simp add: batch_ok_def result_ok_def applyProgress_def Let_def)

lemma progress_waits: "batch_waits (applyProgress loaded total' b) = batch_waits b"
  by (simp add: batch_waits_def applyProgress_def Let_def split: option.splits)

lemma file_done_ok:
  assumes "batch_ok b" "ba_queue b = f # fs" "ba_sent b = None \<longrightarrow> \<not> ok" "\<exists>checksums. ba_sent b = file_transfer checksums b f"
  shows "batch_ok (file_done f ok review b)"
proof -
  have r: "result_ok (file_done f ok review b) r = result_ok b r" for r by (simp add: result_ok_def)
  have "result_ok b (f, ba_sent b, ok)" using assms(3,4) by (auto simp: result_ok_def simp del: not_None_eq)
  with assms show ?thesis unfolding batch_ok_def r by (auto simp: file_done_def batch_ok_def)
qed

lemma file_done_queue [simp]: "ba_queue (file_done f ok review b) = tl (ba_queue b)" "ba_sent (file_done f ok review b) = None"
  by (simp_all add: file_done_def)

lemma next_files_ok: "batch_ok b \<Longrightarrow> ba_queue b = fs \<Longrightarrow> ba_sent b = None \<Longrightarrow> batch_ok (next_files ck fs b) \<and> batch_waits (next_files ck fs b)"
proof (induction fs arbitrary: b)
  case (Cons f fs)
  show ?case
  proof (cases "file_transfer ck b f")
    case None
    have "batch_ok (file_done f False False b)"
      by (rule file_done_ok) (use Cons.prems None in \<open>auto intro!: exI [of _ ck]\<close>)
    with Cons.IH [of "file_done f False False b"] Cons.prems None show ?thesis by simp
  next
    case (Some tf)
    with Cons.prems show ?thesis by (auto simp: batch_waits_def)
  qed
qed (simp add: batch_waits_def)

lemma upload_inv_cong: "up_batches t = up_batches s \<Longrightarrow> up_ended t = up_ended s \<Longrightarrow> upload_inv t = upload_inv s"
  by (simp add: upload_inv_def)

lemma upload_inv_batch: "upload_inv s \<Longrightarrow> batch_ok b \<Longrightarrow> batch_waits b \<Longrightarrow> upload_inv (s\<lparr>up_batches := (up_batches s)[k := Some b]\<rparr>)"
  by (auto simp: upload_inv_def dest: set_update_subset_insert [THEN subsetD])

lemma batch_finish_inv: "upload_inv s \<Longrightarrow> batch_ok b \<Longrightarrow> ba_queue b = [] \<Longrightarrow> upload_inv (finish_batch k b s)"
  by (auto simp: upload_inv_def finish_batch_def Let_def renderPendingFiles_def setUploadBusy_def
      dest: set_update_subset_insert [THEN subsetD])

lemma batch_continue_inv: "upload_inv s \<Longrightarrow> batch_ok b \<Longrightarrow> batch_waits b \<Longrightarrow> upload_inv (continue_batch k b s)"
  by (auto simp: continue_batch_def batch_waits_def intro!: batch_finish_inv upload_inv_batch split: option.splits)

lemma batch_start_inv: "upload_inv s \<Longrightarrow> upload_inv (start_batch signed base s)"
proof (cases "path_parts (up_path s)")
  case (Cons segment rest)
  assume inv: "upload_inv s"
  define b where "b = new_batch signed base segment s"
  define b' where "b' = next_files (up_checksum s) (ba_queue b) b"
  have "batch_ok b" "ba_sent b = None" by (simp_all add: b_def new_batch_def batch_ok_def)
  then have ok: "batch_ok b'" "batch_waits b'" unfolding b'_def using next_files_ok by blast+
  have "continue_batch (length (up_batches s)) b' (s\<lparr>up_uploading := True, up_batches := up_batches s @ [Some b], up_disabled := True\<rparr>)
      = continue_batch (length (up_batches s)) b' (s\<lparr>up_uploading := True, up_batches := up_batches s @ [Some b'], up_disabled := True\<rparr>)"
    by (simp add: continue_batch_def finish_batch_def renderPendingFiles_def setUploadBusy_def Let_def)
  also have "upload_inv \<dots>" by (rule batch_continue_inv) (use inv ok in \<open>auto simp: upload_inv_def\<close>)
  finally show ?thesis using Cons by (simp add: start_batch_def b_def b'_def setUploadBusy_def Let_def)
qed (simp add: start_batch_def)

lemma space_check_fields [simp]:
  "up_batches (snd (updateUploadSpaceCheck disk s)) = up_batches s" "up_ended (snd (updateUploadSpaceCheck disk s)) = up_ended s"
  by (simp_all add: updateUploadSpaceCheck_def Let_def split: option.splits prod.splits)

lemma click_checked_inv:
  assumes "upload_inv s"
  shows "upload_inv (click_checked k disk base signed s)"
proof -
  obtain insufficient t where t: "updateUploadSpaceCheck disk (s\<lparr>up_clicks := (up_clicks s)[k := None]\<rparr>) = (insufficient, t)" by fastforce
  with space_check_fields [of disk "s\<lparr>up_clicks := (up_clicks s)[k := None]\<rparr>"] have "upload_inv t"
    using assms upload_inv_cong [of t s] by simp
  with t show ?thesis
    by (simp add: click_checked_def Let_def batch_start_inv page_alert_def upload_inv_cong [of "t\<lparr>up_alerts := _\<rparr>" t])
qed

lemma file_settled_inv:
  assumes "upload_inv s" "Some b \<in> set (up_batches s)" "ba_sent b \<noteq> None"
  shows "upload_inv (file_settled k b outcome s)"
proof -
  from assms obtain f fs tf ck where b: "batch_ok b" "ba_queue b = f # fs" "ba_sent b = Some tf" "file_transfer ck b f = Some tf"
    by (fastforce simp: upload_inv_def batch_waits_def split: option.splits)
  have "batch_ok (file_done f (outcome_ok outcome) (outcome_review outcome) b)"
    by (rule file_done_ok) (use b in \<open>auto intro!: exI [of _ ck]\<close>)
  with next_files_ok [OF this _ file_done_queue(2), of fs "up_checksum s"] assms(1) b(2) show ?thesis
    by (simp add: file_settled_def Let_def batch_continue_inv)
qed

text \<open>The events that leave the batches alone.\<close>

definition batches_of :: "upload_page \<Rightarrow> upload_batch option list \<times> upload_batch list" where
  "batches_of s = (up_batches s, up_ended s)"

lemma batches_of_simps [simp]:
  "batches_of (renderPendingFiles s) = batches_of s" "batches_of (addPendingFiles fs s) = batches_of s"
  "batches_of (onRemoveHandler i s) = batches_of s" "batches_of (removal_cleanup k s) = batches_of s"
  "batches_of (clear_clicked s) = batches_of s" "batches_of (upload_clicked s) = batches_of s"
  "batches_of (updateUploadZone path s) = batches_of s" "batches_of (setUploadPanelOpen opn s) = batches_of s"
  "batches_of (applyRepositoryGPGPolicy r h s) = batches_of s" "batches_of (scheduleGPGDirectoryRefresh path n s) = batches_of s"
  by (simp_all add: batches_of_def renderPendingFiles_def addPendingFiles_def onRemoveHandler_def removal_cleanup_def clear_clicked_def
      upload_clicked_def updateUploadZone_def setUploadPanelOpen_def applyRepositoryGPGPolicy_def scheduleGPGDirectoryRefresh_def
      page_alert_def Let_def split: option.split)

lemma zone_settled_batches [simp]: "batches_of (zone_settled parts seq details session s) = batches_of s"
  by (simp add: zone_settled_def split: option.split) (simp add: batches_of_def setUploadPanelOpen_def applyRepositoryGPGPolicy_def)

lemma refresh_batches [simp]: "batches_of (refresh_elapsed k s) = batches_of s"
  by (simp add: refresh_elapsed_def Let_def split: prod.split) (simp add: batches_of_def)

lemma upload_inv_batches: "batches_of t = batches_of s \<Longrightarrow> upload_inv t = upload_inv s"
  by (simp add: batches_of_def upload_inv_def)

fun batch_event :: "upload_event \<Rightarrow> bool" where
  "batch_event (ClickChecked k disk base) = True"
| "batch_event (TransferProgress k loaded total') = True"
| "batch_event (TransferSettled k outcome) = True"
| "batch_event (PomSettled k answer) = True"
| "batch_event e = False"

lemma other_event_batches: "\<not> batch_event e \<Longrightarrow> upload_step s e = Some t \<Longrightarrow> batches_of t = batches_of s"
  by (cases e) (auto split: if_splits option.splits, auto simp: batches_of_def)

lemma pom_batch: "upload_inv s \<Longrightarrow> Some b \<in> set (up_batches s) \<Longrightarrow> ba_pom b \<Longrightarrow> batch_ok b \<and> ba_queue b = []"
  by (auto simp: upload_inv_def) (auto simp: batch_ok_def)

interpretation upload_machine: machine_invariant upload_step upload_inv
proof
  fix s e t assume inv: "upload_inv s" and step: "upload_step s e = Some t"
  show "upload_inv t"
  proof (cases "batch_event e")
    case False
    with inv step show ?thesis using other_event_batches upload_inv_batches by blast
  next
    case True
    have slot: "Some b \<in> set (up_batches s)" if "k < length (up_batches s)" "up_batches s ! k = Some b" for k b
      using that by (metis nth_mem)
    from True show ?thesis
    proof (cases e)
      case (TransferProgress k loaded total')
      with step inv slot show ?thesis
        by (auto split: if_splits option.splits intro!: upload_inv_batch progress_ok simp: progress_waits) (auto simp: upload_inv_def)
    next
      case (TransferSettled k outcome)
      with step inv slot show ?thesis by (auto split: if_splits option.splits intro!: file_settled_inv)
    next
      case (PomSettled k answer)
      with step obtain b where b: "k < length (up_batches s)" "up_batches s ! k = Some b" "ba_pom b"
        and t: "t = finish_batch k (if answer = Some False then b\<lparr>ba_alerts := (''browser.failedGenPom'', []) # ba_alerts b\<rparr> else b) s"
        by (auto split: if_splits option.splits)
      from pom_batch [OF inv slot [OF b(1,2)] b(3)] inv show ?thesis unfolding t by (intro batch_finish_inv) simp_all
    qed (use step inv in \<open>auto simp: click_checked_inv split: if_splits option.splits\<close>)
  qed
qed

lemma fresh_upload_inv: "upload_inv (fresh_upload path)"
  by (simp add: upload_inv_def fresh_upload_def)



section \<open>Both kinds of transfer address the same file\<close>

lemma path_parts_slash [simp]: "path_parts (47 # p) = path_parts p"
  by (simp add: path_parts_def)

lemma path_parts_sep: "path_parts (p @ 47 # q) = path_parts p @ path_parts q"
  by (simp add: path_parts_def js_split_append_sep)

lemma path_parts_nil [simp]: "path_parts [] = []"
  by (simp add: path_parts_def)

lemma collapse_split:
  "hd (js_split 47 (collapse_slashes p)) = hd (js_split 47 p)
   \<and> filter (\<lambda>part. 0 < length part) (tl (js_split 47 (collapse_slashes p))) = filter (\<lambda>part. 0 < length part) (tl (js_split 47 p))"
proof (induction p rule: collapse_slashes.induct)
  case (1 c d r)
  obtain h ts where s: "js_split 47 (d # r) = h # ts" by (meson js_split_nonempty neq_Nil_conv)
  obtain h' ts' where s': "js_split 47 (collapse_slashes (d # r)) = h' # ts'" by (meson js_split_nonempty neq_Nil_conv)
  show ?case
  proof (cases "c = 47 \<and> d = 47")
    case True
    with 1 show ?thesis by simp
  next
    case False
    with 1(2) s s' show ?thesis
      by (cases "c = 47") (auto simp del: js_split.simps(2) simp: js_split.simps(2) [of _ c] js_split.simps(2) [of 47 47])
  qed
qed simp_all

lemma collapse_parts: "path_parts (collapse_slashes p) = path_parts p"
proof -
  have "path_parts q = filter (\<lambda>part. 0 < length part) [hd (js_split 47 q)] @ filter (\<lambda>part. 0 < length part) (tl (js_split 47 q))" for q
    unfolding path_parts_def by (cases "js_split 47 q") auto
  with collapse_split [of p] show ?thesis by metis
qed

lemma collapse_Cons: "\<exists>q. collapse_slashes (d # r) = d # q"
  by (induction r arbitrary: d) auto

lemma collapse_head: "startsWith (collapse_slashes p) [47] \<Longrightarrow> \<not> startsWith (tl (collapse_slashes p)) [47]"
proof (induction p rule: collapse_slashes.induct)
  case (1 c d r)
  with collapse_Cons [of d r] show ?case by (auto simp: startsWith_def split: if_splits)
qed (auto simp: startsWith_def)

lemma dest_parts: "path_parts (relativeDest dest name) = path_parts dest @ path_parts name"
proof -
  define d where "d = (if startsWith dest [47] then tl dest else dest)"
  have d: "path_parts d = path_parts dest"
    by (cases dest) (simp_all add: d_def startsWith_def)
  show ?thesis
  proof (cases "endsWith d [47]")
    case True
    then obtain e where e: "d = e @ [47]" by (auto simp: endsWith_def elim: suffixE)
    with True d path_parts_sep [of e name] path_parts_sep [of e "[]"] show ?thesis
      by (simp add: relativeDest_def cleanDest_def ustr_def d_def [symmetric])
  next
    case False
    with d path_parts_sep [of d name] show ?thesis
      by (simp add: relativeDest_def cleanDest_def ustr_def d_def [symmetric])
  qed
qed

text \<open>The two kinds of transfer address the same file: whatever slashes the destination field has, the path of a chunked upload and
  the decoded path of a single request have the segments of the destination followed by those of the file name; the former starts with no slash.\<close>

lemma upload_addresses_agree:
  assumes "units_ok dest" "units_ok name"
  shows "path_parts (chunk_path dest name) = path_parts dest @ path_parts name \<and> \<not> startsWith (chunk_path dest name) (ustr ''/'')
    \<and> (\<forall>p. targetPath dest name = Some p \<longrightarrow> map decodePathSegment (path_parts p) = path_parts (chunk_path dest name))"
proof -
  have chunk: "path_parts (chunk_path dest name) = path_parts dest @ path_parts name"
    using collapse_parts [of "relativeDest dest name"] dest_parts [of dest name]
    by (cases "collapse_slashes (relativeDest dest name)") (auto simp: chunk_path_def ustr_def startsWith_def Let_def)
  have slash: "\<not> startsWith (chunk_path dest name) (ustr ''/'')"
    using collapse_head [of "relativeDest dest name"] by (auto simp: chunk_path_def ustr_def Let_def)
  have units: "units_ok (relativeDest dest name)"
    using assms by (cases dest) (auto simp: relativeDest_def cleanDest_def units_ok_def ustr_def startsWith_def Let_def)
  have "map decodePathSegment (path_parts p) = path_parts (relativeDest dest name)" if "targetPath dest name = Some p" for p
    using that path_decodes [OF units] by (auto simp: targetPath_def)
  with chunk slash show ?thesis by (simp add: dest_parts)
qed

lemmas upload_run = addPendingFiles_def renderPendingFiles_def onRemoveHandler_def removal_cleanup_def splice_at_def upload_clicked_def
  click_checked_def updateUploadSpaceCheck_def start_batch_def new_batch_def setUploadBusy_def continue_batch_def finish_batch_def
  file_settled_def file_done_def file_transfer_def signature_expected_def signedArtifactNames_def missingSignatures_def uploadQueue_def
  js_sort_def signature_order_def shouldUseChunkedUpload_def CHUNK_THRESHOLD_def fresh_upload_def Let_def

lemmas upload_eval = upload_run file_headers_def targetPath_def relativeDest_def cleanDest_def isGPGDetachedSignature_def
  isGPGProtectedFile_def lower_def lower_unit_def startsWith_def endsWith_def suffix_to_prefix decodePathSegment_def codec_eval

abbreviation sample_file :: "nat \<Rightarrow> pending_file" where
  "sample_file i \<equiv> \<lparr>pf_id = i, pf_name = [97], pf_size = 1\<rparr>"


section \<open>Races of the window\<close>

text \<open>A removal takes effect by position when its animation ends: removing the first two of three files quickly drops the third and
  keeps the second.\<close>

lemma removal_drops_other:
  "map_option (\<lambda>s. map pf_id (up_pending s)) (run_events upload_step (fresh_upload [])
     [FilesAdded [sample_file 0, sample_file 1, sample_file 2], RemoveClicked 0, RemoveClicked 1, RemovalEnded 0, RemovalEnded 0])
   = Some [1]"
  by (simp add: upload_eval)

text \<open>The busy flag is set only after the space check: a second click during it starts a second batch of the same files.\<close>

lemma double_click_uploads_twice:
  "map_option (\<lambda>s. map (map_option (\<lambda>b. map pf_id (ba_queue b))) (up_batches s)) (run_events upload_step (fresh_upload [47, 109])
     [FilesAdded [sample_file 0], UploadClicked, UploadClicked, ClickChecked 0 None [], ClickChecked 1 None []])
   = Some [Some [0], Some [0]]"
  by (simp add: upload_eval)

text \<open>The end of a batch empties the list: a file added meanwhile is dropped without being sent.\<close>

lemma added_file_lost:
  "map_option (\<lambda>s. (up_pending s, map (map (pf_id \<circ> fst) \<circ> ba_results) (up_ended s))) (run_events upload_step (fresh_upload [47, 109])
     [FilesAdded [sample_file 0], UploadClicked, ClickChecked 0 None [], FilesAdded [sample_file 1], TransferSettled 0 (TransferAnswer True False)])
   = Some ([], [[0]])"
  by (simp add: upload_eval)

end
