(* ===== verification/Markdown.thy ===== *)
theory Markdown
  imports Uri_Codec
begin

text \<open>
  User-written Markdown (\<^verbatim>\<open>js/markdown.js\<close>): package descriptions and legal texts pass an allowlist before they reach the page. The Markdown and HTML
  parsers and the URL parser are parameters. A DOM element has an identity, its tag name as \<^verbatim>\<open>tagName\<close> gives it, its
  attributes and its children; the content of a \<^verbatim>\<open>template\<close> element is not among them.

  \<^verbatim>\<open>sanitizeMarkdownFragment\<close> walks a list of elements taken before the first change while it changes the tree; an element that has
  left the tree with a parent is changed to no effect. \<open>sanitized\<close> says by recursion what this leaves.
\<close>

section \<open>Escaping and addresses\<close>

definition escapeMarkdownHTML :: "ustring \<Rightarrow> ustring" where
  "escapeMarkdownHTML value =
     replace_all (ustr [CHR 0x27]) (ustr ''&#39;'')
       (replace_all (ustr [CHR 0x22]) (ustr ''&quot;'')
         (replace_all (ustr ''>'') (ustr ''&gt;'')
           (replace_all (ustr ''<'') (ustr ''&lt;'')
             (replace_all (ustr ''&'') (ustr ''&amp;'') value))))"

record url_parts =
  url_protocol :: ustring
  url_hostname :: ustring
  url_username :: ustring
  url_password :: ustring
  url_href :: ustring

definition web_url :: "url_parts \<Rightarrow> bool" where
  "web_url u \<longleftrightarrow> (url_protocol u = ustr ''http:'' \<or> url_protocol u = ustr ''https:'') \<and> url_hostname u \<noteq> []
     \<and> url_username u = [] \<and> url_password u = []"

definition safeMarkdownURL :: "(ustring \<Rightarrow> url_parts option) \<Rightarrow> ustring option \<Rightarrow> ustring" where
  "safeMarkdownURL parse value =
     (let raw = utrim (opt_or value [])
      in if raw = [] then []
         else case parse raw of None \<Rightarrow> [] | Some u \<Rightarrow> if web_url u then url_href u else [])"

section \<open>The allowlist\<close>

datatype dom_node =
    DomText ustring
  | DomComment ustring
  | DomElement nat string "(string \<times> ustring) list" "dom_node list"

definition allowedMarkdownElements :: "string list" where
  "allowedMarkdownElements =
     [''A'', ''B'', ''BLOCKQUOTE'', ''BR'', ''CODE'', ''DEL'', ''EM'', ''H1'', ''H2'', ''H3'', ''H4'', ''H5'', ''H6'',
      ''HR'', ''IMG'', ''LI'', ''OL'', ''P'', ''PRE'', ''STRONG'', ''TABLE'', ''TBODY'', ''TD'', ''TH'', ''THEAD'', ''TR'', ''UL'']"

primrec textContent :: "dom_node \<Rightarrow> ustring" where
  "textContent (DomText s) = s"
| "textContent (DomComment s) = []"
| "textContent (DomElement i tag attrs kids) = concat (map textContent kids)"

definition getAttribute :: "(string \<times> ustring) list \<Rightarrow> string \<Rightarrow> ustring" where
  "getAttribute attrs name = opt_or (map_of attrs name) []"

text \<open>\<^verbatim>\<open>/^language-[a-z0-9_-]{1,40}$/i\<close>\<close>

definition language_unit :: "nat \<Rightarrow> bool" where
  "language_unit u \<longleftrightarrow> 97 \<le> u \<and> u \<le> 122 \<or> 65 \<le> u \<and> u \<le> 90 \<or> 48 \<le> u \<and> u \<le> 57 \<or> u = 95 \<or> u = 45"

definition ascii_fold :: "nat \<Rightarrow> nat" where
  "ascii_fold u = (if 65 \<le> u \<and> u \<le> 90 then u + 32 else u)"

definition language_class :: "ustring \<Rightarrow> bool" where
  "language_class c \<longleftrightarrow> map ascii_fold (take 9 c) = ustr ''language-'' \<and> 0 < length (drop 9 c) \<and> length (drop 9 c) \<le> 40
     \<and> list_all language_unit (drop 9 c)"

definition link_attributes :: "ustring \<Rightarrow> ustring \<Rightarrow> (string \<times> ustring) list" where
  "link_attributes href title =
     (if href = [] then []
      else [(''href'', href), (''target'', ustr ''_blank''), (''rel'', ustr ''noopener noreferrer nofollow'')]
           @ (if title = [] then [] else [(''title'', title)]))"

definition image_attributes :: "ustring \<Rightarrow> ustring \<Rightarrow> ustring \<Rightarrow> (string \<times> ustring) list" where
  "image_attributes source alternative title =
     [(''src'', source), (''alt'', alternative), (''loading'', ustr ''lazy''), (''referrerpolicy'', ustr ''no-referrer'')]
     @ (if title = [] then [] else [(''title'', title)])"

definition clean_attributes :: "(ustring \<Rightarrow> url_parts option) \<Rightarrow> string \<Rightarrow> (string \<times> ustring) list \<Rightarrow> (string \<times> ustring) list" where
  "clean_attributes parse tag attrs =
     (let title = take 512 (getAttribute attrs ''title'');
          alternative = take 512 (getAttribute attrs ''alt'')
      in (if tag = ''A'' then link_attributes (safeMarkdownURL parse (map_of attrs ''href'')) title else [])
         @ (if tag = ''IMG'' then image_attributes (safeMarkdownURL parse (map_of attrs ''src'')) alternative title else [])
         @ (if tag = ''CODE'' \<and> language_class (getAttribute attrs ''class'') then [(''class'', getAttribute attrs ''class'')] else []))"

text \<open>The body of the loop on one element.\<close>

definition clean_element :: "(ustring \<Rightarrow> url_parts option) \<Rightarrow> nat \<Rightarrow> string \<Rightarrow> (string \<times> ustring) list \<Rightarrow> dom_node list \<Rightarrow> dom_node" where
  "clean_element parse i tag attrs kids =
     (if tag \<notin> set allowedMarkdownElements then DomText (concat (map textContent kids))
      else if tag = ''IMG'' \<and> safeMarkdownURL parse (map_of attrs ''src'') = [] then DomText (take 512 (getAttribute attrs ''alt''))
      else DomElement i tag (clean_attributes parse tag attrs) kids)"

text \<open>\<^verbatim>\<open>querySelectorAll('*')\<close> lists the elements in document order; \<open>change_element\<close> is the loop body in the tree.\<close>

primrec elements :: "dom_node \<Rightarrow> nat list" where
  "elements (DomText s) = []"
| "elements (DomComment s) = []"
| "elements (DomElement i tag attrs kids) = i # concat (map elements kids)"

primrec change_element :: "(ustring \<Rightarrow> url_parts option) \<Rightarrow> nat \<Rightarrow> dom_node \<Rightarrow> dom_node" where
  "change_element parse j (DomText s) = DomText s"
| "change_element parse j (DomComment s) = DomComment s"
| "change_element parse j (DomElement i tag attrs kids) =
     (if i = j then clean_element parse i tag attrs kids else DomElement i tag attrs (map (change_element parse j) kids))"

definition sanitizeMarkdownFragment :: "(ustring \<Rightarrow> url_parts option) \<Rightarrow> dom_node list \<Rightarrow> dom_node list" where
  "sanitizeMarkdownFragment parse fragment =
     fold (\<lambda>j. map (change_element parse j)) (concat (map elements fragment)) fragment"

text \<open>\<open>parse_html\<close> is the Markdown parser with the inert HTML parser behind it; the first argument is the renderer of raw HTML.\<close>

definition setSafeMarkdown ::
  "(ustring \<Rightarrow> url_parts option) \<Rightarrow> ((ustring \<Rightarrow> ustring) \<Rightarrow> ustring \<Rightarrow> dom_node list) \<Rightarrow> ustring option \<Rightarrow> dom_node list" where
  "setSafeMarkdown parse parse_html source = sanitizeMarkdownFragment parse (parse_html escapeMarkdownHTML (opt_or source []))"

section \<open>The loop computes the recursive sanitizer\<close>

primrec sanitized :: "(ustring \<Rightarrow> url_parts option) \<Rightarrow> dom_node \<Rightarrow> dom_node" where
  "sanitized parse (DomText s) = DomText s"
| "sanitized parse (DomComment s) = DomComment s"
| "sanitized parse (DomElement i tag attrs kids) =
     (let clean = map (sanitized parse) kids in
      case clean_element parse i tag attrs kids of
        DomElement j tag' attrs' kids' \<Rightarrow> DomElement j tag' attrs' clean
      | replacement \<Rightarrow> replacement)"

lemma fold_map: "fold (\<lambda>j. map (f j)) js xs = map (fold f js) xs"
  by (induction js arbitrary: xs) (simp_all add: comp_def)

lemma fold_text [simp]: "fold (change_element parse) js (DomText s) = DomText s"
  by (induction js) simp_all

lemma fold_other: "i \<notin> set js \<Longrightarrow> fold (change_element parse) js (DomElement i tag attrs kids) = DomElement i tag attrs (map (fold (change_element parse) js) kids)"
  by (induction js arbitrary: kids) (auto simp: comp_def)

lemma change_absent: "j \<notin> set (elements n) \<Longrightarrow> change_element parse j n = n"
  by (induction n) (auto simp: map_idI)

lemma fold_absent: "set js \<inter> set (elements n) = {} \<Longrightarrow> fold (change_element parse) js n = n"
  by (induction js) (auto simp: change_absent)

lemma sanitized_elements: "set (elements (sanitized parse n)) \<subseteq> set (elements n)"
proof (induction n)
  case (DomElement i tag attrs kids)
  then show ?case by (simp add: clean_element_def) blast
qed simp_all

lemma distinct_kid: "distinct (concat (map elements ks)) \<Longrightarrow> k \<in> set ks \<Longrightarrow> distinct (elements k)"
  by (auto dest!: split_list)

text \<open>Changes of other subtrees pass a subtree by.\<close>

lemma fold_forest:
  assumes "distinct (concat (map elements ks))" "k \<in> set ks" "fold (change_element parse) (elements k) k = sanitized parse k"
  shows "fold (change_element parse) (concat (map elements ks)) k = sanitized parse k"
proof -
  from assms(2) obtain xs ys where ks: "ks = xs @ k # ys" by (meson split_list)
  let ?A = "concat (map elements xs)" and ?B = "concat (map elements ys)"
  from assms(1) ks have "set ?A \<inter> set (elements k) = {}" "set ?B \<inter> set (elements k) = {}" by auto
  then have "set ?A \<inter> set (elements k) = {}" "set ?B \<inter> set (elements (sanitized parse k)) = {}"
    using sanitized_elements [of parse k] by auto
  then have "fold (change_element parse) ?A k = k"
      "fold (change_element parse) ?B (sanitized parse k) = sanitized parse k"
    by (simp_all add: fold_absent)
  with assms(3) ks show ?thesis by simp
qed

lemma fold_sanitizes: "distinct (elements n) \<Longrightarrow> fold (change_element parse) (elements n) n = sanitized parse n"
proof (induction n)
  case (DomElement i tag attrs kids)
  have "fold (change_element parse) (concat (map elements kids)) k = sanitized parse k" if "k \<in> set kids" for k
    using DomElement.prems that by (intro fold_forest DomElement.IH distinct_kid [of kids k]) auto
  with DomElement.prems show ?case by (auto simp: clean_element_def fold_other)
qed simp_all

lemma loop_recursive:
  assumes "distinct (concat (map elements fragment))"
  shows "sanitizeMarkdownFragment parse fragment = map (sanitized parse) fragment"
proof -
  have "fold (change_element parse) (concat (map elements fragment)) k = sanitized parse k" if "k \<in> set fragment" for k
    using assms that by (intro fold_forest fold_sanitizes distinct_kid [of fragment k])
  then show ?thesis by (simp add: sanitizeMarkdownFragment_def fold_map)
qed

text \<open>C36: the loop over the list of elements, which replaces and edits nodes of the tree it walks, gives what the recursive sanitizer gives on
  every node of the fragment, as DOM elements are distinct objects: no element is skipped because the tree changed under the loop.\<close>

theorem markdown_loop_recursive:
  assumes "distinct (concat (map elements fragment))"
  shows "sanitizeMarkdownFragment parse fragment = map (sanitized parse) fragment"
  using assms by (rule loop_recursive)

abbreviation sample_tree :: "dom_node list" where
  "sample_tree \<equiv> [DomElement 0 ''P'' [(''onclick'', [120])] [DomElement 1 ''SPAN'' [] [DomElement 2 ''B'' [] [DomText [97]]], DomElement 3 ''B'' [] []]]"

theorem markdown_loop_recursive_witness:
  "sanitizeMarkdownFragment (\<lambda>_. None) sample_tree = [DomElement 0 ''P'' [] [DomText [97], DomElement 3 ''B'' [] []]]"
proof -
  have "distinct (concat (map elements sample_tree))" by simp
  from markdown_loop_recursive [OF this, of "\<lambda>_. None"] show ?thesis
    by (simp add: clean_element_def clean_attributes_def allowedMarkdownElements_def)
qed

section \<open>What reaches the page is safe\<close>

primrec subnodes :: "dom_node \<Rightarrow> dom_node list" where
  "subnodes (DomText s) = [DomText s]"
| "subnodes (DomComment s) = [DomComment s]"
| "subnodes (DomElement i tag attrs kids) = DomElement i tag attrs kids # concat (map subnodes kids)"

text \<open>The contract of an attribute; an address is the normal form of an absolute HTTP or HTTPS address without credentials.\<close>

definition web_address :: "(ustring \<Rightarrow> url_parts option) \<Rightarrow> ustring \<Rightarrow> bool" where
  "web_address parse value \<longleftrightarrow> (\<exists>raw u. parse raw = Some u \<and> web_url u \<and> value = url_href u)"

definition attribute_ok :: "(ustring \<Rightarrow> url_parts option) \<Rightarrow> string \<Rightarrow> string \<Rightarrow> ustring \<Rightarrow> bool" where
  "attribute_ok parse tag name value \<longleftrightarrow>
     (if name = ''href'' then tag = ''A'' \<and> web_address parse value
      else if name = ''src'' then tag = ''IMG'' \<and> web_address parse value
      else if name = ''title'' \<or> name = ''alt'' then length value \<le> 512
      else if name = ''class'' then tag = ''CODE'' \<and> language_class value
      else name = ''target'' \<or> name = ''rel'' \<or> name = ''loading'' \<or> name = ''referrerpolicy'')"

definition element_ok :: "(ustring \<Rightarrow> url_parts option) \<Rightarrow> dom_node \<Rightarrow> bool" where
  "element_ok parse n \<longleftrightarrow>
     (case n of
        DomElement i tag attrs kids \<Rightarrow>
          tag \<in> set allowedMarkdownElements \<and> distinct (map fst attrs) \<and> (\<forall>(name, value) \<in> set attrs. attribute_ok parse tag name value)
        \<and> (''href'' \<in> fst ` set attrs \<longrightarrow> (''rel'', ustr ''noopener noreferrer nofollow'') \<in> set attrs)
        \<and> (tag = ''IMG'' \<longrightarrow> ''src'' \<in> fst ` set attrs)
      | _ \<Rightarrow> True)"

lemma safeMarkdownURL_ok: "safeMarkdownURL parse value \<noteq> [] \<Longrightarrow> web_address parse (safeMarkdownURL parse value)"
  by (auto simp: safeMarkdownURL_def web_address_def Let_def split: option.splits if_splits)

lemma link_attributes_ok:
  "href \<noteq> [] \<longrightarrow> web_address parse href \<Longrightarrow> length title \<le> 512 \<Longrightarrow> (name, value) \<in> set (link_attributes href title) \<Longrightarrow>
     attribute_ok parse ''A'' name value"
  by (auto simp: link_attributes_def attribute_ok_def split: if_splits)

lemma image_attributes_ok:
  "web_address parse source \<Longrightarrow> length title \<le> 512 \<Longrightarrow> length alternative \<le> 512 \<Longrightarrow>
     (name, value) \<in> set (image_attributes source alternative title) \<Longrightarrow> attribute_ok parse ''IMG'' name value"
  by (auto simp: image_attributes_def attribute_ok_def split: if_splits)

lemma code_attributes_ok: "language_class value \<Longrightarrow> attribute_ok parse ''CODE'' ''class'' value"
  by (simp add: attribute_ok_def)

lemma clean_attributes_ok:
  assumes "(name, value) \<in> set (clean_attributes parse tag attrs)" "tag = ''IMG'' \<longrightarrow> safeMarkdownURL parse (map_of attrs ''src'') \<noteq> []"
  shows "attribute_ok parse tag name value"
proof -
  consider "tag = ''A''" "(name, value) \<in> set (link_attributes (safeMarkdownURL parse (map_of attrs ''href'')) (take 512 (getAttribute attrs ''title'')))"
    | "tag = ''IMG''" "(name, value) \<in> set (image_attributes (safeMarkdownURL parse (map_of attrs ''src'')) (take 512 (getAttribute attrs ''alt''))
         (take 512 (getAttribute attrs ''title'')))"
    | "tag = ''CODE''" "name = ''class''" "value = getAttribute attrs ''class''" "language_class (getAttribute attrs ''class'')"
    using assms(1) by (cases "tag = ''A''"; cases "tag = ''IMG''"; cases "tag = ''CODE''") (auto simp: clean_attributes_def Let_def split: if_splits)
  then show ?thesis
  proof cases
    case 1
    show ?thesis unfolding 1(1) by (rule link_attributes_ok [OF _ _ 1(2)]) (simp_all add: safeMarkdownURL_ok)
  next
    case 2
    show ?thesis unfolding 2(1) by (rule image_attributes_ok [OF _ _ _ 2(2)]) (use 2(1) assms(2) in \<open>simp_all add: safeMarkdownURL_ok\<close>)
  next
    case 3
    then show ?thesis by (simp add: code_attributes_ok)
  qed
qed

lemma link_attributes_shape:
  "distinct (map fst (link_attributes href title))"
  "''href'' \<in> fst ` set (link_attributes href title) \<longrightarrow> (''rel'', ustr ''noopener noreferrer nofollow'') \<in> set (link_attributes href title)"
  by (simp_all add: link_attributes_def)

lemma image_attributes_shape:
  "distinct (map fst (image_attributes source alternative title))" "''href'' \<notin> fst ` set (image_attributes source alternative title)"
  "''src'' \<in> fst ` set (image_attributes source alternative title)"
  by (simp_all add: image_attributes_def)

lemma clean_attributes_cases:
  "clean_attributes parse ''A'' attrs = link_attributes (safeMarkdownURL parse (map_of attrs ''href'')) (take 512 (getAttribute attrs ''title''))"
  "clean_attributes parse ''IMG'' attrs = image_attributes (safeMarkdownURL parse (map_of attrs ''src''))
     (take 512 (getAttribute attrs ''alt'')) (take 512 (getAttribute attrs ''title''))"
  "tag \<noteq> ''A'' \<Longrightarrow> tag \<noteq> ''IMG'' \<Longrightarrow> clean_attributes parse tag attrs =
     (if tag = ''CODE'' \<and> language_class (getAttribute attrs ''class'') then [(''class'', getAttribute attrs ''class'')] else [])"
  by (simp_all add: clean_attributes_def Let_def)

lemma clean_attributes_shape:
  "distinct (map fst (clean_attributes parse tag attrs))
   \<and> (''href'' \<in> fst ` set (clean_attributes parse tag attrs) \<longrightarrow>
        (''rel'', ustr ''noopener noreferrer nofollow'') \<in> set (clean_attributes parse tag attrs))
   \<and> (tag = ''IMG'' \<longrightarrow> ''src'' \<in> fst ` set (clean_attributes parse tag attrs))"
proof -
  consider "tag = ''A''" | "tag = ''IMG''" | "tag \<noteq> ''A''" "tag \<noteq> ''IMG''" by blast
  then show ?thesis
  proof cases
    case 1
    then show ?thesis using link_attributes_shape unfolding 1 clean_attributes_cases by simp
  next
    case 2
    then show ?thesis using image_attributes_shape unfolding 2 clean_attributes_cases by simp
  next
    case 3
    then show ?thesis
      by (cases "tag = ''CODE'' \<and> language_class (getAttribute attrs ''class'')") (auto simp: clean_attributes_cases)
  qed
qed

lemma element_ok_simps [simp]:
  "element_ok parse (DomText t)" "element_ok parse (DomComment t)"
  "element_ok parse (DomElement i tag attrs (map f kids)) = element_ok parse (DomElement i tag attrs kids)"
  by (simp_all add: element_ok_def)

lemma sanitized_ok: "n' \<in> set (subnodes (sanitized parse n)) \<Longrightarrow> element_ok parse n'"
proof (induction n)
  case (DomElement i tag attrs kids)
  have "element_ok parse (DomElement i tag (clean_attributes parse tag attrs) kids)"
    if "tag \<in> set allowedMarkdownElements" "\<not> (tag = ''IMG'' \<and> safeMarkdownURL parse (map_of attrs ''src'') = [])"
    using that clean_attributes_shape [of parse tag attrs] clean_attributes_ok [of _ _ parse tag attrs] by (auto simp: element_ok_def)
  with DomElement show ?case by (auto simp: clean_element_def split: if_splits)
qed simp_all

text \<open>C35: whatever the parsers make of the source, every element that reaches the page is one of the allowlist and has only attributes of
  the contract, each once: addresses are normal forms of absolute HTTP or HTTPS addresses without credentials, links carry
  \<^verbatim>\<open>noopener noreferrer nofollow\<close>, titles and alternatives are bounded, and a class names a language. There is no event handler, style or identifier.\<close>

theorem markdown_output_safe:
  assumes "distinct (concat (map elements (parse_html escapeMarkdownHTML (opt_or source []))))"
    "m \<in> set (setSafeMarkdown parse parse_html source)" "DomElement i tag attrs kids \<in> set (subnodes m)"
  shows "tag \<in> set allowedMarkdownElements \<and> distinct (map fst attrs)
    \<and> (\<forall>name value. (name, value) \<in> set attrs \<longrightarrow>
         (if name = ''href'' then tag = ''A'' \<and> web_address parse value \<and> (''rel'', ustr ''noopener noreferrer nofollow'') \<in> set attrs
          else if name = ''src'' then tag = ''IMG'' \<and> web_address parse value
          else if name = ''title'' \<or> name = ''alt'' then length value \<le> 512
          else if name = ''class'' then tag = ''CODE'' \<and> language_class value
          else name = ''target'' \<or> name = ''rel'' \<or> name = ''loading'' \<or> name = ''referrerpolicy''))
    \<and> (tag = ''IMG'' \<longrightarrow> ''src'' \<in> fst ` set attrs)"
proof -
  obtain n where "m = sanitized parse n"
    using assms(2) unfolding setSafeMarkdown_def loop_recursive [OF assms(1)] by auto
  with assms(3) have "element_ok parse (DomElement i tag attrs kids)" by (simp add: sanitized_ok)
  then have ok: "tag \<in> set allowedMarkdownElements" "distinct (map fst attrs)" "tag = ''IMG'' \<longrightarrow> ''src'' \<in> fst ` set attrs"
    "''href'' \<in> fst ` set attrs \<longrightarrow> (''rel'', ustr ''noopener noreferrer nofollow'') \<in> set attrs"
    and each: "\<forall>(name, value) \<in> set attrs. attribute_ok parse tag name value"
    by (simp_all add: element_ok_def)
  have rel: "(''href'', v) \<in> set attrs \<Longrightarrow> (''rel'', ustr ''noopener noreferrer nofollow'') \<in> set attrs" for v
    using ok(4) by force
  have "if name = ''href'' then tag = ''A'' \<and> web_address parse v \<and> (''rel'', ustr ''noopener noreferrer nofollow'') \<in> set attrs
        else if name = ''src'' then tag = ''IMG'' \<and> web_address parse v
        else if name = ''title'' \<or> name = ''alt'' then length v \<le> 512
        else if name = ''class'' then tag = ''CODE'' \<and> language_class v
        else name = ''target'' \<or> name = ''rel'' \<or> name = ''loading'' \<or> name = ''referrerpolicy''" if "(name, v) \<in> set attrs" for name v
  proof -
    have "attribute_ok parse tag name v" using each that by blast
    with rel [of v] that show ?thesis by (cases "name = ''href''") (simp_all only: attribute_ok_def if_True if_False refl)
  qed
  with ok(1-3) show ?thesis by blast
qed

theorem markdown_output_safe_witness:
  "\<exists>m attrs. m \<in> set (setSafeMarkdown (\<lambda>_. Some \<lparr>url_protocol = ustr ''https:'', url_hostname = [97], url_username = [], url_password = [], url_href = [98]\<rparr>)
      (\<lambda>_ _. [DomElement 0 ''A'' [(''href'', [97]), (''onclick'', [120])] []]) None)
    \<and> DomElement 0 ''A'' attrs [] \<in> set (subnodes m) \<and> (''href'', [98]) \<in> set attrs \<and> (''rel'', ustr ''noopener noreferrer nofollow'') \<in> set attrs"
proof -
  let ?parse = "\<lambda>_. Some \<lparr>url_protocol = ustr ''https:'', url_hostname = [97], url_username = [], url_password = [], url_href = [98]\<rparr>"
  let ?html = "\<lambda>_ _. [DomElement 0 ''A'' [(''href'', [97]), (''onclick'', [120])] []]"
  define attrs where "attrs = clean_attributes ?parse ''A'' [(''href'', [97]), (''onclick'', [120])]"
  have d: "distinct (concat (map elements (?html escapeMarkdownHTML (opt_or None []))))" by simp
  have m: "DomElement 0 ''A'' attrs [] \<in> set (setSafeMarkdown ?parse ?html None)"
    by (simp add: setSafeMarkdown_def sanitizeMarkdownFragment_def clean_element_def allowedMarkdownElements_def attrs_def)
  have "(''href'', [98]) \<in> set attrs"
    by (simp add: attrs_def clean_attributes_def link_attributes_def safeMarkdownURL_def web_url_def opt_or_def str_or_def utrim_def
        trim_by_def unit_space_def Let_def)
  note href = this
  have "DomElement 0 ''A'' attrs [] \<in> set (subnodes (DomElement 0 ''A'' attrs []))" by simp
  from conjunct1 [OF conjunct2 [OF conjunct2 [OF markdown_output_safe [OF d m this]]], rule_format, OF href]
  have "(''rel'', ustr ''noopener noreferrer nofollow'') \<in> set attrs" by simp
  with href m show ?thesis by (intro exI [of _ "DomElement 0 ''A'' attrs []"] exI [of _ attrs]) simp
qed

text \<open>The five passes of the escaping are one pass over the code units: nothing is escaped twice, and no markup character is left.\<close>

definition escape_unit :: "nat \<Rightarrow> ustring" where
  "escape_unit u =
     (if u = 38 then ustr ''&amp;'' else if u = 60 then ustr ''&lt;'' else if u = 62 then ustr ''&gt;''
      else if u = 34 then ustr ''&quot;'' else if u = 39 then ustr ''&#39;'' else [u])"

lemma replace_unit: "replace_all [c] r s = concat (map (\<lambda>u. if u = c then r else [u]) s)"
  by (induction s) (auto simp: replace_all.simps)

lemma escape_one_pass: "escapeMarkdownHTML s = concat (map escape_unit s)"
  unfolding escapeMarkdownHTML_def ustr_def
  by (induction s) (simp_all add: replace_unit escape_unit_def ustr_def)


end
