(* ===== verification/Registration.thy ===== *)
theory Registration
  imports Event_Machine Password_Strength
begin

text \<open>
  The registration page (\<^verbatim>\<open>js/registration.js\<close>, \<^verbatim>\<open>js/mail-status.js\<close>) as an event machine: its availability, the restored confirmation of
  an identity provider, the delivery receipt of the email code with its polling, and the submission. Texts are their keys.

  \<^verbatim>\<open>js/main.js\<close> calls \<^verbatim>\<open>updateRegistrationPage\<close> on every tab switch; it is entering when the registration tab was not shown.
  \<^verbatim>\<open>runButtonAction\<close> keeps one send and one submission at a time. Each receives the answer of \<^verbatim>\<open>ensureLegalConsent\<close>, which the theory
  \<^verbatim>\<open>Legal_Consent\<close> shows to be false when the agreement was reset since the call, as leaving the tab does. A receipt has one timer or one poll at a
  time. Focus and captions are left out; \<open>rg_left\<close>, \<open>rg_granted\<close> and \<open>rr_address\<close> record what happened.
\<close>

section \<open>Data\<close>

definition MAIL_STATUSES :: "string list" where
  "MAIL_STATUSES = [''queued'', ''paused'', ''sending'', ''checking'', ''accepted'', ''sent'', ''delivered'', ''failed'', ''unknown'',
     ''expired'', ''cancelled'', ''queued_provider'']"

definition mailStatusLabel :: "string \<Rightarrow> string" where
  "mailStatusLabel status = ''mail.status.'' @ (if status \<in> set MAIL_STATUSES then status else ''unknown'')"

definition polled_statuses :: "string list" where
  "polled_statuses = [''queued'', ''paused'', ''sending'', ''checking'', ''queued_provider'']"

record reg_pending =
  rp_id :: nat
  rp_provider :: string
  rp_email :: string
  rp_email_required :: bool
  rp_username_available :: bool
  rp_username :: string
  rp_nickname :: string
  rp_avatar :: bool
  rp_expires :: int

record reg_receipt =
  rr_no :: nat
  rr_id :: string
  rr_ticket :: string
  rr_deadline :: int
  rr_address :: string

record reg_body =
  rb_username :: string
  rb_nickname :: string
  rb_email :: string
  rb_password :: string
  rb_code :: string
  rb_provider :: string
  rb_import :: bool

record reg_fields =
  rf_username :: string
  rf_nickname :: string
  rf_email :: string
  rf_code :: string
  rf_password :: string
  rf_confirmation :: string
  rf_import :: bool

datatype send_stage = SendConsent nat | SendWait nat string
datatype submit_stage = SubmitConsent | SubmitWeak nat reg_body | SubmitWait nat reg_body

record registration =
  rg_active :: bool
  rg_shown :: bool
  rg_epoch :: nat
  rg_availability_epoch :: nat
  rg_pending :: "reg_pending option"
  rg_receipt :: "reg_receipt option"
  rg_receipts :: nat
  rg_timer :: bool
  rg_expiry :: "nat option"
  rg_fields :: reg_fields
  rg_disabled :: bool
  rg_availability :: string
  rg_error :: string
  rg_delivery :: string
  rg_links_hidden :: bool
  rg_email_required :: bool
  rg_email_readonly :: bool
  rg_code_required :: bool
  rg_provider_info :: bool
  rg_status :: "nat list"
  rg_loads :: "nat list"
  rg_polls :: "reg_receipt list"
  rg_send :: "send_stage option"
  rg_submit :: "submit_stage option"
  rg_codes :: "(string \<times> string) list"
  rg_posted :: "reg_body list"
  rg_registered :: "(string \<times> bool) list"
  rg_granted :: nat
  rg_left :: nat

definition empty_fields :: reg_fields where
  "empty_fields = \<lparr>rf_username = [], rf_nickname = [], rf_email = [], rf_code = [], rf_password = [], rf_confirmation = [], rf_import = False\<rparr>"

definition pending_provider :: "registration \<Rightarrow> string" where
  "pending_provider s = (case rg_pending s of None \<Rightarrow> [] | Some p \<Rightarrow> rp_provider p)"

definition typed_email :: "registration \<Rightarrow> string" where
  "typed_email s = trim (rf_email (rg_fields s))"

section \<open>Availability\<close>

definition refreshRegistrationAvailability :: "registration \<Rightarrow> registration" where
  "refreshRegistrationAvailability s =
     s\<lparr>rg_availability_epoch := rg_availability_epoch s + 1, rg_status := rg_status s @ [rg_availability_epoch s + 1]\<rparr>"

definition unavailable :: "string \<Rightarrow> registration \<Rightarrow> registration" where
  "unavailable key s = s\<lparr>rg_disabled := True, rg_availability := key\<rparr>"

text \<open>The answer is \<open>enabled\<close> and \<open>email_required\<close>, \<^term>\<open>None\<close> when the request failed.\<close>

definition availability_settled :: "nat \<Rightarrow> (bool \<times> bool) option \<Rightarrow> int \<Rightarrow> registration \<Rightarrow> registration" where
  "availability_settled revision status now s =
     (if revision \<noteq> rg_availability_epoch s then s
      else case status of
          None \<Rightarrow>
            let s1 = s\<lparr>rg_links_hidden := True\<rparr> in if rg_active s then unavailable ''registration.unavailable'' s1 else s1
        | Some (enabled, email_required) \<Rightarrow>
            let s1 = s\<lparr>rg_links_hidden := \<not> enabled\<rparr>
            in if \<not> rg_active s then s1
               else if \<not> enabled then unavailable ''registration.disabled'' s1
               else let provider = pending_provider s \<noteq> [];
                        asks = (case rg_pending s of None \<Rightarrow> False | Some p \<Rightarrow> rp_email_required p);
                        code = (if provider then asks else email_required);
                        s2 = s1\<lparr>rg_disabled := False, rg_availability := [], rg_email_required := (email_required \<or> provider),
                                rg_email_readonly := (provider \<and> \<not> asks), rg_code_required := code\<rparr>;
                        s3 = (if code \<and> \<not> email_required then unavailable ''oauth.mailRequired'' s2 else s2)
                    in if provider \<and> (case rg_pending s of None \<Rightarrow> False | Some p \<Rightarrow> rp_expires p \<le> now)
                       then unavailable ''registration.expired'' s3 else s3)"

section \<open>The page\<close>

definition clearDelivery :: "registration \<Rightarrow> registration" where
  "clearDelivery s = s\<lparr>rg_timer := False, rg_receipt := None, rg_delivery := []\<rparr>"

definition loadRegistration :: "registration \<Rightarrow> registration" where
  "loadRegistration s =
     s\<lparr>rg_availability_epoch := rg_availability_epoch s + 1, rg_disabled := True, rg_loads := rg_loads s @ [rg_epoch s]\<rparr>"

definition leave_registration :: "registration \<Rightarrow> registration" where
  "leave_registration s =
     (clearDelivery s)\<lparr>rg_active := False, rg_epoch := rg_epoch s + 1, rg_expiry := None, rg_pending := None, rg_fields := empty_fields,
        rg_error := [], rg_disabled := True, rg_provider_info := False\<rparr>"

definition updateRegistrationPage :: "bool \<Rightarrow> bool \<Rightarrow> registration \<Rightarrow> registration" where
  "updateRegistrationPage isActive entering s =
     (if \<not> isActive then leave_registration s
      else if entering then loadRegistration (s\<lparr>rg_active := True, rg_epoch := rg_epoch s + 1\<rparr>)
      else s\<lparr>rg_active := True\<rparr>)"

text \<open>\<^verbatim>\<open>switchTab\<close> as far as registration is concerned.\<close>

definition tab_switched :: "bool \<Rightarrow> bool \<Rightarrow> registration \<Rightarrow> registration" where
  "tab_switched isRegistration accountPage s =
     (let entering = isRegistration \<and> \<not> rg_shown s;
          s1 = updateRegistrationPage isRegistration entering (s\<lparr>rg_shown := isRegistration\<rparr>);
          s2 = (if isRegistration then s1 else s1\<lparr>rg_left := rg_left s1 + 1\<rparr>)
      in if accountPage \<and> \<not> isRegistration then refreshRegistrationAvailability s2 else s2)"

datatype load_outcome = LoadedPending reg_pending | LoadRefused nat | LoadFailed

definition load_settled :: "nat \<Rightarrow> load_outcome \<Rightarrow> bool \<Rightarrow> registration \<Rightarrow> registration" where
  "load_settled revision outcome providerInUrl s =
     (if \<not> rg_active s \<or> revision \<noteq> rg_epoch s then s
      else case outcome of
          LoadedPending p \<Rightarrow>
            let s1 = s\<lparr>rg_pending := Some p, rg_fields := (rg_fields s)\<lparr>rf_email := rp_email p\<rparr>\<rparr>;
                s2 = (if rp_provider p = [] then s1
                      else s1\<lparr>rg_provider_info := True, rg_expiry := Some (rp_id p),
                              rg_error := (if rp_username_available p then rg_error s1 else ''registration.chooseUsername'')\<rparr>)
            in refreshRegistrationAvailability s2
        | LoadRefused status \<Rightarrow>
            if providerInUrl then unavailable ''registration.expired'' s
            else refreshRegistrationAvailability (if status = 400 then s else s\<lparr>rg_error := ''registration.unavailable''\<rparr>)
        | LoadFailed \<Rightarrow>
            if providerInUrl then unavailable ''registration.expired'' s
            else refreshRegistrationAvailability (s\<lparr>rg_error := ''registration.unavailable''\<rparr>))"

definition expiry_elapsed :: "nat \<Rightarrow> registration \<Rightarrow> registration" where
  "expiry_elapsed i s =
     (if \<not> rg_active s \<or> map_option rp_id (rg_pending s) \<noteq> Some i then s else unavailable ''registration.expired'' s)"

definition import_changed :: "bool \<Rightarrow> registration \<Rightarrow> registration" where
  "import_changed checked s =
     (let s1 = s\<lparr>rg_fields := (rg_fields s)\<lparr>rf_import := checked\<rparr>\<rparr>
      in case rg_pending s of
          None \<Rightarrow> s1
        | Some p \<Rightarrow>
            if rp_provider p = [] then s1
            else s1\<lparr>rg_fields := (rg_fields s1)\<lparr>rf_username := (if checked \<and> rp_username_available p then rp_username p else []),
                                                 rf_nickname := (if checked then rp_nickname p else [])\<rparr>\<rparr>)"

section \<open>The email code\<close>

definition pollDelivery :: "registration \<Rightarrow> registration" where
  "pollDelivery s =
     (let s1 = s\<lparr>rg_timer := False\<rparr>
      in case rg_receipt s of None \<Rightarrow> s1 | Some r \<Rightarrow> if rg_active s then s1\<lparr>rg_polls := rg_polls s @ [r]\<rparr> else s1)"

definition poll_settled :: "reg_receipt \<Rightarrow> string option \<Rightarrow> int \<Rightarrow> registration \<Rightarrow> registration" where
  "poll_settled r status now s =
     (if \<not> rg_active s \<or> rg_receipt s \<noteq> Some r then s
      else case status of
          None \<Rightarrow> s\<lparr>rg_delivery := ''mail.requestFailed''\<rparr>
        | Some st \<Rightarrow> s\<lparr>rg_delivery := mailStatusLabel st, rg_timer := (st \<in> set polled_statuses \<and> now < rr_deadline r \<or> rg_timer s)\<rparr>)"

definition send_clicked :: "bool \<Rightarrow> registration \<Rightarrow> registration" where
  "send_clicked valid s =
     (if rg_send s \<noteq> None \<or> \<not> rg_active s \<or> rg_disabled s \<or> \<not> valid then s else s\<lparr>rg_send := Some (SendConsent (rg_left s))\<rparr>)"

definition send_consented :: "bool \<Rightarrow> registration \<Rightarrow> registration" where
  "send_consented ok s =
     (if \<not> ok then s\<lparr>rg_send := None\<rparr>
      else s\<lparr>rg_error := [], rg_send := Some (SendWait (rg_epoch s) (typed_email s)),
             rg_codes := (typed_email s, pending_provider s) # rg_codes s\<rparr>)"

text \<open>A request answers, is refused with a localized message, or fails.\<close>

datatype 'a answer = Answered 'a | Refused string | Unreachable

definition failure_text :: "'a answer \<Rightarrow> string" where
  "failure_text a = (case a of Refused message \<Rightarrow> message | _ \<Rightarrow> ''registration.unavailable'')"

definition code_settled :: "nat \<Rightarrow> string \<Rightarrow> (string \<times> string \<times> string) answer \<Rightarrow> int \<Rightarrow> registration \<Rightarrow> registration" where
  "code_settled revision address answer now s =
     (let s1 = s\<lparr>rg_send := None\<rparr>
      in case answer of
          Answered (i, ticket, status) \<Rightarrow>
            if \<not> rg_active s \<or> revision \<noteq> rg_epoch s \<or> address \<noteq> typed_email s then s1
            else (clearDelivery s1)\<lparr>rg_receipt := Some \<lparr>rr_no = rg_receipts s, rr_id = i, rr_ticket = ticket, rr_deadline = now + 600000,
                                       rr_address = address\<rparr>,
                                    rg_receipts := rg_receipts s + 1, rg_delivery := mailStatusLabel status, rg_timer := True\<rparr>
        | _ \<Rightarrow> if rg_active s \<and> revision = rg_epoch s then s1\<lparr>rg_error := failure_text answer\<rparr> else s1)"

section \<open>The submission\<close>

definition submit_clicked :: "registration \<Rightarrow> registration" where
  "submit_clicked s = (if rg_submit s \<noteq> None \<or> \<not> rg_active s \<or> rg_disabled s then s else s\<lparr>rg_submit := Some SubmitConsent\<rparr>)"

definition registration_body :: "registration \<Rightarrow> reg_body" where
  "registration_body s =
     (let f = rg_fields s
      in \<lparr>rb_username = trim (rf_username f), rb_nickname = trim (rf_nickname f), rb_email = trim (rf_email f), rb_password = rf_password f,
          rb_code = trim (rf_code f), rb_provider = pending_provider s,
          rb_import = (rf_import f \<and> (case rg_pending s of None \<Rightarrow> True | Some p \<Rightarrow> rp_avatar p))\<rparr>)"

definition submit_consented :: "translator \<Rightarrow> bool \<Rightarrow> registration \<Rightarrow> registration" where
  "submit_consented t ok s =
     (if \<not> ok then s\<lparr>rg_submit := None\<rparr>
      else let s1 = s\<lparr>rg_error := [], rg_granted := rg_granted s + 1\<rparr>
           in case getPasswordLengthError t (rf_password (rg_fields s)) of
                Some e \<Rightarrow> s1\<lparr>rg_error := e, rg_submit := None\<rparr>
              | None \<Rightarrow>
                  if rf_password (rg_fields s) \<noteq> rf_confirmation (rg_fields s)
                  then s1\<lparr>rg_error := ''login.passwordsDoNotMatch'', rg_submit := None\<rparr>
                  else s1\<lparr>rg_submit := Some (SubmitWeak (rg_epoch s) (registration_body s))\<rparr>)"

definition submit_warned ::
  "translator \<Rightarrow> (nat \<Rightarrow> string \<Rightarrow> string \<Rightarrow> bool) \<Rightarrow> nat \<Rightarrow> reg_body \<Rightarrow> registration \<Rightarrow> registration" where
  "submit_warned t reader revision body s =
     (if \<not> snd (confirmWeakPasswordIfNeeded t reader (rb_password body)) \<or> \<not> rg_active s \<or> revision \<noteq> rg_epoch s
      then s\<lparr>rg_submit := None\<rparr>
      else s\<lparr>rg_submit := Some (SubmitWait revision body), rg_posted := body # rg_posted s\<rparr>)"

definition submit_settled :: "nat \<Rightarrow> reg_body \<Rightarrow> (string \<times> bool) answer \<Rightarrow> registration \<Rightarrow> registration" where
  "submit_settled revision body answer s =
     (let s1 = s\<lparr>rg_submit := None\<rparr>
      in if \<not> rg_active s \<or> revision \<noteq> rg_epoch s then s1
         else case answer of
             Answered (username, avatarImported) \<Rightarrow>
               (updateRegistrationPage False False s1)\<lparr>rg_registered := (username, rb_import body \<and> \<not> avatarImported) # rg_registered s1\<rparr>
           | _ \<Rightarrow> s1\<lparr>rg_error := failure_text answer\<rparr>)"

section \<open>Events\<close>

datatype registration_event =
    TabSwitched bool bool
  | PageHidden
  | AvailabilitySettled nat "(bool \<times> bool) option" int
  | LoadSettled nat load_outcome bool
  | ExpiryElapsed
  | EmailTyped string
  | FieldsTyped string string string string string
  | ImportChanged bool
  | SendClicked bool
  | SendConsented bool
  | CodeSettled "(string \<times> string \<times> string) answer" int
  | DeliveryElapsed
  | PollSettled nat "string option" int
  | SubmitClicked
  | SubmitConsented bool
  | SubmitWarned "nat \<Rightarrow> string \<Rightarrow> string \<Rightarrow> bool"
  | SubmitSettled "(string \<times> bool) answer"

fun registration_step :: "translator \<Rightarrow> registration \<Rightarrow> registration_event \<Rightarrow> registration option" where
  "registration_step t s (TabSwitched isRegistration accountPage) = Some (tab_switched isRegistration accountPage s)"
| "registration_step t s PageHidden = Some (updateRegistrationPage False False s)"
| "registration_step t s (AvailabilitySettled revision status now) =
     (if revision \<in> set (rg_status s)
      then Some (availability_settled revision status now (s\<lparr>rg_status := removeAll revision (rg_status s)\<rparr>)) else None)"
| "registration_step t s (LoadSettled revision outcome providerInUrl) =
     (if revision \<in> set (rg_loads s)
      then Some (load_settled revision outcome providerInUrl (s\<lparr>rg_loads := removeAll revision (rg_loads s)\<rparr>)) else None)"
| "registration_step t s ExpiryElapsed =
     (case rg_expiry s of None \<Rightarrow> None | Some i \<Rightarrow> Some (expiry_elapsed i (s\<lparr>rg_expiry := None\<rparr>)))"
| "registration_step t s (EmailTyped email) =
     (if rg_disabled s \<or> rg_email_readonly s then None
      else Some (clearDelivery (s\<lparr>rg_fields := (rg_fields s)\<lparr>rf_email := email\<rparr>\<rparr>)))"
| "registration_step t s (FieldsTyped username nickname code password confirmation) =
     (if rg_disabled s then None
      else Some (s\<lparr>rg_fields := (rg_fields s)\<lparr>rf_username := username, rf_nickname := nickname, rf_code := code, rf_password := password,
                                               rf_confirmation := confirmation\<rparr>\<rparr>))"
| "registration_step t s (ImportChanged checked) = (if rg_disabled s then None else Some (import_changed checked s))"
| "registration_step t s (SendClicked valid) = (if rg_disabled s then None else Some (send_clicked valid s))"
| "registration_step t s (SendConsented ok) =
     (case rg_send s of
        Some (SendConsent left) \<Rightarrow> if ok \<and> left \<noteq> rg_left s then None else Some (send_consented ok s)
      | _ \<Rightarrow> None)"
| "registration_step t s (CodeSettled answer now) =
     (case rg_send s of Some (SendWait revision address) \<Rightarrow> Some (code_settled revision address answer now s) | _ \<Rightarrow> None)"
| "registration_step t s DeliveryElapsed = (if rg_timer s then Some (pollDelivery s) else None)"
| "registration_step t s (PollSettled i status now) =
     (if i < length (rg_polls s)
      then Some (poll_settled (rg_polls s ! i) status now (s\<lparr>rg_polls := take i (rg_polls s) @ drop (Suc i) (rg_polls s)\<rparr>)) else None)"
| "registration_step t s SubmitClicked = (if rg_disabled s then None else Some (submit_clicked s))"
| "registration_step t s (SubmitConsented ok) =
     (case rg_submit s of Some SubmitConsent \<Rightarrow> Some (submit_consented t ok s) | _ \<Rightarrow> None)"
| "registration_step t s (SubmitWarned reader) =
     (case rg_submit s of Some (SubmitWeak revision body) \<Rightarrow> Some (submit_warned t reader revision body s) | _ \<Rightarrow> None)"
| "registration_step t s (SubmitSettled answer) =
     (case rg_submit s of Some (SubmitWait revision body) \<Rightarrow> Some (submit_settled revision body answer s) | _ \<Rightarrow> None)"

definition fresh_registration :: registration where
  "fresh_registration = \<lparr>rg_active = False, rg_shown = False, rg_epoch = 0, rg_availability_epoch = 0, rg_pending = None, rg_receipt = None,
     rg_receipts = 0, rg_timer = False, rg_expiry = None, rg_fields = empty_fields, rg_disabled = True, rg_availability = [], rg_error = [],
     rg_delivery = [], rg_links_hidden = True, rg_email_required = False, rg_email_readonly = False, rg_code_required = False,
     rg_provider_info = False, rg_status = [], rg_loads = [], rg_polls = [], rg_send = None, rg_submit = None, rg_codes = [], rg_posted = [],
     rg_registered = [], rg_granted = 0, rg_left = 0\<rparr>"

section \<open>What the page keeps\<close>

definition body_ok :: "translator \<Rightarrow> reg_body \<Rightarrow> bool" where
  "body_ok t b \<longleftrightarrow> getPasswordLengthError t (rb_password b) = None
     \<and> trim (rb_username b) = rb_username b \<and> trim (rb_nickname b) = rb_nickname b \<and> trim (rb_email b) = rb_email b \<and> trim (rb_code b) = rb_code b"

definition loading :: "registration \<Rightarrow> bool" where
  "loading s \<longleftrightarrow> rg_epoch s \<in> set (rg_loads s)"

definition delivery_inv :: "registration \<Rightarrow> bool" where
  "delivery_inv s \<longleftrightarrow> (rg_active s \<longrightarrow> rg_shown s) \<and> (\<not> rg_active s \<longrightarrow> rg_pending s = None)
     \<and> (\<forall>e \<in> set (rg_loads s). e \<le> rg_epoch s) \<and> (\<forall>r \<in> set (rg_status s). r \<le> rg_availability_epoch s)
     \<and> (\<forall>r. rg_receipt s = Some r \<longrightarrow> rg_active s \<and> rr_address r = typed_email s \<and> \<not> loading s)
     \<and> (loading s \<longrightarrow> rg_active s \<and> rg_disabled s \<and> rg_availability_epoch s \<notin> set (rg_status s))
     \<and> (\<forall>l. rg_send s = Some (SendConsent l) \<longrightarrow> l \<le> rg_left s \<and> (\<not> rg_shown s \<or> loading s \<longrightarrow> l < rg_left s))
     \<and> (\<forall>e a. rg_send s = Some (SendWait e a) \<longrightarrow> e \<le> rg_epoch s \<and> (loading s \<longrightarrow> e < rg_epoch s))"

definition submit_inv :: "translator \<Rightarrow> registration \<Rightarrow> bool" where
  "submit_inv t s \<longleftrightarrow> (\<forall>b \<in> set (rg_posted s). body_ok t b)
     \<and> length (rg_registered s) + (case rg_submit s of Some (SubmitWait e b) \<Rightarrow> 1 | _ \<Rightarrow> 0) \<le> length (rg_posted s)
     \<and> length (rg_posted s) + (case rg_submit s of Some (SubmitWeak e b) \<Rightarrow> 1 | _ \<Rightarrow> 0) \<le> rg_granted s
     \<and> (case rg_submit s of Some (SubmitWeak e b) \<Rightarrow> body_ok t b | _ \<Rightarrow> True)"


lemma fresh_delivery: "delivery_inv fresh_registration" "submit_inv t fresh_registration"
  by (simp_all add: delivery_inv_def submit_inv_def fresh_registration_def loading_def)

lemma leave_delivery: "delivery_inv s \<Longrightarrow> delivery_inv (leave_registration s)"
  by (auto simp: delivery_inv_def loading_def leave_registration_def clearDelivery_def)

lemma enter_delivery:
  "delivery_inv s \<Longrightarrow> \<not> rg_active s \<Longrightarrow> \<forall>l. rg_send s = Some (SendConsent l) \<longrightarrow> l < rg_left s \<Longrightarrow>
     delivery_inv (loadRegistration (s\<lparr>rg_shown := True, rg_active := True, rg_epoch := rg_epoch s + 1\<rparr>))"
  by (auto simp: delivery_inv_def loading_def loadRegistration_def)

lemma refresh_delivery: "delivery_inv s \<Longrightarrow> \<not> loading s \<Longrightarrow> delivery_inv (refreshRegistrationAvailability s)"
  by (auto simp: delivery_inv_def loading_def refreshRegistrationAvailability_def typed_email_def)

lemma stay_delivery: "delivery_inv s \<Longrightarrow> rg_shown s \<Longrightarrow> delivery_inv (s\<lparr>rg_shown := True, rg_active := True\<rparr>)"
  by (auto simp: delivery_inv_def loading_def typed_email_def)

lemma leave_fields [simp]:
  "rg_shown (leave_registration s) = rg_shown s" "rg_left (leave_registration s) = rg_left s" "\<not> rg_active (leave_registration s)"
  "rg_send (leave_registration s) = rg_send s"
  by (simp_all add: leave_registration_def clearDelivery_def)

lemma inactive_delivery: "delivery_inv s \<Longrightarrow> \<not> rg_active s \<Longrightarrow> \<not> loading s"
  by (auto simp: delivery_inv_def)

lemma switch_away: "delivery_inv s \<Longrightarrow> \<not> rg_active s \<Longrightarrow> delivery_inv (s\<lparr>rg_shown := False, rg_left := rg_left s + 1\<rparr>)"
  by (auto simp: delivery_inv_def loading_def typed_email_def)

lemma leave_commutes: "leave_registration (s\<lparr>rg_shown := b\<rparr>) = (leave_registration s)\<lparr>rg_shown := b\<rparr>"
  by (simp add: leave_registration_def clearDelivery_def)

lemma tab_delivery:
  assumes "delivery_inv s"
  shows "delivery_inv (tab_switched isRegistration accountPage s)"
proof (cases isRegistration)
  case False
  have away: "delivery_inv ((leave_registration s)\<lparr>rg_shown := False, rg_left := rg_left (leave_registration s) + 1\<rparr>)"
    using leave_delivery [OF assms] by (intro switch_away) simp_all
  have "\<not> loading ((leave_registration s)\<lparr>rg_shown := False, rg_left := rg_left (leave_registration s) + 1\<rparr>)"
    using away by (rule inactive_delivery) simp
  with away refresh_delivery [OF away] False show ?thesis
    by (simp add: tab_switched_def updateRegistrationPage_def leave_commutes Let_def)
next
  case True
  show ?thesis
  proof (cases "rg_shown s")
    case False
    with assms have "\<not> rg_active s" "\<forall>l. rg_send s = Some (SendConsent l) \<longrightarrow> l < rg_left s" by (auto simp: delivery_inv_def)
    with enter_delivery [OF assms] True False show ?thesis by (simp add: tab_switched_def updateRegistrationPage_def)
  next
    case shown: True
    with stay_delivery [OF assms] True show ?thesis by (simp add: tab_switched_def updateRegistrationPage_def)
  qed
qed

lemma status_removed: "delivery_inv s \<Longrightarrow> delivery_inv (s\<lparr>rg_status := removeAll revision (rg_status s)\<rparr>)"
  by (auto simp: delivery_inv_def loading_def typed_email_def)

lemma load_removed:
  "delivery_inv s \<Longrightarrow> delivery_inv (s\<lparr>rg_loads := removeAll revision (rg_loads s)\<rparr>)"
  by (auto simp: delivery_inv_def loading_def typed_email_def)

text \<open>Outside a running load, what the page shows may change freely.\<close>

lemma shown_delivery:
  assumes "delivery_inv s" "\<not> loading s" "rg_active t = rg_active s" "rg_shown t = rg_shown s" "rg_epoch t = rg_epoch s"
    "rg_availability_epoch t = rg_availability_epoch s" "rg_loads t = rg_loads s" "rg_status t = rg_status s" "rg_receipt t = rg_receipt s"
    "typed_email t = typed_email s" "rg_send t = rg_send s" "rg_left t = rg_left s" "\<not> rg_active s \<longrightarrow> rg_pending t = None"
  shows "delivery_inv t"
  using assms by (simp add: delivery_inv_def loading_def)

lemma availability_delivery:
  assumes "delivery_inv s" "revision \<in> set (rg_status s)"
  shows "delivery_inv (availability_settled revision status now (s\<lparr>rg_status := removeAll revision (rg_status s)\<rparr>))"
proof (cases "revision = rg_availability_epoch s")
  case False
  with status_removed [OF assms(1)] show ?thesis by (simp add: availability_settled_def)
next
  case True
  with assms have nl: "\<not> loading (s\<lparr>rg_status := removeAll revision (rg_status s)\<rparr>)" by (auto simp: delivery_inv_def loading_def)
  show ?thesis
    by (rule shown_delivery [OF status_removed [OF assms(1), of revision] nl])
      (use assms(1) in \<open>auto simp: availability_settled_def unavailable_def Let_def typed_email_def delivery_inv_def split: option.split prod.split\<close>)
qed

lemma load_delivery:
  assumes "delivery_inv s" "revision \<in> set (rg_loads s)"
  shows "delivery_inv (load_settled revision outcome providerInUrl (s\<lparr>rg_loads := removeAll revision (rg_loads s)\<rparr>))"
proof -
  define s1 where "s1 = s\<lparr>rg_loads := removeAll revision (rg_loads s)\<rparr>"
  have inv: "delivery_inv s1" unfolding s1_def by (rule load_removed [OF assms(1)])
  show ?thesis
  proof (cases "\<not> rg_active s1 \<or> revision \<noteq> rg_epoch s1")
    case True
    with inv show ?thesis unfolding s1_def [symmetric] by (simp add: load_settled_def)
  next
    case False
    then have act: "rg_active s1" and rev: "revision = rg_epoch s" by (simp_all add: s1_def)
    have nl: "\<not> loading s1" by (simp add: loading_def s1_def rev)
    then have absent: "rg_epoch s1 \<notin> set (rg_loads s1)" by (simp add: loading_def)
    have none: "rg_receipt s1 = None"
      using assms rev by (cases "rg_receipt s") (auto simp: delivery_inv_def loading_def s1_def)
    have loaded: "delivery_inv t \<and> \<not> loading t"
      if "rg_active t = rg_active s1" "rg_shown t = rg_shown s1" "rg_epoch t = rg_epoch s1" "rg_availability_epoch t = rg_availability_epoch s1"
        "rg_loads t = rg_loads s1" "rg_status t = rg_status s1" "rg_receipt t = rg_receipt s1" "rg_send t = rg_send s1" "rg_left t = rg_left s1" for t
      using inv nl none act that by (simp add: delivery_inv_def loading_def)
    show ?thesis unfolding s1_def [symmetric]
    proof (cases outcome)
      case (LoadedPending p)
      then show "delivery_inv (load_settled revision outcome providerInUrl s1)"
        using False absent by (auto simp: load_settled_def Let_def loading_def intro!: refresh_delivery loaded [THEN conjunct1])
    next
      case (LoadRefused status)
      then show "delivery_inv (load_settled revision outcome providerInUrl s1)"
        using False absent by (auto simp: load_settled_def unavailable_def loading_def intro!: refresh_delivery loaded [THEN conjunct1])
    next
      case LoadFailed
      then show "delivery_inv (load_settled revision outcome providerInUrl s1)"
        using False absent by (auto simp: load_settled_def unavailable_def loading_def intro!: refresh_delivery loaded [THEN conjunct1])
    qed
  qed
qed

lemma email_delivery: "delivery_inv s \<Longrightarrow> delivery_inv (clearDelivery (s\<lparr>rg_fields := f\<rparr>))"
  by (auto simp: delivery_inv_def loading_def clearDelivery_def)

lemma same_email: "rf_email (rg_fields t) = rf_email (rg_fields s) \<Longrightarrow> typed_email t = typed_email s"
  by (simp add: typed_email_def)

text \<open>The fields that \<open>delivery_inv\<close> does not read.\<close>

lemma other_delivery:
  assumes "delivery_inv s" "rg_active t = rg_active s" "rg_shown t = rg_shown s" "rg_epoch t = rg_epoch s"
    "rg_availability_epoch t = rg_availability_epoch s" "rg_loads t = rg_loads s" "rg_status t = rg_status s" "rg_receipt t = rg_receipt s"
    "typed_email t = typed_email s" "rg_send t = rg_send s \<or> rg_send t = None" "rg_left t = rg_left s" "rg_pending t = rg_pending s"
    "rg_disabled s \<longrightarrow> rg_disabled t"
  shows "delivery_inv t"
  using assms(10)
proof
  assume "rg_send t = rg_send s"
  with assms(1-9,11-13) show ?thesis unfolding delivery_inv_def loading_def by (elim conjE) simp
next
  assume "rg_send t = None"
  with assms(1-9,11-13) show ?thesis unfolding delivery_inv_def loading_def by (elim conjE) simp
qed

lemma delivery_shown: "delivery_inv s \<Longrightarrow> rg_active s \<Longrightarrow> rg_shown s"
  by (simp add: delivery_inv_def)

lemma delivery_loading: "delivery_inv s \<Longrightarrow> loading s \<Longrightarrow> rg_disabled s"
  by (simp add: delivery_inv_def)

lemma send_delivery:
  assumes inv: "delivery_inv s"
  shows "delivery_inv (send_clicked valid s)"
proof (cases "rg_send s \<noteq> None \<or> \<not> rg_active s \<or> rg_disabled s \<or> \<not> valid")
  case True
  with inv show ?thesis by (simp add: send_clicked_def)
next
  case False
  then have "rg_shown s" "\<not> loading s" using delivery_shown [OF inv] delivery_loading [OF inv] by blast+
  with inv have "delivery_inv (s\<lparr>rg_send := Some (SendConsent (rg_left s))\<rparr>)"
    by (simp add: delivery_inv_def loading_def typed_email_def)
  with False show ?thesis by (simp add: send_clicked_def)
qed

lemma consented_delivery:
  assumes "delivery_inv s" "rg_send s = Some (SendConsent l)" "ok \<longrightarrow> l = rg_left s"
  shows "delivery_inv (send_consented ok s)"
proof (cases ok)
  case True
  with assms have nl: "\<not> loading s" by (auto simp: delivery_inv_def)
  have "delivery_inv (s\<lparr>rg_send := Some (SendWait (rg_epoch s) a)\<rparr>)" for a
    using assms(1) nl by (simp add: delivery_inv_def loading_def typed_email_def)
  then have "delivery_inv (s\<lparr>rg_error := [], rg_send := Some (SendWait (rg_epoch s) a), rg_codes := c\<rparr>)" for a c
    by (rule other_delivery) (simp_all add: typed_email_def)
  then show ?thesis using True by (simp add: send_consented_def)
next
  case False
  then show ?thesis by (intro other_delivery [OF assms(1)]) (simp_all add: send_consented_def typed_email_def)
qed

lemma code_delivery:
  assumes "delivery_inv s" "rg_send s = Some (SendWait revision address)"
  shows "delivery_inv (code_settled revision address answer now s)"
proof (cases "\<exists>x. answer = Answered x \<and> rg_active s \<and> revision = rg_epoch s \<and> address = typed_email s")
  case True
  then obtain i ticket status where "answer = Answered (i, ticket, status)" "rg_active s" "revision = rg_epoch s" "address = typed_email s"
    by (metis prod_cases3)
  with assms show ?thesis
    by (auto simp: code_settled_def clearDelivery_def delivery_inv_def loading_def typed_email_def)
next
  case False
  then show ?thesis
    by (intro other_delivery [OF assms(1)]; auto simp: code_settled_def typed_email_def Let_def split: answer.split prod.split)
qed

lemma settled_delivery: "delivery_inv s \<Longrightarrow> delivery_inv (submit_settled revision body answer s)"
proof -
  assume inv: "delivery_inv s"
  have none: "delivery_inv (s\<lparr>rg_submit := None\<rparr>)" by (rule other_delivery [OF inv]) (simp_all add: typed_email_def)
  have "delivery_inv ((leave_registration (s\<lparr>rg_submit := None\<rparr>))\<lparr>rg_registered := r\<rparr>)" for r
    by (rule other_delivery [OF leave_delivery [OF none]]) (simp_all add: typed_email_def)
  moreover have "delivery_inv (s\<lparr>rg_submit := None, rg_error := e\<rparr>)" for e
    by (rule other_delivery [OF inv]) (simp_all add: typed_email_def)
  ultimately show ?thesis using none
    by (auto simp: submit_settled_def updateRegistrationPage_def Let_def split: answer.split prod.split)
qed

text \<open>A page kept by the browser while hidden: entering the tab again does not load it, so it stays disabled.\<close>

lemma hidden_page_stays_disabled:
  "registration_step t s PageHidden = Some u \<Longrightarrow> rg_shown s \<Longrightarrow> registration_step t u (TabSwitched True accountPage) = Some v \<Longrightarrow>
     rg_disabled v \<and> rg_loads v = rg_loads s \<and> rg_status v = rg_status s"
  by (auto simp: tab_switched_def updateRegistrationPage_def leave_registration_def clearDelivery_def Let_def)

interpretation delivery_machine: machine_invariant "registration_step t" delivery_inv
proof
  fix s e u assume inv: "delivery_inv s" and step: "registration_step t s e = Some u"
  show "delivery_inv u"
  proof (cases e)
    case (AvailabilitySettled revision status now)
    with step inv availability_delivery show ?thesis by (auto split: if_splits)
  next
    case (LoadSettled revision outcome providerInUrl)
    with step inv load_delivery show ?thesis by (auto split: if_splits)
  next
    case (SendConsented ok)
    with step inv consented_delivery show ?thesis by (fastforce split: if_splits option.splits send_stage.splits)
  next
    case (CodeSettled answer now)
    with step inv code_delivery show ?thesis by (auto split: if_splits option.splits send_stage.splits)
  next
    case (SubmitSettled answer)
    with step inv settled_delivery show ?thesis by (auto split: if_splits option.splits submit_stage.splits)
  next
    case PageHidden
    with step inv leave_delivery show ?thesis by (auto simp: updateRegistrationPage_def)
  next
    case (PollSettled i status now)
    with step show ?thesis
      by (intro other_delivery [OF inv]) (auto simp: poll_settled_def typed_email_def split: if_splits option.splits)
  next
    case (SubmitConsented ok)
    with step show ?thesis
      by (intro other_delivery [OF inv]) (auto simp: submit_consented_def typed_email_def Let_def split: if_splits option.splits submit_stage.splits)
  next
    case (SubmitWarned reader)
    with step show ?thesis
      by (intro other_delivery [OF inv]) (auto simp: submit_warned_def typed_email_def split: if_splits option.splits submit_stage.splits)
  next
    case ExpiryElapsed
    with step show ?thesis
      by (intro other_delivery [OF inv]) (auto simp: expiry_elapsed_def unavailable_def typed_email_def split: if_splits option.splits)
  next
    case DeliveryElapsed
    with step show ?thesis
      by (intro other_delivery [OF inv]) (auto simp: pollDelivery_def typed_email_def Let_def split: if_splits option.splits)
  next
    case (ImportChanged checked)
    with step show ?thesis
      by (intro other_delivery [OF inv]) (auto simp: import_changed_def typed_email_def Let_def split: if_splits option.splits)
  next
    case (FieldsTyped username nickname code password confirmation)
    with step show ?thesis by (intro other_delivery [OF inv]) (auto simp: typed_email_def split: if_splits)
  next
    case SubmitClicked
    with step show ?thesis by (intro other_delivery [OF inv]) (auto simp: submit_clicked_def typed_email_def split: if_splits)
  qed (use step inv in \<open>auto simp: tab_delivery email_delivery send_delivery split: if_splits\<close>)
qed

section \<open>The submission invariant\<close>

lemma last_dropWhile_ne: "dropWhile P xs \<noteq> [] \<Longrightarrow> last (dropWhile P xs) = last xs"
  by (induction xs) auto

lemma trim_idem: "trim (trim s) = trim s"
proof (rule trim_id)
  define u where "u = dropWhile is_space s"
  have eq: "trim s = rev (dropWhile is_space (rev u))" by (simp add: trim_def trim_by_def u_def)
  show "trim s = [] \<or> \<not> is_space (hd (trim s)) \<and> \<not> is_space (last (trim s))"
  proof (cases "dropWhile is_space (rev u) = []")
    case False
    then have "u \<noteq> []" by auto
    then have "\<not> is_space (hd u)" by (simp add: u_def hd_dropWhile)
    moreover have "last (dropWhile is_space (rev u)) = hd u" using False \<open>u \<noteq> []\<close> by (simp add: last_dropWhile_ne last_rev)
    ultimately show ?thesis using hd_dropWhile [OF False] False by (simp add: eq hd_rev last_rev)
  qed (simp add: eq)
qed

text \<open>What a step that leaves the submission alone, or gives it up, keeps.\<close>

lemma submit_kept:
  "submit_inv t s \<Longrightarrow> rg_posted u = rg_posted s \<Longrightarrow> rg_registered u = rg_registered s \<Longrightarrow> rg_granted u = rg_granted s \<Longrightarrow>
     rg_submit u = rg_submit s \<or> rg_submit u = None \<Longrightarrow> submit_inv t u"
  by (auto simp: submit_inv_def split: option.splits submit_stage.splits)

lemma leave_submit [simp]:
  "rg_posted (leave_registration s) = rg_posted s" "rg_registered (leave_registration s) = rg_registered s"
  "rg_granted (leave_registration s) = rg_granted s" "rg_submit (leave_registration s) = rg_submit s"
  by (simp_all add: leave_registration_def clearDelivery_def)

lemma availability_settled_submission [simp]:
  "rg_posted (availability_settled revision status now s) = rg_posted s" "rg_registered (availability_settled revision status now s) = rg_registered s"
  "rg_granted (availability_settled revision status now s) = rg_granted s" "rg_submit (availability_settled revision status now s) = rg_submit s"
  by (simp_all add: availability_settled_def unavailable_def Let_def split: option.split prod.split)

lemma load_settled_submission [simp]:
  "rg_posted (load_settled revision outcome providerInUrl s) = rg_posted s" "rg_registered (load_settled revision outcome providerInUrl s) = rg_registered s"
  "rg_granted (load_settled revision outcome providerInUrl s) = rg_granted s" "rg_submit (load_settled revision outcome providerInUrl s) = rg_submit s"
  by (simp_all add: load_settled_def refreshRegistrationAvailability_def unavailable_def Let_def split: load_outcome.split)

lemma code_settled_submission [simp]:
  "rg_posted (code_settled revision address answer now s) = rg_posted s" "rg_registered (code_settled revision address answer now s) = rg_registered s"
  "rg_granted (code_settled revision address answer now s) = rg_granted s" "rg_submit (code_settled revision address answer now s) = rg_submit s"
  by (simp_all add: code_settled_def clearDelivery_def Let_def split: answer.split prod.split)

lemma poll_settled_submission [simp]:
  "rg_posted (poll_settled r status now s) = rg_posted s" "rg_registered (poll_settled r status now s) = rg_registered s"
  "rg_granted (poll_settled r status now s) = rg_granted s" "rg_submit (poll_settled r status now s) = rg_submit s"
  by (simp_all add: poll_settled_def split: option.split)

lemma tab_switched_submission [simp]:
  "rg_posted (tab_switched isRegistration accountPage s) = rg_posted s" "rg_registered (tab_switched isRegistration accountPage s) = rg_registered s"
  "rg_granted (tab_switched isRegistration accountPage s) = rg_granted s" "rg_submit (tab_switched isRegistration accountPage s) = rg_submit s"
  by (simp_all add: tab_switched_def updateRegistrationPage_def loadRegistration_def refreshRegistrationAvailability_def Let_def)

lemma submit_consented_inv:
  assumes "submit_inv t s" "rg_submit s = Some SubmitConsent"
  shows "submit_inv t (submit_consented t ok s)"
  using assms
  by (auto simp: submit_inv_def submit_consented_def registration_body_def body_ok_def trim_idem Let_def split: option.split)

lemma submit_warned_inv:
  assumes "submit_inv t s" "rg_submit s = Some (SubmitWeak revision body)"
  shows "submit_inv t (submit_warned t reader revision body s)"
  using assms by (auto simp: submit_inv_def submit_warned_def)

lemma submit_settled_inv:
  assumes "submit_inv t s" "rg_submit s = Some (SubmitWait revision body)"
  shows "submit_inv t (submit_settled revision body answer s)"
  using assms
  by (auto simp: submit_inv_def submit_settled_def updateRegistrationPage_def Let_def split: answer.split prod.split)

lemmas quiet_defs = updateRegistrationPage_def expiry_elapsed_def unavailable_def clearDelivery_def import_changed_def send_clicked_def send_consented_def
  pollDelivery_def Let_def

interpretation submit_machine: machine_invariant "registration_step t" "submit_inv t" for t
proof
  fix s e u assume inv: "submit_inv t s" and step: "registration_step t s e = Some u"
  show "submit_inv t u"
  proof (cases e)
    case (SubmitConsented ok)
    with step inv submit_consented_inv show ?thesis by (auto split: if_splits option.splits submit_stage.splits)
  next
    case (SubmitWarned reader)
    with step inv submit_warned_inv show ?thesis by (auto split: if_splits option.splits submit_stage.splits)
  next
    case (SubmitSettled answer)
    with step inv submit_settled_inv show ?thesis by (auto split: if_splits option.splits submit_stage.splits)
  next
    case SubmitClicked
    with step inv show ?thesis by (auto simp: submit_clicked_def submit_inv_def split: if_splits option.splits submit_stage.splits)
  qed (use step in \<open>auto intro!: submit_kept [OF inv] simp: quiet_defs split: if_splits option.splits send_stage.splits\<close>)
qed

text \<open>
  C37: the registration page guards what it sends and what it shows. In every run of the page the delivery receipt it polls belongs to the address
  that is typed now and only exists while the page is active, however the answers of the code request, of the page's load and of the tab switches
  interleave; every registration posted has a password of an accepted length and trimmed names, email and code; and there are never more posted
  than legal consents granted, nor more accounts reported as registered than posted.
\<close>

theorem registration_guarded:
  assumes "run_events (registration_step t) fresh_registration es = Some s"
  shows "(\<forall>r. rg_receipt s = Some r \<longrightarrow> rg_active s \<and> rr_address r = typed_email s)
    \<and> (\<forall>b \<in> set (rg_posted s). getPasswordLengthError t (rb_password b) = None \<and> trim (rb_username b) = rb_username b
          \<and> trim (rb_nickname b) = rb_nickname b \<and> trim (rb_email b) = rb_email b \<and> trim (rb_code b) = rb_code b)
    \<and> length (rg_registered s) \<le> length (rg_posted s) \<and> length (rg_posted s) \<le> rg_granted s"
proof -
  have d: "delivery_inv s" and b: "submit_inv t s"
    using delivery_machine.run_inv [OF assms fresh_delivery(1)] submit_machine.run_inv [OF assms fresh_delivery(2)] by simp_all
  have "\<forall>r. rg_receipt s = Some r \<longrightarrow> rg_active s \<and> rr_address r = typed_email s" using d by (simp add: delivery_inv_def)
  moreover have "\<forall>b \<in> set (rg_posted s). body_ok t b" "length (rg_registered s) \<le> length (rg_posted s)" "length (rg_posted s) \<le> rg_granted s"
    using b by (simp_all add: submit_inv_def)
  ultimately show ?thesis by (simp add: body_ok_def)
qed

definition registration_run :: "registration_event list" where
  "registration_run =
     [TabSwitched True True,
      LoadSettled 1 (LoadedPending \<lparr>rp_id = 1, rp_provider = [], rp_email = [], rp_email_required = False, rp_username_available = True,
                                    rp_username = [], rp_nickname = [], rp_avatar = False, rp_expires = 0\<rparr>) False,
      AvailabilitySettled 2 (Some (True, True)) 0, EmailTyped '' a@b '', SendClicked True, SendConsented True,
      CodeSettled (Answered (''1'', ''t'', ''queued'')) 5, DeliveryElapsed, PollSettled 0 (Some ''sent'') 7,
      FieldsTyped '' ann '' ''Ann'' ''123'' ''secret99'' ''secret99'', SubmitClicked, SubmitConsented True,
      SubmitWarned (\<lambda>n a b. True)]"

theorem registration_guarded_witness:
  "\<exists>s. run_events (registration_step (\<lambda>k a. k)) fresh_registration registration_run = Some s
     \<and> (\<exists>r. rg_receipt s = Some r \<and> rr_address r = ''a@b'') \<and> rg_delivery s = ''mail.status.sent''
     \<and> map rb_username (rg_posted s) = [''ann''] \<and> length (rg_posted s) \<le> rg_granted s"
proof -
  have run: "case run_events (registration_step (\<lambda>k a. k)) fresh_registration registration_run of
      None \<Rightarrow> False
    | Some s \<Rightarrow> map_option rr_address (rg_receipt s) = Some ''a@b'' \<and> rg_delivery s = ''mail.status.sent''
                  \<and> map rb_username (rg_posted s) = [''ann'']"
    by code_simp
  then obtain s where "run_events (registration_step (\<lambda>k a. k)) fresh_registration registration_run = Some s"
    by (auto split: option.splits)
  with run registration_guarded [OF this] show ?thesis by auto
qed

end
