(* ===== verification/Settings_Drafts.thy ===== *)
theory Settings_Drafts
  imports Event_Machine "HOL-Library.AList"
begin

text \<open>
  The settings pages (\<^verbatim>\<open>js/settings.js\<close>) as an event machine: discovery of the permitted pages, navigation, loading, the drafts of each page
  with their edits, the save and the discard, and the change of account.

  A configuration is a JSON value; two are equal iff their \<^verbatim>\<open>JSON.stringify\<close> is. A draft is an object that \<^verbatim>\<open>drafts\<close>, \<^verbatim>\<open>currentConfig\<close>, the
  form on display and a running save refer to, so it has an address in \<open>st_objects\<close>. \<open>fill d c\<close> is what the form of page \<open>d\<close> makes of its
  configuration when it is rendered (missing members become defaults). An edit of the form needs a container that is not inert; what an
  asynchronous handler of a form does later, such as the removal of a proxy 180 ms after its confirmation, is a \<open>LateEdit\<close> of the draft it was
  rendered for. Focus, captions, the markers' labels, the restart button and the index page's rebuild are left out. \<open>dr_generation\<close>,
  \<open>dr_domain\<close>, \<open>ld_generation\<close>, \<open>st_puts\<close> and \<open>st_late\<close> record what happened.
\<close>

section \<open>Configurations\<close>

datatype json = JNull | JBool bool | JNum int | JStr string | JArr "json list" | JObj "(string \<times> json) list"

fun json_get :: "string \<Rightarrow> json \<Rightarrow> json option" where
  "json_get k (JObj kvs) = map_of kvs k"
| "json_get k _ = None"

fun json_set :: "string \<Rightarrow> json \<Rightarrow> json \<Rightarrow> json" where
  "json_set k v (JObj kvs) = JObj (AList.update k v kvs)"
| "json_set k v c = c"

definition SETTINGS_PAGES :: "string list" where
  "SETTINGS_PAGES = [''captcha'', ''legal'', ''frontend'', ''server'', ''proxy'', ''storage'', ''oauth_providers'', ''super_teams'',
     ''publication_quota'', ''maven_domains'', ''cache'', ''mail'', ''registration'', ''updater'', ''index'']"

definition DOMAIN_MESSAGE_TYPES :: "string list" where
  "DOMAIN_MESSAGE_TYPES = [''frontend'', ''server'', ''storage'', ''proxy'', ''updater'', ''index'']"

definition settings_path :: "string \<Rightarrow> string" where
  "settings_path domain =
     (if domain \<in> set DOMAIN_MESSAGE_TYPES then ''/api/settings/domain/'' @ domain
      else ''/api/settings/'' @ map (\<lambda>c. if c = CHR ''_'' then CHR ''-'' else c) domain)"

definition save_body :: "string \<Rightarrow> json \<Rightarrow> json" where
  "save_body domain submitted =
     (if domain = ''oauth_providers''
      then JObj (case json_get ''providers'' submitted of None \<Rightarrow> [] | Some v \<Rightarrow> [(''providers'', v)]) else submitted)"

definition saved_config :: "string \<Rightarrow> json \<Rightarrow> json option \<Rightarrow> json" where
  "saved_config domain submitted answer =
     (let c = (if domain \<in> set DOMAIN_MESSAGE_TYPES then submitted else case answer of None \<Rightarrow> submitted | Some data \<Rightarrow> data)
      in if domain = ''cache'' then json_set ''clear_password'' (JBool False) (json_set ''password'' (JStr []) c)
         else if domain = ''mail'' then json_set ''clear_secrets'' (JObj []) c else c)"

section \<open>State\<close>

record draft =
  dr_config :: json
  dr_initial :: json
  dr_domain :: string
  dr_generation :: nat

record page_load =
  ld_id :: nat
  ld_domain :: string
  ld_generation :: nat

record page_save =
  sv_generation :: nat
  sv_domain :: string
  sv_object :: nat
  sv_submitted :: json

record page_put =
  pt_generation :: nat
  pt_domain :: string
  pt_path :: string
  pt_body :: json
  pt_config :: json
  pt_initial :: json

datatype settings_view = Blank | Form string nat | LoadState string "string option"

record settings =
  st_drafts :: "(string \<times> nat) list"
  st_objects :: "draft list"
  st_current :: "string option"
  st_config :: "nat option"
  st_domains :: "string list"
  st_fetch :: nat
  st_discovery :: nat
  st_generation :: nat
  st_owner :: string
  st_saving :: bool
  st_view :: settings_view
  st_inert :: bool
  st_save_disabled :: bool
  st_reset_disabled :: bool
  st_status :: string
  st_marked :: "string list"
  st_discoveries :: "nat list"
  st_loads :: "page_load list"
  st_saves :: "page_save list"
  st_resets :: "string list"
  st_puts :: "page_put list"
  st_alerts :: "string list"
  st_dispatched :: "string list"
  st_exits :: "nat list"
  st_late :: bool

datatype 'a settings_reply = Replied nat "'a option" string | Thrown string

definition reply_denied :: "'a settings_reply \<Rightarrow> nat option" where
  "reply_denied r = (case r of Replied status _ _ \<Rightarrow> if status = 401 \<or> status = 403 then Some status else None | Thrown _ \<Rightarrow> None)"

definition reply_ok :: "'a settings_reply \<Rightarrow> string + 'a option" where
  "reply_ok r = (case r of Thrown message \<Rightarrow> Inl message
     | Replied status data message \<Rightarrow> if 200 \<le> status \<and> status < 300 then Inr data else Inl message)"

definition reply_data :: "'a settings_reply \<Rightarrow> string + 'a" where
  "reply_data r = (case r of Thrown message \<Rightarrow> Inl message
     | Replied status data message \<Rightarrow>
         (case data of Some v \<Rightarrow> if 200 \<le> status \<and> status < 300 then Inr v else Inl message | None \<Rightarrow> Inl message))"

section \<open>Drafts and controls\<close>

definition draft_of :: "settings \<Rightarrow> string \<Rightarrow> draft option" where
  "draft_of s d = map_option (\<lambda>i. st_objects s ! i) (map_of (st_drafts s) d)"

definition dirtyDraft :: "draft option \<Rightarrow> bool" where
  "dirtyDraft d = (case d of None \<Rightarrow> False | Some x \<Rightarrow> dr_config x \<noteq> dr_initial x)"

definition current_dirty :: "settings \<Rightarrow> bool" where
  "current_dirty s = (case st_current s of None \<Rightarrow> False | Some d \<Rightarrow> dirtyDraft (draft_of s d))"

definition enableSave :: "settings \<Rightarrow> settings" where
  "enableSave s =
     (let dirty = current_dirty s
      in s\<lparr>st_save_disabled := (st_saving s \<or> st_config s = None \<or> \<not> dirty \<or> st_current s = Some ''index''),
           st_reset_disabled := (st_saving s \<or> st_config s = None \<or> \<not> dirty),
           st_status := (if st_saving s then ''settings.saving'' else if dirty then ''settings.unsaved'' else ''settings.upToDate''),
           st_marked := filter (\<lambda>d. dirtyDraft (draft_of s d)) (st_domains s), st_inert := st_saving s\<rparr>)"

definition settingsLoadState :: "string \<Rightarrow> string option \<Rightarrow> settings \<Rightarrow> settings" where
  "settingsLoadState message retry s = s\<lparr>st_view := LoadState message retry\<rparr>"

definition exit_denied :: "nat \<Rightarrow> settings \<Rightarrow> settings" where
  "exit_denied status s = s\<lparr>st_exits := status # st_exits s\<rparr>"

definition edit_draft :: "nat \<Rightarrow> json \<Rightarrow> settings \<Rightarrow> settings" where
  "edit_draft i c s = s\<lparr>st_objects := (st_objects s)[i := (st_objects s ! i)\<lparr>dr_config := c\<rparr>]\<rparr>"

definition settle_draft :: "nat \<Rightarrow> settings \<Rightarrow> settings" where
  "settle_draft i s = s\<lparr>st_objects := (st_objects s)[i := (st_objects s ! i)\<lparr>dr_initial := dr_config (st_objects s ! i)\<rparr>]\<rparr>"

definition renderSettingsForm :: "(string \<Rightarrow> json \<Rightarrow> json) \<Rightarrow> string \<Rightarrow> nat \<Rightarrow> settings \<Rightarrow> settings" where
  "renderSettingsForm fill domain i s = (edit_draft i (fill domain (dr_config (st_objects s ! i))) s)\<lparr>st_view := Form domain i\<rparr>"

section \<open>Loading\<close>

definition page_opened :: "(string \<Rightarrow> json \<Rightarrow> json) \<Rightarrow> string \<Rightarrow> nat \<Rightarrow> bool \<Rightarrow> settings \<Rightarrow> settings" where
  "page_opened fill domain i fresh s =
     (let s1 = renderSettingsForm fill domain i (s\<lparr>st_config := Some i\<rparr>);
          s2 = (if fresh then settle_draft i s1 else s1)
      in (enableSave s2)\<lparr>st_inert := False\<rparr>)"

definition loadDomainSettings :: "(string \<Rightarrow> json \<Rightarrow> json) \<Rightarrow> string \<Rightarrow> settings \<Rightarrow> settings" where
  "loadDomainSettings fill domain s =
     (if st_saving s \<or> domain \<notin> set (st_domains s) then s
      else let s1 = (enableSave (s\<lparr>st_fetch := st_fetch s + 1, st_current := Some domain, st_config := None\<rparr>))\<lparr>st_inert := True\<rparr>
           in case map_of (st_drafts s) domain of
               Some i \<Rightarrow>
                 if dirtyDraft (Some (st_objects s ! i)) then page_opened fill domain i False s1
                 else s1\<lparr>st_loads := st_loads s @ [\<lparr>ld_id = st_fetch s + 1, ld_domain = domain, ld_generation = st_generation s\<rparr>]\<rparr>
             | None \<Rightarrow> s1\<lparr>st_loads := st_loads s @ [\<lparr>ld_id = st_fetch s + 1, ld_domain = domain, ld_generation = st_generation s\<rparr>]\<rparr>)"

definition load_answered :: "(string \<Rightarrow> json \<Rightarrow> json) \<Rightarrow> page_load \<Rightarrow> json settings_reply \<Rightarrow> settings \<Rightarrow> settings" where
  "load_answered fill l reply s =
     (if ld_id l \<noteq> st_fetch s then s
      else case reply_denied reply of
          Some status \<Rightarrow> (exit_denied status s)\<lparr>st_inert := False\<rparr>
        | None \<Rightarrow>
            (case reply_data reply of
               Inl message \<Rightarrow> (settingsLoadState message (Some (ld_domain l)) s)\<lparr>st_inert := False\<rparr>
             | Inr c \<Rightarrow>
                 let i = length (st_objects s);
                     x = \<lparr>dr_config = c, dr_initial = c, dr_domain = ld_domain l, dr_generation = ld_generation l\<rparr>
                 in page_opened fill (ld_domain l) i True
                      (s\<lparr>st_objects := st_objects s @ [x], st_drafts := AList.update (ld_domain l) i (st_drafts s)\<rparr>)))"

definition initSettings :: "settings \<Rightarrow> settings" where
  "initSettings s =
     (if st_saving s then s
      else s\<lparr>st_discovery := st_discovery s + 1, st_discoveries := st_discoveries s @ [st_discovery s + 1]\<rparr>)"

definition permitted_pages :: "string list \<Rightarrow> string list" where
  "permitted_pages ds = filter (\<lambda>d. d \<in> set SETTINGS_PAGES) (rev (remdups (rev ds)))"

definition domains_answered ::
  "(string \<Rightarrow> json \<Rightarrow> json) \<Rightarrow> nat \<Rightarrow> string list settings_reply \<Rightarrow> settings \<Rightarrow> settings" where
  "domains_answered fill requestId reply s =
     (if requestId \<noteq> st_discovery s then s
      else case reply_denied reply of
          Some status \<Rightarrow> exit_denied status s
        | None \<Rightarrow>
            (case reply_data reply of
               Inl message \<Rightarrow> settingsLoadState message None s
             | Inr ds \<Rightarrow>
                 let pages = permitted_pages ds;
                     current = (case st_current s of Some d \<Rightarrow> if d \<in> set pages then Some d else List.find (\<lambda>d. True) pages
                                  | None \<Rightarrow> List.find (\<lambda>d. True) pages);
                     s1 = enableSave (s\<lparr>st_domains := pages, st_drafts := AList.restrict (set pages) (st_drafts s), st_current := current\<rparr>)
                 in case current of Some d \<Rightarrow> loadDomainSettings fill d s1
                      | None \<Rightarrow> settingsLoadState ''settings.noSections'' None s1))"

section \<open>Saving and discarding\<close>

definition saveDomainSettings :: "bool \<Rightarrow> settings \<Rightarrow> settings" where
  "saveDomainSettings valid s =
     (case st_current s of
        None \<Rightarrow> s
      | Some domain \<Rightarrow>
          (case map_of (st_drafts s) domain of
             None \<Rightarrow> s
           | Some i \<Rightarrow>
               let x = st_objects s ! i
               in if st_saving s \<or> st_config s = None \<or> \<not> dirtyDraft (Some x) \<or> domain = ''index'' \<or> \<not> valid then s
                  else (enableSave (s\<lparr>st_saving := True\<rparr>))
                         \<lparr>st_saves := st_saves s @ [\<lparr>sv_generation = st_generation s, sv_domain = domain, sv_object = i,
                                                     sv_submitted = dr_config x\<rparr>],
                          st_puts := \<lparr>pt_generation = st_generation s, pt_domain = domain, pt_path = settings_path domain,
                                      pt_body = save_body domain (dr_config x), pt_config = dr_config x, pt_initial = dr_initial x\<rparr> # st_puts s\<rparr>))"

definition saved_events :: "string \<Rightarrow> string list" where
  "saved_events domain =
     (if domain = ''oauth_providers'' then [''oauthProvidersChanged'']
      else if domain = ''legal'' then [''legalSettingsChanged'']
      else if domain = ''captcha'' then [''captchaSettingsChanged''] else [])"

definition save_answered :: "(string \<Rightarrow> json \<Rightarrow> json) \<Rightarrow> page_save \<Rightarrow> json settings_reply \<Rightarrow> settings \<Rightarrow> settings" where
  "save_answered fill v reply s =
     (if sv_generation v \<noteq> st_generation s then s
      else case reply_ok reply of
          Inl message \<Rightarrow> enableSave (s\<lparr>st_alerts := message # st_alerts s, st_saving := False\<rparr>)
        | Inr answer \<Rightarrow>
            let i = sv_object v;
                s1 = (edit_draft i (saved_config (sv_domain v) (sv_submitted v) answer) s)\<lparr>st_config := Some i\<rparr>;
                s2 = settle_draft i (renderSettingsForm fill (sv_domain v) i s1)
            in enableSave (s2\<lparr>st_dispatched := saved_events (sv_domain v) @ st_dispatched s,
                              st_alerts := ''settings.savedSuccess'' # st_alerts s, st_saving := False\<rparr>))"

definition reset_clicked :: "settings \<Rightarrow> settings" where
  "reset_clicked s =
     (case st_current s of
        None \<Rightarrow> s
      | Some domain \<Rightarrow> if st_saving s \<or> \<not> dirtyDraft (draft_of s domain) then s else s\<lparr>st_resets := st_resets s @ [domain]\<rparr>)"

definition reset_answered :: "(string \<Rightarrow> json \<Rightarrow> json) \<Rightarrow> string \<Rightarrow> bool \<Rightarrow> settings \<Rightarrow> settings" where
  "reset_answered fill domain confirmed s =
     (if \<not> confirmed \<or> Some domain \<noteq> st_current s \<or> st_saving s then s
      else loadDomainSettings fill domain (s\<lparr>st_drafts := AList.delete domain (st_drafts s)\<rparr>))"

definition settings_account_changed :: "bool \<Rightarrow> bool \<Rightarrow> string \<Rightarrow> settings \<Rightarrow> settings" where
  "settings_account_changed isLoggedIn isManager username s =
     (if isLoggedIn \<and> isManager \<and> username = st_owner s then s
      else enableSave (s\<lparr>st_owner := (if isLoggedIn \<and> isManager then username else []), st_generation := st_generation s + 1,
                         st_fetch := st_fetch s + 1, st_discovery := st_discovery s + 1, st_drafts := [], st_current := None, st_config := None,
                         st_saving := False, st_domains := [], st_view := Blank\<rparr>))"

definition unsaved_work :: "settings \<Rightarrow> bool" where
  "unsaved_work s = list_ex (\<lambda>(d, i). dirtyDraft (Some (st_objects s ! i))) (st_drafts s)"

section \<open>Events\<close>

datatype settings_event =
    SettingsEntered
  | DomainsAnswered nat "string list settings_reply"
  | PageChosen string
  | PageStepped bool
  | RetryClicked
  | PageAnswered nat "json settings_reply"
  | FormEdited json
  | LateEdit nat json
  | SaveClicked bool
  | SaveAnswered nat "json settings_reply"
  | ResetClicked
  | ResetAnswered nat bool
  | AccountChanged bool bool string

definition stepped_page :: "bool \<Rightarrow> settings \<Rightarrow> string option" where
  "stepped_page forwards s =
     (case st_current s of
        None \<Rightarrow> None
      | Some d \<Rightarrow>
          (case indexOf (st_domains s) d of
             None \<Rightarrow> None
           | Some k \<Rightarrow>
               if forwards then (if Suc k < length (st_domains s) then Some (st_domains s ! Suc k) else None)
               else (if 0 < k then Some (st_domains s ! (k - 1)) else None)))"

fun settings_step :: "(string \<Rightarrow> json \<Rightarrow> json) \<Rightarrow> settings \<Rightarrow> settings_event \<Rightarrow> settings option" where
  "settings_step fill s SettingsEntered = Some (initSettings s)"
| "settings_step fill s (DomainsAnswered requestId reply) =
     (if requestId \<in> set (st_discoveries s)
      then Some (domains_answered fill requestId reply (s\<lparr>st_discoveries := removeAll requestId (st_discoveries s)\<rparr>)) else None)"
| "settings_step fill s (PageChosen domain) =
     (if st_saving s \<or> Some domain = st_current s then None else Some (loadDomainSettings fill domain s))"
| "settings_step fill s (PageStepped forwards) =
     (if st_saving s then None else map_option (\<lambda>d. loadDomainSettings fill d s) (stepped_page forwards s))"
| "settings_step fill s RetryClicked =
     (if st_inert s then None
      else case st_view s of
          LoadState message retry \<Rightarrow> Some (case retry of None \<Rightarrow> initSettings s | Some d \<Rightarrow> loadDomainSettings fill d s)
        | _ \<Rightarrow> None)"
| "settings_step fill s (PageAnswered fetchId reply) =
     (case List.find (\<lambda>l. ld_id l = fetchId) (st_loads s) of
        None \<Rightarrow> None
      | Some l \<Rightarrow> Some (load_answered fill l reply (s\<lparr>st_loads := filter (\<lambda>l. ld_id l \<noteq> fetchId) (st_loads s)\<rparr>)))"
| "settings_step fill s (FormEdited c) =
     (case st_view s of Form d i \<Rightarrow> if st_inert s then None else Some (enableSave (edit_draft i c s)) | _ \<Rightarrow> None)"
| "settings_step fill s (LateEdit i c) =
     (if i < length (st_objects s) then Some ((enableSave (edit_draft i c s))\<lparr>st_late := True\<rparr>) else None)"
| "settings_step fill s (SaveClicked valid) = (if st_save_disabled s then None else Some (saveDomainSettings valid s))"
| "settings_step fill s (SaveAnswered g reply) =
     (case List.find (\<lambda>v. sv_generation v = g) (st_saves s) of
        None \<Rightarrow> None
      | Some v \<Rightarrow> Some (save_answered fill v reply (s\<lparr>st_saves := filter (\<lambda>v. sv_generation v \<noteq> g) (st_saves s)\<rparr>)))"
| "settings_step fill s ResetClicked = (if st_reset_disabled s then None else Some (reset_clicked s))"
| "settings_step fill s (ResetAnswered j confirmed) =
     (if j < length (st_resets s)
      then Some (reset_answered fill (st_resets s ! j) confirmed
             (s\<lparr>st_resets := take j (st_resets s) @ drop (Suc j) (st_resets s)\<rparr>)) else None)"
| "settings_step fill s (AccountChanged isLoggedIn isManager username) = Some (settings_account_changed isLoggedIn isManager username s)"

definition fresh_settings :: settings where
  "fresh_settings = \<lparr>st_drafts = [], st_objects = [], st_current = None, st_config = None, st_domains = [], st_fetch = 0, st_discovery = 0,
     st_generation = 0, st_owner = [], st_saving = False, st_view = Blank, st_inert = False, st_save_disabled = True, st_reset_disabled = True,
     st_status = [], st_marked = [], st_discoveries = [], st_loads = [], st_saves = [], st_resets = [], st_puts = [], st_alerts = [],
     st_dispatched = [], st_exits = [], st_late = False\<rparr>"

section \<open>Invariant\<close>

definition is_form :: "settings_view \<Rightarrow> bool" where
  "is_form v = (case v of Form d i \<Rightarrow> True | _ \<Rightarrow> False)"

definition loading_page :: "settings \<Rightarrow> page_load \<Rightarrow> bool" where
  "loading_page s l \<longleftrightarrow> l \<in> set (st_loads s) \<and> ld_id l = st_fetch s"

text \<open>An object is one of page \<open>d\<close> and of the present account.\<close>

definition own_object :: "nat \<Rightarrow> draft list \<Rightarrow> string \<Rightarrow> nat \<Rightarrow> bool" where
  "own_object g xs d i \<longleftrightarrow> i < length xs \<and> dr_domain (xs ! i) = d \<and> dr_generation (xs ! i) = g"

abbreviation own :: "settings \<Rightarrow> string \<Rightarrow> nat \<Rightarrow> bool" where
  "own s \<equiv> own_object (st_generation s) (st_objects s)"

definition own_inv :: "settings \<Rightarrow> bool" where
  "own_inv s \<longleftrightarrow> (\<forall>d i. map_of (st_drafts s) d = Some i \<longrightarrow> own s d i)
     \<and> (\<forall>d i. st_view s = Form d i \<longrightarrow> own s d i)
     \<and> (\<forall>i. st_config s = Some i \<longrightarrow> (\<exists>d. own s d i))
     \<and> (\<forall>v \<in> set (st_saves s). sv_generation v \<le> st_generation s \<and> (sv_generation v = st_generation s \<longrightarrow> own s (sv_domain v) (sv_object v)))
     \<and> (\<forall>l \<in> set (st_loads s). ld_id l \<le> st_fetch s \<and> (ld_id l = st_fetch s \<longrightarrow> ld_generation l = st_generation s))
     \<and> (\<forall>d. st_current s = Some d \<longrightarrow> d \<in> set (st_domains s))"

definition save_inv :: "settings \<Rightarrow> bool" where
  "save_inv s \<longleftrightarrow> distinct (map sv_generation (st_saves s))
     \<and> (st_saving s \<longrightarrow> (\<exists>v \<in> set (st_saves s). sv_generation v = st_generation s))
     \<and> (\<forall>v \<in> set (st_saves s). sv_generation v = st_generation s \<longrightarrow> st_saving s)
     \<and> (st_saving s \<longrightarrow> st_inert s)
     \<and> (\<forall>l. loading_page s l \<longrightarrow> st_config s = None \<and> \<not> st_saving s)
     \<and> (\<forall>p \<in> set (st_puts s). pt_config p \<noteq> pt_initial p \<and> pt_domain p \<noteq> ''index'' \<and> pt_path p = settings_path (pt_domain p)
          \<and> pt_body p = save_body (pt_domain p) (pt_config p) \<and> pt_generation p \<le> st_generation s)"

definition button_inv :: "settings \<Rightarrow> bool" where
  "button_inv s \<longleftrightarrow> \<not> st_save_disabled s \<longrightarrow>
     \<not> st_saving s \<and> st_config s \<noteq> None \<and> current_dirty s \<and> st_current s \<noteq> Some ''index''"

definition edit_inv :: "settings \<Rightarrow> bool" where
  "edit_inv s \<longleftrightarrow> st_late s
     \<or> (\<forall>l. loading_page s l \<longrightarrow> (st_inert s \<or> \<not> is_form (st_view s)) \<and> \<not> dirtyDraft (draft_of s (ld_domain l)))
       \<and> (\<forall>v \<in> set (st_saves s). sv_generation v = st_generation s \<longrightarrow> dr_config (st_objects s ! sv_object v) = sv_submitted v)"

text \<open>What the small operations leave alone.\<close>

lemma enable_fields [simp]:
  "st_drafts (enableSave s) = st_drafts s" "st_objects (enableSave s) = st_objects s" "st_current (enableSave s) = st_current s"
  "st_config (enableSave s) = st_config s" "st_domains (enableSave s) = st_domains s" "st_fetch (enableSave s) = st_fetch s"
  "st_generation (enableSave s) = st_generation s" "st_saving (enableSave s) = st_saving s" "st_view (enableSave s) = st_view s"
  "st_inert (enableSave s) = st_saving s" "st_loads (enableSave s) = st_loads s" "st_saves (enableSave s) = st_saves s"
  "st_puts (enableSave s) = st_puts s" "st_late (enableSave s) = st_late s" "st_resets (enableSave s) = st_resets s"
  "st_save_disabled (enableSave s) = (st_saving s \<or> st_config s = None \<or> \<not> current_dirty s \<or> st_current s = Some ''index'')"
  by (simp_all add: enableSave_def Let_def)

lemma edit_fields [simp]:
  "st_drafts (edit_draft i c s) = st_drafts s" "st_current (edit_draft i c s) = st_current s" "st_config (edit_draft i c s) = st_config s"
  "st_domains (edit_draft i c s) = st_domains s" "st_fetch (edit_draft i c s) = st_fetch s" "st_generation (edit_draft i c s) = st_generation s"
  "st_saving (edit_draft i c s) = st_saving s" "st_view (edit_draft i c s) = st_view s" "st_inert (edit_draft i c s) = st_inert s"
  "st_loads (edit_draft i c s) = st_loads s" "st_saves (edit_draft i c s) = st_saves s" "st_puts (edit_draft i c s) = st_puts s"
  "st_late (edit_draft i c s) = st_late s" "st_save_disabled (edit_draft i c s) = st_save_disabled s"
  "st_objects (edit_draft i c s) = (st_objects s)[i := (st_objects s ! i)\<lparr>dr_config := c\<rparr>]"
  by (simp_all add: edit_draft_def)

lemma settle_draft_fields [simp]:
  "st_drafts (settle_draft i s) = st_drafts s" "st_current (settle_draft i s) = st_current s" "st_config (settle_draft i s) = st_config s"
  "st_domains (settle_draft i s) = st_domains s" "st_fetch (settle_draft i s) = st_fetch s" "st_generation (settle_draft i s) = st_generation s"
  "st_saving (settle_draft i s) = st_saving s" "st_view (settle_draft i s) = st_view s" "st_inert (settle_draft i s) = st_inert s"
  "st_loads (settle_draft i s) = st_loads s" "st_saves (settle_draft i s) = st_saves s" "st_puts (settle_draft i s) = st_puts s"
  "st_late (settle_draft i s) = st_late s" "st_save_disabled (settle_draft i s) = st_save_disabled s"
  "st_objects (settle_draft i s) = (st_objects s)[i := (st_objects s ! i)\<lparr>dr_initial := dr_config (st_objects s ! i)\<rparr>]"
  by (simp_all add: settle_draft_def)

lemma render_fields [simp]:
  "st_view (renderSettingsForm fill d i s) = Form d i"
  "st_objects (renderSettingsForm fill d i s) =
     (st_objects s)[i := (st_objects s ! i)\<lparr>dr_config := fill d (dr_config (st_objects s ! i))\<rparr>]"
  "st_drafts (renderSettingsForm fill d i s) = st_drafts s" "st_current (renderSettingsForm fill d i s) = st_current s"
  "st_config (renderSettingsForm fill d i s) = st_config s" "st_domains (renderSettingsForm fill d i s) = st_domains s"
  "st_fetch (renderSettingsForm fill d i s) = st_fetch s" "st_generation (renderSettingsForm fill d i s) = st_generation s"
  "st_saving (renderSettingsForm fill d i s) = st_saving s" "st_inert (renderSettingsForm fill d i s) = st_inert s"
  "st_loads (renderSettingsForm fill d i s) = st_loads s" "st_saves (renderSettingsForm fill d i s) = st_saves s"
  "st_puts (renderSettingsForm fill d i s) = st_puts s" "st_late (renderSettingsForm fill d i s) = st_late s"
  "st_save_disabled (renderSettingsForm fill d i s) = st_save_disabled s"
  by (simp_all add: renderSettingsForm_def)

lemma own_updated [simp]:
  "(i < length xs \<Longrightarrow> dr_domain y = dr_domain (xs ! i)) \<Longrightarrow> (i < length xs \<Longrightarrow> dr_generation y = dr_generation (xs ! i)) \<Longrightarrow>
     own_object g (xs[i := y]) = own_object g xs"
  by (cases "i < length xs") (auto simp: own_object_def fun_eq_iff nth_list_update list_update_beyond)

lemma dirty_other:
  "st_drafts u = st_drafts s \<Longrightarrow> st_objects u = st_objects s \<Longrightarrow> draft_of u = draft_of s"
  "st_drafts u = st_drafts s \<Longrightarrow> st_objects u = st_objects s \<Longrightarrow> st_current u = st_current s \<Longrightarrow> current_dirty u = current_dirty s"
  by (simp_all add: draft_of_def current_dirty_def fun_eq_iff cong: option.case_cong)

lemma button_enabled:
  "st_save_disabled u = st_save_disabled (enableSave s) \<Longrightarrow> st_saving u = st_saving s \<Longrightarrow> st_config u = st_config s \<Longrightarrow>
     st_current u = st_current s \<Longrightarrow> st_drafts u = st_drafts s \<Longrightarrow> st_objects u = st_objects s \<Longrightarrow> button_inv u"
  by (simp add: button_inv_def dirty_other [of u s])

lemma button_same:
  "button_inv s \<Longrightarrow> st_save_disabled u = st_save_disabled s \<Longrightarrow> st_saving u = st_saving s \<Longrightarrow> st_config u = st_config s \<Longrightarrow>
     st_current u = st_current s \<Longrightarrow> st_drafts u = st_drafts s \<Longrightarrow> st_objects u = st_objects s \<Longrightarrow> button_inv u"
  by (simp add: button_inv_def dirty_other [of u s])

text \<open>What a page that opens has changed.\<close>

lemma opened_fields [simp]:
  "st_drafts (page_opened fill d i fresh s) = st_drafts s" "st_current (page_opened fill d i fresh s) = st_current s"
  "st_config (page_opened fill d i fresh s) = Some i" "st_domains (page_opened fill d i fresh s) = st_domains s"
  "st_fetch (page_opened fill d i fresh s) = st_fetch s" "st_generation (page_opened fill d i fresh s) = st_generation s"
  "st_saving (page_opened fill d i fresh s) = st_saving s" "st_view (page_opened fill d i fresh s) = Form d i"
  "\<not> st_inert (page_opened fill d i fresh s)" "st_loads (page_opened fill d i fresh s) = st_loads s"
  "st_saves (page_opened fill d i fresh s) = st_saves s" "st_puts (page_opened fill d i fresh s) = st_puts s"
  "st_late (page_opened fill d i fresh s) = st_late s" "own_object g (st_objects (page_opened fill d i fresh s)) = own_object g (st_objects s)"
  by (simp_all add: page_opened_def Let_def)

lemma opened_button: "button_inv (page_opened fill d i fresh s)"
  by (cases fresh)
    (simp_all add: page_opened_def Let_def button_enabled [where s = "renderSettingsForm fill d i (s\<lparr>st_config := Some i\<rparr>)"]
      button_enabled [where s = "settle_draft i (renderSettingsForm fill d i (s\<lparr>st_config := Some i\<rparr>))"])

section \<open>Every operation keeps the invariants\<close>

lemma load_own:
  assumes "own_inv s"
  shows "own_inv (loadDomainSettings fill d s)"
proof (cases "st_saving s \<or> d \<notin> set (st_domains s)")
  case False
  with assms show ?thesis
    by (auto simp: own_inv_def loadDomainSettings_def Let_def dest: le_SucI split: option.split)
qed (simp add: loadDomainSettings_def assms)

lemma load_save:
  assumes "own_inv s" "save_inv s" 
  shows "save_inv (loadDomainSettings fill d s)"
proof (cases "st_saving s \<or> d \<notin> set (st_domains s)")
  case False
  with assms show ?thesis
    by (auto simp: save_inv_def own_inv_def loadDomainSettings_def loading_page_def Let_def split: option.split)
qed (simp add: loadDomainSettings_def assms)

lemma load_button:
  assumes "button_inv s \<or> d \<in> set (st_domains s) \<and> \<not> st_saving s"
  shows "button_inv (loadDomainSettings fill d s)"
  using assms by (auto simp: loadDomainSettings_def Let_def opened_button split: option.split) (simp_all add: button_inv_def)

lemma load_edit:
  assumes "own_inv s" "save_inv s" "edit_inv s \<or> \<not> st_saving s \<and> d \<in> set (st_domains s)"
  shows "edit_inv (loadDomainSettings fill d s)"
proof (cases "st_saving s \<or> d \<notin> set (st_domains s)")
  case False
  with assms(2) have idle: "sv_generation v \<noteq> st_generation s" if "v \<in> set (st_saves s)" for v using that by (auto simp: save_inv_def)
  have old: "ld_id l \<noteq> Suc (st_fetch s)" if "l \<in> set (st_loads s)" for l using assms(1) that by (fastforce simp: own_inv_def)
  show ?thesis using False idle old
    by (auto simp: edit_inv_def loadDomainSettings_def loading_page_def draft_of_def dirtyDraft_def Let_def split: option.split)
qed (use assms(3) in \<open>auto simp: loadDomainSettings_def\<close>)

text \<open>The four invariants read nothing but these fields.\<close>

definition settings_inv :: "settings \<Rightarrow> bool" where
  "settings_inv s \<longleftrightarrow> own_inv s \<and> save_inv s \<and> button_inv s \<and> edit_inv s"

lemma settings_cong:
  assumes "settings_inv s"
    "st_drafts u = st_drafts s" "st_objects u = st_objects s" "st_current u = st_current s" "st_config u = st_config s"
    "st_domains u = st_domains s" "st_fetch u = st_fetch s" "st_generation u = st_generation s" "st_saving u = st_saving s"
    "st_view u = st_view s" "st_inert u = st_inert s" "st_save_disabled u = st_save_disabled s" "st_loads u = st_loads s"
    "st_saves u = st_saves s" "st_puts u = st_puts s" "st_late u = st_late s"
  shows "settings_inv u"
  using assms(1) unfolding settings_inv_def own_inv_def save_inv_def button_inv_def edit_inv_def loading_page_def draft_of_def current_dirty_def
    assms(2-) .

lemma settings_other:
  "settings_inv s \<Longrightarrow> settings_inv (s\<lparr>st_discovery := n, st_discoveries := x\<rparr>)" "settings_inv s \<Longrightarrow> settings_inv (s\<lparr>st_discoveries := x\<rparr>)"
  "settings_inv s \<Longrightarrow> settings_inv (s\<lparr>st_resets := y\<rparr>)" "settings_inv s \<Longrightarrow> settings_inv (exit_denied status s)"
  by (erule settings_cong; simp add: exit_denied_def)+

lemma load_settings: "settings_inv s \<Longrightarrow> settings_inv (loadDomainSettings fill d s)"
  by (simp add: settings_inv_def load_own load_save load_button load_edit)

lemma loadstate_settings:
  assumes "settings_inv s"
  shows "settings_inv (settingsLoadState message retry s)"
proof -
  have "own_inv (settingsLoadState message retry s)" using assms by (auto simp: settings_inv_def own_inv_def settingsLoadState_def)
  moreover have "save_inv (settingsLoadState message retry s)"
    using assms unfolding settings_inv_def save_inv_def loading_page_def settingsLoadState_def by simp
  moreover have "button_inv (settingsLoadState message retry s)"
    using assms unfolding settings_inv_def settingsLoadState_def by (auto intro: button_same)
  moreover have "edit_inv (settingsLoadState message retry s)"
    using assms unfolding settings_inv_def edit_inv_def loading_page_def draft_of_def settingsLoadState_def is_form_def by auto
  ultimately show ?thesis by (simp add: settings_inv_def)
qed

text \<open>The answer of a load: its entry is gone, so the page is not loading any more.\<close>

lemma load_ended:
  assumes "settings_inv s"
  shows "settings_inv (s\<lparr>st_loads := filter (\<lambda>l. ld_id l \<noteq> n) (st_loads s)\<rparr>)" (is "settings_inv ?u")
proof -
  have "own_inv ?u" using assms by (auto simp: settings_inv_def own_inv_def)
  moreover have "save_inv ?u" using assms unfolding settings_inv_def save_inv_def loading_page_def by auto
  moreover have "button_inv ?u" using assms unfolding settings_inv_def by (auto intro: button_same)
  moreover have "edit_inv ?u" using assms unfolding settings_inv_def edit_inv_def loading_page_def draft_of_def by auto
  ultimately show ?thesis by (simp add: settings_inv_def)
qed

definition idle_settings :: "settings \<Rightarrow> bool" where
  "idle_settings s \<longleftrightarrow> (\<forall>l. \<not> loading_page s l) \<and> \<not> st_saving s"

lemma idle_inert:
  assumes "settings_inv s" "idle_settings s"
  shows "settings_inv (s\<lparr>st_inert := b\<rparr>)" (is "settings_inv ?u")
proof -
  have "own_inv ?u" using assms(1) unfolding settings_inv_def own_inv_def by simp
  moreover have "save_inv ?u" using assms unfolding settings_inv_def save_inv_def idle_settings_def loading_page_def by auto
  moreover have "button_inv ?u" using assms(1) unfolding settings_inv_def by (auto intro: button_same)
  moreover have "edit_inv ?u" using assms unfolding settings_inv_def edit_inv_def idle_settings_def loading_page_def draft_of_def by auto
  ultimately show ?thesis by (simp add: settings_inv_def)
qed

lemma opened_settings:
  assumes "settings_inv s" "idle_settings s" "ld_generation l = st_generation s" "dr_domain x = ld_domain l" "dr_generation x = ld_generation l"
  shows "settings_inv (page_opened fill (ld_domain l) (length (st_objects s)) True
    (s\<lparr>st_objects := st_objects s @ [x], st_drafts := AList.update (ld_domain l) (length (st_objects s)) (st_drafts s)\<rparr>))"
proof -
  have grown: "own_object g (st_objects s @ [x]) d i \<longleftrightarrow>
      (if i = length (st_objects s) then d = ld_domain l \<and> g = ld_generation l else own_object g (st_objects s) d i)" for g d i
    using assms(4,5) by (auto simp: own_object_def nth_append)
  have old: "i \<noteq> length (st_objects s)" if "own_object g (st_objects s) d i" for g d i using that by (auto simp: own_object_def)
  have idle: "sv_generation v \<noteq> st_generation s" if "v \<in> set (st_saves s)" for v
    using assms(1,2) that by (auto simp: settings_inv_def save_inv_def idle_settings_def)
  show ?thesis using assms(1,2,3) unfolding settings_inv_def
    by (intro conjI opened_button)
      (auto simp: own_inv_def save_inv_def edit_inv_def grown idle_settings_def loading_page_def update_conv' idle dest: old split: if_splits)
qed

lemma answered_settings:
  assumes "settings_inv s" "l \<in> set (st_loads s)"
  shows "settings_inv (load_answered fill l reply (s\<lparr>st_loads := filter (\<lambda>k. ld_id k \<noteq> ld_id l) (st_loads s)\<rparr>))"
proof -
  define s1 where "s1 = s\<lparr>st_loads := filter (\<lambda>k. ld_id k \<noteq> ld_id l) (st_loads s)\<rparr>"
  have inv: "settings_inv s1" unfolding s1_def by (rule load_ended [OF assms(1)])
  show ?thesis unfolding s1_def [symmetric]
  proof (cases "ld_id l = st_fetch s1")
    case True
    then have now: "ld_id l = st_fetch s" by (simp add: s1_def)
    have "own_inv s" "save_inv s" using assms(1) by (simp_all add: settings_inv_def)
    then have "\<not> st_saving s" "ld_generation l = st_generation s"
      using assms(2) now unfolding save_inv_def own_inv_def loading_page_def by blast+
    then have gen: "ld_generation l = st_generation s1" and idle: "idle_settings s1"
      using now unfolding idle_settings_def loading_page_def s1_def by auto
    have opened: "settings_inv (page_opened fill (ld_domain l) (length (st_objects s1)) True
        (s1\<lparr>st_objects := st_objects s1 @ [x], st_drafts := AList.update (ld_domain l) (length (st_objects s1)) (st_drafts s1)\<rparr>))"
      if "dr_domain x = ld_domain l" "dr_generation x = ld_generation l" for x by (rule opened_settings [OF inv idle gen that])
    have "settings_inv ((exit_denied status s1)\<lparr>st_inert := False\<rparr>)" for status
      using idle_inert [OF settings_other(4) [OF inv]] idle by (simp add: idle_settings_def loading_page_def exit_denied_def)
    moreover have "settings_inv ((settingsLoadState message retry s1)\<lparr>st_inert := False\<rparr>)" for message retry
      using idle_inert [OF loadstate_settings [OF inv]] idle by (simp add: idle_settings_def loading_page_def settingsLoadState_def)
    ultimately show "settings_inv (load_answered fill l reply s1)" using True opened
      by (simp add: load_answered_def Let_def split: option.split sum.split)
  qed (simp add: load_answered_def inv)
qed

lemma permitted_choice:
  "List.find (\<lambda>d. True) ds = Some d \<Longrightarrow> d \<in> set ds" "List.find (\<lambda>d. True) ds = None \<longleftrightarrow> ds = []"
  by (auto simp: find_Some_iff find_None_iff in_set_conv_nth)

lemma renewed_settings:
  assumes "settings_inv s" "\<forall>d. current = Some d \<longrightarrow> d \<in> set pages"
  defines "s1 \<equiv> enableSave (s\<lparr>st_domains := pages, st_drafts := AList.restrict (set pages) (st_drafts s), st_current := current\<rparr>)"
  shows "own_inv s1" "save_inv s1" "button_inv s1" "st_saving s1 \<Longrightarrow> edit_inv s1" "edit_inv (settingsLoadState message retry s1)"
proof -
  have sub: "map_of (AList.restrict A al) d = Some i \<Longrightarrow> map_of al d = Some i" for A al d and i :: nat
    by (simp add: restr_conv' restrict_map_def split: if_splits)
  have clean: "dirtyDraft (map_option f (map_of (AList.restrict A al) d)) \<Longrightarrow> dirtyDraft (map_option f (map_of al d))"
    for A al d and f :: "nat \<Rightarrow> draft"
    by (simp add: restr_conv' restrict_map_def dirtyDraft_def split: if_splits)
  show "own_inv s1" using assms(1,2) by (auto simp: settings_inv_def own_inv_def s1_def dest: sub)
  show "save_inv s1" using assms(1) by (auto simp: settings_inv_def save_inv_def s1_def loading_page_def)
  show "button_inv s1" unfolding s1_def by (rule button_enabled [OF refl]) simp_all
  show "edit_inv s1" if "st_saving s1"
    using assms(1) that by (auto simp: settings_inv_def save_inv_def edit_inv_def s1_def loading_page_def)
  show "edit_inv (settingsLoadState message retry s1)"
    using assms(1) by (auto simp: settings_inv_def edit_inv_def s1_def settingsLoadState_def loading_page_def draft_of_def is_form_def dest: clean)
qed

lemma domains_settings:
  assumes "settings_inv s"
  shows "settings_inv (domains_answered fill requestId reply s)"
proof (cases "requestId \<noteq> st_discovery s \<or> reply_denied reply \<noteq> None \<or> (\<exists>message. reply_data reply = Inl message)")
  case True
  then show ?thesis using assms settings_other(4) loadstate_settings
    by (auto simp: domains_answered_def split: option.split)
next
  case False
  then obtain ds where ds: "requestId = st_discovery s" "reply_denied reply = None" "reply_data reply = Inr ds"
    by (cases "reply_data reply") auto
  define pages where "pages = permitted_pages ds"
  define current where "current = (case st_current s of Some d \<Rightarrow> if d \<in> set pages then Some d else List.find (\<lambda>d. True) pages
                                     | None \<Rightarrow> List.find (\<lambda>d. True) pages)"
  define s1 where "s1 = enableSave (s\<lparr>st_domains := pages, st_drafts := AList.restrict (set pages) (st_drafts s), st_current := current\<rparr>)"
  have listed: "\<forall>d. current = Some d \<longrightarrow> d \<in> set pages"
    by (auto simp: current_def dest: permitted_choice(1) split: option.splits if_splits)
  note renewed = renewed_settings [OF assms listed, folded s1_def]
  have eq: "domains_answered fill requestId reply s =
      (case current of Some d \<Rightarrow> loadDomainSettings fill d s1 | None \<Rightarrow> settingsLoadState ''settings.noSections'' None s1)"
    unfolding domains_answered_def s1_def current_def pages_def using ds by (simp add: Let_def)
  show ?thesis
  proof (cases current)
    case None
    have "own_inv (settingsLoadState message retry s1)" "save_inv (settingsLoadState message retry s1)"
      "button_inv (settingsLoadState message retry s1)" for message retry
      using renewed(1,2,3) unfolding settingsLoadState_def
      by (auto simp: own_inv_def save_inv_def loading_page_def intro: button_same)
    with renewed(5) None eq show ?thesis by (simp add: settings_inv_def)
  next
    case (Some d)
    with listed have "d \<in> set (st_domains s1)" by (simp add: s1_def)
    then have "edit_inv s1 \<or> \<not> st_saving s1 \<and> d \<in> set (st_domains s1)" using renewed(4) by blast
    then have "settings_inv (loadDomainSettings fill d s1)"
      using renewed(1-3) by (simp add: settings_inv_def load_own load_save load_button load_edit)
    with Some eq show ?thesis by simp
  qed
qed

lemma deleted_settings:
  assumes "settings_inv s" "st_current s = Some d" "\<not> st_saving s"
  shows "settings_inv (loadDomainSettings fill d (s\<lparr>st_drafts := AList.delete d (st_drafts s)\<rparr>))"
proof -
  let ?u = "s\<lparr>st_drafts := AList.delete d (st_drafts s)\<rparr>"
  have "own_inv ?u" using assms(1) by (auto simp: settings_inv_def own_inv_def delete_conv')
  moreover have "save_inv ?u" using assms(1) unfolding settings_inv_def save_inv_def loading_page_def by simp
  moreover have "d \<in> set (st_domains ?u)" using assms(1,2) by (simp add: settings_inv_def own_inv_def)
  ultimately show ?thesis using assms(3) unfolding settings_inv_def by (intro conjI load_own load_save load_button load_edit) simp_all
qed

text \<open>An edit of one draft.\<close>

lemma edited_own: "own_inv s \<Longrightarrow> own_inv (enableSave (edit_draft i c s))"
  by (simp add: own_inv_def)

lemma edited_save: "save_inv s \<Longrightarrow> save_inv (enableSave (edit_draft i c s))"
  by (auto simp: save_inv_def loading_page_def)

lemma edited_button: "button_inv (enableSave s)"
  by (rule button_enabled [OF refl]) simp_all

lemma edited_settings:
  assumes "settings_inv s" "st_view s = Form d i" "\<not> st_inert s"
  shows "settings_inv (enableSave (edit_draft i c s))"
proof -
  have idle: "idle_settings s \<or> st_late s" using assms by (auto simp: settings_inv_def save_inv_def edit_inv_def is_form_def idle_settings_def)
  have "\<not> st_saving s" using assms by (auto simp: settings_inv_def save_inv_def)
  then have "sv_generation v \<noteq> st_generation s" if "v \<in> set (st_saves s)" for v using assms(1) that by (auto simp: settings_inv_def save_inv_def)
  with idle have "edit_inv (enableSave (edit_draft i c s))" by (auto simp: edit_inv_def idle_settings_def loading_page_def)
  then show ?thesis using assms(1) by (simp add: settings_inv_def edited_own edited_save edited_button)
qed

lemma late_settings:
  assumes "settings_inv s"
  shows "settings_inv ((enableSave (edit_draft i c s))\<lparr>st_late := True\<rparr>)" (is "settings_inv ?u")
proof -
  have "own_inv ?u" using edited_own [of s i c] assms unfolding settings_inv_def own_inv_def by simp
  moreover have "save_inv ?u" using edited_save [of s i c] assms unfolding settings_inv_def save_inv_def loading_page_def by auto
  moreover have "button_inv ?u" by (rule button_enabled [where s = "edit_draft i c s"]) simp_all
  ultimately show ?thesis by (simp add: settings_inv_def edit_inv_def)
qed

lemma click_settings:
  assumes "settings_inv s"
  shows "settings_inv (saveDomainSettings valid s)"
proof (cases "\<exists>domain i. st_current s = Some domain \<and> map_of (st_drafts s) domain = Some i
    \<and> \<not> (st_saving s \<or> st_config s = None \<or> \<not> dirtyDraft (Some (st_objects s ! i)) \<or> domain = ''index'' \<or> \<not> valid)")
  case False
  then have "saveDomainSettings valid s = s" by (auto simp: saveDomainSettings_def Let_def split: option.split)
  with assms show ?thesis by simp
next
  case True
  then obtain domain i k where at: "st_current s = Some domain" "map_of (st_drafts s) domain = Some i" "\<not> st_saving s" "st_config s = Some k"
    "dr_config (st_objects s ! i) \<noteq> dr_initial (st_objects s ! i)" "domain \<noteq> ''index''" "valid" by (auto simp: dirtyDraft_def)
  let ?u = "saveDomainSettings valid s"
  have fields: "st_saves ?u = st_saves s @ [\<lparr>sv_generation = st_generation s, sv_domain = domain, sv_object = i,
                                               sv_submitted = dr_config (st_objects s ! i)\<rparr>]"
    "st_puts ?u = \<lparr>pt_generation = st_generation s, pt_domain = domain, pt_path = settings_path domain,
       pt_body = save_body domain (dr_config (st_objects s ! i)), pt_config = dr_config (st_objects s ! i),
       pt_initial = dr_initial (st_objects s ! i)\<rparr> # st_puts s"
    "st_saving ?u" "st_inert ?u" "st_save_disabled ?u" "st_drafts ?u = st_drafts s" "st_objects ?u = st_objects s"
    "st_current ?u = st_current s" "st_config ?u = st_config s" "st_domains ?u = st_domains s" "st_fetch ?u = st_fetch s"
    "st_generation ?u = st_generation s" "st_view ?u = st_view s" "st_loads ?u = st_loads s" "st_late ?u = st_late s"
    using at by (simp_all add: saveDomainSettings_def dirtyDraft_def Let_def)
  have own: "own_inv s" and save: "save_inv s" and edit: "edit_inv s" using assms by (simp_all add: settings_inv_def)
  have absent: "\<forall>v \<in> set (st_saves s). sv_generation v \<noteq> st_generation s" using save at(3) by (auto simp: save_inv_def)
  have idle: "\<forall>l. \<not> (l \<in> set (st_loads s) \<and> ld_id l = st_fetch s)" using save at(4) by (auto simp: save_inv_def loading_page_def)
  have "own_inv ?u" using own at(2) unfolding own_inv_def fields by auto
  moreover have "save_inv ?u" using save at(5,6) absent idle fields(3,4) unfolding save_inv_def fields(1,2,6-) loading_page_def by auto
  moreover have "button_inv ?u" by (simp add: button_inv_def fields)
  moreover have "edit_inv ?u" using edit idle absent unfolding edit_inv_def fields(1,6-) loading_page_def by auto
  ultimately show ?thesis by (simp add: settings_inv_def)
qed

lemma saved_settings:
  assumes "settings_inv s" "v \<in> set (st_saves s)"
  shows "settings_inv (save_answered fill v reply (s\<lparr>st_saves := filter (\<lambda>w. sv_generation w \<noteq> sv_generation v) (st_saves s)\<rparr>))"
proof -
  define s1 where "s1 = s\<lparr>st_saves := filter (\<lambda>w. sv_generation w \<noteq> sv_generation v) (st_saves s)\<rparr>"
  have own: "own_inv s" and save: "save_inv s" and button: "button_inv s" and edit: "edit_inv s" using assms(1) by (simp_all add: settings_inv_def)
  show ?thesis unfolding s1_def [symmetric]
  proof (cases "sv_generation v = st_generation s")
    case False
    have "own_inv s1" using own by (auto simp: own_inv_def s1_def)
    moreover have "save_inv s1" using save False
      unfolding save_inv_def loading_page_def s1_def by (auto simp: distinct_map_filter)
    moreover have "button_inv s1" using button unfolding s1_def by (auto intro: button_same)
    moreover have "edit_inv s1" using edit unfolding edit_inv_def loading_page_def draft_of_def s1_def by auto
    ultimately have "settings_inv s1" by (simp add: settings_inv_def)
    with False show "settings_inv (save_answered fill v reply s1)" by (simp add: save_answered_def s1_def)
  next
    case True
    have "st_saving s" using save assms(2) True unfolding save_inv_def by blast
    then have idle: "\<not> loading_page s l" for l using save by (auto simp: save_inv_def)
    have mine: "own s (sv_domain v) (sv_object v)" using own assms(2) True by (simp add: own_inv_def)
    have base: "own_inv u" "save_inv u" "edit_inv u"
      if "st_drafts u = st_drafts s" "own u = own s" "st_current u = st_current s"
        "st_config u = st_config s \<or> st_config u = Some (sv_object v)" "st_domains u = st_domains s" "st_fetch u = st_fetch s"
        "st_generation u = st_generation s" "\<not> st_saving u" "st_view u = st_view s \<or> st_view u = Form (sv_domain v) (sv_object v)"
        "st_loads u = st_loads s" "st_saves u = filter (\<lambda>w. sv_generation w \<noteq> sv_generation v) (st_saves s)" "st_puts u = st_puts s"
      for u
    proof -
      show "own_inv u" using own mine that unfolding own_inv_def by auto
      show "save_inv u" using save that idle True unfolding save_inv_def loading_page_def by (auto simp: distinct_map_filter)
      show "edit_inv u" using that idle True unfolding edit_inv_def loading_page_def by auto
    qed
    show "settings_inv (save_answered fill v reply s1)"
    proof (cases "reply_ok reply")
      case (Inl message)
      then have eq: "save_answered fill v reply s1 = enableSave (s1\<lparr>st_alerts := message # st_alerts s1, st_saving := False\<rparr>)"
        using True by (simp add: save_answered_def s1_def)
      show ?thesis unfolding eq settings_inv_def by (intro conjI base edited_button) (simp_all add: s1_def)
    next
      case (Inr answer)
      then have "\<exists>x y. save_answered fill v reply s1 = enableSave ((settle_draft (sv_object v) (renderSettingsForm fill (sv_domain v) (sv_object v)
          ((edit_draft (sv_object v) (saved_config (sv_domain v) (sv_submitted v) answer) s1)\<lparr>st_config := Some (sv_object v)\<rparr>)))
            \<lparr>st_dispatched := x, st_alerts := y, st_saving := False\<rparr>)"
        using True by (auto simp: save_answered_def s1_def Let_def)
      then obtain x y where eq: "save_answered fill v reply s1 = enableSave ((settle_draft (sv_object v) (renderSettingsForm fill (sv_domain v)
          (sv_object v) ((edit_draft (sv_object v) (saved_config (sv_domain v) (sv_submitted v) answer) s1)\<lparr>st_config := Some (sv_object v)\<rparr>)))
            \<lparr>st_dispatched := x, st_alerts := y, st_saving := False\<rparr>)" by blast
      show ?thesis unfolding eq settings_inv_def by (intro conjI base edited_button) (simp_all add: s1_def)
    qed
  qed
qed

lemma account_settings:
  assumes "settings_inv s"
  shows "settings_inv (settings_account_changed isLoggedIn isManager username s)"
proof (cases "isLoggedIn \<and> isManager \<and> username = st_owner s")
  case False
  have own: "own_inv s" and save: "save_inv s" using assms by (simp_all add: settings_inv_def)
  have old: "sv_generation v \<noteq> Suc (st_generation s)" if "v \<in> set (st_saves s)" for v using own that by (fastforce simp: own_inv_def)
  have late: "ld_id l \<noteq> Suc (st_fetch s)" if "l \<in> set (st_loads s)" for l using own that by (fastforce simp: own_inv_def)
  let ?u = "settings_account_changed isLoggedIn isManager username s"
  have "own_inv ?u" using False own old late by (auto simp: settings_account_changed_def own_inv_def dest: le_SucI)
  moreover have "save_inv ?u" using False save old late by (auto simp: settings_account_changed_def save_inv_def loading_page_def dest: le_SucI)
  moreover have "button_inv ?u" by (simp only: settings_account_changed_def False if_False edited_button)
  moreover have "edit_inv ?u" using False old late by (auto simp: settings_account_changed_def edit_inv_def loading_page_def)
  ultimately show ?thesis by (simp add: settings_inv_def)
qed (simp add: settings_account_changed_def assms)

lemma found: "List.find P xs = Some x \<Longrightarrow> x \<in> set xs \<and> P x"
  by (auto simp: find_Some_iff)

interpretation settings_machine: machine_invariant "settings_step fill" settings_inv for fill
proof
  fix s e u assume inv: "settings_inv s" and step: "settings_step fill s e = Some u"
  show "settings_inv u"
  proof (cases e)
    case SettingsEntered
    with step inv show ?thesis by (auto simp: initSettings_def settings_other)
  next
    case (DomainsAnswered requestId reply)
    with step inv domains_settings [OF settings_other(2) [OF inv]] show ?thesis by (auto split: if_splits)
  next
    case RetryClicked
    with step inv show ?thesis
      by (auto simp: initSettings_def settings_other load_settings split: if_splits settings_view.splits option.splits)
  next
    case (PageAnswered fetchId reply)
    with step answered_settings [OF inv] show ?thesis by (auto dest!: found split: option.splits)
  next
    case (FormEdited c)
    with step edited_settings [OF inv] show ?thesis by (auto split: if_splits settings_view.splits)
  next
    case (SaveAnswered g reply)
    with step saved_settings [OF inv] show ?thesis by (auto dest!: found split: option.splits)
  next
    case ResetClicked
    with step inv show ?thesis by (auto simp: reset_clicked_def settings_other split: if_splits option.splits)
  next
    case (ResetAnswered j confirmed)
    with step inv deleted_settings [OF settings_other(3) [OF inv]] show ?thesis
      by (auto simp: reset_answered_def settings_other(3) split: if_splits)
  qed (use step inv in \<open>auto simp: load_settings late_settings click_settings account_settings split: if_splits\<close>)
qed

lemma fresh_settings_inv: "settings_inv fresh_settings"
  by (simp add: settings_inv_def own_inv_def save_inv_def button_inv_def edit_inv_def loading_page_def fresh_settings_def)

section \<open>Edits that are kept\<close>

definition kept_draft :: "(string \<Rightarrow> json \<Rightarrow> json) \<Rightarrow> settings \<Rightarrow> settings \<Rightarrow> string \<Rightarrow> nat \<Rightarrow> bool" where
  "kept_draft fill s u d i \<longleftrightarrow> map_of (st_drafts u) d = Some i
     \<and> dr_config (st_objects u ! i) \<in> {dr_config (st_objects s ! i), fill d (dr_config (st_objects s ! i))}
     \<and> dr_initial (st_objects u ! i) = dr_initial (st_objects s ! i)"

lemma kept_same:
  "map_of (st_drafts s) d = Some i \<Longrightarrow> map_of (st_drafts u) d = Some i \<Longrightarrow> st_objects u = st_objects s \<Longrightarrow> kept_draft fill s u d i"
  by (simp add: kept_draft_def)

lemma load_domains [simp]: "st_domains (loadDomainSettings fill d s) = st_domains s"
  by (simp add: loadDomainSettings_def Let_def split: option.split)

lemma load_kept:
  assumes "own_inv s" "map_of (st_drafts s) d = Some i"
  shows "kept_draft fill s (loadDomainSettings fill d' s) d i"
proof (cases "st_saving s \<or> d' \<notin> set (st_domains s) \<or> \<not> dirtyDraft (draft_of s d')")
  case True
  then show ?thesis using assms(2)
    by (intro kept_same) (auto simp: loadDomainSettings_def draft_of_def Let_def split: option.split)
next
  case False
  then obtain j where j: "map_of (st_drafts s) d' = Some j" "dirtyDraft (Some (st_objects s ! j))"
    by (cases "map_of (st_drafts s) d'") (auto simp: draft_of_def dirtyDraft_def)
  have "own s d i" "own s d' j" using assms j(1) by (simp_all add: own_inv_def)
  then have "i < length (st_objects s)" "j = i \<Longrightarrow> d' = d" by (auto simp: own_object_def)
  with False j assms(2) show ?thesis
    by (cases "j = i") (auto simp: loadDomainSettings_def kept_draft_def page_opened_def Let_def)
qed

lemma answered_kept:
  assumes "settings_inv s" "\<not> st_late s" "l \<in> set (st_loads s)" "map_of (st_drafts s) d = Some i" "dirtyDraft (draft_of s d)"
  shows "kept_draft fill s (load_answered fill l reply (s\<lparr>st_loads := filter (\<lambda>k. ld_id k \<noteq> ld_id l) (st_loads s)\<rparr>)) d i"
proof (cases "ld_id l = st_fetch s")
  case True
  have "own_inv s" "edit_inv s" using assms(1) by (simp_all add: settings_inv_def)
  then have "own s d i" "\<not> dirtyDraft (draft_of s (ld_domain l))"
    using assms(2,3,4) True unfolding own_inv_def edit_inv_def loading_page_def by auto
  then have "i < length (st_objects s)" "ld_domain l \<noteq> d" using assms(5) by (auto simp: own_object_def)
  then show ?thesis using True assms(4)
    by (auto simp: load_answered_def kept_draft_def page_opened_def settingsLoadState_def exit_denied_def nth_list_update nth_append update_conv'
        Let_def split: option.split sum.split)
qed (use assms(4) in \<open>simp add: load_answered_def kept_draft_def\<close>)

lemma domains_kept:
  assumes "settings_inv s" "map_of (st_drafts s) d = Some i"
  shows "kept_draft fill s (domains_answered fill requestId reply s) d i \<or> d \<notin> set (st_domains (domains_answered fill requestId reply s))"
proof (cases "requestId \<noteq> st_discovery s \<or> reply_denied reply \<noteq> None \<or> (\<exists>message. reply_data reply = Inl message)")
  case True
  then have "kept_draft fill s (domains_answered fill requestId reply s) d i" using assms(2)
    by (intro kept_same) (auto simp: domains_answered_def settingsLoadState_def exit_denied_def split: option.split)
  then show ?thesis ..
next
  case False
  then obtain ds where ds: "requestId = st_discovery s" "reply_denied reply = None" "reply_data reply = Inr ds"
    by (cases "reply_data reply") auto
  define current where "current = (case st_current s of
      Some d \<Rightarrow> if d \<in> set (permitted_pages ds) then Some d else List.find (\<lambda>d. True) (permitted_pages ds)
    | None \<Rightarrow> List.find (\<lambda>d. True) (permitted_pages ds))"
  define s1 where "s1 = enableSave (s\<lparr>st_domains := permitted_pages ds,
    st_drafts := AList.restrict (set (permitted_pages ds)) (st_drafts s), st_current := current\<rparr>)"
  have "\<forall>d. current = Some d \<longrightarrow> d \<in> set (permitted_pages ds)"
    by (auto simp: current_def dest: permitted_choice(1) split: option.splits if_splits)
  then have own: "own_inv s1" unfolding s1_def by (rule renewed_settings(1) [OF assms(1)])
  have eq: "domains_answered fill requestId reply s =
      (case current of Some d \<Rightarrow> loadDomainSettings fill d s1 | None \<Rightarrow> settingsLoadState ''settings.noSections'' None s1)"
    unfolding domains_answered_def s1_def current_def using ds by (simp add: Let_def)
  show ?thesis
  proof (cases "d \<in> set (permitted_pages ds)")
    case True
    then have at: "map_of (st_drafts s1) d = Some i" using assms(2) by (simp add: s1_def restr_conv')
    have obj: "st_objects s1 = st_objects s" by (simp add: s1_def)
    have "kept_draft fill s (loadDomainSettings fill d' s1) d i" for d'
      using load_kept [OF own at, of fill d'] by (simp add: kept_draft_def obj)
    then show ?thesis unfolding eq using at by (auto simp: settingsLoadState_def kept_draft_def obj split: option.split)
  next
    case False
    then show ?thesis unfolding eq by (simp add: s1_def settingsLoadState_def split: option.split)
  qed
qed

text \<open>A saved draft holds what was submitted, unless a late edit came between.\<close>

lemma saved_kept:
  assumes "settings_inv s" "\<not> st_late s" "v \<in> set (st_saves s)" "map_of (st_drafts s) d = Some i"
  shows "kept_draft fill s (save_answered fill v reply (s\<lparr>st_saves := filter (\<lambda>w. sv_generation w \<noteq> sv_generation v) (st_saves s)\<rparr>)) d i
    \<or> sv_domain v = d \<and> sv_object v = i \<and> sv_submitted v = dr_config (st_objects s ! i)"
proof (cases "sv_generation v = st_generation s \<and> (\<exists>a. reply_ok reply = Inr a)")
  case False
  then have "kept_draft fill s (save_answered fill v reply (s\<lparr>st_saves := filter (\<lambda>w. sv_generation w \<noteq> sv_generation v) (st_saves s)\<rparr>)) d i"
    using assms(4) by (intro kept_same) (auto simp: save_answered_def split: sum.split)
  then show ?thesis ..
next
  case True
  have "own_inv s" "edit_inv s" using assms(1) by (simp_all add: settings_inv_def)
  then have own: "own s d i" "own s (sv_domain v) (sv_object v)" and eq: "dr_config (st_objects s ! sv_object v) = sv_submitted v"
    using assms(2,3,4) True unfolding own_inv_def edit_inv_def by auto
  show ?thesis
  proof (cases "sv_object v = i")
    case True
    with own eq show ?thesis by (auto simp: own_object_def)
  next
    case False
    then have "kept_draft fill s (save_answered fill v reply (s\<lparr>st_saves := filter (\<lambda>w. sv_generation w \<noteq> sv_generation v) (st_saves s)\<rparr>)) d i"
      using assms(4) True by (auto simp: save_answered_def kept_draft_def Let_def split: sum.split)
    then show ?thesis ..
  qed
qed

lemma edits_kept:
  assumes "settings_inv s" "\<not> st_late s" "map_of (st_drafts s) d = Some i" "dirtyDraft (draft_of s d)" "settings_step fill s e = Some u"
  shows "kept_draft fill s u d i \<or> (\<exists>c. e = FormEdited c) \<or> (\<exists>j c. e = LateEdit j c)
    \<or> (\<exists>isLoggedIn isManager username. e = AccountChanged isLoggedIn isManager username)
    \<or> (\<exists>j. e = ResetAnswered j True \<and> st_resets s ! j = d)
    \<or> (\<exists>requestId reply. e = DomainsAnswered requestId reply \<and> d \<notin> set (st_domains u))
    \<or> (\<exists>g reply v. e = SaveAnswered g reply \<and> v \<in> set (st_saves s) \<and> sv_domain v = d \<and> sv_submitted v = dr_config (st_objects s ! i))"
proof -
  have own: "own_inv s" using assms(1) by (simp add: settings_inv_def)
  have same: "kept_draft fill s s' d i" if "st_drafts s' = st_drafts s" "st_objects s' = st_objects s" for s'
    using assms(3) that by (simp add: kept_draft_def)
  note load = load_kept [OF own assms(3)]
  show ?thesis
  proof (cases e)
    case SettingsEntered
    with assms(5) have "kept_draft fill s u d i" by (intro same) (auto simp: initSettings_def)
    then show ?thesis ..
  next
    case (DomainsAnswered requestId reply)
    let ?s = "s\<lparr>st_discoveries := removeAll requestId (st_discoveries s)\<rparr>"
    have "u = domains_answered fill requestId reply ?s" using assms(5) DomainsAnswered by (auto split: if_splits)
    moreover have "kept_draft fill ?s (domains_answered fill requestId reply ?s) d i
        \<or> d \<notin> set (st_domains (domains_answered fill requestId reply ?s))"
      by (rule domains_kept [OF settings_other(2) [OF assms(1)]]) (simp add: assms(3))
    ultimately show ?thesis using DomainsAnswered by (auto simp: kept_draft_def)
  next
    case (PageChosen domain)
    with assms(5) load show ?thesis by (auto split: if_splits)
  next
    case (PageStepped forwards)
    with assms(5) load show ?thesis by (auto split: if_splits)
  next
    case RetryClicked
    have "kept_draft fill s (initSettings s) d i" by (rule same) (simp_all add: initSettings_def)
    with RetryClicked assms(5) load show ?thesis by (auto split: if_splits settings_view.splits option.splits)
  next
    case (PageAnswered fetchId reply)
    with assms(5) answered_kept [OF assms(1,2) _ assms(3,4)] show ?thesis by (auto dest!: found split: option.splits)
  next
    case (SaveClicked valid)
    have "kept_draft fill s (saveDomainSettings valid s) d i"
      by (rule same) (simp_all add: saveDomainSettings_def Let_def split: option.split)
    with SaveClicked assms(5) show ?thesis by (auto split: if_splits)
  next
    case (SaveAnswered g reply)
    with assms(5) saved_kept [OF assms(1,2) _ assms(3)] show ?thesis by (auto dest!: found split: option.splits)
  next
    case ResetClicked
    have "kept_draft fill s (reset_clicked s) d i" by (rule same) (simp_all add: reset_clicked_def split: option.split)
    with ResetClicked assms(5) show ?thesis by (auto split: if_splits)
  next
    case (ResetAnswered j confirmed)
    show ?thesis
    proof (cases "confirmed \<and> st_resets s ! j = d")
      case False
      have "kept_draft fill s u d i"
      proof (cases "\<not> confirmed \<or> Some (st_resets s ! j) \<noteq> st_current s \<or> st_saving s")
        case True
        with ResetAnswered assms(5) show ?thesis by (intro same) (auto simp: reset_answered_def split: if_splits)
      next
        case kept: False
        let ?s = "s\<lparr>st_resets := take j (st_resets s) @ drop (Suc j) (st_resets s), st_drafts := AList.delete (st_resets s ! j) (st_drafts s)\<rparr>"
        have "own_inv ?s" using own by (auto simp: own_inv_def delete_conv')
        moreover have "map_of (st_drafts ?s) d = Some i" using assms(3) False kept by (simp add: delete_conv')
        ultimately have "kept_draft fill ?s (loadDomainSettings fill (st_resets s ! j) ?s) d i" by (rule load_kept)
        moreover have "u = loadDomainSettings fill (st_resets s ! j) ?s" using ResetAnswered assms(5) kept
          by (auto simp: reset_answered_def split: if_splits)
        ultimately show ?thesis by (simp add: kept_draft_def)
      qed
      then show ?thesis ..
    qed (use ResetAnswered in simp)
  qed simp_all
qed

section \<open>Theorems\<close>

text \<open>
  C39: what the settings pages send and show belongs to the account that is signed in and to what the administrator sees. In every run a request
  to save carries the edited, differing configuration of a page other than the index, to the address of that page; at most one such request of
  an account is unfinished; every draft and the form on display were loaded by the present account for their own page, and the save button is
  enabled only when the page on display has differing content that no request is saving. The answer to a save of a former account changes nothing.
\<close>

theorem settings_submissions_guarded:
  assumes "run_events (settings_step fill) fresh_settings es = Some s"
  shows "(\<forall>p \<in> set (st_puts s). pt_config p \<noteq> pt_initial p \<and> pt_domain p \<noteq> ''index'' \<and> pt_path p = settings_path (pt_domain p)
          \<and> pt_body p = save_body (pt_domain p) (pt_config p))
    \<and> distinct (map sv_generation (st_saves s))
    \<and> (\<forall>d i. map_of (st_drafts s) d = Some i \<or> st_view s = Form d i \<longrightarrow>
          dr_domain (st_objects s ! i) = d \<and> dr_generation (st_objects s ! i) = st_generation s)
    \<and> (\<not> st_save_disabled s \<longrightarrow> \<not> st_saving s \<and> current_dirty s \<and> (\<forall>v \<in> set (st_saves s). sv_generation v \<noteq> st_generation s))
    \<and> (\<forall>g reply u. g \<noteq> st_generation s \<and> settings_step fill s (SaveAnswered g reply) = Some u \<longrightarrow> u = s\<lparr>st_saves := st_saves u\<rparr>)"
proof -
  have inv: "settings_inv s" by (rule settings_machine.run_inv [OF assms fresh_settings_inv])
  then have own: "own_inv s" and save: "save_inv s" and button: "button_inv s" by (simp_all add: settings_inv_def)
  have "u = s\<lparr>st_saves := st_saves u\<rparr>" if "g \<noteq> st_generation s" "settings_step fill s (SaveAnswered g reply) = Some u" for g reply u
    using that by (auto simp: save_answered_def dest!: found split: option.splits)
  moreover have "dr_domain (st_objects s ! i) = d \<and> dr_generation (st_objects s ! i) = st_generation s"
    if "map_of (st_drafts s) d = Some i \<or> st_view s = Form d i" for d i
    using own that by (auto simp: own_inv_def own_object_def)
  moreover have "\<forall>v \<in> set (st_saves s). sv_generation v \<noteq> st_generation s" if "\<not> st_saving s" using save that by (auto simp: save_inv_def)
  moreover have "\<forall>p \<in> set (st_puts s). pt_config p \<noteq> pt_initial p \<and> pt_domain p \<noteq> ''index'' \<and> pt_path p = settings_path (pt_domain p)
          \<and> pt_body p = save_body (pt_domain p) (pt_config p)" "distinct (map sv_generation (st_saves s))"
    using save unfolding save_inv_def by blast+
  moreover have "\<not> st_save_disabled s \<Longrightarrow> \<not> st_saving s \<and> current_dirty s" using button unfolding button_inv_def by blast
  ultimately show ?thesis by blast
qed

definition settings_run :: "settings_event list" where
  "settings_run =
     [AccountChanged True True ''ann'', SettingsEntered, DomainsAnswered 2 (Replied 200 (Some [''legal'', ''mail'', ''x'', ''legal'']) []),
      PageAnswered 2 (Replied 200 (Some (JObj [(''cookie_banner'', JBool False)])) []),
      FormEdited (JObj [(''cookie_banner'', JBool True)]), SaveClicked True]"

theorem settings_submissions_guarded_witness:
  "\<exists>s. run_events (settings_step (\<lambda>d c. c)) fresh_settings settings_run = Some s \<and> st_domains s = [''legal'', ''mail''] \<and> st_saving s
     \<and> map pt_path (st_puts s) = [''/api/settings/legal''] \<and> distinct (map sv_generation (st_saves s))"
proof -
  have run: "case run_events (settings_step (\<lambda>d c. c)) fresh_settings settings_run of
      None \<Rightarrow> False
    | Some s \<Rightarrow> st_domains s = [''legal'', ''mail''] \<and> st_saving s \<and> map pt_path (st_puts s) = [''/api/settings/legal'']"
    by code_simp
  then obtain s where "run_events (settings_step (\<lambda>d c. c)) fresh_settings settings_run = Some s" by (auto split: option.splits)
  with run settings_submissions_guarded [OF this] show ?thesis by auto
qed

text \<open>
  C38: an unsaved edit is not lost. In every run without late edits, whatever happens next leaves the draft of a page with unsaved content in place
  with the same configuration (up to the members its form fills in) and the same saved state, unless that event is an edit of a form, a change of
  account, the confirmed discard of that page, a discovery that does not permit the page any more, or the answer to a save of exactly that content.
\<close>

theorem settings_edits_kept:
  assumes "run_events (settings_step fill) fresh_settings es = Some s" "\<not> st_late s" "map_of (st_drafts s) d = Some i"
    "dirtyDraft (draft_of s d)" "settings_step fill s e = Some u"
  shows "map_of (st_drafts u) d = Some i
      \<and> dr_config (st_objects u ! i) \<in> {dr_config (st_objects s ! i), fill d (dr_config (st_objects s ! i))}
      \<and> dr_initial (st_objects u ! i) = dr_initial (st_objects s ! i)
    \<or> (\<exists>c. e = FormEdited c) \<or> (\<exists>j c. e = LateEdit j c) \<or> (\<exists>isLoggedIn isManager username. e = AccountChanged isLoggedIn isManager username)
    \<or> (\<exists>j. e = ResetAnswered j True \<and> st_resets s ! j = d)
    \<or> (\<exists>requestId reply. e = DomainsAnswered requestId reply \<and> d \<notin> set (st_domains u))
    \<or> (\<exists>g reply v. e = SaveAnswered g reply \<and> v \<in> set (st_saves s) \<and> sv_domain v = d \<and> sv_submitted v = dr_config (st_objects s ! i))"
  using edits_kept [OF settings_machine.run_inv [OF assms(1) fresh_settings_inv] assms(2-)] unfolding kept_draft_def .

theorem settings_edits_kept_witness:
  "\<exists>s u. run_events (settings_step (\<lambda>d c. c)) fresh_settings (butlast settings_run) = Some s
     \<and> settings_step (\<lambda>d c. c) s (PageChosen ''mail'') = Some u
     \<and> dr_config (st_objects u ! 0) = JObj [(''cookie_banner'', JBool True)]"
proof -
  have run: "case run_events (settings_step (\<lambda>d c. c)) fresh_settings (butlast settings_run) of
      None \<Rightarrow> False
    | Some s \<Rightarrow> \<not> st_late s \<and> map_of (st_drafts s) ''legal'' = Some 0 \<and> dirtyDraft (draft_of s ''legal'')
        \<and> dr_config (st_objects s ! 0) = JObj [(''cookie_banner'', JBool True)] \<and> settings_step (\<lambda>d c. c) s (PageChosen ''mail'') \<noteq> None"
    by code_simp
  then obtain s u where s: "run_events (settings_step (\<lambda>d c. c)) fresh_settings (butlast settings_run) = Some s"
    and u: "settings_step (\<lambda>d c. c) s (PageChosen ''mail'') = Some u"
    by (cases "run_events (settings_step (\<lambda>d c. c)) fresh_settings (butlast settings_run)") fastforce+
  have at: "\<not> st_late s" "map_of (st_drafts s) ''legal'' = Some 0" "dirtyDraft (draft_of s ''legal'')"
    "dr_config (st_objects s ! 0) = JObj [(''cookie_banner'', JBool True)]" using run unfolding s by simp_all
  have "dr_config (st_objects u ! 0) = JObj [(''cookie_banner'', JBool True)]"
    using settings_edits_kept [OF s at(1-3) u] at(4) by simp
  with s u show ?thesis by blast
qed

text \<open>A late edit between a save and its answer is lost: the removal of a proxy confirmed just before saving comes back.\<close>

lemma late_edit_lost:
  "case run_events (settings_step (\<lambda>d c. c)) fresh_settings
     (settings_run @ [LateEdit 0 (JObj []), SaveAnswered 1 (Replied 200 (Some (JObj [(''cookie_banner'', JBool True)])) [])]) of
     None \<Rightarrow> False
   | Some s \<Rightarrow> dr_config (st_objects s ! 0) = JObj [(''cookie_banner'', JBool True)] \<and> \<not> current_dirty s"
  by code_simp

text \<open>A page that is loading when the discovery withdraws every page is shown all the same.\<close>

lemma withdrawn_page_shown:
  "case run_events (settings_step (\<lambda>d c. c)) fresh_settings
     (take 3 settings_run @ [SettingsEntered, DomainsAnswered 3 (Replied 200 (Some []) []), PageAnswered 2 (Replied 200 (Some (JObj [])) [])]) of
     None \<Rightarrow> False
   | Some s \<Rightarrow> st_domains s = [] \<and> st_current s = None \<and> st_view s = Form ''legal'' 0"
  by code_simp

end
