(* ===== verification/Message_Center.thy ===== *)
theory Message_Center
  imports Event_Machine
begin

text \<open>
  The message center (\<^verbatim>\<open>js/messages.js\<close>) as an event machine: the pages of the list with their cursor, the unread count with its polling, and
  reading, deleting, clearing and answering messages. A message is an object that the list, the cards on display and the unfinished operations
  refer to, so it has an address in \<open>mc_objects\<close>; a card is an element with a number of its own. Texts are their keys.

  Heights, focus and transitions are left out; an exit transition that an operation waits for is an event of its own. \<open>mg_account\<close> and
  \<open>mc_account\<close> number the logins, \<open>mc_repeated\<close> says that a page of the server named one message twice.
\<close>

section \<open>Data\<close>

record user_message =
  mg_id :: string
  mg_kind :: string
  mg_severity :: string
  mg_title :: string
  mg_body :: string
  mg_read :: int
  mg_action_kind :: string
  mg_action_status :: string
  mg_acted :: int
  mg_account :: nat

definition messageSeverityLabel :: "string \<Rightarrow> string" where
  "messageSeverityLabel severity =
     (if severity = ''success'' then ''messages.severitySuccess'' else if severity = ''warning'' then ''messages.severityWarning''
      else if severity = ''error'' then ''messages.severityError'' else ''messages.severityInfo'')"

definition messagePresentation :: "(user_message \<Rightarrow> string \<times> string) option \<Rightarrow> user_message \<Rightarrow> string \<times> string" where
  "messagePresentation renderer m =
     (case renderer of None \<Rightarrow> (mg_title m, mg_body m)
      | Some f \<Rightarrow> (str_or (fst (f m)) (mg_title m), str_or (snd (f m)) (mg_body m)))"

definition isPendingActionMessage :: "user_message \<Rightarrow> bool" where
  "isPendingActionMessage m \<longleftrightarrow> mg_action_kind m \<noteq> [] \<and> mg_action_status m = ''pending''"

text \<open>The controls of a card: an operation button, or the status of its action.\<close>

datatype card_control = Operation string | ActionStatus string

definition buildMessageActions :: "string list \<Rightarrow> user_message \<Rightarrow> card_control list" where
  "buildMessageActions handlers m =
     (if isPendingActionMessage m \<and> mg_action_kind m \<in> set handlers then [Operation ''reject'', Operation ''accept'']
      else if mg_action_status m \<noteq> [] then [ActionStatus (mg_action_status m)] else [])
     @ (if isPendingActionMessage m then [] else [Operation ''delete''])"

definition badge_text :: "nat \<Rightarrow> string" where
  "badge_text n = (if 99 < n then ''99+'' else show_nat n)"

section \<open>State\<close>

datatype fetch_end = FetchDone | FetchCleared nat
datatype clear_stage = ClearConfirm | ClearRequest | ClearLeaving "nat list" "nat list" nat | ClearFetch
datatype delete_stage = DeleteRequest nat | DeleteLeaving nat "nat list" "nat option"

record message_center =
  mc_objects :: "user_message list"
  mc_list :: "nat list"
  mc_cursor :: string
  mc_unread :: nat
  mc_polling :: bool
  mc_loading :: bool
  mc_clearing :: bool
  mc_shown :: bool
  mc_login :: bool
  mc_handlers :: "string list"
  mc_cards :: "(nat \<times> nat) list"
  mc_nodes :: nat
  mc_more_hidden :: bool
  mc_more_disabled :: bool
  mc_more_cursor :: string
  mc_mark_disabled :: bool
  mc_clear_disabled :: bool
  mc_fetch :: "(bool \<times> string \<times> nat \<times> fetch_end) option"
  mc_counts :: nat
  mc_reads :: "nat list"
  mc_marks :: nat
  mc_clear :: "clear_stage option"
  mc_deletes :: "delete_stage list"
  mc_actions :: "(nat \<times> string) list"
  mc_alerts :: "string list"
  mc_kicked :: nat
  mc_account :: nat
  mc_repeated :: bool

definition list_ids :: "message_center \<Rightarrow> string list" where
  "list_ids s = map (\<lambda>i. mg_id (mc_objects s ! i)) (mc_list s)"

section \<open>Controls\<close>

definition syncLoadMoreButton :: "message_center \<Rightarrow> message_center" where
  "syncLoadMoreButton s =
     (let hasMore = (mc_list s \<noteq> [] \<and> mc_cursor s \<noteq> [])
      in s\<lparr>mc_more_hidden := \<not> hasMore, mc_more_disabled := (mc_loading s \<or> \<not> hasMore),
           mc_more_cursor := (if hasMore then mc_cursor s else [])\<rparr>)"

definition updateMessageToolbarState :: "message_center \<Rightarrow> message_center" where
  "updateMessageToolbarState s =
     s\<lparr>mc_mark_disabled := (mc_loading s \<or> mc_unread s = 0),
       mc_clear_disabled := (mc_clearing s \<or> mc_loading s \<or> (mc_list s = [] \<and> mc_cursor s = []))\<rparr>"

definition syncMessageListControls :: "message_center \<Rightarrow> message_center" where
  "syncMessageListControls s = updateMessageToolbarState (syncLoadMoreButton s)"

definition setUnreadCount :: "int \<Rightarrow> message_center \<Rightarrow> message_center" where
  "setUnreadCount count s = updateMessageToolbarState (s\<lparr>mc_unread := nat count\<rparr>)"

definition less_unread :: "message_center \<Rightarrow> message_center" where
  "less_unread s = setUnreadCount (max 0 (int (mc_unread s) - 1)) s"

definition new_cards :: "nat \<Rightarrow> nat list \<Rightarrow> (nat \<times> nat) list" where
  "new_cards n is = zip [n..<n + length is] is"

definition renderMessages :: "string \<Rightarrow> message_center \<Rightarrow> message_center" where
  "renderMessages focus s =
     (let start = (if focus = [] then 0 else case indexOf (list_ids s) focus of None \<Rightarrow> 0 | Some k \<Rightarrow> k);
          appendOnly = (focus \<noteq> [] \<and> 0 < start \<and> length (mc_cards s) = start);
          shown = (if appendOnly then drop start (mc_list s) else mc_list s);
          s1 = syncLoadMoreButton s
      in updateMessageToolbarState
           (s1\<lparr>mc_cards := (if appendOnly then mc_cards s else []) @ new_cards (mc_nodes s) shown, mc_nodes := mc_nodes s + length shown\<rparr>))"

section \<open>The list\<close>

text \<open>\<^verbatim>\<open>appendUniqueMessagePage\<close>: the addresses appended, the first of their identifiers is the one to reveal.\<close>

fun append_unique :: "string list \<Rightarrow> nat \<Rightarrow> user_message list \<Rightarrow> nat list" where
  "append_unique existing i [] = []"
| "append_unique existing i (m # ms) =
     (if mg_id m = [] \<or> mg_id m \<in> set existing then append_unique existing (Suc i) ms
      else i # append_unique (mg_id m # existing) (Suc i) ms)"

definition finish_fetch :: "fetch_end \<Rightarrow> message_center \<Rightarrow> message_center" where
  "finish_fetch f s =
     (case f of FetchDone \<Rightarrow> s
      | FetchCleared n \<Rightarrow>
          updateMessageToolbarState (s\<lparr>mc_alerts := (''messages.cleared:'' @ show_nat n) # mc_alerts s, mc_clearing := False, mc_clear := None\<rparr>))"

definition fetchMessages :: "bool \<Rightarrow> string \<Rightarrow> fetch_end \<Rightarrow> message_center \<Rightarrow> message_center" where
  "fetchMessages reset requestedCursor f s =
     (if mc_loading s \<or> (\<not> reset \<and> requestedCursor = []) then finish_fetch f s
      else syncLoadMoreButton (s\<lparr>mc_loading := True, mc_fetch := Some (reset, if reset then [] else requestedCursor, mc_account s, f)\<rparr>))"

text \<open>A page of messages with its next cursor and the unread count; a session that ended; any other failure.\<close>

datatype message_reply = MessagePage "user_message list" string int | SessionEnded | MessageFailure

definition fetch_answered :: "bool \<Rightarrow> nat \<Rightarrow> fetch_end \<Rightarrow> message_reply \<Rightarrow> message_center \<Rightarrow> message_center" where
  "fetch_answered reset account f reply s =
     (let s1 = (case reply of
            SessionEnded \<Rightarrow> s\<lparr>mc_kicked := mc_kicked s + 1\<rparr>
          | MessageFailure \<Rightarrow> s\<lparr>mc_alerts := ''messages.loadFailed'' # mc_alerts s\<rparr>
          | MessagePage page cursor unread \<Rightarrow>
              let n = length (mc_objects s);
                  added = (if reset then [n..<n + length page] else append_unique (list_ids s) n page);
                  first = (if reset then [] else case added of [] \<Rightarrow> [] | i # is \<Rightarrow> mg_id (page ! (i - n)));
                  s2 = s\<lparr>mc_objects := mc_objects s @ map (\<lambda>m. m\<lparr>mg_account := account\<rparr>) page,
                         mc_list := (if reset then [] else mc_list s) @ added,
                         mc_cursor := (if page = [] then [] else cursor), mc_repeated := (mc_repeated s \<or> \<not> distinct (map mg_id page))\<rparr>
              in renderMessages first (setUnreadCount unread s2));
          s3 = updateMessageToolbarState (syncLoadMoreButton (s1\<lparr>mc_loading := False, mc_fetch := None\<rparr>))
      in finish_fetch f s3)"

definition openMessageCenter :: "message_center \<Rightarrow> message_center" where
  "openMessageCenter s = (if \<not> mc_login s then s else fetchMessages True [] FetchDone (s\<lparr>mc_shown := True\<rparr>))"

definition handleLoadMoreButtonClick :: "message_center \<Rightarrow> message_center" where
  "handleLoadMoreButtonClick s =
     (if mc_more_disabled s \<or> mc_more_hidden s \<or> mc_more_cursor s = [] \<or> mc_loading s then s
      else fetchMessages False (mc_more_cursor s) FetchDone s)"

section \<open>Operations\<close>

definition message_at :: "string \<Rightarrow> message_center \<Rightarrow> nat option" where
  "message_at i s = List.find (\<lambda>k. mg_id (mc_objects s ! k) = i) (mc_list s)"

definition touch :: "nat \<Rightarrow> (user_message \<Rightarrow> user_message) \<Rightarrow> message_center \<Rightarrow> message_center" where
  "touch k f s = s\<lparr>mc_objects := (mc_objects s)[k := f (mc_objects s ! k)]\<rparr>"

definition without_nth :: "nat \<Rightarrow> 'a list \<Rightarrow> 'a list" where
  "without_nth j xs = take j xs @ drop (Suc j) xs"

definition findMessageCard :: "string \<Rightarrow> message_center \<Rightarrow> nat option" where
  "findMessageCard i s = map_option fst (List.find (\<lambda>(n, c). mg_id (mc_objects s ! c) = i) (mc_cards s))"

definition card_clicked :: "string \<Rightarrow> message_center \<Rightarrow> message_center" where
  "card_clicked i s =
     (case message_at i s of None \<Rightarrow> s
      | Some k \<Rightarrow> if mg_read (mc_objects s ! k) = 0 then s\<lparr>mc_reads := mc_reads s @ [k]\<rparr> else s)"

definition read_answered :: "nat \<Rightarrow> bool \<Rightarrow> int \<Rightarrow> message_center \<Rightarrow> message_center" where
  "read_answered k ok now s = (if \<not> ok then s else renderMessages [] (less_unread (touch k (\<lambda>m. m\<lparr>mg_read := now\<rparr>) s)))"

definition marks_answered :: "bool \<Rightarrow> int \<Rightarrow> message_center \<Rightarrow> message_center" where
  "marks_answered ok now s =
     (if \<not> ok then s\<lparr>mc_alerts := ''messages.updateFailed'' # mc_alerts s\<rparr>
      else renderMessages [] (setUnreadCount 0
             (fold (\<lambda>k. touch k (\<lambda>m. if mg_read m = 0 then m\<lparr>mg_read := now\<rparr> else m)) (mc_list s) s)))"

definition clear_all_clicked :: "message_center \<Rightarrow> message_center" where
  "clear_all_clicked s =
     (if mc_clearing s \<or> mc_loading s then s else updateMessageToolbarState (s\<lparr>mc_clearing := True, mc_clear := Some ClearConfirm\<rparr>))"

definition end_clear :: "message_center \<Rightarrow> message_center" where
  "end_clear s = updateMessageToolbarState (s\<lparr>mc_clearing := False, mc_clear := None\<rparr>)"

definition clear_confirmed :: "bool \<Rightarrow> message_center \<Rightarrow> message_center" where
  "clear_confirmed confirmed s = (if confirmed then s\<lparr>mc_clear := Some ClearRequest\<rparr> else end_clear s)"

definition clear_left :: "nat list \<Rightarrow> nat list \<Rightarrow> nat \<Rightarrow> message_center \<Rightarrow> message_center" where
  "clear_left retained nodes deleted s =
     (let s1 = syncMessageListControls (s\<lparr>mc_list := retained, mc_cursor := [], mc_cards := filter (\<lambda>(n, k). n \<notin> set nodes) (mc_cards s),
                                         mc_clear := Some ClearFetch\<rparr>)
      in fetchMessages True [] (FetchCleared deleted) s1)"

definition clear_answered :: "nat option \<Rightarrow> message_center \<Rightarrow> message_center" where
  "clear_answered reply s =
     (case reply of None \<Rightarrow> end_clear (s\<lparr>mc_alerts := ''messages.clearFailed'' # mc_alerts s\<rparr>)
      | Some deleted \<Rightarrow>
          s\<lparr>mc_clear := Some (ClearLeaving (filter (\<lambda>k. isPendingActionMessage (mc_objects s ! k)) (mc_list s))
               (List.map_filter (\<lambda>k. findMessageCard (mg_id (mc_objects s ! k)) s)
                  (filter (\<lambda>k. \<not> isPendingActionMessage (mc_objects s ! k)) (mc_list s))) deleted)\<rparr>)"

definition delete_answered :: "nat \<Rightarrow> nat \<Rightarrow> bool \<Rightarrow> message_center \<Rightarrow> message_center" where
  "delete_answered j k ok s =
     (if \<not> ok then s\<lparr>mc_deletes := without_nth j (mc_deletes s), mc_alerts := ''messages.deleteFailed'' # mc_alerts s\<rparr>
      else s\<lparr>mc_deletes := (mc_deletes s)[j := DeleteLeaving k
               (filter (\<lambda>c. mg_id (mc_objects s ! c) \<noteq> mg_id (mc_objects s ! k)) (mc_list s))
               (findMessageCard (mg_id (mc_objects s ! k)) s)]\<rparr>)"

definition delete_left :: "nat \<Rightarrow> nat list \<Rightarrow> nat option \<Rightarrow> message_center \<Rightarrow> message_center" where
  "delete_left k remaining node s =
     (let s1 = (if mg_read (mc_objects s ! k) = 0 then less_unread s else s);
          s2 = syncMessageListControls (s1\<lparr>mc_list := remaining, mc_cards := filter (\<lambda>(n, c). Some n \<noteq> node) (mc_cards s1)\<rparr>)
      in if remaining = [] \<and> mc_cursor s2 \<noteq> [] then fetchMessages True [] FetchDone s2 else s2)"

text \<open>A handler may throw, \<^term>\<open>None\<close>, or say whether the decision was made.\<close>

definition action_answered :: "nat \<Rightarrow> string \<Rightarrow> bool option \<Rightarrow> int \<Rightarrow> message_center \<Rightarrow> message_center" where
  "action_answered k decision outcome now s =
     (case outcome of None \<Rightarrow> s\<lparr>mc_alerts := ''messages.actionFailed'' # mc_alerts s\<rparr>
      | Some False \<Rightarrow> s
      | Some True \<Rightarrow>
          let s1 = touch k (\<lambda>m. m\<lparr>mg_action_status := (if decision = ''accept'' then ''accepted'' else ''rejected''), mg_acted := now\<rparr>) s;
              s2 = (if mg_read (mc_objects s ! k) = 0 then less_unread (touch k (\<lambda>m. m\<lparr>mg_read := now\<rparr>) s1) else s1)
          in renderMessages [] s2)"

datatype count_reply = UnreadCount int | CountSessionEnded | CountFailure

definition count_answered :: "count_reply \<Rightarrow> message_center \<Rightarrow> message_center" where
  "count_answered reply s =
     (case reply of UnreadCount n \<Rightarrow> setUnreadCount n s | CountSessionEnded \<Rightarrow> s\<lparr>mc_kicked := mc_kicked s + 1\<rparr> | CountFailure \<Rightarrow> s)"

definition messages_auth_changed :: "bool \<Rightarrow> message_center \<Rightarrow> message_center" where
  "messages_auth_changed isLoggedIn s =
     (if isLoggedIn then s\<lparr>mc_login := True, mc_polling := True, mc_counts := mc_counts s + 1, mc_account := mc_account s + 1\<rparr>
      else (setUnreadCount 0 (s\<lparr>mc_login := False, mc_polling := False, mc_list := [], mc_cursor := []\<rparr>))\<lparr>mc_shown := False\<rparr>)"

section \<open>Events\<close>

datatype message_event =
    CenterOpened
  | CenterClosed
  | LoadMoreClicked
  | FetchAnswered message_reply
  | CardClicked string
  | OperationClicked string string
  | ReadAnswered nat bool int
  | MarkAllClicked
  | MarksAnswered bool int
  | ClearClicked
  | ClearConfirmed bool
  | ClearAnswered "nat option"
  | ClearLeft
  | DeleteAnswered nat bool
  | DeleteLeft nat
  | ActionAnswered nat "bool option" int
  | PollElapsed
  | CountAnswered count_reply
  | HandlerRegistered string
  | MessagesRerendered
  | MessagesAuthChanged bool

fun message_step :: "message_center \<Rightarrow> message_event \<Rightarrow> message_center option" where
  "message_step s CenterOpened = Some (openMessageCenter s)"
| "message_step s CenterClosed = Some (s\<lparr>mc_shown := False\<rparr>)"
| "message_step s LoadMoreClicked = Some (handleLoadMoreButtonClick s)"
| "message_step s (FetchAnswered reply) =
     (case mc_fetch s of None \<Rightarrow> None | Some (reset, cursor, account, f) \<Rightarrow> Some (fetch_answered reset account f reply s))"
| "message_step s (CardClicked i) = Some (card_clicked i s)"
| "message_step s (OperationClicked operation i) =
     (case message_at i s of None \<Rightarrow> Some s
      | Some k \<Rightarrow>
          if Operation operation \<notin> set (buildMessageActions (mc_handlers s) (mc_objects s ! k)) then None
          else if operation = ''delete'' then Some (s\<lparr>mc_deletes := mc_deletes s @ [DeleteRequest k]\<rparr>)
          else Some (s\<lparr>mc_actions := mc_actions s @ [(k, operation)]\<rparr>))"
| "message_step s (ReadAnswered j ok now) =
     (if j < length (mc_reads s) then Some (read_answered (mc_reads s ! j) ok now (s\<lparr>mc_reads := without_nth j (mc_reads s)\<rparr>)) else None)"
| "message_step s MarkAllClicked = (if mc_mark_disabled s then None else Some (s\<lparr>mc_marks := mc_marks s + 1\<rparr>))"
| "message_step s (MarksAnswered ok now) =
     (if 0 < mc_marks s then Some (marks_answered ok now (s\<lparr>mc_marks := mc_marks s - 1\<rparr>)) else None)"
| "message_step s ClearClicked = (if mc_clear_disabled s then None else Some (clear_all_clicked s))"
| "message_step s (ClearConfirmed confirmed) =
     (if mc_clear s = Some ClearConfirm then Some (clear_confirmed confirmed s) else None)"
| "message_step s (ClearAnswered reply) = (if mc_clear s = Some ClearRequest then Some (clear_answered reply s) else None)"
| "message_step s ClearLeft =
     (case mc_clear s of Some (ClearLeaving retained nodes deleted) \<Rightarrow> Some (clear_left retained nodes deleted s) | _ \<Rightarrow> None)"
| "message_step s (DeleteAnswered j ok) =
     (if j < length (mc_deletes s)
      then case mc_deletes s ! j of DeleteRequest k \<Rightarrow> Some (delete_answered j k ok s) | _ \<Rightarrow> None else None)"
| "message_step s (DeleteLeft j) =
     (if j < length (mc_deletes s)
      then case mc_deletes s ! j of
          DeleteLeaving k remaining node \<Rightarrow> Some (delete_left k remaining node (s\<lparr>mc_deletes := without_nth j (mc_deletes s)\<rparr>))
        | _ \<Rightarrow> None
      else None)"
| "message_step s (ActionAnswered j outcome now) =
     (if j < length (mc_actions s)
      then Some (action_answered (fst (mc_actions s ! j)) (snd (mc_actions s ! j)) outcome now
                   (s\<lparr>mc_actions := without_nth j (mc_actions s)\<rparr>)) else None)"
| "message_step s PollElapsed = (if mc_polling s then Some (if mc_login s then s\<lparr>mc_counts := mc_counts s + 1\<rparr> else s) else None)"
| "message_step s (CountAnswered reply) =
     (if 0 < mc_counts s then Some (count_answered reply (s\<lparr>mc_counts := mc_counts s - 1\<rparr>)) else None)"
| "message_step s (HandlerRegistered kind) =
     Some (if kind = [] then s else renderMessages [] (s\<lparr>mc_handlers := kind # removeAll kind (mc_handlers s)\<rparr>))"
| "message_step s MessagesRerendered = Some (renderMessages [] s)"
| "message_step s (MessagesAuthChanged isLoggedIn) = Some (messages_auth_changed isLoggedIn s)"

definition fresh_messages :: message_center where
  "fresh_messages = \<lparr>mc_objects = [], mc_list = [], mc_cursor = [], mc_unread = 0, mc_polling = False, mc_loading = False, mc_clearing = False,
     mc_shown = False, mc_login = False, mc_handlers = [], mc_cards = [], mc_nodes = 0, mc_more_hidden = True, mc_more_disabled = True,
     mc_more_cursor = [], mc_mark_disabled = True, mc_clear_disabled = True, mc_fetch = None, mc_counts = 0, mc_reads = [], mc_marks = 0,
     mc_clear = None, mc_deletes = [], mc_actions = [], mc_alerts = [], mc_kicked = 0, mc_account = 0, mc_repeated = False\<rparr>"

section \<open>Pages are merged without repetition\<close>

text \<open>The identifiers of a page that the list does not hold yet, each at its first occurrence.\<close>

definition new_ids :: "string list \<Rightarrow> string list \<Rightarrow> string list" where
  "new_ids existing ids = rev (remdups (rev (filter (\<lambda>i. i \<noteq> [] \<and> i \<notin> set existing) ids)))"

lemma remdups_last: "remdups (ys @ [x]) = remdups (filter (\<lambda>y. y \<noteq> x) ys) @ [x]"
  by (induction ys) auto

lemma new_ids_rec [simp]:
  "new_ids existing [] = []"
  "new_ids existing (x # xs) = (if x = [] \<or> x \<in> set existing then new_ids existing xs else x # new_ids (x # existing) xs)"
  by (simp_all add: new_ids_def remdups_last rev_filter [symmetric] conj_ac)

lemma append_unique_bounds: "k \<in> set (append_unique existing n ms) \<Longrightarrow> n \<le> k \<and> k < n + length ms"
  by (induction existing n ms rule: append_unique.induct) (fastforce split: if_splits)+

lemma append_unique_ids: "map (\<lambda>k. mg_id (ms ! (k - n))) (append_unique existing n ms) = new_ids existing (map mg_id ms)"
proof (induction existing n ms rule: append_unique.induct)
  case (2 existing n m ms)
  have shift: "map (\<lambda>k. mg_id ((m # ms) ! (k - n))) (append_unique e (Suc n) ms) = map (\<lambda>k. mg_id (ms ! (k - Suc n))) (append_unique e (Suc n) ms)" for e
    by (rule map_cong [OF refl]) (auto dest!: append_unique_bounds simp: nth_Cons' Suc_diff_le)
  from 2 show ?case by (simp add: shift del: nth_Cons)
qed simp

lemma new_ids_distinct: "distinct (new_ids existing ids)" "set (new_ids existing ids) \<inter> set existing = {}"
  by (auto simp: new_ids_def)

section \<open>Invariant\<close>

definition ids_of :: "user_message list \<Rightarrow> nat list \<Rightarrow> string list" where
  "ids_of objs ks = map (\<lambda>k. mg_id (objs ! k)) ks"

lemma list_ids_of: "list_ids s = ids_of (mc_objects s) (mc_list s)"
  by (simp add: list_ids_def ids_of_def)

definition good_list :: "user_message list \<Rightarrow> bool \<Rightarrow> nat list \<Rightarrow> bool" where
  "good_list objs repeated ks \<longleftrightarrow> (\<forall>k \<in> set ks. k < length objs) \<and> (\<not> repeated \<longrightarrow> distinct (ids_of objs ks))"

text \<open>The list and the lists that a deletion or a clearing will put in its place.\<close>

definition good_delete :: "user_message list \<Rightarrow> bool \<Rightarrow> delete_stage \<Rightarrow> bool" where
  "good_delete objs repeated d = (case d of DeleteRequest k \<Rightarrow> True | DeleteLeaving k ks node \<Rightarrow> good_list objs repeated ks)"

definition good_clear :: "user_message list \<Rightarrow> bool \<Rightarrow> clear_stage option \<Rightarrow> bool" where
  "good_clear objs repeated c = (case c of Some (ClearLeaving ks nodes n) \<Rightarrow> good_list objs repeated ks | _ \<Rightarrow> True)"

definition held_inv :: "message_center \<Rightarrow> bool" where
  "held_inv s \<longleftrightarrow> good_list (mc_objects s) (mc_repeated s) (mc_list s) \<and> good_clear (mc_objects s) (mc_repeated s) (mc_clear s)
     \<and> (\<forall>d \<in> set (mc_deletes s). good_delete (mc_objects s) (mc_repeated s) d)"

definition busy_inv :: "message_center \<Rightarrow> bool" where
  "busy_inv s \<longleftrightarrow> (mc_loading s \<longleftrightarrow> mc_fetch s \<noteq> None) \<and> (mc_clearing s \<longleftrightarrow> mc_clear s \<noteq> None)
     \<and> (case mc_fetch s of None \<Rightarrow> True | Some (reset, cursor, account, f) \<Rightarrow>
          (reset \<longleftrightarrow> cursor = []) \<and> account \<le> mc_account s \<and> (f \<noteq> FetchDone \<longrightarrow> mc_clear s = Some ClearFetch))
     \<and> (mc_clear s = Some ClearFetch \<longrightarrow> (\<exists>reset cursor account n. mc_fetch s = Some (reset, cursor, account, FetchCleared n)))"

lemma good_stage [simp]:
  "good_clear objs repeated None" "good_clear objs repeated (Some ClearConfirm)" "good_clear objs repeated (Some ClearRequest)"
  "good_clear objs repeated (Some ClearFetch)" "good_clear objs repeated (Some (ClearLeaving ks nodes n)) = good_list objs repeated ks"
  "good_delete objs repeated (DeleteRequest k)" "good_delete objs repeated (DeleteLeaving k ks node) = good_list objs repeated ks"
  by (simp_all add: good_clear_def good_delete_def)

lemma ids_append [simp]: "ids_of objs [] = []" "ids_of objs (ks @ ls) = ids_of objs ks @ ids_of objs ls"
  by (simp_all add: ids_of_def)

lemma ids_grown: "\<forall>k \<in> set ks. k < length objs \<Longrightarrow> ids_of (objs @ new) ks = ids_of objs ks"
  by (simp add: ids_of_def nth_append)

lemma ids_touched: "(\<And>m. mg_id (f m) = mg_id m) \<Longrightarrow> ids_of (objs[k := f (objs ! k)]) ks = ids_of objs ks"
  by (cases "k < length objs") (auto simp: ids_of_def nth_list_update list_update_beyond)

lemma good_grown: "good_list objs repeated ks \<Longrightarrow> good_list (objs @ new) (repeated \<or> rep) ks"
  by (auto simp: good_list_def ids_grown)

lemma good_touched: "(\<And>m. mg_id (f m) = mg_id m) \<Longrightarrow> good_list (objs[k := f (objs ! k)]) repeated ks = good_list objs repeated ks"
  by (simp add: good_list_def ids_touched)

lemma good_filter: "good_list objs repeated ks \<Longrightarrow> good_list objs repeated (filter P ks)"
  by (auto simp: good_list_def ids_of_def distinct_map_filter)

lemma held_grown:
  assumes "held_inv s" "mc_objects u = mc_objects s @ new" "mc_repeated u = (mc_repeated s \<or> rep)" "mc_clear u = mc_clear s \<or> mc_clear u = None"
    "mc_deletes u = mc_deletes s" "good_list (mc_objects u) (mc_repeated u) (mc_list u)"
  shows "held_inv u"
proof -
  have "good_clear (mc_objects s @ new) (mc_repeated s \<or> rep) (mc_clear s)"
    using assms(1) by (auto simp: held_inv_def good_clear_def good_grown split: option.splits clear_stage.splits)
  moreover have "good_delete (mc_objects s @ new) (mc_repeated s \<or> rep) d" if "d \<in> set (mc_deletes s)" for d
    using assms(1) that by (cases d) (auto simp: held_inv_def good_delete_def good_grown)
  moreover have "good_clear objs b None" for objs b by (simp add: good_clear_def)
  ultimately show ?thesis using assms(4,6) unfolding held_inv_def assms(2,3,5) by metis
qed

text \<open>The controls and cards do not enter the invariants.\<close>

lemma control_fields [simp]:
  "mc_objects (syncLoadMoreButton s) = mc_objects s" "mc_list (syncLoadMoreButton s) = mc_list s" "mc_cursor (syncLoadMoreButton s) = mc_cursor s"
  "mc_repeated (syncLoadMoreButton s) = mc_repeated s" "mc_clear (syncLoadMoreButton s) = mc_clear s" "mc_deletes (syncLoadMoreButton s) = mc_deletes s"
  "mc_loading (syncLoadMoreButton s) = mc_loading s" "mc_fetch (syncLoadMoreButton s) = mc_fetch s" "mc_clearing (syncLoadMoreButton s) = mc_clearing s"
  "mc_account (syncLoadMoreButton s) = mc_account s" "mc_unread (syncLoadMoreButton s) = mc_unread s"
  "mc_objects (updateMessageToolbarState s) = mc_objects s" "mc_list (updateMessageToolbarState s) = mc_list s"
  "mc_cursor (updateMessageToolbarState s) = mc_cursor s" "mc_repeated (updateMessageToolbarState s) = mc_repeated s"
  "mc_clear (updateMessageToolbarState s) = mc_clear s" "mc_deletes (updateMessageToolbarState s) = mc_deletes s"
  "mc_loading (updateMessageToolbarState s) = mc_loading s" "mc_fetch (updateMessageToolbarState s) = mc_fetch s"
  "mc_clearing (updateMessageToolbarState s) = mc_clearing s" "mc_account (updateMessageToolbarState s) = mc_account s"
  by (simp_all add: syncLoadMoreButton_def updateMessageToolbarState_def Let_def)

lemma count_fields [simp]:
  "mc_objects (setUnreadCount n s) = mc_objects s" "mc_list (setUnreadCount n s) = mc_list s" "mc_cursor (setUnreadCount n s) = mc_cursor s"
  "mc_repeated (setUnreadCount n s) = mc_repeated s" "mc_clear (setUnreadCount n s) = mc_clear s" "mc_deletes (setUnreadCount n s) = mc_deletes s"
  "mc_loading (setUnreadCount n s) = mc_loading s" "mc_fetch (setUnreadCount n s) = mc_fetch s" "mc_clearing (setUnreadCount n s) = mc_clearing s"
  "mc_account (setUnreadCount n s) = mc_account s"
  "mc_objects (less_unread s) = mc_objects s" "mc_list (less_unread s) = mc_list s" "mc_cursor (less_unread s) = mc_cursor s"
  "mc_repeated (less_unread s) = mc_repeated s" "mc_clear (less_unread s) = mc_clear s" "mc_deletes (less_unread s) = mc_deletes s"
  "mc_loading (less_unread s) = mc_loading s" "mc_fetch (less_unread s) = mc_fetch s" "mc_clearing (less_unread s) = mc_clearing s"
  "mc_account (less_unread s) = mc_account s"
  by (simp_all add: setUnreadCount_def less_unread_def)

lemma center_render_fields [simp]:
  "mc_objects (renderMessages focus s) = mc_objects s" "mc_list (renderMessages focus s) = mc_list s"
  "mc_cursor (renderMessages focus s) = mc_cursor s" "mc_repeated (renderMessages focus s) = mc_repeated s"
  "mc_clear (renderMessages focus s) = mc_clear s" "mc_deletes (renderMessages focus s) = mc_deletes s"
  "mc_loading (renderMessages focus s) = mc_loading s" "mc_fetch (renderMessages focus s) = mc_fetch s"
  "mc_clearing (renderMessages focus s) = mc_clearing s" "mc_account (renderMessages focus s) = mc_account s"
  by (simp_all add: renderMessages_def Let_def)

lemma held_same:
  "held_inv s \<Longrightarrow> mc_objects u = mc_objects s \<Longrightarrow> mc_repeated u = mc_repeated s \<Longrightarrow> mc_clear u = mc_clear s \<Longrightarrow>
     mc_deletes u = mc_deletes s \<Longrightarrow> mc_list u = mc_list s \<Longrightarrow> held_inv u"
  by (simp add: held_inv_def)

lemma busy_same:
  "busy_inv s \<Longrightarrow> mc_loading u = mc_loading s \<Longrightarrow> mc_fetch u = mc_fetch s \<Longrightarrow> mc_clearing u = mc_clearing s \<Longrightarrow> mc_clear u = mc_clear s \<Longrightarrow>
     mc_account s \<le> mc_account u \<Longrightarrow> busy_inv u"
  by (auto simp: busy_inv_def split: option.splits prod.splits)

lemma held_touched:
  assumes "held_inv s" "\<And>m. mg_id (f m) = mg_id m"
  shows "held_inv (touch k f s)"
proof -
  have eq: "good_list (mc_objects (touch k f s)) = good_list (mc_objects s)"
    by (intro ext) (simp add: touch_def good_touched [OF assms(2)])
  have eqs: "mc_list (touch k f s) = mc_list s" "mc_repeated (touch k f s) = mc_repeated s" "mc_clear (touch k f s) = mc_clear s"
    "mc_deletes (touch k f s) = mc_deletes s" by (simp_all add: touch_def)
  show ?thesis using assms(1) unfolding held_inv_def good_clear_def good_delete_def eq eqs .
qed

lemma touch_fields [simp]:
  "mc_list (touch k f s) = mc_list s" "mc_repeated (touch k f s) = mc_repeated s" "mc_clear (touch k f s) = mc_clear s"
  "mc_deletes (touch k f s) = mc_deletes s" "mc_loading (touch k f s) = mc_loading s" "mc_fetch (touch k f s) = mc_fetch s"
  "mc_clearing (touch k f s) = mc_clearing s" "mc_account (touch k f s) = mc_account s"
  by (simp_all add: touch_def)

definition message_inv :: "message_center \<Rightarrow> bool" where
  "message_inv s \<longleftrightarrow> held_inv s \<and> busy_inv s"

lemma message_same:
  assumes "message_inv s" "mc_objects u = mc_objects s" "mc_repeated u = mc_repeated s" "mc_clear u = mc_clear s" "mc_deletes u = mc_deletes s"
    "mc_list u = mc_list s" "mc_loading u = mc_loading s" "mc_fetch u = mc_fetch s" "mc_clearing u = mc_clearing s" "mc_account s \<le> mc_account u"
  shows "message_inv u"
  using assms held_same [of s u] busy_same [of s u] by (simp add: message_inv_def)

lemma message_shown:
  "message_inv s \<Longrightarrow> message_inv (renderMessages focus s)" "message_inv s \<Longrightarrow> message_inv (setUnreadCount n s)"
  "message_inv s \<Longrightarrow> message_inv (less_unread s)" "message_inv s \<Longrightarrow> message_inv (s\<lparr>mc_alerts := a\<rparr>)"
  "message_inv s \<Longrightarrow> message_inv (s\<lparr>mc_shown := b\<rparr>)" "message_inv s \<Longrightarrow> message_inv (s\<lparr>mc_reads := r\<rparr>)"
  "message_inv s \<Longrightarrow> message_inv (s\<lparr>mc_marks := n'\<rparr>)" "message_inv s \<Longrightarrow> message_inv (s\<lparr>mc_counts := n'\<rparr>)"
  "message_inv s \<Longrightarrow> message_inv (s\<lparr>mc_handlers := h\<rparr>)" "message_inv s \<Longrightarrow> message_inv (s\<lparr>mc_counts := n', mc_kicked := k\<rparr>)"
  by (erule message_same; simp)+

lemma message_touched: "message_inv s \<Longrightarrow> (\<And>m. mg_id (f m) = mg_id m) \<Longrightarrow> message_inv (touch k f s)"
  unfolding message_inv_def by (simp add: held_touched) (erule conjE, erule busy_same; simp)

lemma without_nth_set: "x \<in> set (without_nth j xs) \<Longrightarrow> x \<in> set xs"
  by (auto simp: without_nth_def dest: in_set_takeD in_set_dropD)

lemma fold_touched: "(\<And>m. mg_id (f m) = mg_id m) \<Longrightarrow> message_inv s \<Longrightarrow> message_inv (fold (\<lambda>k. touch k f) ks s)"
  by (induction ks arbitrary: s) (simp_all add: message_touched)

lemma fetch_message: "message_inv s \<Longrightarrow> (f = FetchDone \<or> mc_clear s = Some ClearFetch \<and> \<not> mc_loading s) \<Longrightarrow> message_inv (fetchMessages reset c f s)"
  by (auto simp: fetchMessages_def finish_fetch_def message_inv_def held_inv_def busy_inv_def split: option.splits fetch_end.splits)

lemma cleared_message:
  assumes "held_inv s" "busy_inv (s\<lparr>mc_clear := Some ClearRequest\<rparr>)" "mc_clear s = Some ClearFetch"
  shows "message_inv (fetchMessages True [] (FetchCleared n) s)"
  using assms by (auto simp: fetchMessages_def finish_fetch_def message_inv_def held_inv_def busy_inv_def split: option.splits prod.splits)

lemma fetched_message:
  assumes "message_inv s" "mc_fetch s = Some (reset, cursor, account, f)"
  shows "message_inv (fetch_answered reset account f reply s)"
proof -
  define s1 where "s1 = (case reply of
            SessionEnded \<Rightarrow> s\<lparr>mc_kicked := mc_kicked s + 1\<rparr>
          | MessageFailure \<Rightarrow> s\<lparr>mc_alerts := ''messages.loadFailed'' # mc_alerts s\<rparr>
          | MessagePage page cursor unread \<Rightarrow>
              let n = length (mc_objects s);
                  added = (if reset then [n..<n + length page] else append_unique (list_ids s) n page);
                  first = (if reset then [] else case added of [] \<Rightarrow> [] | i # is \<Rightarrow> mg_id (page ! (i - n)));
                  s2 = s\<lparr>mc_objects := mc_objects s @ map (\<lambda>m. m\<lparr>mg_account := account\<rparr>) page,
                         mc_list := (if reset then [] else mc_list s) @ added,
                         mc_cursor := (if page = [] then [] else cursor), mc_repeated := (mc_repeated s \<or> \<not> distinct (map mg_id page))\<rparr>
              in renderMessages first (setUnreadCount unread s2))"
  have held: "held_inv s" and busy: "busy_inv s" using assms(1) by (simp_all add: message_inv_def)
  have "held_inv s1 \<and> mc_clear s1 = mc_clear s \<and> mc_clearing s1 = mc_clearing s \<and> mc_account s1 = mc_account s"
  proof (cases reply)
    case (MessagePage page nextCursor unread)
    define n where "n = length (mc_objects s)"
    define added where "added = (if reset then [n..<n + length page] else append_unique (list_ids s) n page)"
    have eqs: "mc_objects s1 = mc_objects s @ map (\<lambda>m. m\<lparr>mg_account := account\<rparr>) page" "mc_list s1 = (if reset then [] else mc_list s) @ added"
      "mc_repeated s1 = (mc_repeated s \<or> \<not> distinct (map mg_id page))" "mc_clear s1 = mc_clear s" "mc_deletes s1 = mc_deletes s"
      "mc_clearing s1 = mc_clearing s" "mc_account s1 = mc_account s"
      by (simp_all add: s1_def MessagePage Let_def n_def added_def)
    have bounds: "k \<in> set added \<Longrightarrow> n \<le> k \<and> k < n + length page" for k
      by (auto simp: added_def dest: append_unique_bounds split: if_splits)
    have at: "mc_objects s1 ! k = (page ! (k - n))\<lparr>mg_account := account\<rparr>" if "k \<in> set added" for k
      using bounds [OF that] by (auto simp: eqs nth_append n_def)
    have "ids_of (mc_objects s1) added = map (\<lambda>k. mg_id (page ! (k - n))) added"
      by (simp add: ids_of_def at cong: map_cong)
    also have "\<dots> = (if reset then map mg_id page else new_ids (list_ids s) (map mg_id page))"
      by (auto simp: added_def append_unique_ids intro!: nth_equalityI)
    finally have ids: "ids_of (mc_objects s1) added = (if reset then map mg_id page else new_ids (list_ids s) (map mg_id page))" .
    have old: "good_list (mc_objects s1) (mc_repeated s1) (mc_list s)"
      using held unfolding held_inv_def eqs by (simp add: good_grown)
    then have ids_old: "ids_of (mc_objects s1) (mc_list s) = list_ids s"
      using held unfolding held_inv_def good_list_def by (simp add: eqs ids_grown list_ids_of)
    have "good_list (mc_objects s1) (mc_repeated s1) (mc_list s1)"
      using old bounds ids ids_old new_ids_distinct [of "list_ids s" "map mg_id page"]
      by (auto simp: good_list_def eqs n_def)
    with held_grown [OF held eqs(1,3) _ eqs(5)] eqs show ?thesis by simp
  qed (use held in \<open>auto simp: s1_def intro: held_same\<close>)
  moreover have "fetch_answered reset account f reply s =
      finish_fetch f (updateMessageToolbarState (syncLoadMoreButton (s1\<lparr>mc_loading := False, mc_fetch := None\<rparr>)))"
    unfolding fetch_answered_def s1_def Let_def ..
  moreover have "f \<noteq> FetchDone \<longrightarrow> mc_clear s = Some ClearFetch" "f = FetchDone \<longrightarrow> mc_clear s \<noteq> Some ClearFetch"
    using busy assms(2) by (auto simp: busy_inv_def)
  ultimately show ?thesis using busy
    by (auto simp: finish_fetch_def message_inv_def held_inv_def busy_inv_def split: fetch_end.split)
qed

lemma opened_message: "message_inv s \<Longrightarrow> message_inv (openMessageCenter s)"
  by (auto simp: openMessageCenter_def intro!: fetch_message elim!: message_same)

lemma more_message: "message_inv s \<Longrightarrow> message_inv (handleLoadMoreButtonClick s)"
  by (auto simp: handleLoadMoreButtonClick_def intro: fetch_message)

lemma busy_clear:
  assumes "busy_inv s" "mc_clear s \<noteq> Some ClearFetch" "mc_loading u = mc_loading s" "mc_fetch u = mc_fetch s" "mc_account u = mc_account s"
    "mc_clearing u \<longleftrightarrow> mc_clear u \<noteq> None" "mc_clear u \<noteq> Some ClearFetch"
  shows "busy_inv u"
  using assms by (auto simp: busy_inv_def split: option.splits prod.splits)

lemma clear_message:
  assumes "message_inv s" "mc_clear s \<noteq> Some ClearFetch" "mc_objects u = mc_objects s" "mc_repeated u = mc_repeated s"
    "mc_deletes u = mc_deletes s" "mc_list u = mc_list s" "mc_loading u = mc_loading s" "mc_fetch u = mc_fetch s" "mc_account u = mc_account s"
    "mc_clearing u \<longleftrightarrow> mc_clear u \<noteq> None" "mc_clear u \<noteq> Some ClearFetch" "good_clear (mc_objects s) (mc_repeated s) (mc_clear u)"
  shows "message_inv u"
  using assms busy_clear [of s u] by (simp add: message_inv_def held_inv_def)

lemma left_message:
  assumes "message_inv s" "mc_clear s = Some (ClearLeaving retained nodes deleted)"
  shows "message_inv (clear_left retained nodes deleted s)"
proof -
  let ?s = "syncMessageListControls (s\<lparr>mc_list := retained, mc_cursor := [], mc_cards := filter (\<lambda>(n, k). n \<notin> set nodes) (mc_cards s),
                                         mc_clear := Some ClearFetch\<rparr>)"
  have "held_inv ?s" using assms by (simp add: message_inv_def held_inv_def syncMessageListControls_def)
  moreover have "busy_inv s" using assms(1) by (simp add: message_inv_def)
  then have "busy_inv (?s\<lparr>mc_clear := Some ClearRequest\<rparr>)"
    by (rule busy_clear) (use \<open>busy_inv s\<close> assms(2) in \<open>simp_all add: busy_inv_def syncMessageListControls_def\<close>)
  ultimately show ?thesis unfolding clear_left_def Let_def by (rule cleared_message) (simp add: syncMessageListControls_def)
qed

lemma deleted_message:
  assumes "message_inv s" "good_list (mc_objects s) (mc_repeated s) remaining"
  shows "message_inv (delete_left k remaining node s)"
proof -
  have "message_inv (syncMessageListControls (s1\<lparr>mc_list := remaining, mc_cards := x\<rparr>))" if "s1 = s \<or> s1 = less_unread s" for s1 x
    using assms that busy_same [of s]
    by (auto simp: message_inv_def held_inv_def syncMessageListControls_def)
  then show ?thesis by (auto simp: delete_left_def Let_def intro!: fetch_message)
qed

lemma deletes_message:
  assumes "message_inv s" "mc_objects u = mc_objects s" "mc_repeated u = mc_repeated s" "mc_clear u = mc_clear s" "mc_list u = mc_list s"
    "mc_loading u = mc_loading s" "mc_fetch u = mc_fetch s" "mc_clearing u = mc_clearing s" "mc_account u = mc_account s"
    "\<And>d. d \<in> set (mc_deletes u) \<Longrightarrow> good_delete (mc_objects s) (mc_repeated s) d"
  shows "message_inv u"
  using assms busy_same [of s u] by (simp add: message_inv_def held_inv_def)

interpretation message_machine: machine_invariant message_step message_inv
proof
  fix s e u assume inv: "message_inv s" and step: "message_step s e = Some u"
  show "message_inv u"
  proof (cases e)
    case (FetchAnswered reply)
    with step fetched_message [OF inv] show ?thesis by (auto split: option.splits prod.splits)
  next
    case (ClearConfirmed confirmed)
    with step show ?thesis
      by (intro clear_message [OF inv]) (use inv in \<open>auto simp: clear_confirmed_def end_clear_def good_clear_def message_inv_def busy_inv_def
          split: if_splits\<close>)
  next
    case ClearClicked
    show ?thesis
    proof (cases "mc_clearing s \<or> mc_loading s")
      case True
      with ClearClicked step inv show ?thesis by (auto simp: clear_all_clicked_def split: if_splits)
    next
      case False
      with ClearClicked step show ?thesis
        by (intro clear_message [OF inv]) (use inv in \<open>auto simp: clear_all_clicked_def good_clear_def message_inv_def busy_inv_def split: if_splits\<close>)
    qed
  next
    case (ClearAnswered reply)
    have "good_list (mc_objects s) (mc_repeated s) (filter P (mc_list s))" for P
      using inv by (simp add: message_inv_def held_inv_def good_filter)
    with ClearAnswered step show ?thesis
      by (intro clear_message [OF inv]) (use inv in \<open>auto simp: clear_answered_def end_clear_def good_clear_def message_inv_def busy_inv_def
          split: if_splits option.splits\<close>)
  next
    case ClearLeft
    with step left_message [OF inv] show ?thesis by (auto split: option.splits clear_stage.splits)
  next
    case (DeleteAnswered j ok)
    then obtain k where at: "j < length (mc_deletes s)" "mc_deletes s ! j = DeleteRequest k" "u = delete_answered j k ok s"
      using step by (auto split: if_splits delete_stage.splits)
    have "good_list (mc_objects s) (mc_repeated s) (filter P (mc_list s))" for P
      using inv by (simp add: message_inv_def held_inv_def good_filter)
    moreover have "good_delete (mc_objects s) (mc_repeated s) d" if "d \<in> set (mc_deletes s)" for d
      using inv that by (simp add: message_inv_def held_inv_def)
    ultimately show ?thesis unfolding at(3)
      by (cases ok; intro deletes_message [OF inv])
        (auto simp: delete_answered_def dest: without_nth_set dest!: set_update_subset_insert [THEN subsetD])
  next
    case (DeleteLeft j)
    then obtain k remaining node where at: "j < length (mc_deletes s)" "mc_deletes s ! j = DeleteLeaving k remaining node"
      "u = delete_left k remaining node (s\<lparr>mc_deletes := without_nth j (mc_deletes s)\<rparr>)"
      using step by (auto split: if_splits delete_stage.splits)
    have "good_delete (mc_objects s) (mc_repeated s) (DeleteLeaving k remaining node)"
      using inv nth_mem [OF at(1)] unfolding at(2) message_inv_def held_inv_def by blast
    moreover have "message_inv (s\<lparr>mc_deletes := without_nth j (mc_deletes s)\<rparr>)"
      by (rule deletes_message [OF inv]) (use inv in \<open>auto simp: message_inv_def held_inv_def dest: without_nth_set\<close>)
    ultimately show ?thesis unfolding at(3) by (intro deleted_message) simp_all
  next
    case (OperationClicked operation i)
    have "message_inv (s\<lparr>mc_deletes := mc_deletes s @ [DeleteRequest k]\<rparr>)" for k
      by (rule deletes_message [OF inv]) (use inv in \<open>auto simp: message_inv_def held_inv_def\<close>)
    moreover have "message_inv (s\<lparr>mc_actions := x\<rparr>)" for x by (rule message_same [OF inv]) simp_all
    ultimately show ?thesis using OperationClicked step inv by (auto split: if_splits option.splits)
  next
    case (ReadAnswered j ok now)
    have "message_inv (s\<lparr>mc_reads := x\<rparr>)" for x by (rule message_same [OF inv]) simp_all
    then have "message_inv (read_answered k ok now (s\<lparr>mc_reads := x\<rparr>))" for k x
      by (auto simp: read_answered_def intro!: message_shown(1,3) message_touched)
    with ReadAnswered step show ?thesis by (auto split: if_splits)
  next
    case (MarksAnswered ok now)
    have "message_inv (s\<lparr>mc_marks := x\<rparr>)" for x by (rule message_same [OF inv]) simp_all
    then have "message_inv (marks_answered ok now (s\<lparr>mc_marks := x\<rparr>))" for x
      using message_shown(4) [of "s\<lparr>mc_marks := x\<rparr>"] by (auto simp: marks_answered_def intro!: message_shown(1,2) fold_touched)
    with MarksAnswered step show ?thesis by (auto split: if_splits)
  next
    case (ActionAnswered j outcome now)
    have same: "message_inv (s\<lparr>mc_actions := x\<rparr>)" for x by (rule message_same [OF inv]) simp_all
    have "message_inv (action_answered k d outcome now (s\<lparr>mc_actions := x\<rparr>))" for k d x
      using same [of x] message_shown(4) [OF same [of x]]
      by (auto simp: action_answered_def Let_def intro!: message_shown(1,3) message_touched split: option.split bool.split)
    with ActionAnswered step show ?thesis by (auto split: if_splits)
  next
    case (MessagesAuthChanged isLoggedIn)
    have "message_inv (s\<lparr>mc_login := True, mc_polling := True, mc_counts := mc_counts s + 1, mc_account := mc_account s + 1\<rparr>)"
      by (rule message_same [OF inv]) simp_all
    moreover have "message_inv (s\<lparr>mc_login := False, mc_polling := False, mc_list := [], mc_cursor := []\<rparr>)"
      using inv busy_same [of s] by (simp add: message_inv_def held_inv_def good_list_def)
    then have "message_inv ((setUnreadCount 0 (s\<lparr>mc_login := False, mc_polling := False, mc_list := [], mc_cursor := []\<rparr>))\<lparr>mc_shown := False\<rparr>)"
      by (intro message_shown)
    ultimately show ?thesis using MessagesAuthChanged step by (auto simp: messages_auth_changed_def)
  next
    case (CountAnswered reply)
    have "message_inv (count_answered reply (s\<lparr>mc_counts := x\<rparr>))" for x
      using inv by (cases reply) (auto simp: count_answered_def intro: message_shown)
    with CountAnswered step show ?thesis by (auto split: if_splits)
  qed (use step inv opened_message more_message in
      \<open>auto simp: card_clicked_def intro: message_shown split: if_splits option.splits\<close>)
qed

lemma fresh_message_inv: "message_inv fresh_messages"
  by (simp add: message_inv_def held_inv_def busy_inv_def good_list_def fresh_messages_def)

section \<open>Theorems\<close>

lemma appended_page:
  assumes "message_inv s" "mc_fetch s = Some (False, c, account, f)"
    "message_step s (FetchAnswered (MessagePage page nextCursor unread)) = Some u"
  shows "list_ids u = list_ids s @ new_ids (list_ids s) (map mg_id page)"
proof -
  define n where "n = length (mc_objects s)"
  have eqs: "mc_objects u = mc_objects s @ map (\<lambda>m. m\<lparr>mg_account := account\<rparr>) page"
    "mc_list u = mc_list s @ append_unique (list_ids s) n page"
    using assms(2,3) by (auto simp: fetch_answered_def finish_fetch_def n_def Let_def split: fetch_end.split)
  have "\<forall>k \<in> set (mc_list s). k < length (mc_objects s)"
    using assms(1) by (simp add: message_inv_def held_inv_def good_list_def)
  then have "ids_of (mc_objects u) (mc_list s) = list_ids s" by (simp add: eqs ids_grown list_ids_of)
  moreover have "ids_of (mc_objects u) (append_unique (list_ids s) n page) = new_ids (list_ids s) (map mg_id page)"
    unfolding append_unique_ids [of page n, symmetric] ids_of_def
    by (rule map_cong [OF refl]) (auto dest!: append_unique_bounds simp: eqs n_def nth_append)
  ultimately show ?thesis by (simp add: list_ids_of [of u] eqs(2))
qed


definition sample_message :: "string \<Rightarrow> user_message" where
  "sample_message i = \<lparr>mg_id = i, mg_kind = [], mg_severity = [], mg_title = [], mg_body = [], mg_read = 0, mg_action_kind = [],
     mg_action_status = [], mg_acted = 0, mg_account = 0\<rparr>"

definition message_run :: "message_event list" where
  "message_run = [MessagesAuthChanged True, CenterOpened,
     FetchAnswered (MessagePage [sample_message ''a'', sample_message ''b''] ''next'' 2), LoadMoreClicked]"


text \<open>Two deletions whose exit transitions overlap: the first message is back in the list when the second has left.\<close>

lemma deleted_message_returns:
  "case run_events message_step fresh_messages
     (butlast message_run @ [OperationClicked ''delete'' ''a'', OperationClicked ''delete'' ''b'', DeleteAnswered 0 True, DeleteAnswered 1 True,
        DeleteLeft 0, DeleteLeft 0]) of
     None \<Rightarrow> False | Some s \<Rightarrow> list_ids s = [''a''] \<and> mc_cards s = []"
  by code_simp

text \<open>An answer that arrives after the logout puts the messages of the former account into the list of the next one.\<close>

lemma former_account_listed:
  "case run_events message_step fresh_messages
     [MessagesAuthChanged True, CenterOpened, MessagesAuthChanged False, FetchAnswered (MessagePage [sample_message ''a''] [] 1),
      MessagesAuthChanged True] of
     None \<Rightarrow> False | Some s \<Rightarrow> list_ids s = [''a''] \<and> mc_unread s = 1 \<and> mc_account s = 2 \<and> map mg_account (mc_objects s) = [1]"
  by code_simp

text \<open>Two clicks on one unread message before the first answer count it as read twice.\<close>

lemma read_counted_twice:
  "case run_events message_step fresh_messages
     (butlast message_run @ [CardClicked ''a'', CardClicked ''a'', ReadAnswered 0 True 5, ReadAnswered 0 True 6]) of
     None \<Rightarrow> False | Some s \<Rightarrow> mc_unread s = 0 \<and> map mg_read (mc_objects s) = [6, 0]"
  by code_simp

end
