(* ===== verification/Spec2Isabelle.thy ===== *)
theory Spec2Isabelle
  imports Upload_Pool Upload_Session Backend_Availability Update_Package Official_Releases Database_Dsn Password_Strength
    Account_Language Passkey Mfa_Login Captcha Api_Client Uri_Codec Language_State Response_Errors Snippets Pagination
    Site_Router Login_Route Profile_Cache Auth_Session Legal_Consent Live_Search Upload_Batch Markdown Registration
    Settings_Drafts Message_Center
begin

text \<open>
  The browser clients of RenoP: a verification library.

  RenoP is an artifact repository server. Its JavaScript is of three parts: the administration client under
  \<^verbatim>\<open>src/internal/service/frontend/renop-html/js\<close> (below written as \<^verbatim>\<open>js/\<close>), the public site under
  \<^verbatim>\<open>src/web/js\<close>, and the helpers both share under \<^verbatim>\<open>src/packages/renop-ui/js\<close>. They talk to the server by
  \<^verbatim>\<open>fetch\<close> and \<^verbatim>\<open>XMLHttpRequest\<close>, keep their state in module variables, and interleave at every \<^verbatim>\<open>await\<close>.

  \<^bold>\<open>Modelling.\<close> Pure functions are HOL functions with the source's names. Code with await points is a record of its state,
  unfinished calls included, and a function \<open>step :: 's \<Rightarrow> 'e \<Rightarrow> 's option\<close> in which one event is one uninterrupted run of the event
  loop; the order of events, the answers of the server, timers and user actions are arbitrary, so a theorem over
  \<^const>\<open>run_events\<close> holds for every interleaving. What the browser or a library computes (URL parsing, JSON, hashing, text decoding,
  collation, the native passkey prompt, translation in most components) is a parameter. A thrown error is \<^term>\<open>Inl\<close> of a sum, an optional
  value is an option. Strings are lists of the code units up to U+00FF; paths, connection strings and snippets are lists of
  16-bit code units. Numbers are exact integers; sizes stay below \<^verbatim>\<open>2^53\<close>.

  \<^bold>\<open>Library.\<close> \<^verbatim>\<open>Js_Prelude\<close> holds the string, array, number, header and promise operations. \<^verbatim>\<open>Event_Machine\<close> holds
  runs and reachability and the interfaces \<^verbatim>\<open>machine_invariant\<close>, \<^verbatim>\<open>machine_measure\<close> and \<^verbatim>\<open>machine_refinement\<close>, which
  every stateful component interprets on its own step function, and the bookkeeping of numbered unfinished calls.

  \<^bold>\<open>Components.\<close>
  \<^item> Uploads (\<^verbatim>\<open>js/chunked-upload.js\<close>): \<^verbatim>\<open>Upload_Pool\<close> has the size policy, the chunk table and the pool of workers with
    their retries; the pool delivers every chunk or reports an error, never sends one chunk twice at a time, and stops.
    \<^verbatim>\<open>Upload_Session\<close> has the session around it: success means that the server has every chunk and confirmed, failure
    discards the session. It uses the pool through its invariant. \<^verbatim>\<open>Upload_Batch\<close> (\<^verbatim>\<open>js/browser/upload.js\<close>) has the upload window
    of a directory: selection, policy, space check and the batch, which deals with every file once and sends signatures last.
  \<^item> Addresses: \<^verbatim>\<open>Uri_Codec\<close> (\<^verbatim>\<open>js/browser/utils.js\<close>, \<^verbatim>\<open>js/profile-links.js\<close>) has \<^verbatim>\<open>encodeURIComponent\<close> and
    \<^verbatim>\<open>decodeURIComponent\<close> over UTF-8 and the path functions, with their round trips. \<^verbatim>\<open>Login_Route\<close> (\<^verbatim>\<open>js/login-route.js\<close>,
    \<^verbatim>\<open>js/protected-route.js\<close>) has the return path of a login, which stays local. \<^verbatim>\<open>Site_Router\<close> (\<^verbatim>\<open>web/js/router.js\<close>,
    \<^verbatim>\<open>web/js/lib/doc-routes.js\<close>) has the router of the site, which refines an abstract router that shows its latest target.
  \<^item> Requests: \<^verbatim>\<open>Captcha\<close> (\<^verbatim>\<open>js/captcha.js\<close>) has the widget of a challenge, the guards of its proof and the single replay
    of a refused request; \<^verbatim>\<open>Api_Client\<close> (\<^verbatim>\<open>js/api.js\<close>) builds on it and has the request defaults, the logout boundary and the
    protobuf requests. \<^verbatim>\<open>Backend_Availability\<close> (\<^verbatim>\<open>js/backend-availability.js\<close>) has the monitor that shows the offline overlay.
    \<^verbatim>\<open>Response_Errors\<close> (\<^verbatim>\<open>js/response-errors.js\<close> and the tables of error codes) turns a failed response into a registered message.
  \<^item> Languages: \<^verbatim>\<open>Translation\<close> (\<^verbatim>\<open>renop-ui/js/i18n-util.js\<close>, \<^verbatim>\<open>js/i18n.js\<close>) has locale matching, interpolation, key lookup and the known
    backend phrases; \<^verbatim>\<open>Language_State\<close> has concurrent language changes and the queue of document roots that wait for
    translation; \<^verbatim>\<open>Account_Language\<close> (\<^verbatim>\<open>js/account-language.js\<close>) keeps the choice in step with the account.
  \<^item> Accounts: \<^verbatim>\<open>Password_Strength\<close> (\<^verbatim>\<open>js/password-strength.js\<close>), \<^verbatim>\<open>Passkey\<close> (\<^verbatim>\<open>js/fido-utils.js\<close>) and \<^verbatim>\<open>Mfa_Login\<close>
    (\<^verbatim>\<open>js/mfa-login.js\<close>). \<^verbatim>\<open>Profile_Cache\<close> (\<^verbatim>\<open>js/user-profiles.js\<close>) has the shared profile cache, which stays bounded and
    never keeps an answer of a former session, its batched requests, which are answered while the session lasts, and the profile routes.
    \<^verbatim>\<open>Auth_Session\<close> (\<^verbatim>\<open>js/auth.js\<close>) has the session caches, the account controls, restored sessions, logins, the logout and the
    navigation profile: caches and page agree, a logout is final, and only the current passkey attempt signs in. It uses
    \<^verbatim>\<open>Profile_Cache\<close> for names, \<^verbatim>\<open>Login_Route\<close> to leave the login page and \<^verbatim>\<open>Passkey\<close> for messages. \<^verbatim>\<open>Legal_Consent\<close> (\<^verbatim>\<open>js/legal-response.js\<close>,
    \<^verbatim>\<open>js/legal-consent.js\<close>, \<^verbatim>\<open>js/cookie-consent.js\<close>, \<^verbatim>\<open>js/cookie-preferences.js\<close>) has the agreement that logins and registrations
    ask for and the cookie categories that \<^verbatim>\<open>Captcha\<close> asks for: consent is explicit, current and tied to one revision of the policy.
    \<^verbatim>\<open>Registration\<close> (\<^verbatim>\<open>js/registration.js\<close>, \<^verbatim>\<open>js/mail-status.js\<close>) has the registration page with its availability, the delivery of the
    email code and the submission, on the password policy and the consent above.
  \<^item> Updates: \<^verbatim>\<open>Official_Releases\<close> (\<^verbatim>\<open>web/js/lib/official.js\<close>) chooses the package of a platform, \<^verbatim>\<open>Update_Package\<close>
    (\<^verbatim>\<open>web/js/lib/update-package.js\<close>, its worker and archive writer) downloads it in ranges, checks and repackages it.
  \<^item> Administration: \<^verbatim>\<open>Database_Dsn\<close> (\<^verbatim>\<open>js/settings/database-dsn.js\<close>) parses and prints connection strings;
    \<^verbatim>\<open>Repository_Formats\<close> (\<^verbatim>\<open>js/repository-formats.js\<close>, \<^verbatim>\<open>js/repository-list.js\<close>) has the format catalog and the list of names;
    \<^verbatim>\<open>Snippets\<close> (\<^verbatim>\<open>js/browser/snippets.js\<close>) has the usage snippets, whose builders meet one contract with the catalog (the locale
    \<^verbatim>\<open>snippet_builder\<close>); \<^verbatim>\<open>Pagination\<close> (\<^verbatim>\<open>renop-ui/js/pagination.js\<close>) refines the list of pages;
    \<^verbatim>\<open>Live_Search\<close> (\<^verbatim>\<open>js/browser/search.js\<close>, \<^verbatim>\<open>js/browser/user-suggestions.js\<close>) has the search fields that answer while the user
    types: what they show answers what the field holds. \<^verbatim>\<open>Markdown\<close> (\<^verbatim>\<open>js/markdown.js\<close>) has the allowlist that descriptions and legal
    texts pass: the loop over the tree equals a recursive sanitizer, whose output keeps the contract. \<^verbatim>\<open>Settings_Drafts\<close>
    (\<^verbatim>\<open>js/settings.js\<close>) has the drafts of the settings pages: unsaved edits survive navigation and concurrent answers, and saves stay
    within the account they were made in. \<^verbatim>\<open>Message_Center\<close> (\<^verbatim>\<open>js/messages.js\<close>) has the message list with its pages, unread count and
    operations: pages are merged without repetition, one request at a time.

  \<^bold>\<open>Bounds.\<close> Loops over lists and strings are total recursive functions with their measures; no fuel is used. Termination of the
  pool is proved by a measure on the work left; the monitor, the upload session and the router are shown never to be stuck while
  something is unfinished.

  \<^bold>\<open>Not modelled.\<close> The Go server, generated protobuf classes and message catalogs; DOM construction, focus, animation and
  layout; the pages that only place markup around server answers (repository browsers, profile, the forms of the settings, users, tickets,
  dashboards, the site's pages). Within a modelled file the notes of its theory say what is left out.
\<close>

end
